(* ===== verification/Prelude.thy ===== *)
theory Prelude
  imports Main "HOL-Library.AList"
begin

text \<open>
  The vocabulary the component theories share: Python strings as character lists with the
  string methods the code uses, dynamically typed values, dictionaries that keep their insertion
  order as association lists, results of functions that may raise, and the collections of
  simplification rules the component proofs are built on.

  Strings are ASCII: the code handles identifiers, queue names and protocol fields, and a string
  with a code point above 127 is outside the model (\<open>str.upper\<close> and
  \<open>str.isdigit\<close> have Unicode tables that are not reproduced here).
\<close>

named_theorems str_simps
named_theorems result_simps
named_theorems inv_intros

subsection \<open>Results\<close>

text \<open>
  A function that may raise returns \<open>'e + 'a\<close>: \<open>Inl\<close> is the exception, \<open>Inr\<close> the value.
\<close>

type_synonym ('e, 'a) result = "'e + 'a"

definition bind_result :: "'e + 'a \<Rightarrow> ('a \<Rightarrow> 'e + 'b) \<Rightarrow> 'e + 'b" where
  "bind_result r f = (case r of Inl e \<Rightarrow> Inl e | Inr a \<Rightarrow> f a)"

definition is_ok :: "'e + 'a \<Rightarrow> bool" where
  "is_ok r = (case r of Inl _ \<Rightarrow> False | Inr _ \<Rightarrow> True)"

lemma bind_result_simps [simp, result_simps]:
  "bind_result (Inl e) f = Inl e"
  "bind_result (Inr a) f = f a"
  by (simp_all add: bind_result_def)

lemma bind_result_eq_Inr [result_simps]:
  "bind_result r f = Inr b \<longleftrightarrow> (\<exists>a. r = Inr a \<and> f a = Inr b)"
  by (cases r) simp_all

lemma bind_resultE:
  assumes "bind_result r f = Inr b"
  obtains a where "r = Inr a" and "f a = Inr b"
  using assms by (auto simp: bind_result_eq_Inr)

lemma is_ok_simps [simp, result_simps]: "is_ok (Inr a)" "\<not> is_ok (Inl e)"
  by (simp_all add: is_ok_def)

lemma is_ok_iff: "is_ok r \<longleftrightarrow> (\<exists>a. r = Inr a)"
  by (cases r) simp_all

subsection \<open>Characters and strings\<close>

definition ord :: "char \<Rightarrow> nat" where
  "ord c = of_char c"

text \<open>\<open>str.isspace\<close> on ASCII, which is also the class \<open>\s\<close> of a \<open>str\<close> pattern.\<close>

definition is_space :: "char \<Rightarrow> bool" where
  "is_space c = (let n = ord c in (9 \<le> n \<and> n \<le> 13) \<or> (28 \<le> n \<and> n \<le> 32))"

definition is_digit :: "char \<Rightarrow> bool" where
  "is_digit c = (let n = ord c in 48 \<le> n \<and> n \<le> 57)"

definition is_upper :: "char \<Rightarrow> bool" where
  "is_upper c = (let n = ord c in 65 \<le> n \<and> n \<le> 90)"

definition is_lower :: "char \<Rightarrow> bool" where
  "is_lower c = (let n = ord c in 97 \<le> n \<and> n \<le> 122)"

definition upper_char :: "char \<Rightarrow> char" where
  "upper_char c = (if is_lower c then char_of (ord c - 32) else c)"

definition lower_char :: "char \<Rightarrow> char" where
  "lower_char c = (if is_upper c then char_of (ord c + 32) else c)"

definition upper :: "string \<Rightarrow> string" where
  "upper s = map upper_char s"

definition lower :: "string \<Rightarrow> string" where
  "lower s = map lower_char s"

definition lstrip_while :: "(char \<Rightarrow> bool) \<Rightarrow> string \<Rightarrow> string" where
  "lstrip_while p s = dropWhile p s"

definition rstrip_while :: "(char \<Rightarrow> bool) \<Rightarrow> string \<Rightarrow> string" where
  "rstrip_while p s = rev (dropWhile p (rev s))"

definition strip :: "string \<Rightarrow> string" where
  "strip s = rstrip_while is_space (lstrip_while is_space s)"

definition startswith :: "string \<Rightarrow> string \<Rightarrow> bool" where
  "startswith s p = (take (length p) s = p)"

definition endswith :: "string \<Rightarrow> string \<Rightarrow> bool" where
  "endswith s p = (length p \<le> length s \<and> drop (length s - length p) s = p)"

definition removeprefix :: "string \<Rightarrow> string \<Rightarrow> string" where
  "removeprefix s p = (if startswith s p then drop (length p) s else s)"

text \<open>\<open>str.split(sep)\<close> with a one-character separator: never the empty list.\<close>

fun split_on :: "char \<Rightarrow> string \<Rightarrow> string list" where
  "split_on sep [] = [[]]"
| "split_on sep (c # cs) =
     (if c = sep then [] # split_on sep cs
      else (case split_on sep cs of [] \<Rightarrow> [[c]] | p # ps \<Rightarrow> (c # p) # ps))"

text \<open>\<open>sep.join(parts)\<close>.\<close>

fun join_with :: "string \<Rightarrow> string list \<Rightarrow> string" where
  "join_with sep [] = []"
| "join_with sep [p] = p"
| "join_with sep (p # q # ps) = p @ sep @ join_with sep (q # ps)"

text \<open>Comparison of strings by code points (\<open><\<close> on \<open>str\<close>).\<close>

fun str_less :: "string \<Rightarrow> string \<Rightarrow> bool" where
  "str_less [] [] = False"
| "str_less [] (y # ys) = True"
| "str_less (x # xs) [] = False"
| "str_less (x # xs) (y # ys) = (ord x < ord y \<or> (x = y \<and> str_less xs ys))"

subsection \<open>Decimal integers\<close>

definition digit_char :: "nat \<Rightarrow> char" where
  "digit_char d = char_of (48 + d)"

definition digit_value :: "char \<Rightarrow> nat" where
  "digit_value c = ord c - 48"

text \<open>\<open>str(n)\<close> of a non-negative and of any integer.\<close>

fun nat_to_str :: "nat \<Rightarrow> string" where
  "nat_to_str n = (if n < 10 then [digit_char n] else nat_to_str (n div 10) @ [digit_char (n mod 10)])"

declare nat_to_str.simps [simp del]

definition int_to_str :: "int \<Rightarrow> string" where
  "int_to_str i = (if i < 0 then ''-'' @ nat_to_str (nat (- i)) else nat_to_str (nat i))"

text \<open>\<open>int(s)\<close> of a non-empty string of digits.\<close>

definition digits_to_nat :: "string \<Rightarrow> nat" where
  "digits_to_nat s = foldl (\<lambda>v c. 10 * v + digit_value c) 0 s"

text \<open>\<open>str.isdigit()\<close>.\<close>

definition all_digits :: "string \<Rightarrow> bool" where
  "all_digits s = (s \<noteq> [] \<and> list_all is_digit s)"

text \<open>\<open>s.rjust(width, ch)\<close>, and the format \<open>{n:0wd}\<close> of a non-negative integer.\<close>

definition rjust :: "nat \<Rightarrow> char \<Rightarrow> string \<Rightarrow> string" where
  "rjust w c s = replicate (w - length s) c @ s"

definition zero_pad :: "nat \<Rightarrow> nat \<Rightarrow> string" where
  "zero_pad w n = rjust w (CHR ''0'') (nat_to_str n)"

subsection \<open>Values of unknown type\<close>

text \<open>
  Values typed \<open>Any\<close>: the code looks at them with \<open>isinstance\<close>. \<open>PObj\<close> is any other object,
  a true value.
\<close>

datatype pyval =
    PNone
  | PBool bool
  | PInt int
  | PStr string
  | PTuple "pyval list"
  | PList "pyval list"
  | PDict "(string \<times> pyval) list"
  | PObj string

fun truthy :: "pyval \<Rightarrow> bool" where
  "truthy PNone = False"
| "truthy (PBool b) = b"
| "truthy (PInt i) = (i \<noteq> 0)"
| "truthy (PStr s) = (s \<noteq> [])"
| "truthy (PTuple xs) = (xs \<noteq> [])"
| "truthy (PList xs) = (xs \<noteq> [])"
| "truthy (PDict kvs) = (kvs \<noteq> [])"
| "truthy (PObj _) = True"

text \<open>\<open>d.get(key)\<close>, which is \<open>None\<close> for a missing key.\<close>

definition dict_get :: "(string \<times> pyval) list \<Rightarrow> string \<Rightarrow> pyval" where
  "dict_get d k = (case map_of d k of None \<Rightarrow> PNone | Some v \<Rightarrow> v)"

text \<open>The truth value of an optional string.\<close>

definition str_given :: "string option \<Rightarrow> bool" where
  "str_given x = (case x of None \<Rightarrow> False | Some s \<Rightarrow> s \<noteq> [])"

text \<open>The first value a search loop returns.\<close>

fun first_some :: "('a \<Rightarrow> 'b option) \<Rightarrow> 'a list \<Rightarrow> 'b option" where
  "first_some f [] = None"
| "first_some f (x # xs) = (case f x of None \<Rightarrow> first_some f xs | Some y \<Rightarrow> Some y)"

text \<open>\<open>urllib.parse.quote(s, safe='')\<close>: every character but the unreserved ones is escaped.\<close>

definition unreserved :: "char \<Rightarrow> bool" where
  "unreserved c = (is_digit c \<or> is_upper c \<or> is_lower c \<or> c \<in> {CHR ''_'', CHR ''.'', CHR ''-'', CHR ''~''})"

definition hex_digit :: "nat \<Rightarrow> char" where
  "hex_digit d = (if d < 10 then char_of (48 + d) else char_of (55 + d))"

definition quote :: "string \<Rightarrow> string" where
  "quote s = concat (map (\<lambda>c. if unreserved c then [c]
     else [CHR 0x25, hex_digit (ord c div 16), hex_digit (ord c mod 16)]) s)"

subsection \<open>Lemmas on strings\<close>

lemma first_some_Some: "first_some f xs = Some y \<Longrightarrow> \<exists>x\<in>set xs. f x = Some y"
  by (induction xs) (auto split: option.splits)

lemma quote_id: "list_all unreserved s \<Longrightarrow> quote s = s"
  unfolding quote_def by (induction s) simp_all

lemma ord_inject [str_simps]: "ord c = ord d \<longleftrightarrow> c = d"
  by (simp add: ord_def)

lemma ord_bound: "ord c < 256"
  by (simp add: ord_def)

lemma ord_char_of: "n < 256 \<Longrightarrow> ord (char_of n) = n"
  by (simp add: ord_def)

lemma length_upper [simp, str_simps]: "length (upper s) = length s"
  by (simp add: upper_def)

lemma upper_append [str_simps]: "upper (s @ t) = upper s @ upper t"
  by (simp add: upper_def)

lemma upper_char_not_lower: "\<not> is_lower (upper_char c)"
  using ord_bound [of c] by (auto simp: upper_char_def is_lower_def Let_def ord_char_of)

lemma upper_char_id [str_simps]: "\<not> is_lower c \<Longrightarrow> upper_char c = c"
  by (simp add: upper_char_def)

lemma upper_char_idem [simp, str_simps]: "upper_char (upper_char c) = upper_char c"
  by (rule upper_char_id) (rule upper_char_not_lower)

lemma upper_idem [simp, str_simps]: "upper (upper s) = upper s"
  by (simp add: upper_def)

lemma is_space_upper_char [simp, str_simps]: "is_space (upper_char c) \<longleftrightarrow> is_space c"
  using ord_bound [of c]
  by (auto simp: upper_char_def is_lower_def is_space_def Let_def ord_char_of)

lemma upper_id: "list_all (\<lambda>c. \<not> is_lower c) s \<Longrightarrow> upper s = s"
  unfolding upper_def by (induction s) (auto simp: upper_char_id)

lemma filter_upper: "filter (\<lambda>c. \<not> is_space c) (upper s) = upper (filter (\<lambda>c. \<not> is_space c) s)"
  unfolding upper_def by (induction s) simp_all

lemma strip_id: "list_all (\<lambda>c. \<not> is_space c) s \<Longrightarrow> strip s = s"
proof (cases s rule: rev_cases)
  case Nil
  then show ?thesis by (simp add: strip_def lstrip_while_def rstrip_while_def)
next
  case (snoc xs x)
  assume h: "list_all (\<lambda>c. \<not> is_space c) s"
  have "dropWhile is_space s = s"
    using h by (cases s) auto
  moreover have "dropWhile is_space (rev s) = rev s"
    using h snoc by simp
  ultimately show ?thesis
    by (simp add: strip_def lstrip_while_def rstrip_while_def)
qed

lemma dropWhile_map_upper: "dropWhile is_space (map upper_char s) = map upper_char (dropWhile is_space s)"
  by (induction s) simp_all

lemma strip_upper: "strip (upper s) = upper (strip s)"
  by (simp add: strip_def lstrip_while_def rstrip_while_def upper_def rev_map dropWhile_map_upper)

lemma strip_strip [simp]: "strip (strip s) = strip s"
proof -
  have ends: "strip t = t" if "t = [] \<or> \<not> is_space (hd t) \<and> \<not> is_space (last t)" for t
  proof -
    have "dropWhile is_space t = t" using that by (cases t) auto
    moreover have "dropWhile is_space (rev t) = rev t" using that by (cases t rule: rev_cases) auto
    ultimately show ?thesis by (simp add: strip_def lstrip_while_def rstrip_while_def)
  qed
  let ?u = "dropWhile is_space s"
  have u: "?u = [] \<or> \<not> is_space (hd ?u)" using hd_dropWhile [of is_space s] by blast
  let ?v = "rev (dropWhile is_space (rev ?u))"
  have "?v = [] \<or> \<not> is_space (last ?v)"
    using hd_dropWhile [of is_space "rev ?u"] by (auto simp: last_rev)
  moreover have "?v = [] \<or> hd ?v = hd ?u"
  proof -
    have "?u = ?v @ rev (takeWhile is_space (rev ?u))"
      by (metis rev_append rev_rev_ident takeWhile_dropWhile_id)
    then show ?thesis by (metis hd_append2)
  qed
  ultimately have "?v = [] \<or> \<not> is_space (hd ?v) \<and> \<not> is_space (last ?v)"
    using u by (metis dropWhile.simps(1) rev.simps(1))
  from ends [OF this] show ?thesis by (simp add: strip_def lstrip_while_def rstrip_while_def)
qed

lemma upper_strip_idem [simp]: "upper (strip (upper (strip s))) = upper (strip s)"
  by (simp add: strip_upper)

lemma set_strip: "set (strip s) \<subseteq> set s"
  unfolding strip_def lstrip_while_def rstrip_while_def
  by (metis set_dropWhileD set_rev subsetI)

lemma split_on_not_Nil [simp]: "split_on sep s \<noteq> []"
  by (cases s) (auto split: list.splits)

lemma split_on_length: "0 < length (split_on sep s)"
  by simp

lemma join_split [simp, str_simps]: "join_with [sep] (split_on sep s) = s"
proof (induction s)
  case Nil
  then show ?case by simp
next
  case (Cons c s)
  show ?case
  proof (cases "split_on sep s")
    case Nil
    then show ?thesis by simp
  next
    case (Cons p ps)
    with Cons.IH show ?thesis by (cases ps) auto
  qed
qed

lemma split_on_no_sep: "sep \<notin> set s \<Longrightarrow> split_on sep s = [s]"
  by (induction s) auto

lemma split_on_append:
  "sep \<notin> set p \<Longrightarrow> split_on sep (p @ sep # s) = p # split_on sep s"
  by (induction p) auto

lemma split_join [str_simps]:
  "ps \<noteq> [] \<Longrightarrow> (\<And>p. p \<in> set ps \<Longrightarrow> sep \<notin> set p) \<Longrightarrow> split_on sep (join_with [sep] ps) = ps"
  by (induction "[sep]" ps rule: join_with.induct) (auto simp: split_on_no_sep split_on_append)

lemma split_on_parts: "p \<in> set (split_on sep s) \<Longrightarrow> sep \<notin> set p"
proof (induction s arbitrary: p)
  case Nil
  then show ?case by simp
next
  case (Cons c s)
  then show ?case
    by (cases "split_on sep s") (auto split: if_splits)
qed

lemma split_on_chars: "p \<in> set (split_on sep s) \<Longrightarrow> set p \<subseteq> set s"
proof (induction s arbitrary: p)
  case Nil
  then show ?case by simp
next
  case (Cons c s)
  then show ?case
    by (cases "split_on sep s") (fastforce split: if_splits)+
qed

lemma set_join: "c \<in> set (join_with sep ps) \<Longrightarrow> c \<in> set sep \<or> (\<exists>p\<in>set ps. c \<in> set p)"
  by (induction sep ps rule: join_with.induct) auto

lemma startswith_append [simp]: "startswith (p @ s) p"
  by (simp add: startswith_def)

lemma startswith_iff: "startswith s p \<longleftrightarrow> (\<exists>t. s = p @ t)"
  unfolding startswith_def by (metis append_eq_conv_conj append_take_drop_id)

lemma removeprefix_append [simp]: "removeprefix (p @ s) p = s"
  by (simp add: removeprefix_def)

subsection \<open>Lemmas on decimal integers\<close>

lemma digit_char_props: "d < 10 \<Longrightarrow> is_digit (digit_char d) \<and> digit_value (digit_char d) = d"
  by (simp add: is_digit_def digit_char_def digit_value_def ord_char_of Let_def)

lemma nat_to_str_digits: "list_all is_digit (nat_to_str n)"
proof (induction n rule: nat_to_str.induct)
  case (1 n)
  then show ?case
    by (subst nat_to_str.simps) (auto simp: digit_char_props)
qed

lemma nat_to_str_not_Nil [simp]: "nat_to_str n \<noteq> []"
  by (subst nat_to_str.simps) simp

lemma all_digits_nat_to_str [simp]: "all_digits (nat_to_str n)"
  by (simp add: all_digits_def nat_to_str_digits)

lemma digits_to_nat_append: "digits_to_nat (s @ [c]) = 10 * digits_to_nat s + digit_value c"
  by (simp add: digits_to_nat_def)

lemma digits_to_nat_nat_to_str [simp, str_simps]: "digits_to_nat (nat_to_str n) = n"
proof (induction n rule: nat_to_str.induct)
  case (1 n)
  show ?case
  proof (cases "n < 10")
    case True
    then show ?thesis
      by (subst nat_to_str.simps) (simp add: digits_to_nat_def digit_char_props)
  next
    case False
    with 1 have "digits_to_nat (nat_to_str (n div 10)) = n div 10" by simp
    with False show ?thesis
      by (subst nat_to_str.simps) (simp add: digits_to_nat_append digit_char_props)
  qed
qed

lemma digits_to_nat_zeros: "digits_to_nat (replicate k (CHR ''0'') @ s) = digits_to_nat s"
  by (induction k) (simp_all add: digits_to_nat_def digit_value_def ord_def)

lemma is_digit_zero [simp]: "is_digit (CHR ''0'')"
  by (simp add: is_digit_def ord_def)

lemma zero_pad_props:
  "all_digits (zero_pad w n)" "digits_to_nat (zero_pad w n) = n"
  using nat_to_str_digits [of n]
  by (auto simp: zero_pad_def rjust_def all_digits_def digits_to_nat_zeros list_all_iff)

lemma nat_to_str_inject: "nat_to_str m = nat_to_str n \<longleftrightarrow> m = n"
  by (metis digits_to_nat_nat_to_str)

lemma nat_to_str_length:
  "0 < k \<Longrightarrow> n < 10 ^ k \<Longrightarrow> length (nat_to_str n) \<le> k"
proof (induction n arbitrary: k rule: nat_to_str.induct)
  case (1 n)
  show ?case
  proof (cases "n < 10")
    case True
    with \<open>0 < k\<close> show ?thesis by (subst nat_to_str.simps) simp
  next
    case False
    obtain j where k: "k = Suc j" using \<open>0 < k\<close> by (cases k) auto
    with "1.prems" have lt: "n div 10 < 10 ^ j" by simp
    have "j \<noteq> 0" using False k "1.prems"(2) by (cases j) auto
    with "1.IH" [OF False _ lt] have "length (nat_to_str (n div 10)) \<le> j" by simp
    with False k show ?thesis by (subst nat_to_str.simps) simp
  qed
qed

subsection \<open>Lemmas on dictionaries\<close>

lemma dict_get_simps [simp]:
  "dict_get [] k = PNone"
  "dict_get ((k', v) # d) k = (if k = k' then v else dict_get d k)"
  by (simp_all add: dict_get_def)

lemma map_of_alist_update [simp]: "map_of (AList.update k v d) = (map_of d)(k \<mapsto> v)"
  by (simp add: update_conv')

lemma map_of_alist_delete [simp]: "map_of (AList.delete k d) = (map_of d)(k := None)"
  by (simp add: delete_conv')

lemma map_upd_dom_Some: "m k = Some v \<Longrightarrow> k \<in> dom m"
  by (simp add: domIff)

end
