(* ===== verification/Base64.thy ===== *)
theory Base64
  imports Prelude
begin

text \<open>
  Base64 as the certificate authority uses it (\<open>ca-server/app/acme/jwk.py\<close>, \<open>base64url_encode\<close> and
  \<open>base64url_decode\<close>): the URL-safe alphabet without padding, and the decoder of the standard library, which skips
  characters outside the alphabet and stops at a complete padding. Bytes are characters: both have eight bits.
\<close>

type_synonym bytes = string

subsection \<open>The standard library\<close>

definition b64_char :: "nat \<Rightarrow> char" where
  "b64_char n = (if n < 26 then char_of (65 + n) else if n < 52 then char_of (71 + n) else if n < 62 then char_of (n - 4)
     else if n = 62 then CHR ''-'' else CHR ''_'')"

text \<open>\<open>urlsafe_b64decode\<close> replaces \<open>-\<close> and \<open>_\<close> by \<open>+\<close> and \<open>/\<close>, so both spellings are read.\<close>

definition b64_value :: "char \<Rightarrow> nat option" where
  "b64_value c = (if is_upper c then Some (ord c - 65) else if is_lower c then Some (ord c - 71)
     else if is_digit c then Some (ord c + 4)
     else if c = CHR ''-'' \<or> c = CHR ''+'' then Some 62 else if c = CHR ''_'' \<or> c = CHR ''/'' then Some 63 else None)"

fun b64_chars :: "bytes \<Rightarrow> string" where
  "b64_chars [] = []"
| "b64_chars [a] = [b64_char (ord a div 4), b64_char (ord a mod 4 * 16)]"
| "b64_chars [a, b] = [b64_char (ord a div 4), b64_char (ord a mod 4 * 16 + ord b div 16), b64_char (ord b mod 16 * 4)]"
| "b64_chars (a # b # c # bs) = b64_char (ord a div 4) # b64_char (ord a mod 4 * 16 + ord b div 16)
     # b64_char (ord b mod 16 * 4 + ord c div 64) # b64_char (ord c mod 64) # b64_chars bs"

definition b64_padding :: "nat \<Rightarrow> string" where
  "b64_padding n = replicate ((4 - n mod 4) mod 4) (CHR ''='')"

definition urlsafe_b64encode :: "bytes \<Rightarrow> string" where
  "urlsafe_b64encode bs = (let s = b64_chars bs in s @ b64_padding (length s))"

text \<open>The loop of \<open>binascii.a2b_base64\<close>: the position in a group of four, the bits left over, the padding seen.\<close>

fun a2b_base64 :: "nat \<Rightarrow> nat \<Rightarrow> nat \<Rightarrow> string \<Rightarrow> bytes option" where
  "a2b_base64 q l p [] = (if q = 0 then Some [] else None)"
| "a2b_base64 q l p (c # cs) =
     (if c = CHR ''='' then
        (if q \<ge> 2 then (if q + Suc p \<ge> 4 then Some [] else a2b_base64 q l (Suc p) cs) else a2b_base64 q l p cs)
      else case b64_value c of
        None \<Rightarrow> a2b_base64 q l p cs
      | Some v \<Rightarrow>
          (if q = 0 then a2b_base64 1 v 0 cs
           else if q = 1 then map_option (Cons (char_of (l * 4 + v div 16))) (a2b_base64 2 (v mod 16) 0 cs)
           else if q = 2 then map_option (Cons (char_of (l * 16 + v div 4))) (a2b_base64 3 (v mod 4) 0 cs)
           else map_option (Cons (char_of (l * 64 + v))) (a2b_base64 0 0 0 cs)))"

definition urlsafe_b64decode :: "string \<Rightarrow> bytes option" where
  "urlsafe_b64decode s = (if list_all (\<lambda>c. ord c < 128) s then a2b_base64 0 0 0 s else None)"

subsection \<open>The helpers of the ACME server\<close>

definition base64url_encode :: "bytes \<Rightarrow> string" where
  "base64url_encode data = rstrip_while (\<lambda>c. c = CHR ''='') (urlsafe_b64encode data)"

definition base64url_decode_bytes :: "string \<Rightarrow> bytes option" where
  "base64url_decode_bytes data = urlsafe_b64decode
     (let padding_needed = 4 - length data mod 4 in if padding_needed \<noteq> 4 then data @ replicate padding_needed (CHR ''='') else data)"

subsection \<open>Decoding undoes encoding\<close>

lemma b64_char_value: "n < 64 \<Longrightarrow> b64_value (b64_char n) = Some n"
  by (auto simp: b64_char_def b64_value_def is_upper_def is_lower_def is_digit_def Let_def ord_char_of ord_def)

lemma b64_char_ascii: "n < 64 \<Longrightarrow> ord (b64_char n) < 128 \<and> b64_char n \<noteq> CHR ''=''"
proof -
  assume n: "n < 64"
  then have "b64_value (b64_char n) \<noteq> None" by (simp add: b64_char_value)
  moreover have "b64_value (CHR ''='') = None" by (simp add: b64_value_def is_upper_def is_lower_def is_digit_def ord_def Let_def)
  ultimately have "b64_char n \<noteq> CHR ''=''" by metis
  moreover have "ord (b64_char n) < 128" using n by (auto simp: b64_char_def ord_char_of ord_def)
  ultimately show ?thesis by blast
qed

lemma b64_groups:
  "ord a div 4 < 64" "ord a mod 4 * 16 < 64" "ord a mod 4 * 16 + ord b div 16 < 64" "ord b mod 16 * 4 < 64"
  "ord b mod 16 * 4 + ord c div 64 < 64" "ord c mod 64 < 64"
  using ord_bound [of a] ord_bound [of b] ord_bound [of c] by linarith+

lemma b64_chars_ascii: "list_all (\<lambda>c. ord c < 128 \<and> c \<noteq> CHR ''='') (b64_chars bs)"
  by (induction bs rule: b64_chars.induct) (auto simp: b64_char_ascii b64_groups)

lemma char_of_ord [simp]: "char_of (ord c) = c"
  by (simp add: ord_def)

lemma a2b_first [simp]: "n < 64 \<Longrightarrow> a2b_base64 0 l p (b64_char n # cs) = a2b_base64 1 n 0 cs"
  by (simp add: b64_char_value b64_char_ascii)

lemma a2b_second [simp]: "n < 64 \<Longrightarrow> a2b_base64 (Suc 0) l p (b64_char n # cs)
    = map_option (Cons (char_of (l * 4 + n div 16))) (a2b_base64 2 (n mod 16) 0 cs)"
  by (simp add: b64_char_value b64_char_ascii)

lemma a2b_third [simp]: "n < 64 \<Longrightarrow> a2b_base64 2 l p (b64_char n # cs)
    = map_option (Cons (char_of (l * 16 + n div 4))) (a2b_base64 3 (n mod 4) 0 cs)"
  by (simp add: b64_char_value b64_char_ascii)

lemma a2b_fourth [simp]: "n < 64 \<Longrightarrow> a2b_base64 3 l p (b64_char n # cs)
    = map_option (Cons (char_of (l * 64 + n))) (a2b_base64 0 0 0 cs)"
  by (simp add: b64_char_value b64_char_ascii)

lemma byte_parts [simp]:
  "ord b div 16 div 16 = 0" "ord b div 16 mod 16 = ord b div 16" "ord c div 64 div 4 = 0" "ord c div 64 mod 4 = ord c div 64"
proof -
  have "ord b div 16 < 16" "ord c div 64 < 4" using ord_bound [of b] ord_bound [of c] by linarith+
  then show "ord b div 16 div 16 = 0" "ord b div 16 mod 16 = ord b div 16" "ord c div 64 div 4 = 0"
    "ord c div 64 mod 4 = ord c div 64"
    by (simp_all only: div_less mod_less)
qed

lemma b64_padding_two: "b64_padding (Suc (Suc 0)) = ''==''"
  by code_simp

lemma b64_padding_three: "b64_padding (Suc (Suc (Suc 0))) = ''=''"
  by code_simp

lemma b64_padding_four: "b64_padding (Suc (Suc (Suc (Suc n)))) = b64_padding n"
  by (simp add: b64_padding_def)

lemmas b64_padding_short = b64_padding_two b64_padding_three b64_padding_four

lemma a2b_padded: "a2b_base64 2 l 0 ''=='' = Some []" "a2b_base64 3 l 0 ''='' = Some []"
  by simp_all

lemma a2b_encoded: "a2b_base64 0 l p (b64_chars bs @ b64_padding (length (b64_chars bs))) = Some bs"
proof (induction bs arbitrary: l p rule: b64_chars.induct)
  case 1
  then show ?case by (simp add: b64_padding_def)
next
  case (2 a)
  have "a2b_base64 0 l p (b64_chars [a] @ ''=='') = Some [a]"
    using a2b_padded by (simp add: b64_groups del: a2b_base64.simps)
  then show ?case by (simp add: b64_padding_short)
next
  case (3 a b)
  have "a2b_base64 0 l p (b64_chars [a, b] @ ''='') = Some [a, b]"
    using a2b_padded by (simp add: b64_groups del: a2b_base64.simps)
  then show ?case by (simp add: b64_padding_short)
next
  case (4 a b c bs)
  then show ?case by (simp add: b64_groups b64_padding_short del: a2b_base64.simps)
qed

lemma b64_chars_length: "length (b64_chars bs) mod 4 \<noteq> 1"
  by (induction bs rule: b64_chars.induct) simp_all

lemma base64url_encode_chars: "base64url_encode bs = b64_chars bs"
proof -
  have "\<forall>c \<in> set (b64_chars bs). c \<noteq> CHR ''=''" using b64_chars_ascii [of bs] by (auto simp: list_all_iff)
  then have "dropWhile (\<lambda>c. c = CHR ''='') (rev (b64_chars bs)) = rev (b64_chars bs)"
    by (cases "rev (b64_chars bs)") (auto dest: arg_cong [of _ _ set])
  moreover have "dropWhile (\<lambda>c. c = CHR ''='') (replicate n (CHR ''='') @ xs) = dropWhile (\<lambda>c. c = CHR ''='') xs" for n xs
    by (induction n) simp_all
  ultimately show ?thesis
    by (simp add: base64url_encode_def rstrip_while_def urlsafe_b64encode_def Let_def b64_padding_def)
qed

lemma padding_needed: "r < 4 \<Longrightarrow> (if 4 - r \<noteq> 4 then s @ replicate (4 - r) x else s) = s @ replicate ((4 - r) mod 4) x" for r :: nat
  by (cases "r = 0") auto

theorem base64url_roundtrip: "base64url_decode_bytes (base64url_encode bs) = Some bs"
proof -
  let ?s = "b64_chars bs"
  have "list_all (\<lambda>c. ord c < 128) ?s"
    by (rule list.pred_mono_strong [OF b64_chars_ascii]) simp
  moreover have "list_all (\<lambda>c. ord c < 128) (b64_padding (length ?s))"
    by (simp add: b64_padding_def list_all_iff ord_def)
  ultimately have "urlsafe_b64decode (?s @ b64_padding (length ?s)) = Some bs"
    by (simp add: urlsafe_b64decode_def a2b_encoded)
  moreover have "(if 4 - length ?s mod 4 \<noteq> 4 then ?s @ replicate (4 - length ?s mod 4) (CHR ''='') else ?s)
      = ?s @ b64_padding (length ?s)"
    unfolding b64_padding_def by (rule padding_needed) simp
  ultimately show ?thesis
    by (simp only: base64url_decode_bytes_def base64url_encode_chars Let_def)
qed

lemma base64url_encode_inject [simp]: "base64url_encode a = base64url_encode b \<longleftrightarrow> a = b"
  by (metis base64url_roundtrip option.inject)

lemma base64url_encode_Nil [simp]: "base64url_encode bs = [] \<longleftrightarrow> bs = []"
  by (cases bs rule: b64_chars.cases) (simp_all add: base64url_encode_chars)

end
