(* ===== verification/AcmeJwk.thy ===== *)
theory AcmeJwk
  imports Base64
begin

text \<open>
  JSON Web Keys of the ACME server (\<open>ca-server/app/acme/jwk.py\<close>): the public projection of a key, its thumbprint, the
  conversion between keys and JWKs, and the check of a signature. The cryptography library is a record of functions:
  SHA-256, HMAC, which numbers form a key, which signatures verify, and what \<open>json.loads\<close> makes of UTF-8 bytes.
\<close>

subsection \<open>Exceptions\<close>

text \<open>\<open>AcmeException\<close> with its status and error name, and any other exception of a handler.\<close>

datatype acme_exn = Acme nat string | Unhandled string

subsection \<open>The cryptography library\<close>

datatype curve = P256 | P384 | P521 | OtherCurve string

datatype public_key = RSAKey nat nat \<comment> \<open>modulus, exponent\<close> | ECKey curve nat nat | EdKey bytes | OtherKey string

datatype hash_alg = SHA256 | SHA384 | SHA512

record crypto =
  cr_json :: "bytes \<Rightarrow> pyval option"
  cr_sha256 :: "bytes \<Rightarrow> bytes"
  cr_hmac_sha256 :: "bytes \<Rightarrow> bytes \<Rightarrow> bytes"
  cr_rsa_numbers :: "nat \<Rightarrow> nat \<Rightarrow> bool"
  cr_ec_point :: "curve \<Rightarrow> nat \<Rightarrow> nat \<Rightarrow> bool"
  cr_verify_ed :: "bytes \<Rightarrow> bytes \<Rightarrow> bytes \<Rightarrow> bool"
  cr_verify_rsa :: "nat \<Rightarrow> nat \<Rightarrow> hash_alg \<Rightarrow> bytes \<Rightarrow> bytes \<Rightarrow> bool"
  cr_verify_ec :: "curve \<Rightarrow> nat \<Rightarrow> nat \<Rightarrow> hash_alg \<Rightarrow> nat \<Rightarrow> nat \<Rightarrow> bytes \<Rightarrow> bool"

subsection \<open>The public projection\<close>

type_synonym public_jwk = "(string \<times> string) list"

definition jwk_value :: "public_jwk \<Rightarrow> pyval" where
  "jwk_value p = PDict (map (\<lambda>(k, v). (k, PStr v)) p)"

definition base64url_decode :: "string \<Rightarrow> (acme_exn, bytes) result" where
  "base64url_decode data = (case base64url_decode_bytes data of None \<Rightarrow> Inl (Acme 400 ''MALFORMED'') | Some b \<Rightarrow> Inr b)"

definition require_string_field :: "(string \<times> pyval) list \<Rightarrow> string \<Rightarrow> (acme_exn, string) result" where
  "require_string_field jwk field = (case dict_get jwk field of
     PStr v \<Rightarrow> if v = [] then Inl (Acme 400 ''MALFORMED'') else Inr v
   | _ \<Rightarrow> Inl (Acme 400 ''MALFORMED''))"

definition reject_private_jwk_material :: "(string \<times> pyval) list \<Rightarrow> string list \<Rightarrow> (acme_exn, unit) result" where
  "reject_private_jwk_material jwk private_fields =
     (if list_ex (\<lambda>field. field \<in> fst ` set jwk) private_fields then Inl (Acme 400 ''MALFORMED'') else Inr ())"

definition rsa_projection :: "(string \<times> pyval) list \<Rightarrow> (acme_exn, public_jwk) result" where
  "rsa_projection jwk =
     bind_result (reject_private_jwk_material jwk [''d'', ''p'', ''q'', ''dp'', ''dq'', ''qi'', ''oth'']) (\<lambda>_.
     bind_result (require_string_field jwk ''n'') (\<lambda>n.
     bind_result (require_string_field jwk ''e'') (\<lambda>e.
     Inr [(''kty'', ''RSA''), (''n'', n), (''e'', e)])))"

definition ec_projection :: "(string \<times> pyval) list \<Rightarrow> (acme_exn, public_jwk) result" where
  "ec_projection jwk =
     bind_result (reject_private_jwk_material jwk [''d'']) (\<lambda>_.
     bind_result (require_string_field jwk ''crv'') (\<lambda>crv.
     if crv \<notin> {''P-256'', ''P-384'', ''P-521''} then Inl (Acme 400 ''UNSUPPORTED_ALGORITHM'')
     else bind_result (require_string_field jwk ''x'') (\<lambda>x.
     bind_result (require_string_field jwk ''y'') (\<lambda>y.
     Inr [(''kty'', ''EC''), (''crv'', crv), (''x'', x), (''y'', y)]))))"

definition okp_projection :: "(string \<times> pyval) list \<Rightarrow> (acme_exn, public_jwk) result" where
  "okp_projection jwk =
     bind_result (reject_private_jwk_material jwk [''d'']) (\<lambda>_.
     bind_result (require_string_field jwk ''crv'') (\<lambda>crv.
     if crv \<noteq> ''Ed25519'' then Inl (Acme 400 ''UNSUPPORTED_ALGORITHM'')
     else bind_result (require_string_field jwk ''x'') (\<lambda>x.
     bind_result (base64url_decode x) (\<lambda>b.
     if length b \<noteq> 32 then Inl (Acme 400 ''MALFORMED'')
     else Inr [(''kty'', ''OKP''), (''crv'', ''Ed25519''), (''x'', x)]))))"

text \<open>A value that is not an object has no \<open>get\<close>.\<close>

fun public_jwk_projection :: "pyval \<Rightarrow> (acme_exn, public_jwk) result" where
  "public_jwk_projection (PDict jwk) =
     (let kty = dict_get jwk ''kty'' in
      if kty = PStr ''RSA'' then rsa_projection jwk
      else if kty = PStr ''EC'' then ec_projection jwk
      else if kty = PStr ''OKP'' then okp_projection jwk
      else Inl (Acme 400 ''UNSUPPORTED_ALGORITHM''))"
| "public_jwk_projection _ = Inl (Unhandled ''AttributeError'')"

definition jwk_matches :: "pyval \<Rightarrow> pyval \<Rightarrow> (acme_exn, bool) result" where
  "jwk_matches left right = bind_result (public_jwk_projection left) (\<lambda>l.
     bind_result (public_jwk_projection right) (\<lambda>r. Inr (l = r)))"

subsection \<open>The thumbprint\<close>

definition hex_lower :: "nat \<Rightarrow> char" where
  "hex_lower d = (if d < 10 then char_of (48 + d) else char_of (87 + d))"

text \<open>\<open>json.dumps\<close> of a string, with \<open>ensure_ascii\<close>.\<close>

definition json_escape :: "char \<Rightarrow> string" where
  "json_escape c = (if c = CHR 0x22 then [CHR 0x5C, CHR 0x22] else if c = CHR 0x5C then [CHR 0x5C, CHR 0x5C]
     else if c = CHR 0x0A then [CHR 0x5C, CHR ''n''] else if c = CHR 0x0D then [CHR 0x5C, CHR ''r'']
     else if c = CHR 0x09 then [CHR 0x5C, CHR ''t''] else if c = CHR 0x0C then [CHR 0x5C, CHR ''f'']
     else if c = CHR 0x08 then [CHR 0x5C, CHR ''b'']
     else if 32 \<le> ord c \<and> ord c \<le> 126 then [c]
     else [CHR 0x5C, CHR ''u'', CHR ''0'', CHR ''0'', hex_lower (ord c div 16), hex_lower (ord c mod 16)])"

definition json_string :: "string \<Rightarrow> string" where
  "json_string s = CHR 0x22 # concat (map json_escape s) @ [CHR 0x22]"

fun insert_item :: "string \<times> string \<Rightarrow> public_jwk \<Rightarrow> public_jwk" where
  "insert_item kv [] = [kv]"
| "insert_item kv (x # xs) = (if str_less (fst x) (fst kv) then x # insert_item kv xs else kv # x # xs)"

definition sort_items :: "public_jwk \<Rightarrow> public_jwk" where
  "sort_items p = foldr insert_item p []"

definition canonical_json :: "public_jwk \<Rightarrow> string" where
  "canonical_json p = ''{'' @ join_with '','' (map (\<lambda>(k, v). json_string k @ '':'' @ json_string v) (sort_items p)) @ ''}''"

definition compute_jwk_thumbprint :: "crypto \<Rightarrow> pyval \<Rightarrow> (acme_exn, string) result" where
  "compute_jwk_thumbprint cr jwk = bind_result (public_jwk_projection jwk) (\<lambda>p.
     Inr (base64url_encode (cr_sha256 cr (canonical_json p))))"

subsection \<open>Keys as numbers\<close>

text \<open>\<open>int.from_bytes\<close> and \<open>int.to_bytes\<close>, big-endian; \<open>to_bytes\<close> of a number that does not fit raises.\<close>

definition int_from_bytes :: "bytes \<Rightarrow> nat" where
  "int_from_bytes b = foldl (\<lambda>n c. n * 256 + ord c) 0 b"

fun bytes_of_nat :: "nat \<Rightarrow> nat \<Rightarrow> bytes" where
  "bytes_of_nat 0 n = []"
| "bytes_of_nat (Suc k) n = bytes_of_nat k (n div 256) @ [char_of (n mod 256)]"

definition int_to_bytes :: "nat \<Rightarrow> nat \<Rightarrow> (acme_exn, bytes) result" where
  "int_to_bytes len n = (if n < 256 ^ len then Inr (bytes_of_nat len n) else Inl (Unhandled ''OverflowError''))"

fun bit_length :: "nat \<Rightarrow> nat" where
  "bit_length n = (if n = 0 then 0 else Suc (bit_length (n div 2)))"

declare bit_length.simps [simp del]

definition key_size :: "curve \<Rightarrow> nat" where
  "key_size c = (case c of P256 \<Rightarrow> 256 | P384 \<Rightarrow> 384 | P521 \<Rightarrow> 521 | OtherCurve _ \<Rightarrow> 256)"

definition coordinate_length :: "curve \<Rightarrow> nat" where
  "coordinate_length c = (key_size c + 7) div 8"

definition pick :: "public_jwk \<Rightarrow> string \<Rightarrow> string" where
  "pick p k = the (map_of p k)"

definition jwk_to_public_key :: "crypto \<Rightarrow> pyval \<Rightarrow> (acme_exn, public_key) result" where
  "jwk_to_public_key cr jwk = bind_result (public_jwk_projection jwk) (\<lambda>projected.
     if pick projected ''kty'' = ''RSA'' then
       bind_result (base64url_decode (pick projected ''n'')) (\<lambda>nb.
       bind_result (base64url_decode (pick projected ''e'')) (\<lambda>eb.
       let n = int_from_bytes nb; e = int_from_bytes eb in
       if cr_rsa_numbers cr n e then Inr (RSAKey n e) else Inl (Acme 400 ''MALFORMED'')))
     else if pick projected ''kty'' = ''EC'' then
       (let crv = pick projected ''crv''; c = (if crv = ''P-256'' then P256 else if crv = ''P-384'' then P384 else P521) in
        bind_result (base64url_decode (pick projected ''x'')) (\<lambda>xb.
        bind_result (base64url_decode (pick projected ''y'')) (\<lambda>yb.
        let x = int_from_bytes xb; y = int_from_bytes yb in
        if cr_ec_point cr c x y then Inr (ECKey c x y) else Inl (Acme 400 ''MALFORMED''))))
     else bind_result (base64url_decode (pick projected ''x'')) (\<lambda>b. Inr (EdKey b)))"

fun public_key_to_jwk :: "public_key \<Rightarrow> (acme_exn, public_jwk) result" where
  "public_key_to_jwk (RSAKey n e) =
     bind_result (int_to_bytes ((bit_length n + 7) div 8) n) (\<lambda>nb.
     bind_result (int_to_bytes ((bit_length e + 7) div 8) e) (\<lambda>eb.
     Inr [(''kty'', ''RSA''), (''n'', base64url_encode nb), (''e'', base64url_encode eb)]))"
| "public_key_to_jwk (ECKey c x y) =
     bind_result (case c of P256 \<Rightarrow> Inr ''P-256'' | P384 \<Rightarrow> Inr ''P-384'' | P521 \<Rightarrow> Inr ''P-521''
       | OtherCurve _ \<Rightarrow> Inl (Acme 400 ''UNSUPPORTED_ALGORITHM'')) (\<lambda>curve_name.
     bind_result (int_to_bytes (coordinate_length c) x) (\<lambda>xb.
     bind_result (int_to_bytes (coordinate_length c) y) (\<lambda>yb.
     Inr [(''kty'', ''EC''), (''crv'', curve_name), (''x'', base64url_encode xb), (''y'', base64url_encode yb)])))"
| "public_key_to_jwk (EdKey b) = Inr [(''kty'', ''OKP''), (''crv'', ''Ed25519''), (''x'', base64url_encode b)]"
| "public_key_to_jwk (OtherKey _) = Inl (Acme 400 ''UNSUPPORTED_ALGORITHM'')"

subsection \<open>Signatures\<close>

definition hash_of_alg :: "string \<Rightarrow> hash_alg option" where
  "hash_of_alg alg = (if alg \<in> {''RS256'', ''ES256''} then Some SHA256 else if alg \<in> {''RS384'', ''ES384''} then Some SHA384
     else if alg \<in> {''RS512'', ''ES512''} then Some SHA512 else None)"

definition verified :: "bool \<Rightarrow> (acme_exn, unit) result" where
  "verified ok = (if ok then Inr () else Inl (Acme 400 ''MALFORMED''))"

definition verify_compact_jws_signature ::
    "crypto \<Rightarrow> string \<Rightarrow> string \<Rightarrow> string \<Rightarrow> pyval \<Rightarrow> string \<Rightarrow> (acme_exn, unit) result" where
  "verify_compact_jws_signature cr protected_b64 payload_b64 signature_b64 jwk alg =
     (let signing_input = protected_b64 @ ''.'' @ payload_b64 in
      if \<not> list_all (\<lambda>c. ord c < 128) signing_input then Inl (Unhandled ''UnicodeEncodeError'')
      else bind_result (base64url_decode signature_b64) (\<lambda>signature.
      bind_result (jwk_to_public_key cr jwk) (\<lambda>key.
      if alg = ''EdDSA'' then
        (case key of EdKey b \<Rightarrow> verified (cr_verify_ed cr b signature signing_input) | _ \<Rightarrow> Inl (Acme 400 ''MALFORMED''))
      else case hash_of_alg alg of
        None \<Rightarrow> Inl (Acme 400 ''UNSUPPORTED_ALGORITHM'')
      | Some h \<Rightarrow>
          if startswith alg ''RS'' then
            (case key of RSAKey n e \<Rightarrow> verified (cr_verify_rsa cr n e h signature signing_input) | _ \<Rightarrow> Inl (Acme 400 ''MALFORMED''))
          else (case key of
              ECKey c x y \<Rightarrow>
                let k = coordinate_length c in
                if length signature \<noteq> k * 2 then Inl (Acme 400 ''MALFORMED'')
                else verified (cr_verify_ec cr c x y h (int_from_bytes (take k signature)) (int_from_bytes (drop k signature)) signing_input)
            | _ \<Rightarrow> Inl (Acme 400 ''MALFORMED'')))))"

end
