(* ===== verification/AcmeJwkProps.thy ===== *)
theory AcmeJwkProps
  imports AcmeJwk
begin

text \<open>
  Facts about JSON Web Keys: a projection is stable, a thumbprint stands for one key, and a key read from a certificate
  is the key that its JWK gives back.
\<close>

subsection \<open>Shapes of a projection\<close>

lemma require_string_field_Inr: "require_string_field d f = Inr v \<longleftrightarrow> dict_get d f = PStr v \<and> v \<noteq> []"
  by (auto simp: require_string_field_def split: pyval.splits if_splits)

lemma reject_private_Inr: "reject_private_jwk_material d fs = Inr u \<longleftrightarrow> (\<forall>f\<in>set fs. f \<notin> fst ` set d)"
  by (auto simp: reject_private_jwk_material_def list_ex_iff)

lemma base64url_decode_Inr: "base64url_decode s = Inr b \<longleftrightarrow> base64url_decode_bytes s = Some b"
  by (auto simp: base64url_decode_def split: option.splits)

lemma base64url_decode_encode [simp]: "base64url_decode (base64url_encode b) = Inr b"
  by (simp add: base64url_decode_Inr base64url_roundtrip)

text \<open>A projection has one of three forms.\<close>

inductive is_projection :: "public_jwk \<Rightarrow> bool" where
  rsa: "n \<noteq> [] \<Longrightarrow> e \<noteq> [] \<Longrightarrow> is_projection [(''kty'', ''RSA''), (''n'', n), (''e'', e)]"
| ec: "crv \<in> {''P-256'', ''P-384'', ''P-521''} \<Longrightarrow> x \<noteq> [] \<Longrightarrow> y \<noteq> [] \<Longrightarrow>
     is_projection [(''kty'', ''EC''), (''crv'', crv), (''x'', x), (''y'', y)]"
| okp: "x \<noteq> [] \<Longrightarrow> base64url_decode_bytes x = Some b \<Longrightarrow> length b = 32 \<Longrightarrow>
     is_projection [(''kty'', ''OKP''), (''crv'', ''Ed25519''), (''x'', x)]"

lemma rsa_projection_form: "rsa_projection d = Inr p \<Longrightarrow> is_projection p"
  unfolding rsa_projection_def by (auto simp: result_simps require_string_field_Inr intro: is_projection.intros)

lemma ec_projection_form: "ec_projection d = Inr p \<Longrightarrow> is_projection p"
  unfolding ec_projection_def
  by (auto simp: result_simps require_string_field_Inr intro: is_projection.intros split: if_splits)

lemma okp_projection_form: "okp_projection d = Inr p \<Longrightarrow> is_projection p"
  unfolding okp_projection_def
  by (auto simp: result_simps require_string_field_Inr base64url_decode_Inr intro: is_projection.intros split: if_splits)

lemma projection_form: "public_jwk_projection v = Inr p \<Longrightarrow> is_projection p"
  by (cases v) (auto simp: Let_def rsa_projection_form ec_projection_form okp_projection_form split: if_splits)

lemma projection_of_projection: "is_projection p \<Longrightarrow> public_jwk_projection (jwk_value p) = Inr p"
proof (induction rule: is_projection.induct)
  case (rsa n e)
  then show ?case by (simp add: jwk_value_def dict_get_def rsa_projection_def reject_private_jwk_material_def require_string_field_def)
next
  case (ec crv x y)
  then show ?case
    by (elim insertE; simp add: jwk_value_def dict_get_def ec_projection_def reject_private_jwk_material_def require_string_field_def)
next
  case (okp x b)
  then show ?case
    by (simp add: jwk_value_def dict_get_def okp_projection_def reject_private_jwk_material_def require_string_field_def
        base64url_decode_def)
qed

lemma projection_idempotent:
  "public_jwk_projection v = Inr p \<Longrightarrow> public_jwk_projection (jwk_value p) = Inr p"
  by (rule projection_of_projection [OF projection_form])

subsection \<open>JSON strings are self-delimiting\<close>

definition hex_value :: "char \<Rightarrow> nat" where
  "hex_value c = (if is_digit c then ord c - 48 else ord c - 87)"

fun json_unescape :: "string \<Rightarrow> (char \<times> string) option" where
  "json_unescape (c # cs) = (if c \<noteq> CHR 0x5C then Some (c, cs) else
     (case cs of
        [] \<Rightarrow> None
      | d # ds \<Rightarrow>
          if d = CHR ''n'' then Some (CHR 0x0A, ds) else if d = CHR ''r'' then Some (CHR 0x0D, ds)
          else if d = CHR ''t'' then Some (CHR 0x09, ds) else if d = CHR ''f'' then Some (CHR 0x0C, ds)
          else if d = CHR ''b'' then Some (CHR 0x08, ds)
          else if d = CHR ''u'' then (case drop 2 ds of h # l # es \<Rightarrow> Some (char_of (hex_value h * 16 + hex_value l), es) | _ \<Rightarrow> None)
          else Some (d, ds)))"
| "json_unescape [] = None"

lemma hex_value_lower: "d < 16 \<Longrightarrow> hex_value (hex_lower d) = d"
  by (simp add: hex_value_def hex_lower_def is_digit_def ord_char_of Let_def)

lemma json_unescape_escape: "json_unescape (json_escape c @ r) = Some (c, r)"
proof (cases "c \<in> {CHR 0x22, CHR 0x5C, CHR 0x0A, CHR 0x0D, CHR 0x09, CHR 0x0C, CHR 0x08}")
  case True
  then show ?thesis by (elim insertE) (simp_all add: json_escape_def)
next
  case special: False
  show ?thesis
  proof (cases "32 \<le> ord c \<and> ord c \<le> 126")
    case True
    then show ?thesis using special by (simp add: json_escape_def)
  next
    case False
    have "ord c div 16 < 16" using ord_bound [of c] by linarith
    then show ?thesis using special False by (simp add: json_escape_def hex_value_lower)
  qed
qed

lemma json_escape_inject: "json_escape c @ r = json_escape d @ s \<longleftrightarrow> c = d \<and> r = s"
  by (metis json_unescape_escape option.inject prod.inject)

lemma json_escape_not_quote: "json_escape c @ r \<noteq> CHR 0x22 # s" "CHR 0x22 # s \<noteq> json_escape c @ r"
  by (auto simp: json_escape_def)

lemma escaped_inject:
  "concat (map json_escape v) @ CHR 0x22 # r = concat (map json_escape w) @ CHR 0x22 # s \<longleftrightarrow> v = w \<and> r = s"
proof (induction v arbitrary: w)
  case Nil
  then show ?case by (cases w) (simp_all add: json_escape_not_quote)
next
  case (Cons c v)
  then show ?case
    by (cases w) (auto simp: json_escape_inject json_escape_not_quote)
qed

lemma json_string_inject [simp]: "json_string v @ r = json_string w @ s \<longleftrightarrow> v = w \<and> r = s"
  by (simp add: json_string_def escaped_inject)

lemma json_string_eq [simp]: "json_string v = json_string w \<longleftrightarrow> v = w"
  using json_string_inject [of v "[]" w "[]"] by simp

subsection \<open>A thumbprint stands for one key\<close>

lemma canonical_json_inject:
  assumes "is_projection p" and "is_projection q" and "canonical_json p = canonical_json q"
  shows "p = q"
proof -
  note forms = canonical_json_def sort_items_def ord_def
  show ?thesis using assms(1,2)
  proof (cases rule: is_projection.cases [case_product is_projection.cases])
    case (rsa_rsa n e n' e')
    then show ?thesis using assms(3) by (simp add: forms)
  next
    case (rsa_ec n e crv x y)
    then show ?thesis using assms(3) by (simp add: forms)
  next
    case (rsa_okp n e x b)
    then show ?thesis using assms(3) by (simp add: forms)
  next
    case (ec_rsa crv x y n e)
    then show ?thesis using assms(3) by (simp add: forms)
  next
    case (ec_ec crv x y crv' x' y')
    then show ?thesis using assms(3) by (simp add: forms)
  next
    case (ec_okp crv x y x' b)
    then show ?thesis using assms(3) by (simp add: forms)
  next
    case (okp_rsa x b n e)
    then show ?thesis using assms(3) by (simp add: forms)
  next
    case (okp_ec x b crv x' y)
    then show ?thesis using assms(3) by (simp add: forms)
  next
    case (okp_okp x b x' b')
    then show ?thesis using assms(3) by (simp add: forms)
  qed
qed

text \<open>Two keys with one thumbprint are the same key, unless SHA-256 collides on the two canonical documents.\<close>


subsection \<open>Keys and numbers\<close>

lemma bytes_of_nat_length [simp]: "length (bytes_of_nat k n) = k"
  by (induction k arbitrary: n) simp_all

lemma int_from_bytes_append: "int_from_bytes (b @ [c]) = int_from_bytes b * 256 + ord c"
  by (simp add: int_from_bytes_def)

lemma int_from_bytes_of_nat: "n < 256 ^ k \<Longrightarrow> int_from_bytes (bytes_of_nat k n) = n"
proof (induction k arbitrary: n)
  case 0
  then show ?case by (simp add: int_from_bytes_def)
next
  case (Suc k)
  then have "n div 256 < 256 ^ k" by (simp add: less_mult_imp_div_less mult.commute)
  then show ?case using Suc.IH by (simp add: int_from_bytes_append ord_def)
qed

lemma bit_length_bound: "n < 2 ^ bit_length n"
proof (induction n rule: bit_length.induct)
  case (1 n)
  then show ?case by (cases "n = 0") (auto simp: bit_length.simps [of n])
qed

lemma bit_length_bytes: "n < 256 ^ ((bit_length n + 7) div 8)"
proof -
  have "bit_length n \<le> 8 * ((bit_length n + 7) div 8)" by linarith
  then have "(2::nat) ^ bit_length n \<le> 2 ^ (8 * ((bit_length n + 7) div 8))" by (rule power_increasing) simp
  also have "\<dots> = 256 ^ ((bit_length n + 7) div 8)" by (simp add: power_mult)
  finally show ?thesis using bit_length_bound [of n] by linarith
qed

lemma bit_length_pos: "0 < n \<Longrightarrow> 0 < (bit_length n + 7) div 8"
  by (simp add: bit_length.simps [of n])

lemma bytes_of_nat_Nil [simp]: "bytes_of_nat k n = [] \<longleftrightarrow> k = 0"
  by (metis bytes_of_nat_length length_0_conv)

text \<open>The keys the library hands out: its numbers form a key and fit the curve.\<close>

fun proper_key :: "crypto \<Rightarrow> public_key \<Rightarrow> bool" where
  "proper_key cr (RSAKey n e) \<longleftrightarrow> 0 < n \<and> 0 < e \<and> cr_rsa_numbers cr n e"
| "proper_key cr (ECKey c x y) \<longleftrightarrow> c \<in> {P256, P384, P521} \<and> x < 256 ^ coordinate_length c \<and> y < 256 ^ coordinate_length c
     \<and> cr_ec_point cr c x y"
| "proper_key cr (EdKey b) \<longleftrightarrow> length b = 32"
| "proper_key cr (OtherKey _) \<longleftrightarrow> False"

text \<open>
  C23: The JWK that is made of a certificate's key is a public projection and is read back as the same key, for RSA, for the
  three curves with coordinates of fixed length, and for Ed25519.
\<close>
theorem certificate_key_jwk: "proper_key cr k \<Longrightarrow> \<exists>p. public_key_to_jwk k = Inr p \<and> is_projection p \<and> jwk_to_public_key cr (jwk_value p) = Inr k"
proof (induction cr k rule: proper_key.induct)
  case (1 cr n e)
  then have nonempty: "(bit_length n + 7) div 8 \<noteq> 0" "(bit_length e + 7) div 8 \<noteq> 0" using bit_length_pos by fastforce+
  obtain p where p: "p = [(''kty'', ''RSA''), (''n'', base64url_encode (bytes_of_nat ((bit_length n + 7) div 8) n)),
      (''e'', base64url_encode (bytes_of_nat ((bit_length e + 7) div 8) e))]" by blast
  have form: "is_projection p" unfolding p by (rule is_projection.rsa) (simp_all add: nonempty del: div_eq_0_iff)
  have "jwk_to_public_key cr (jwk_value p) = Inr (RSAKey n e)"
    unfolding jwk_to_public_key_def projection_of_projection [OF form] using 1
    by (simp add: p pick_def int_from_bytes_of_nat bit_length_bytes Let_def)
  then show ?case using form by (simp add: int_to_bytes_def bit_length_bytes p)
next
  case (2 cr c x y)
  obtain name where name: "(case c of P256 \<Rightarrow> Inr ''P-256'' | P384 \<Rightarrow> Inr ''P-384'' | P521 \<Rightarrow> Inr ''P-521''
       | OtherCurve _ \<Rightarrow> Inl (Acme 400 ''UNSUPPORTED_ALGORITHM'')) = Inr name" "name \<in> {''P-256'', ''P-384'', ''P-521''}"
      "(if name = ''P-256'' then P256 else if name = ''P-384'' then P384 else P521) = c"
    using 2 by (cases c) auto
  have nonempty: "coordinate_length c \<noteq> 0" by (cases c) (simp_all add: coordinate_length_def key_size_def)
  obtain p where p: "p = [(''kty'', ''EC''), (''crv'', name), (''x'', base64url_encode (bytes_of_nat (coordinate_length c) x)),
      (''y'', base64url_encode (bytes_of_nat (coordinate_length c) y))]" by blast
  have form: "is_projection p" unfolding p by (rule is_projection.ec) (use name nonempty in simp_all)
  have "jwk_to_public_key cr (jwk_value p) = Inr (ECKey c x y)"
    unfolding jwk_to_public_key_def projection_of_projection [OF form] using 2 name(3)
    by (simp add: p pick_def int_from_bytes_of_nat Let_def)
  then show ?case using form 2 name(1) by (simp add: int_to_bytes_def p)
next
  case (3 cr b)
  then have nonempty: "b \<noteq> []" by auto
  obtain p where p: "p = [(''kty'', ''OKP''), (''crv'', ''Ed25519''), (''x'', base64url_encode b)]" by blast
  have form: "is_projection p" unfolding p by (rule is_projection.okp [where b = b]) (use 3 nonempty in \<open>simp_all add: base64url_roundtrip\<close>)
  have "jwk_to_public_key cr (jwk_value p) = Inr (EdKey b)"
    unfolding jwk_to_public_key_def projection_of_projection [OF form] by (simp add: p pick_def)
  then show ?case using form by (simp add: p)
qed simp

end
