(* ===== verification/AcmeJws.thy ===== *)
theory AcmeJws
  imports AcmeJwkProps
begin

text \<open>
  Signed requests of the ACME server: the parsers of \<open>ca-server/app/acme/utils.py\<close>, the verifier
  \<open>ca-server/app/acme/jws_verifier.py\<close>, and the three checks of \<open>ca-server/app/acme/service.py\<close> built on it.
\<close>

subsection \<open>Requests\<close>

record jws_request =
  jr_protected :: string
  jr_payload :: string
  jr_signature :: string

type_synonym json_object = "(string \<times> pyval) list"

definition has_key :: "json_object \<Rightarrow> string \<Rightarrow> bool" where
  "has_key d k \<longleftrightarrow> k \<in> fst ` set d"

text \<open>A JSON document that must be an object; what is not UTF-8 or not JSON raises \<open>ValueError\<close>.\<close>

definition json_object_of :: "crypto \<Rightarrow> bytes \<Rightarrow> (acme_exn, json_object) result" where
  "json_object_of cr b = (case cr_json cr b of Some (PDict d) \<Rightarrow> Inr d | _ \<Rightarrow> Inl (Acme 400 ''MALFORMED_REQUEST''))"

definition parse_protected_header :: "crypto \<Rightarrow> string \<Rightarrow> (acme_exn, json_object) result" where
  "parse_protected_header cr protected_b64 = bind_result (base64url_decode protected_b64) (json_object_of cr)"

definition parse_payload :: "crypto \<Rightarrow> string \<Rightarrow> (acme_exn, json_object) result" where
  "parse_payload cr payload_b64 =
     (if payload_b64 = [] then Inr [] else bind_result (base64url_decode payload_b64) (json_object_of cr))"

subsection \<open>The verifier\<close>

definition malformed :: "'a option \<Rightarrow> (acme_exn, 'a) result" where
  "malformed v = (case v of None \<Rightarrow> Inl (Acme 400 ''MALFORMED'') | Some a \<Rightarrow> Inr a)"

definition parse_jws :: "crypto \<Rightarrow> string \<Rightarrow> (acme_exn, pyval \<times> pyval \<times> string) result" where
  "parse_jws cr jws_data = (case split_on CHR ''.'' jws_data of
     [protected_b64, payload_b64, signature_b64] \<Rightarrow>
       bind_result (malformed (Option.bind (base64url_decode_bytes protected_b64) (cr_json cr))) (\<lambda>header.
       bind_result (if payload_b64 = [] then Inr (PDict [])
         else malformed (Option.bind (base64url_decode_bytes payload_b64) (cr_json cr))) (\<lambda>payload.
       Inr (header, payload, signature_b64)))
   | _ \<Rightarrow> Inl (Acme 400 ''MALFORMED''))"

definition SIGNATURE_ALGORITHMS :: "string list" where
  "SIGNATURE_ALGORITHMS = [''RS256'', ''RS384'', ''RS512'', ''ES256'', ''ES384'', ''ES512'', ''EdDSA'']"

definition expect_field :: "json_object \<Rightarrow> string \<Rightarrow> string option \<Rightarrow> string \<Rightarrow> (acme_exn, unit) result" where
  "expect_field d k expected code =
     (if str_given expected \<and> (\<not> has_key d k \<or> dict_get d k \<noteq> PStr (the expected)) then Inl (Acme 400 code) else Inr ())"

definition check_header_key :: "json_object \<Rightarrow> pyval \<Rightarrow> (acme_exn, unit) result" where
  "check_header_key d jwk =
     (if has_key d ''jwk'' then
        (case dict_get d ''jwk'' of
           PDict k \<Rightarrow> bind_result (jwk_matches (PDict k) jwk) (\<lambda>same. if same then Inr () else Inl (Acme 400 ''MALFORMED''))
         | _ \<Rightarrow> Inl (Acme 400 ''MALFORMED''))
      else if has_key d ''kid'' then Inr ()
      else Inl (Acme 400 ''MALFORMED''))"

text \<open>Returns the algorithm. The callers have checked that the header is an object; any other value raises.\<close>

fun verify_protected_header :: "pyval \<Rightarrow> pyval \<Rightarrow> string option \<Rightarrow> string option \<Rightarrow> (acme_exn, string) result" where
  "verify_protected_header (PDict d) jwk expected_nonce expected_url =
     (if \<not> has_key d ''alg'' then Inl (Acme 400 ''MALFORMED'')
      else case dict_get d ''alg'' of
        PStr alg \<Rightarrow>
          if alg \<notin> set SIGNATURE_ALGORITHMS then Inl (Acme 400 ''UNSUPPORTED_ALGORITHM'')
          else bind_result (expect_field d ''nonce'' expected_nonce ''BAD_NONCE'') (\<lambda>_.
            bind_result (expect_field d ''url'' expected_url ''MALFORMED'') (\<lambda>_.
            bind_result (check_header_key d jwk) (\<lambda>_. Inr alg)))
      | _ \<Rightarrow> Inl (Acme 400 ''UNSUPPORTED_ALGORITHM''))"
| "verify_protected_header _ jwk expected_nonce expected_url = Inl (Unhandled ''TypeError'')"

definition verifier_verify :: "crypto \<Rightarrow> string \<Rightarrow> pyval \<Rightarrow> string option \<Rightarrow> string option \<Rightarrow> (acme_exn, pyval) result" where
  "verifier_verify cr jws_data jwk expected_nonce expected_url =
     bind_result (parse_jws cr jws_data) (\<lambda>(header, payload, signature_b64).
     bind_result (verify_protected_header header jwk expected_nonce expected_url) (\<lambda>alg.
     case split_on CHR ''.'' jws_data of
       [protected_b64, payload_b64, _] \<Rightarrow>
         bind_result (verify_compact_jws_signature cr protected_b64 payload_b64 signature_b64 jwk alg) (\<lambda>_. Inr payload)
     | _ \<Rightarrow> Inl (Unhandled ''ValueError'')))"

subsection \<open>Requests signed by a key\<close>

definition jws_string :: "jws_request \<Rightarrow> string" where
  "jws_string r = jr_protected r @ ''.'' @ jr_payload r @ ''.'' @ jr_signature r"

text \<open>Every exception becomes \<open>BAD_SIGNATURE\<close>.\<close>

definition verify_jws_signature_with_jwk :: "crypto \<Rightarrow> jws_request \<Rightarrow> pyval \<Rightarrow> (acme_exn, unit) result" where
  "verify_jws_signature_with_jwk cr r jwk =
     (case verifier_verify cr (jws_string r) jwk None None of Inl _ \<Rightarrow> Inl (Acme 400 ''BAD_SIGNATURE'') | Inr _ \<Rightarrow> Inr ())"

definition verify_new_account_signature :: "crypto \<Rightarrow> jws_request \<Rightarrow> pyval \<Rightarrow> (acme_exn, unit) result" where
  "verify_new_account_signature cr r jwk =
     (case verifier_verify cr (jws_string r) jwk None None of Inl _ \<Rightarrow> Inl (Acme 400 ''BAD_SIGNATURE'') | Inr _ \<Rightarrow> Inr ())"

text \<open>The account's key is stored as \<open>json.dumps\<close> of a projection, which \<open>json.loads\<close> gives back.\<close>

definition verify_jws_signature :: "crypto \<Rightarrow> jws_request \<Rightarrow> public_jwk \<Rightarrow> (acme_exn, unit) result" where
  "verify_jws_signature cr r account_key = verify_jws_signature_with_jwk cr r (jwk_value account_key)"

subsection \<open>What a verified request says\<close>

text \<open>
  The key made a signature over header and payload with an admissible algorithm, and the header names this key or an
  account, never another key.
\<close>

definition signed_with :: "crypto \<Rightarrow> jws_request \<Rightarrow> pyval \<Rightarrow> bool" where
  "signed_with cr r jwk \<longleftrightarrow> (\<exists>d alg. parse_protected_header cr (jr_protected r) = Inr d \<and> dict_get d ''alg'' = PStr alg
     \<and> alg \<in> set SIGNATURE_ALGORITHMS
     \<and> (has_key d ''jwk'' \<longrightarrow> public_jwk_projection (dict_get d ''jwk'') = public_jwk_projection jwk)
     \<and> (has_key d ''jwk'' \<or> has_key d ''kid'')
     \<and> verify_compact_jws_signature cr (jr_protected r) (jr_payload r) (jr_signature r) jwk alg = Inr ())"

lemma split_on_two_parts: "split_on sep (p @ [sep] @ s) = [a, b, c] \<Longrightarrow> sep \<notin> set p \<Longrightarrow> a = p \<and> split_on sep s = [b, c]"
  by (simp add: split_on_append)

lemma split_three:
  assumes "split_on sep (p @ [sep] @ q @ [sep] @ r) = [a, b, c]"
  shows "a = p \<and> b = q \<and> c = r"
proof -
  have count: "length (split_on sep s) = Suc (count_list s sep)" for s
  proof (induction s)
    case (Cons x s)
    then show ?case by (cases "split_on sep s") auto
  qed simp
  have "length (split_on sep (p @ [sep] @ q @ [sep] @ r)) = 3" using assms by simp
  then have "count_list p sep = 0 \<and> count_list q sep = 0 \<and> count_list r sep = 0"
    by (simp add: count)
  then have "sep \<notin> set p" "sep \<notin> set q" "sep \<notin> set r" by (simp_all add: count_list_0_iff)
  then show ?thesis using assms by (simp add: split_on_append split_on_no_sep)
qed

lemma check_header_key_Inr:
  "check_header_key d jwk = Inr u \<Longrightarrow>
     (has_key d ''jwk'' \<longrightarrow> public_jwk_projection (dict_get d ''jwk'') = public_jwk_projection jwk) \<and> (has_key d ''jwk'' \<or> has_key d ''kid'')"
  unfolding check_header_key_def jwk_matches_def
  by (auto simp: result_simps split: if_splits pyval.splits)

lemma verify_protected_header_Inr:
  assumes "verify_protected_header (PDict d) jwk None None = Inr alg"
  shows "dict_get d ''alg'' = PStr alg \<and> alg \<in> set SIGNATURE_ALGORITHMS
     \<and> (has_key d ''jwk'' \<longrightarrow> public_jwk_projection (dict_get d ''jwk'') = public_jwk_projection jwk) \<and> (has_key d ''jwk'' \<or> has_key d ''kid'')"
  using assms check_header_key_Inr [of d jwk "()"]
  by (auto simp: result_simps expect_field_def str_given_def split: if_splits pyval.splits)

lemma verified_is_signed:
  assumes "verify_jws_signature_with_jwk cr r jwk = Inr ()"
  shows "signed_with cr r jwk"
proof -
  obtain payload where "verifier_verify cr (jws_string r) jwk None None = Inr payload"
    using assms by (auto simp: verify_jws_signature_with_jwk_def split: sum.splits)
  then obtain header pl sig alg where parse: "parse_jws cr (jws_string r) = Inr (header, pl, sig)"
    and alg: "verify_protected_header header jwk None None = Inr alg"
    and rest: "(case split_on CHR ''.'' (jws_string r) of
       [a, b, _] \<Rightarrow> bind_result (verify_compact_jws_signature cr a b sig jwk alg) (\<lambda>_. Inr pl)
     | _ \<Rightarrow> Inl (Unhandled ''ValueError'')) = Inr payload"
    unfolding verifier_verify_def by (auto elim!: bind_resultE)
  obtain a b c where abc: "split_on CHR ''.'' (jws_string r) = [a, b, c]"
    using rest by (auto split: list.splits)
  then have parts: "a = jr_protected r" "b = jr_payload r" "c = jr_signature r"
    unfolding jws_string_def using split_three by (metis append_Cons append_Nil)+
  obtain hb where "base64url_decode_bytes a = Some hb" "cr_json cr hb = Some header" and sig: "sig = c"
    using parse by (auto simp: parse_jws_def abc result_simps malformed_def split: option.splits bind_split_asm)
  moreover obtain d where d: "header = PDict d" using alg by (cases header) simp_all
  ultimately have "parse_protected_header cr (jr_protected r) = Inr d"
    by (simp add: parse_protected_header_def base64url_decode_def json_object_of_def parts)
  moreover have "verify_compact_jws_signature cr (jr_protected r) (jr_payload r) (jr_signature r) jwk alg = Inr ()"
    using rest by (auto simp: abc parts sig result_simps)
  ultimately show ?thesis
    using verify_protected_header_Inr [of d jwk alg] alg d unfolding signed_with_def by blast
qed

end
