(* ===== verification/CaSign.thy ===== *)
theory CaSign
  imports AcmeJws
begin

text \<open>
  What a certificate contains: the agent data of the registry (\<open>AgentInfo\<close> in \<open>ca-server/app/acme/registry_client.py\<close>)
  and the signing of a certificate (\<open>ca-server/app/core/ca_manager.py\<close>). The X.509 library is a record of functions
  that read and write documents; a certificate is the record of the fields the builder is given. JSON numbers are
  integers, times are microseconds.
\<close>

subsection \<open>Agent data of the registry\<close>

record agent_info =
  ai_aic :: pyval
  ai_active :: bool
  ai_organization :: pyval
  ai_department :: pyval
  ai_country_code :: pyval
  ai_alt_dns :: pyval
  ai_alt_ip :: pyval
  ai_requested_validity :: pyval

text \<open>\<open>d.get(key, default)\<close>, and \<open>x or {}\<close> followed by \<open>get\<close>; \<open>None\<close> is an exception.\<close>

definition get_or :: "json_object \<Rightarrow> string \<Rightarrow> pyval \<Rightarrow> pyval" where
  "get_or d k v = (case map_of d k of None \<Rightarrow> v | Some x \<Rightarrow> x)"

definition or_else_value :: "pyval \<Rightarrow> pyval \<Rightarrow> pyval" where
  "or_else_value x y = (if truthy x then x else y)"

fun as_object :: "pyval \<Rightarrow> json_object option" where
  "as_object (PDict d) = Some d"
| "as_object _ = None"

definition new_agent_info :: "pyval \<Rightarrow> agent_info option" where
  "new_agent_info data =
     Option.bind (as_object data) (\<lambda>d.
     Option.bind (as_object (get_or d ''provider'' (PDict []))) (\<lambda>provider.
     Option.bind (as_object (or_else_value (get_or d ''certificate'' (PDict [])) (PDict []))) (\<lambda>certificate.
     Option.bind (as_object (or_else_value (get_or certificate ''altNames'' (PDict [])) (PDict []))) (\<lambda>alt_names.
     Some \<lparr>ai_aic = get_or d ''aic'' (PStr ''''),
       ai_active = (case get_or d ''active'' (PBool False) of PBool b \<Rightarrow> b | _ \<Rightarrow> False),
       ai_organization = get_or provider ''organization'' (PStr ''''),
       ai_department = get_or provider ''department'' (PStr ''''),
       ai_country_code = get_or provider ''countryCode'' (PStr ''CN''),
       ai_alt_dns = or_else_value (get_or alt_names ''dns'' (PList [])) (PList []),
       ai_alt_ip = or_else_value (get_or alt_names ''ip'' (PList [])) (PList []),
       ai_requested_validity = get_or certificate ''requestedValidity'' PNone\<rparr>))))"

text \<open>\<open>CN\<close> is left out: the builder of the subject never reads it.\<close>

definition get_certificate_subject_components :: "agent_info \<Rightarrow> (string \<times> pyval) list" where
  "get_certificate_subject_components ai =
     (if truthy (ai_organization ai) then [(''O'', ai_organization ai)] else [])
     @ (if truthy (ai_department ai) then [(''OU'', ai_department ai)] else [])
     @ (if truthy (ai_country_code ai) then [(''C'', ai_country_code ai)] else [])"

text \<open>\<open>list(x)\<close>.\<close>

fun list_of :: "pyval \<Rightarrow> (acme_exn, pyval list) result" where
  "list_of (PList xs) = Inr xs"
| "list_of (PTuple xs) = Inr xs"
| "list_of (PStr s) = Inr (map (\<lambda>c. PStr [c]) s)"
| "list_of (PDict d) = Inr (map (\<lambda>(k, _). PStr k) d)"
| "list_of _ = Inl (Unhandled ''TypeError'')"

definition get_certificate_dns_names :: "agent_info \<Rightarrow> (acme_exn, pyval list) result" where
  "get_certificate_dns_names ai = list_of (ai_alt_dns ai)"

definition get_certificate_ip_addresses :: "agent_info \<Rightarrow> (acme_exn, pyval list) result" where
  "get_certificate_ip_addresses ai = list_of (ai_alt_ip ai)"

definition DEFAULT_VALIDITY_DAYS :: int where
  "DEFAULT_VALIDITY_DAYS = 49"

fun validity_days :: "pyval \<Rightarrow> int \<Rightarrow> (acme_exn, int) result" where
  "validity_days (PInt v) max_days = Inr (if v > 0 then min v max_days else DEFAULT_VALIDITY_DAYS)"
| "validity_days (PBool b) max_days = Inr (if b then min 1 max_days else DEFAULT_VALIDITY_DAYS)"
| "validity_days v max_days = (if truthy v then Inl (Unhandled ''TypeError'') else Inr DEFAULT_VALIDITY_DAYS)"

definition get_certificate_validity_days :: "agent_info \<Rightarrow> int \<Rightarrow> (acme_exn, int) result" where
  "get_certificate_validity_days ai max_days = validity_days (ai_requested_validity ai) max_days"

subsection \<open>Certificates and the X.509 library\<close>

datatype san = SanUri string | SanDns string | SanIp string

record cert_body =
  cb_subject :: "(string \<times> pyval) list"
  cb_issuer :: string
  cb_key :: public_key
  cb_serial :: nat
  cb_not_before :: int
  cb_not_after :: int
  cb_is_ca :: bool
  cb_digital_signature :: bool
  cb_key_encipherment :: bool
  cb_key_usages :: "string list"
  cb_ocsp_url :: string
  cb_crl_url :: string
  cb_san :: "san list"

record csr =
  csr_common_name :: "string option"
  csr_public_key :: public_key
  csr_signature_valid :: bool

record x509_lib =
  x5_load_csr :: "bytes \<Rightarrow> csr option"
  x5_name_value :: "string \<Rightarrow> pyval \<Rightarrow> bool"
  x5_dns_name :: "pyval \<Rightarrow> string option"
  x5_ip_address :: "pyval \<Rightarrow> string option"
  x5_sign :: "cert_body \<Rightarrow> string option"
  x5_load_pem :: "string \<Rightarrow> cert_body option"
  x5_load_der :: "bytes \<Rightarrow> cert_body option"

text \<open>What the certificate authority is configured with.\<close>

record ca_config =
  ca_loaded :: bool
  ca_subject :: string
  ca_ocsp_url :: string
  ca_crl_url :: string
  ca_certificate_pem :: "string option"
  ca_issuer_chain :: "string option"
  ca_max_validity_days :: int

subsection \<open>Signing\<close>

definition DAY :: int where
  "DAY = 86400000000"

definition validate_csr_public_key :: "public_key \<Rightarrow> bool" where
  "validate_csr_public_key k = (case k of
     RSAKey n e \<Rightarrow> 2048 \<le> bit_length n
   | ECKey c x y \<Rightarrow> c \<in> {P256, P384, P521}
   | EdKey b \<Rightarrow> True
   | OtherKey _ \<Rightarrow> False)"

definition build_agent_common_name :: "string \<Rightarrow> string" where
  "build_agent_common_name agent_id = agent_id"

fun subject_attributes :: "x509_lib \<Rightarrow> (string \<times> pyval) list \<Rightarrow> string list \<Rightarrow> (string \<times> pyval) list option" where
  "subject_attributes lib comps [] = Some []"
| "subject_attributes lib comps (k # ks) = (case map_of comps k of
     None \<Rightarrow> subject_attributes lib comps ks
   | Some v \<Rightarrow> if x5_name_value lib k v then map_option (Cons (k, v)) (subject_attributes lib comps ks) else None)"

definition build_certificate_subject :: "x509_lib \<Rightarrow> string \<Rightarrow> (string \<times> pyval) list \<Rightarrow> (string \<times> pyval) list option" where
  "build_certificate_subject lib agent_id comps =
     (let common_name = PStr (build_agent_common_name agent_id) in
      if \<not> x5_name_value lib ''CN'' common_name then None
      else map_option (Cons (''CN'', common_name)) (subject_attributes lib comps [''O'', ''OU'', ''C'', ''L'', ''ST'']))"

fun dns_sans :: "x509_lib \<Rightarrow> pyval list \<Rightarrow> san list option" where
  "dns_sans lib [] = Some []"
| "dns_sans lib (v # vs) = (case x5_dns_name lib v of None \<Rightarrow> None | Some s \<Rightarrow> map_option (Cons (SanDns s)) (dns_sans lib vs))"

text \<open>A value that is no IP address is left out.\<close>

definition ip_sans :: "x509_lib \<Rightarrow> pyval list \<Rightarrow> san list" where
  "ip_sans lib vs = map SanIp (List.map_filter (x5_ip_address lib) vs)"

definition agent_sans :: "x509_lib \<Rightarrow> string \<Rightarrow> pyval list \<Rightarrow> pyval list \<Rightarrow> san list option" where
  "agent_sans lib agent_id dns_names ip_addresses =
     map_option (\<lambda>ds. SanUri (''acps://'' @ agent_id) # ds @ ip_sans lib ip_addresses) (dns_sans lib dns_names)"

definition extended_key_usage :: "string \<Rightarrow> string" where
  "extended_key_usage usage = (if usage = ''serverAuth'' then ''serverAuth'' else ''clientAuth'')"

definition is_ed25519 :: "public_key \<Rightarrow> bool" where
  "is_ed25519 k = (case k of EdKey _ \<Rightarrow> True | _ \<Rightarrow> False)"

text \<open>\<open>None\<close> is an exception: every exception of the signing is answered in the same way.\<close>

definition sign_certificate ::
    "x509_lib \<Rightarrow> ca_config \<Rightarrow> csr \<Rightarrow> string list \<Rightarrow> int \<Rightarrow> (string \<times> pyval) list \<Rightarrow> pyval list \<Rightarrow> pyval list \<Rightarrow> string
      \<Rightarrow> int \<Rightarrow> nat \<Rightarrow> string option" where
  "sign_certificate lib ca csr agent_ids days comps dns_names ip_addresses usage now serial =
     (if \<not> ca_loaded ca then None
      else case agent_ids of
        [agent_id] \<Rightarrow>
          if \<not> validate_csr_public_key (csr_public_key csr) then None
          else Option.bind (build_certificate_subject lib agent_id comps) (\<lambda>subject.
            Option.bind (agent_sans lib agent_id dns_names ip_addresses) (\<lambda>sans.
            x5_sign lib \<lparr>cb_subject = subject, cb_issuer = ca_subject ca, cb_key = csr_public_key csr, cb_serial = serial,
              cb_not_before = now, cb_not_after = now + days * DAY, cb_is_ca = False, cb_digital_signature = True,
              cb_key_encipherment = (\<not> is_ed25519 (csr_public_key csr)), cb_key_usages = [extended_key_usage usage],
              cb_ocsp_url = ca_ocsp_url ca, cb_crl_url = ca_crl_url ca, cb_san = sans\<rparr>))
      | _ \<Rightarrow> None)"

subsection \<open>What is in a signed certificate\<close>

text \<open>A certificate of an agent names the agent in its subject and as its only URI, and is no certificate authority.\<close>

definition names_agent :: "cert_body \<Rightarrow> string \<Rightarrow> bool" where
  "names_agent b aic \<longleftrightarrow> map_of (cb_subject b) ''CN'' = Some (PStr aic) \<and> SanUri (''acps://'' @ aic) \<in> set (cb_san b)
     \<and> (\<forall>u. SanUri u \<in> set (cb_san b) \<longrightarrow> u = ''acps://'' @ aic) \<and> \<not> cb_is_ca b"

lemma dns_sans_no_uri: "dns_sans lib vs = Some ds \<Longrightarrow> SanUri u \<notin> set ds"
  by (induction lib vs arbitrary: ds rule: dns_sans.induct) (auto split: option.splits)

lemma signed_certificate_names_agent:
  assumes "sign_certificate lib ca csr agent_ids days comps dns ips usage now serial = Some pem"
  shows "\<exists>b aic. agent_ids = [aic] \<and> x5_sign lib b = Some pem \<and> names_agent b aic \<and> cb_key b = csr_public_key csr
     \<and> cb_serial b = serial \<and> cb_not_before b = now \<and> cb_not_after b = now + days * DAY
     \<and> cb_key_usages b = [extended_key_usage usage]"
proof -
  obtain aic where ids: "agent_ids = [aic]"
    using assms by (auto simp: sign_certificate_def split: if_splits list.splits)
  obtain subject sans b where subject: "build_certificate_subject lib aic comps = Some subject"
    and sans: "agent_sans lib aic dns ips = Some sans" and pem: "x5_sign lib b = Some pem"
    and b: "b = \<lparr>cb_subject = subject, cb_issuer = ca_subject ca, cb_key = csr_public_key csr, cb_serial = serial,
              cb_not_before = now, cb_not_after = now + days * DAY, cb_is_ca = False, cb_digital_signature = True,
              cb_key_encipherment = (\<not> is_ed25519 (csr_public_key csr)), cb_key_usages = [extended_key_usage usage],
              cb_ocsp_url = ca_ocsp_url ca, cb_crl_url = ca_crl_url ca, cb_san = sans\<rparr>"
    using assms by (auto simp: sign_certificate_def ids split: if_splits bind_split_asm)
  have "map_of subject ''CN'' = Some (PStr aic)"
    using subject by (auto simp: build_certificate_subject_def build_agent_common_name_def Let_def split: if_splits)
  moreover have "SanUri (''acps://'' @ aic) \<in> set sans \<and> (\<forall>u. SanUri u \<in> set sans \<longrightarrow> u = ''acps://'' @ aic)"
    using sans by (auto simp: agent_sans_def ip_sans_def dest: dns_sans_no_uri)
  ultimately have "names_agent b aic \<and> cb_key b = csr_public_key csr \<and> cb_serial b = serial \<and> cb_not_before b = now
      \<and> cb_not_after b = now + days * DAY \<and> cb_key_usages b = [extended_key_usage usage]"
    by (simp add: b names_agent_def)
  then show ?thesis using ids pem by blast
qed

lemma validity_days_bounds:
  "validity_days v m = Inr d \<Longrightarrow> d \<le> max m DEFAULT_VALIDITY_DAYS \<and> (0 < m \<longrightarrow> 0 < d)"
  by (cases v) (auto simp: DEFAULT_VALIDITY_DAYS_def split: if_splits)

end
