(* ===== verification/AcmeModel.thy ===== *)
theory AcmeModel
  imports CaSign
begin

text \<open>
  The state of the ACME server: the tables of \<open>ca-server/app/acme/model.py\<close> and \<open>ca-server/app/common/certificate_model.py\<close>,
  the part of the registry server it talks to (\<open>registry-server/app/eab/service.py\<close>), and operations on a database session
  that may raise. Everything a request takes from outside (clock, random bytes, serial numbers, the links to the registry,
  the registry's answers about agents) is a function of a counter of external events.
\<close>

subsection \<open>Tables\<close>

datatype account_status = AccountValid | AccountDeactivated | AccountRevoked
datatype order_status = OrderPending | OrderReady | OrderProcessing | OrderValid | OrderInvalid
datatype authz_status = AuthzPending | AuthzValid | AuthzInvalid | AuthzDeactivated | AuthzExpired | AuthzRevoked
datatype cert_status = CertPending | CertValid | CertRevoked | CertExpired
datatype cert_type = RootCert | IntermediateCert | UserCert | AgentCert
datatype revocation_reason = Unspecified | KeyCompromise | CaCompromise | AffiliationChanged | Superseded | CessationOfOperation

record acme_nonce =
  no_nonce :: string
  no_used :: bool
  no_expires :: int

record acme_account =
  ac_id :: int
  ac_key_id :: string
  ac_public_key :: public_jwk
  ac_status :: account_status
  ac_contact :: pyval
  ac_terms_agreed :: bool
  ac_eab :: pyval
  ac_aic :: "string option"
  ac_created_at :: int
  ac_updated_at :: "int option"

type_synonym order_identifier = "(string \<times> string) list"

record acme_order =
  or_id :: int
  or_order_id :: string
  or_account_id :: int
  or_status :: order_status
  or_identifiers :: "order_identifier list"
  or_not_before :: "int option"
  or_not_after :: "int option"
  or_authorizations :: "string list option"
  or_certificate :: "string option"
  or_expires :: int
  or_updated_at :: "int option"

record acme_authz =
  az_id :: int
  az_authz_id :: string
  az_order_id :: int
  az_identifier :: order_identifier
  az_status :: authz_status
  az_expires :: int
  az_updated_at :: "int option"

record acme_cert =
  ce_id :: int
  ce_cert_id :: string
  ce_order_id :: int
  ce_serial :: string
  ce_pem :: string
  ce_status :: cert_status
  ce_subject :: "(string \<times> pyval) list"
  ce_not_before :: int
  ce_not_after :: int
  ce_revoked_at :: "int option"
  ce_reason :: "revocation_reason option"
  ce_aic :: "string option"

record common_cert =
  cc_id :: int
  cc_type :: cert_type
  cc_serial :: string
  cc_subject :: string
  cc_issuer :: string
  cc_status :: cert_status
  cc_expires_at :: int
  cc_revoked_at :: "int option"
  cc_reason :: "revocation_reason option"
  cc_pem :: string
  cc_public_key :: "public_key option"
  cc_version :: nat
  cc_parent :: "int option"
  cc_aic :: "string option"
  cc_created_at :: int

record acme_db =
  db_nonces :: "acme_nonce list"
  db_accounts :: "acme_account list"
  db_orders :: "acme_order list"
  db_authzs :: "acme_authz list"
  db_certs :: "acme_cert list"
  db_common :: "common_cert list"

definition empty_db :: acme_db where
  "empty_db = \<lparr>db_nonces = [], db_accounts = [], db_orders = [], db_authzs = [], db_certs = [], db_common = []\<rparr>"

text \<open>\<open>RevocationReason.from_acme_code\<close> and its inverse.\<close>

definition from_acme_code :: "int \<Rightarrow> revocation_reason" where
  "from_acme_code code = (if code = 1 then KeyCompromise else if code = 2 then CaCompromise else if code = 3 then AffiliationChanged
     else if code = 4 then Superseded else if code = 5 then CessationOfOperation else Unspecified)"

definition to_acme_code :: "revocation_reason \<Rightarrow> int" where
  "to_acme_code r = (case r of Unspecified \<Rightarrow> 0 | KeyCompromise \<Rightarrow> 1 | CaCompromise \<Rightarrow> 2 | AffiliationChanged \<Rightarrow> 3 | Superseded \<Rightarrow> 4
     | CessationOfOperation \<Rightarrow> 5)"

text \<open>An \<open>UPDATE\<close>: the row with the same primary key is replaced.\<close>

definition replace_row :: "('a \<Rightarrow> 'k) \<Rightarrow> 'a \<Rightarrow> 'a list \<Rightarrow> 'a list" where
  "replace_row key a rows = map (\<lambda>b. if key b = key a then a else b) rows"

subsection \<open>The registry server\<close>

record eab_credential =
  ec_key_id :: string
  ec_mac_key_encrypted :: string
  ec_aic :: string
  ec_user :: string
  ec_consumed :: bool
  ec_expires_at :: int

record reg_agent =
  ra_aic :: string
  ra_owner :: "string option"
  ra_active :: bool
  ra_deleted :: bool
  ra_disabled :: bool

record registry =
  rg_agents :: "reg_agent list"
  rg_credentials :: "eab_credential list"

datatype http_reply = HttpReply nat "pyval option" \<comment> \<open>status, JSON body\<close>

definition generate_eab_credential ::
    "string \<Rightarrow> string \<Rightarrow> string \<Rightarrow> string \<Rightarrow> int \<Rightarrow> registry \<Rightarrow> (acme_exn, eab_credential) result \<times> registry" where
  "generate_eab_credential user agent_aic key_id mac_encrypted expires r =
     (let normalized_aic = upper (strip agent_aic) in
      case List.find (\<lambda>a. ra_aic a = normalized_aic) (rg_agents r) of
        None \<Rightarrow> (Inl (Acme 403 ''AGENT_AIC_NOT_OWNED''), r)
      | Some a \<Rightarrow>
          if ra_owner a \<noteq> Some user then (Inl (Acme 403 ''AGENT_AIC_NOT_OWNED''), r)
          else if \<not> ra_active a \<or> ra_deleted a \<or> ra_disabled a then (Inl (Acme 403 ''AGENT_AIC_INACTIVE''), r)
          else if key_id \<in> ec_key_id ` set (rg_credentials r) then (Inl (Unhandled ''IntegrityError''), r)
          else (let c = \<lparr>ec_key_id = key_id, ec_mac_key_encrypted = mac_encrypted, ec_aic = normalized_aic, ec_user = user,
                   ec_consumed = False, ec_expires_at = expires\<rparr> in
            (Inr c, r\<lparr>rg_credentials := rg_credentials r @ [c]\<rparr>)))"

definition consume_credential :: "(string \<Rightarrow> string) \<Rightarrow> int \<Rightarrow> string \<Rightarrow> registry \<Rightarrow> http_reply \<times> registry" where
  "consume_credential decrypt now key_id r =
     (case List.find (\<lambda>c. ec_key_id c = key_id) (rg_credentials r) of
        None \<Rightarrow> (HttpReply 404 None, r)
      | Some c \<Rightarrow>
          if ec_consumed c then (HttpReply 400 None, r)
          else if ec_expires_at c \<le> now then (HttpReply 400 None, r)
          else (HttpReply 200 (Some (PDict [(''macKey'', PStr (decrypt (ec_mac_key_encrypted c))), (''aic'', PStr (ec_aic c))])),
            r\<lparr>rg_credentials := map (\<lambda>d. if ec_key_id d = key_id then d\<lparr>ec_consumed := True\<rparr> else d) (rg_credentials r)\<rparr>))"

text \<open>\<open>require_internal_service_token\<close>: the token of the request against the configured one.\<close>

definition service_token_ok :: "string \<Rightarrow> string \<Rightarrow> bool" where
  "service_token_ok token configured \<longleftrightarrow> token \<noteq> [] \<and> strip configured \<noteq> [] \<and> token = strip configured"

definition eab_consume_route :: "(string \<Rightarrow> string) \<Rightarrow> string \<Rightarrow> string \<Rightarrow> int \<Rightarrow> string \<Rightarrow> registry \<Rightarrow> http_reply \<times> registry" where
  "eab_consume_route decrypt token configured now key_id r =
     (if service_token_ok token configured then consume_credential decrypt now key_id r else (HttpReply 401 None, r))"

subsection \<open>The surroundings of the server\<close>

text \<open>What happens to one HTTP call: it arrives, the request is lost, the reply is lost, or the client fails otherwise.\<close>

datatype link = LinkOk | RequestLost | ReplyLost | ClientError

record acme_env =
  en_crypto :: crypto
  en_x509 :: x509_lib
  en_ca :: ca_config
  en_directory_url :: string
  en_service_token :: string
  en_registry_token :: string
  en_max_retries :: nat
  en_now :: "nat \<Rightarrow> int"
  en_random :: "nat \<Rightarrow> bytes"
  en_serial :: "nat \<Rightarrow> nat"
  en_link :: "nat \<Rightarrow> link"
  en_acs :: "nat \<Rightarrow> string \<Rightarrow> http_reply"
  en_decrypt :: "string \<Rightarrow> string"
  en_str :: "pyval \<Rightarrow> string" \<comment> \<open>\<open>str\<close> of a value that is not a string\<close>
  en_bool :: "pyval \<Rightarrow> bool option" \<comment> \<open>what pydantic reads as a \<open>bool\<close>\<close>
  en_datetime :: "pyval \<Rightarrow> int option" \<comment> \<open>what pydantic reads as a \<open>datetime\<close>\<close>
  en_account_status :: "pyval \<Rightarrow> account_status option" \<comment> \<open>what the column of the account status takes\<close>
  en_format :: "int \<Rightarrow> string" \<comment> \<open>\<open>format_datetime\<close>\<close>

text \<open>A run: the session's view of the tables, the registry, the sequences and the external events so far.\<close>

record acme_run =
  run_db :: acme_db
  run_registry :: registry
  run_seq :: nat
  run_tick :: nat

type_synonym 'a acme_op = "acme_run \<Rightarrow> (acme_exn, 'a) result \<times> acme_run"

definition acme_return :: "'a \<Rightarrow> 'a acme_op" where
  "acme_return a w = (Inr a, w)"

definition acme_raise :: "acme_exn \<Rightarrow> 'a acme_op" where
  "acme_raise e w = (Inl e, w)"

definition acme_lift :: "(acme_exn, 'a) result \<Rightarrow> 'a acme_op" where
  "acme_lift r w = (r, w)"

definition acme_then :: "'a acme_op \<Rightarrow> ('a \<Rightarrow> 'b acme_op) \<Rightarrow> 'b acme_op" where
  "acme_then m k w = (case m w of (Inl e, w') \<Rightarrow> (Inl e, w') | (Inr a, w') \<Rightarrow> k a w')"

definition acme_require :: "bool \<Rightarrow> nat \<Rightarrow> string \<Rightarrow> unit acme_op" where
  "acme_require b status code = (if b then acme_return () else acme_raise (Acme status code))"

definition acme_get :: "(acme_db \<Rightarrow> 'a) \<Rightarrow> 'a acme_op" where
  "acme_get f w = (Inr (f (run_db w)), w)"

definition acme_put :: "(acme_db \<Rightarrow> acme_db) \<Rightarrow> unit acme_op" where
  "acme_put f w = (Inr (), w\<lparr>run_db := f (run_db w)\<rparr>)"

definition acme_external :: "(nat \<Rightarrow> 'a) \<Rightarrow> 'a acme_op" where
  "acme_external f w = (Inr (f (run_tick w)), w\<lparr>run_tick := Suc (run_tick w)\<rparr>)"

text \<open>A primary key: the sequence of the table does not go back when the session is rolled back.\<close>

definition next_id :: "int acme_op" where
  "next_id w = (Inr (int (Suc (run_seq w))), w\<lparr>run_seq := Suc (run_seq w)\<rparr>)"

fun acme_each :: "('a \<Rightarrow> 'b acme_op) \<Rightarrow> 'a list \<Rightarrow> 'b list acme_op" where
  "acme_each f [] = acme_return []"
| "acme_each f (x # xs) = acme_then (f x) (\<lambda>y. acme_then (acme_each f xs) (\<lambda>ys. acme_return (y # ys)))"

definition beijing_now :: "acme_env \<Rightarrow> int acme_op" where
  "beijing_now env = acme_external (en_now env)"

text \<open>An \<open>INSERT\<close> into a table with a unique column.\<close>

definition acme_insert :: "(acme_db \<Rightarrow> bool) \<Rightarrow> (acme_db \<Rightarrow> acme_db) \<Rightarrow> unit acme_op" where
  "acme_insert taken f = acme_then (acme_get taken) (\<lambda>dup. if dup then acme_raise (Unhandled ''IntegrityError'') else acme_put f)"

text \<open>
  \<open>get_async_session\<close>: the session commits when the handler returns and is rolled back when it raises. The registry is
  another server; what it has stored stays.
\<close>

definition in_session :: "'a acme_op \<Rightarrow> 'a acme_op" where
  "in_session h w = (case h w of (Inr a, w') \<Rightarrow> (Inr a, w') | (Inl e, w') \<Rightarrow> (Inl e, w'\<lparr>run_db := run_db w\<rparr>))"

subsection \<open>The registry client\<close>

datatype 'a http_outcome = Replied 'a | NoReply | OtherFailure

text \<open>One attempt: what the link does with a call that changes the registry by \<open>serve\<close>.\<close>

definition http_attempt :: "acme_env \<Rightarrow> (nat \<Rightarrow> registry \<Rightarrow> http_reply \<times> registry) \<Rightarrow> http_reply http_outcome acme_op" where
  "http_attempt env serve w =
     (let t = run_tick w; (reply, r') = serve t (run_registry w); w' = w\<lparr>run_tick := Suc t\<rparr> in
      case en_link env t of
        LinkOk \<Rightarrow> (Inr (Replied reply), w'\<lparr>run_registry := r'\<rparr>)
      | RequestLost \<Rightarrow> (Inr NoReply, w')
      | ReplyLost \<Rightarrow> (Inr NoReply, w'\<lparr>run_registry := r'\<rparr>)
      | ClientError \<Rightarrow> (Inr OtherFailure, w'))"

text \<open>\<open>httpx.RequestError\<close> is tried again, any other exception is not; the argument counts the attempts left.\<close>

fun make_request_with_retry :: "acme_env \<Rightarrow> (nat \<Rightarrow> registry \<Rightarrow> http_reply \<times> registry) \<Rightarrow> nat \<Rightarrow> http_reply option acme_op" where
  "make_request_with_retry env serve 0 = acme_return None"
| "make_request_with_retry env serve (Suc attempts) =
     acme_then (http_attempt env serve) (\<lambda>outcome. case outcome of
       Replied reply \<Rightarrow> acme_return (Some reply)
     | NoReply \<Rightarrow> make_request_with_retry env serve attempts
     | OtherFailure \<Rightarrow> acme_return None)"

text \<open>The JSON body of a reply with status 200.\<close>

definition ok_body :: "http_reply option \<Rightarrow> pyval option" where
  "ok_body response = (case response of None \<Rightarrow> None | Some (HttpReply status body) \<Rightarrow> if status = 200 then body else None)"

fun credential_of :: "pyval \<Rightarrow> (string \<times> string) option" where
  "credential_of (PDict payload) = (case (dict_get payload ''macKey'', dict_get payload ''aic'') of
     (PStr mac_key, PStr aic) \<Rightarrow> Some (mac_key, aic)
   | _ \<Rightarrow> None)"
| "credential_of _ = None"

definition consume_eab_credential :: "acme_env \<Rightarrow> string \<Rightarrow> (string \<times> string) option acme_op" where
  "consume_eab_credential env key_id =
     acme_then (make_request_with_retry env
         (\<lambda>t. eab_consume_route (en_decrypt env) (en_service_token env) (en_registry_token env) (en_now env t) key_id)
         (Suc (en_max_retries env))) (\<lambda>response.
     acme_return (Option.bind (ok_body response) credential_of))"

text \<open>The status that the registry answers, the AIC and the flag decide; every failure is \<open>None\<close>.\<close>

definition accept_agent :: "string \<Rightarrow> http_reply option \<Rightarrow> agent_info option" where
  "accept_agent aic response = Option.bind (ok_body response) (\<lambda>data. Option.bind (new_agent_info data) (\<lambda>ai.
     if ai_aic ai \<noteq> PStr aic then None else if \<not> ai_active ai then None else Some ai))"

definition validate_aic_and_get_info :: "acme_env \<Rightarrow> string \<Rightarrow> agent_info option acme_op" where
  "validate_aic_and_get_info env aic =
     acme_then (make_request_with_retry env (\<lambda>t r. (en_acs env t aic, r)) (Suc (en_max_retries env))) (\<lambda>response.
     acme_return (accept_agent aic response))"

end
