(* ===== verification/AcmeService.thy ===== *)
theory AcmeService
  imports AcmeModel
begin

text \<open>
  The services of \<open>ca-server/app/acme/service.py\<close> for nonces, accounts, orders and authorizations, one definition per
  method, as operations on a session; \<open>notify_certificate_requests\<close> has no effect and is left out.
\<close>

subsection \<open>Nonces\<close>

definition HOUR :: int where
  "HOUR = 3600000000"

definition generate_nonce :: "acme_env \<Rightarrow> string acme_op" where
  "generate_nonce env =
     acme_then (acme_external (\<lambda>t. base64url_encode (en_random env t))) (\<lambda>nonce.
     acme_then (beijing_now env) (\<lambda>now.
     acme_then (acme_insert (\<lambda>db. nonce \<in> no_nonce ` set (db_nonces db))
       (\<lambda>db. db\<lparr>db_nonces := db_nonces db @ [\<lparr>no_nonce = nonce, no_used = False, no_expires = now + HOUR\<rparr>]\<rparr>)) (\<lambda>_.
     acme_return nonce)))"

definition nonce_usable :: "string \<Rightarrow> int \<Rightarrow> acme_nonce \<Rightarrow> bool" where
  "nonce_usable nonce now n \<longleftrightarrow> no_nonce n = nonce \<and> \<not> no_used n \<and> now < no_expires n"

definition use_nonce :: "string \<Rightarrow> acme_db \<Rightarrow> acme_db" where
  "use_nonce nonce db = db\<lparr>db_nonces := map (\<lambda>n. if no_nonce n = nonce then n\<lparr>no_used := True\<rparr> else n) (db_nonces db)\<rparr>"

definition validate_and_consume_nonce :: "acme_env \<Rightarrow> string \<Rightarrow> bool acme_op" where
  "validate_and_consume_nonce env nonce =
     acme_then (beijing_now env) (\<lambda>now.
     acme_then (acme_get (\<lambda>db. list_ex (nonce_usable nonce now) (db_nonces db))) (\<lambda>found.
     if \<not> found then acme_return False
     else acme_then (acme_put (use_nonce nonce)) (\<lambda>_. acme_return True)))"

definition cleanup_expired_nonces :: "acme_env \<Rightarrow> unit acme_op" where
  "cleanup_expired_nonces env =
     acme_then (beijing_now env) (\<lambda>now.
     acme_put (\<lambda>db. db\<lparr>db_nonces := filter (\<lambda>n. \<not> no_expires n \<le> now) (db_nonces db)\<rparr>))"

text \<open>A nonce that is no string cannot be compared with the column: the query raises.\<close>

definition verify_nonce :: "acme_env \<Rightarrow> json_object \<Rightarrow> unit acme_op" where
  "verify_nonce env protected =
     (let nonce = dict_get protected ''nonce'' in
      if \<not> truthy nonce then acme_raise (Acme 400 ''BAD_NONCE'')
      else case nonce of
        PStr s \<Rightarrow> acme_then (validate_and_consume_nonce env s) (\<lambda>ok. acme_require ok 400 ''BAD_NONCE'')
      | _ \<Rightarrow> acme_raise (Unhandled ''DBAPIError''))"

text \<open>Any exception that is not an \<open>AcmeException\<close> is reported as a malformed request.\<close>

definition as_malformed :: "'a acme_op \<Rightarrow> 'a acme_op" where
  "as_malformed m w = (case m w of
     (Inl (Unhandled _), w') \<Rightarrow> (Inl (Acme 400 ''MALFORMED_REQUEST''), w')
   | r \<Rightarrow> r)"

definition parse_jws_request :: "acme_env \<Rightarrow> jws_request \<Rightarrow> string \<Rightarrow> (json_object \<times> json_object) acme_op" where
  "parse_jws_request env r expected_url = as_malformed (
     acme_then (acme_lift (parse_protected_header (en_crypto env) (jr_protected r))) (\<lambda>protected.
     acme_then (acme_lift (parse_payload (en_crypto env) (jr_payload r))) (\<lambda>payload.
     acme_then (verify_nonce env protected) (\<lambda>_.
     if expected_url \<noteq> [] \<and> dict_get protected ''url'' \<noteq> PStr expected_url then acme_raise (Acme 400 ''MALFORMED_REQUEST'')
     else acme_return (protected, payload)))))"

subsection \<open>Accounts\<close>

definition ensure_account_is_active :: "acme_account \<Rightarrow> unit acme_op" where
  "ensure_account_is_active account = acme_require (ac_status account \<noteq> AccountDeactivated) 403 ''UNAUTHORIZED''"

definition get_account_by_key_id :: "string \<Rightarrow> acme_account option acme_op" where
  "get_account_by_key_id key_id = acme_get (\<lambda>db. List.find (\<lambda>a. ac_key_id a = key_id) (db_accounts db))"

text \<open>The column is a four-byte integer.\<close>

definition get_account_by_id :: "int \<Rightarrow> acme_account option acme_op" where
  "get_account_by_id account_id =
     (if account_id < - (2 ^ 31) \<or> 2 ^ 31 \<le> account_id then acme_raise (Unhandled ''DBAPIError'')
      else acme_get (\<lambda>db. List.find (\<lambda>a. ac_id a = account_id) (db_accounts db)))"

text \<open>\<open>int(s)\<close>: white space around, a sign, digits with single underscores between them.\<close>

fun int_digits :: "bool \<Rightarrow> nat \<Rightarrow> string \<Rightarrow> nat option" where
  "int_digits after_digit acc [] = (if after_digit then Some acc else None)"
| "int_digits after_digit acc (c # cs) =
     (if is_digit c then int_digits True (10 * acc + digit_value c) cs
      else if c = CHR ''_'' \<and> after_digit then int_digits False acc cs
      else None)"

definition python_int :: "string \<Rightarrow> int option" where
  "python_int s = (case strip s of
     [] \<Rightarrow> None
   | c # cs \<Rightarrow> if c = CHR ''-'' then map_option (\<lambda>n. - int n) (int_digits False 0 cs)
       else if c = CHR ''+'' then map_option int (int_digits False 0 cs)
       else map_option int (int_digits False 0 (c # cs)))"

definition account_of_kid :: "pyval \<Rightarrow> acme_account option acme_op" where
  "account_of_kid kid = (case kid of
     PStr account_url \<Rightarrow>
       (case python_int (last (split_on CHR ''/'' account_url)) of
          None \<Rightarrow> acme_raise (Unhandled ''ValueError'')
        | Some account_id \<Rightarrow> get_account_by_id account_id)
   | _ \<Rightarrow> acme_raise (Unhandled ''AttributeError''))"

definition get_account_from_request :: "acme_env \<Rightarrow> json_object \<Rightarrow> acme_account acme_op" where
  "get_account_from_request env protected =
     acme_then
       (if has_key protected ''kid'' then account_of_kid (dict_get protected ''kid'')
        else if has_key protected ''jwk'' then
          acme_then (acme_lift (public_jwk_projection (dict_get protected ''jwk''))) (\<lambda>jwk.
          acme_then (acme_lift (compute_jwk_thumbprint (en_crypto env) (jwk_value jwk))) (\<lambda>key_id.
          get_account_by_key_id key_id))
        else acme_raise (Acme 400 ''MALFORMED_REQUEST'')) (\<lambda>found.
     case found of
       None \<Rightarrow> acme_raise (Acme 404 ''ACCOUNT_NOT_FOUND'')
     | Some account \<Rightarrow> acme_then (ensure_account_is_active account) (\<lambda>_. acme_return account))"

definition get_account_by_jwk :: "acme_env \<Rightarrow> json_object \<Rightarrow> acme_account option acme_op" where
  "get_account_by_jwk env protected = (case dict_get protected ''jwk'' of
     PDict jwk \<Rightarrow>
       acme_then (acme_lift (compute_jwk_thumbprint (en_crypto env) (PDict jwk))) (\<lambda>key_id.
       acme_then (get_account_by_key_id key_id) (\<lambda>found.
       case found of
         None \<Rightarrow> acme_return None
       | Some account \<Rightarrow> acme_then (ensure_account_is_active account) (\<lambda>_. acme_return (Some account))))
   | _ \<Rightarrow> acme_return None)"

text \<open>The arguments of \<open>create_account\<close>: \<open>AccountCreate\<close> takes a list of strings or nothing as contact.\<close>

record account_create =
  new_key_id :: string
  new_public_key :: public_jwk
  new_contact :: pyval
  new_terms_agreed :: bool
  new_eab :: pyval
  new_aic :: "string option"

definition create_account :: "acme_env \<Rightarrow> account_create \<Rightarrow> acme_account acme_op" where
  "create_account env d =
     acme_then (get_account_by_key_id (new_key_id d)) (\<lambda>existing.
     case existing of
       Some account \<Rightarrow> acme_return account
     | None \<Rightarrow>
         acme_then (beijing_now env) (\<lambda>now.
         acme_then next_id (\<lambda>i.
         let account = \<lparr>ac_id = i, ac_key_id = new_key_id d, ac_public_key = new_public_key d, ac_status = AccountValid,
           ac_contact = new_contact d, ac_terms_agreed = new_terms_agreed d, ac_eab = new_eab d, ac_aic = new_aic d,
           ac_created_at = now, ac_updated_at = None\<rparr> in
         acme_then (acme_insert (\<lambda>db. new_key_id d \<in> ac_key_id ` set (db_accounts db))
           (\<lambda>db. db\<lparr>db_accounts := db_accounts db @ [account]\<rparr>)) (\<lambda>_. acme_return account))))"

definition put_account :: "acme_account \<Rightarrow> acme_db \<Rightarrow> acme_db" where
  "put_account a db = db\<lparr>db_accounts := replace_row ac_id a (db_accounts db)\<rparr>"

text \<open>The caller passes the account with its fields set; the columns check what was set, the key is unique.\<close>

definition update_account_row :: "acme_env \<Rightarrow> acme_account \<Rightarrow> acme_account acme_op" where
  "update_account_row env account =
     acme_then (beijing_now env) (\<lambda>now.
     let account' = account\<lparr>ac_updated_at := Some now\<rparr> in
     acme_then (acme_insert (\<lambda>db. \<exists>b\<in>set (db_accounts db). ac_id b \<noteq> ac_id account \<and> ac_key_id b = ac_key_id account)
       (put_account account')) (\<lambda>_.
     acme_return account'))"

definition update_account_fields :: "acme_env \<Rightarrow> acme_account \<Rightarrow> pyval option \<Rightarrow> pyval option \<Rightarrow> acme_account acme_op" where
  "update_account_fields env account contact status =
     (let account' = (case contact of None \<Rightarrow> account | Some c \<Rightarrow> account\<lparr>ac_contact := c\<rparr>) in
      case status of
        None \<Rightarrow> update_account_row env account'
      | Some s \<Rightarrow>
          (case en_account_status env s of
             None \<Rightarrow> acme_raise (Unhandled ''DBAPIError'')
           | Some st \<Rightarrow> update_account_row env (account'\<lparr>ac_status := st\<rparr>)))"

definition required_string :: "json_object \<Rightarrow> string \<Rightarrow> (acme_exn, string) result" where
  "required_string d k = (case dict_get d k of PStr s \<Rightarrow> Inr s | _ \<Rightarrow> Inl (Acme 400 ''MALFORMED_REQUEST''))"

definition inner_jws :: "json_object \<Rightarrow> (acme_exn, jws_request) result" where
  "inner_jws payload =
     bind_result (required_string payload ''protected'') (\<lambda>p.
     bind_result (required_string payload ''payload'') (\<lambda>l.
     bind_result (required_string payload ''signature'') (\<lambda>s.
     if p = [] \<or> l = [] \<or> s = [] then Inl (Acme 400 ''MALFORMED_REQUEST'')
     else Inr \<lparr>jr_protected = p, jr_payload = l, jr_signature = s\<rparr>)))"

text \<open>The new key: the header of the inner request holds it and it has signed the inner request.\<close>

definition inner_key :: "crypto \<Rightarrow> jws_request \<Rightarrow> (acme_exn, public_jwk) result" where
  "inner_key cr inner =
     bind_result (parse_protected_header cr (jr_protected inner)) (\<lambda>header.
     if \<not> has_key header ''jwk'' then Inl (Acme 400 ''MALFORMED_REQUEST'')
     else bind_result (public_jwk_projection (dict_get header ''jwk'')) (\<lambda>new_jwk.
     bind_result (verify_jws_signature_with_jwk cr inner (jwk_value new_jwk)) (\<lambda>_.
     Inr new_jwk)))"

definition check_inner_payload :: "acme_account \<Rightarrow> string \<Rightarrow> json_object \<Rightarrow> (acme_exn, unit) result" where
  "check_inner_payload account base_url inner_payload =
     (if dict_get inner_payload ''account'' \<noteq> PStr (base_url @ ''/acct/'' @ int_to_str (ac_id account))
      then Inl (Acme 400 ''MALFORMED_REQUEST'')
      else case dict_get inner_payload ''oldKey'' of
        PDict old \<Rightarrow> bind_result (public_jwk_projection (PDict old)) (\<lambda>p.
          if p \<noteq> ac_public_key account then Inl (Acme 400 ''MALFORMED_REQUEST'') else Inr ())
      | _ \<Rightarrow> Inl (Acme 400 ''MALFORMED_REQUEST''))"

definition apply_key_change :: "acme_env \<Rightarrow> acme_account \<Rightarrow> json_object \<Rightarrow> string \<Rightarrow> acme_account acme_op" where
  "apply_key_change env account payload base_url =
     (let cr = en_crypto env in
      acme_then (acme_lift (inner_jws payload)) (\<lambda>inner.
      acme_then (acme_lift (inner_key cr inner)) (\<lambda>new_jwk.
      acme_then (acme_lift (parse_payload cr (jr_payload inner))) (\<lambda>inner_payload.
      acme_then (acme_lift (check_inner_payload account base_url inner_payload)) (\<lambda>_.
      acme_then (acme_lift (compute_jwk_thumbprint cr (jwk_value new_jwk))) (\<lambda>new_key_id.
      acme_then (get_account_by_key_id new_key_id) (\<lambda>existing.
      if (case existing of Some a \<Rightarrow> ac_id a \<noteq> ac_id account | None \<Rightarrow> False) then acme_raise (Acme 409 ''KEY_IN_USE'')
      else update_account_row env (account\<lparr>ac_key_id := new_key_id, ac_public_key := new_jwk\<rparr>))))))))"

subsection \<open>Orders\<close>

definition create_order_row :: "acme_env \<Rightarrow> int \<Rightarrow> order_identifier list \<Rightarrow> int option \<Rightarrow> int option \<Rightarrow> acme_order acme_op" where
  "create_order_row env account_id identifiers not_before not_after =
     acme_then (acme_external (\<lambda>t. ''order_'' @ base64url_encode (en_random env t))) (\<lambda>order_id.
     acme_then (beijing_now env) (\<lambda>now.
     acme_then next_id (\<lambda>i.
     let order = \<lparr>or_id = i, or_order_id = order_id, or_account_id = account_id, or_status = OrderPending,
       or_identifiers = identifiers, or_not_before = not_before, or_not_after = not_after, or_authorizations = None,
       or_certificate = None, or_expires = now + DAY, or_updated_at = None\<rparr> in
     acme_then (acme_insert (\<lambda>db. order_id \<in> or_order_id ` set (db_orders db))
       (\<lambda>db. db\<lparr>db_orders := db_orders db @ [order]\<rparr>)) (\<lambda>_. acme_return order))))"

definition get_order_by_id :: "string \<Rightarrow> acme_order option acme_op" where
  "get_order_by_id order_id = acme_get (\<lambda>db. List.find (\<lambda>r. or_order_id r = order_id) (db_orders db))"

definition get_order_by_pk :: "int \<Rightarrow> acme_order option acme_op" where
  "get_order_by_pk pk = acme_get (\<lambda>db. List.find (\<lambda>r. or_id r = pk) (db_orders db))"

definition put_order :: "acme_order \<Rightarrow> acme_db \<Rightarrow> acme_db" where
  "put_order r db = db\<lparr>db_orders := replace_row or_id r (db_orders db)\<rparr>"

definition update_order_status :: "acme_env \<Rightarrow> acme_order \<Rightarrow> order_status \<Rightarrow> acme_order acme_op" where
  "update_order_status env order st =
     acme_then (beijing_now env) (\<lambda>now.
     let order' = order\<lparr>or_status := st, or_updated_at := Some now\<rparr> in
     acme_then (acme_put (put_order order')) (\<lambda>_. acme_return order'))"

definition mark_ready_with_authorizations :: "acme_env \<Rightarrow> acme_order \<Rightarrow> string list \<Rightarrow> acme_order acme_op" where
  "mark_ready_with_authorizations env order authorizations =
     update_order_status env (order\<lparr>or_authorizations := Some authorizations\<rparr>) OrderReady"

definition str_of :: "acme_env \<Rightarrow> pyval \<Rightarrow> string" where
  "str_of env v = (case v of PStr s \<Rightarrow> s | _ \<Rightarrow> en_str env v)"

definition normalized_usage :: "acme_env \<Rightarrow> pyval \<Rightarrow> (acme_exn, order_identifier) result" where
  "normalized_usage env raw_usage =
     (if raw_usage = PNone then Inr []
      else let usage = strip (str_of env raw_usage) in
        if usage \<notin> {''clientAuth'', ''serverAuth''} then Inl (Acme 400 ''MALFORMED_REQUEST'') else Inr [(''usage'', usage)])"

definition normalize_identifier :: "acme_env \<Rightarrow> string \<Rightarrow> pyval \<Rightarrow> order_identifier acme_op" where
  "normalize_identifier env account_aic v = (case v of
     PDict d \<Rightarrow>
       if dict_get d ''type'' \<noteq> PStr ''agent'' then acme_raise (Acme 400 ''UNSUPPORTED_IDENTIFIER'')
       else let raw_aic = dict_get d ''value'' in
         if \<not> truthy raw_aic then acme_raise (Acme 400 ''MALFORMED_REQUEST'')
         else let normalized_aic = upper (strip (str_of env raw_aic)) in
           if normalized_aic \<noteq> account_aic then acme_raise (Acme 400 ''INVALID_IDENTIFIER'')
           else acme_then (validate_aic_and_get_info env normalized_aic) (\<lambda>agent_info.
             if agent_info = None then acme_raise (Acme 400 ''INVALID_IDENTIFIER'')
             else acme_then (acme_lift (normalized_usage env (dict_get d ''usage''))) (\<lambda>usage.
               acme_return ([(''type'', ''agent''), (''value'', normalized_aic)] @ usage)))
   | _ \<Rightarrow> acme_raise (Unhandled ''AttributeError''))"

text \<open>The identifiers of the payload: what is not a list of objects raises on the way.\<close>

definition normalize_and_validate_agent_identifiers :: "acme_env \<Rightarrow> pyval \<Rightarrow> string \<Rightarrow> order_identifier list acme_op" where
  "normalize_and_validate_agent_identifiers env identifiers account_aic =
     (if \<not> truthy identifiers then acme_raise (Acme 400 ''MALFORMED_REQUEST'')
      else case identifiers of
        PList vs \<Rightarrow> acme_each (normalize_identifier env account_aic) vs
      | _ \<Rightarrow> acme_raise (Unhandled ''AttributeError''))"

subsection \<open>Authorizations\<close>

definition put_authz :: "acme_authz \<Rightarrow> acme_db \<Rightarrow> acme_db" where
  "put_authz a db = db\<lparr>db_authzs := replace_row az_id a (db_authzs db)\<rparr>"

definition create_authorization :: "acme_env \<Rightarrow> int \<Rightarrow> order_identifier \<Rightarrow> int \<Rightarrow> acme_authz acme_op" where
  "create_authorization env order_pk identifier expires =
     acme_then (acme_external (\<lambda>t. ''authz_'' @ base64url_encode (en_random env t))) (\<lambda>authz_id.
     acme_then next_id (\<lambda>i.
     let authz = \<lparr>az_id = i, az_authz_id = authz_id, az_order_id = order_pk, az_identifier = identifier,
       az_status = AuthzPending, az_expires = expires, az_updated_at = None\<rparr> in
     acme_then (acme_insert (\<lambda>db. authz_id \<in> az_authz_id ` set (db_authzs db))
       (\<lambda>db. db\<lparr>db_authzs := db_authzs db @ [authz]\<rparr>)) (\<lambda>_. acme_return authz)))"

definition update_authorization_status :: "acme_env \<Rightarrow> acme_authz \<Rightarrow> authz_status \<Rightarrow> acme_authz acme_op" where
  "update_authorization_status env authz st =
     acme_then (beijing_now env) (\<lambda>now.
     let authz' = authz\<lparr>az_status := st, az_updated_at := Some now\<rparr> in
     acme_then (acme_put (put_authz authz')) (\<lambda>_. acme_return authz'))"

definition create_valid_authorization_urls :: "acme_env \<Rightarrow> acme_order \<Rightarrow> order_identifier list \<Rightarrow> string \<Rightarrow> string list acme_op" where
  "create_valid_authorization_urls env order identifiers base_url = acme_each (\<lambda>identifier.
     acme_then (create_authorization env (or_id order) identifier (or_expires order)) (\<lambda>authz.
     acme_then (update_authorization_status env authz AuthzValid) (\<lambda>authz'.
     acme_return (base_url @ ''/authz/'' @ az_authz_id authz')))) identifiers"

text \<open>The authorization with its order, which the foreign key makes exist.\<close>

definition get_authorization_by_id :: "string \<Rightarrow> (acme_authz \<times> acme_order) option acme_op" where
  "get_authorization_by_id authz_id =
     acme_then (acme_get (\<lambda>db. List.find (\<lambda>a. az_authz_id a = authz_id) (db_authzs db))) (\<lambda>found.
     case found of
       None \<Rightarrow> acme_return None
     | Some authz \<Rightarrow>
         acme_then (get_order_by_pk (az_order_id authz)) (\<lambda>found_order.
         case found_order of
           None \<Rightarrow> acme_raise (Unhandled ''AttributeError'')
         | Some order \<Rightarrow> acme_return (Some (authz, order))))"

definition deactivate_authorization :: "acme_env \<Rightarrow> acme_authz \<Rightarrow> acme_order \<Rightarrow> acme_authz acme_op" where
  "deactivate_authorization env authz order =
     (if az_status authz = AuthzDeactivated then acme_return authz
      else if az_status authz \<notin> {AuthzPending, AuthzValid} then acme_raise (Acme 400 ''MALFORMED_REQUEST'')
      else acme_then (beijing_now env) (\<lambda>now.
        let authz' = authz\<lparr>az_status := AuthzDeactivated, az_updated_at := Some now\<rparr> in
        acme_then (acme_put (put_authz authz')) (\<lambda>_.
        if or_status order \<in> {OrderPending, OrderReady, OrderProcessing} then
          acme_then (beijing_now env) (\<lambda>now'.
          acme_then (acme_put (put_order (order\<lparr>or_status := OrderInvalid, or_updated_at := Some now'\<rparr>))) (\<lambda>_.
          acme_return authz'))
        else acme_return authz')))"

end
