(* ===== verification/AcmeCerts.thy ===== *)
theory AcmeCerts
  imports AcmeService
begin

text \<open>
  The certificate service of \<open>ca-server/app/acme/service.py\<close>, the version numbers of
  \<open>ca-server/app/common/certificate_version.py\<close>, and the binding of an account to an AIC in
  \<open>ca-server/app/acme/eab_verifier.py\<close>; \<open>notify_issued_certificates\<close> has no effect and is left out.
\<close>

subsection \<open>Payloads\<close>

text \<open>\<open>decode_csr_payload\<close> and \<open>decode_revoke_certificate_payload\<close>: the decoder gets two more padding characters.\<close>

definition decode_payload :: "pyval \<Rightarrow> (acme_exn, bytes) result" where
  "decode_payload v =
     (if \<not> truthy v then Inl (Acme 400 ''MALFORMED_REQUEST'')
      else case v of
        PStr s \<Rightarrow> (case urlsafe_b64decode (s @ ''=='') of None \<Rightarrow> Inl (Acme 400 ''MALFORMED_REQUEST'') | Some b \<Rightarrow> Inr b)
      | _ \<Rightarrow> Inl (Acme 400 ''MALFORMED_REQUEST''))"

text \<open>A \<open>bool\<close> is an \<open>int\<close>.\<close>

definition validate_revocation_reason :: "pyval \<Rightarrow> (acme_exn, int) result" where
  "validate_revocation_reason reason_code = (case reason_code of
     PNone \<Rightarrow> Inr 0
   | PInt i \<Rightarrow> if i < 0 \<or> 5 < i then Inl (Acme 400 ''MALFORMED_REQUEST'') else Inr i
   | PBool b \<Rightarrow> Inr (if b then 1 else 0)
   | _ \<Rightarrow> Inl (Acme 400 ''MALFORMED_REQUEST''))"

definition verify_csr_identifiers :: "csr \<Rightarrow> order_identifier list \<Rightarrow> (acme_exn, unit) result" where
  "verify_csr_identifiers csr identifiers =
     (if \<not> str_given (csr_common_name csr) then Inl (Acme 400 ''INVALID_CERTIFICATE_FORMAT'')
      else if the (csr_common_name csr) \<notin> set (map (\<lambda>i. pick i ''value'') (filter (\<lambda>i. pick i ''type'' = ''agent'') identifiers))
      then Inl (Acme 400 ''INVALID_CERTIFICATE_FORMAT'')
      else Inr ())"

definition validate_order_agent :: "acme_env \<Rightarrow> order_identifier \<Rightarrow> agent_info acme_op" where
  "validate_order_agent env identifier = (case map_of identifier ''value'' of
     None \<Rightarrow> acme_raise (Acme 400 ''MALFORMED_REQUEST'')
   | Some aic \<Rightarrow>
       if aic = [] then acme_raise (Acme 400 ''MALFORMED_REQUEST'')
       else acme_then (validate_aic_and_get_info env aic) (\<lambda>found.
         case found of
           None \<Rightarrow> acme_raise (Acme 400 ''INVALID_IDENTIFIER'')
         | Some agent_info \<Rightarrow> acme_return agent_info))"

definition validate_order_agents :: "acme_env \<Rightarrow> order_identifier list \<Rightarrow> agent_info list acme_op" where
  "validate_order_agents env identifiers = acme_each (validate_order_agent env) identifiers"

subsection \<open>Issuing\<close>

text \<open>\<open>format(n, "x").upper()\<close>.\<close>

fun hex_upper :: "nat \<Rightarrow> string" where
  "hex_upper n = (if n < 16 then [hex_digit n] else hex_upper (n div 16) @ [hex_digit (n mod 16)])"

declare hex_upper.simps [simp del]

definition get_next_certificate_version :: "string \<Rightarrow> nat acme_op" where
  "get_next_certificate_version aic =
     (if aic = [] then acme_return 1
      else acme_get (\<lambda>db. Suc (foldr max (map cc_version (filter (\<lambda>c. cc_aic c = Some aic) (db_common db))) 0)))"

definition find_agent_info :: "agent_info list \<Rightarrow> nat \<Rightarrow> string \<Rightarrow> agent_info option" where
  "find_agent_info agent_infos i agent_id =
     (if agent_infos \<noteq> [] \<and> i < length agent_infos then
        (case List.find (\<lambda>info. ai_aic info = PStr agent_id) agent_infos of
           Some info \<Rightarrow> Some info
         | None \<Rightarrow> Some (hd agent_infos))
      else None)"

definition agent_validity :: "acme_env \<Rightarrow> agent_info option \<Rightarrow> (acme_exn, int) result" where
  "agent_validity env agent_info = (case agent_info of
     None \<Rightarrow> Inr DEFAULT_VALIDITY_DAYS
   | Some ai \<Rightarrow> get_certificate_validity_days ai (ca_max_validity_days (en_ca env)))"

definition agent_sans_of :: "agent_info option \<Rightarrow> (acme_exn, pyval list \<times> pyval list) result" where
  "agent_sans_of agent_info = (case agent_info of
     None \<Rightarrow> Inr ([], [])
   | Some ai \<Rightarrow> bind_result (get_certificate_dns_names ai) (\<lambda>dns.
       bind_result (get_certificate_ip_addresses ai) (\<lambda>ips. Inr (dns, ips))))"

definition agent_components :: "agent_info option \<Rightarrow> (string \<times> pyval) list" where
  "agent_components agent_info = (case agent_info of None \<Rightarrow> [] | Some ai \<Rightarrow> get_certificate_subject_components ai)"

definition generate_certificate_for_agent :: "acme_env \<Rightarrow> csr \<Rightarrow> string \<Rightarrow> agent_info option \<Rightarrow> string \<Rightarrow> string acme_op" where
  "generate_certificate_for_agent env csr agent_id agent_info usage =
     acme_then (acme_lift (agent_sans_of agent_info)) (\<lambda>(dns_names, ip_addresses).
     acme_then (acme_lift (agent_validity env agent_info)) (\<lambda>days.
     acme_then (beijing_now env) (\<lambda>now.
     acme_then (acme_external (en_serial env)) (\<lambda>serial.
     case sign_certificate (en_x509 env) (en_ca env) csr [agent_id] days (agent_components agent_info) dns_names ip_addresses usage now serial of
       None \<Rightarrow> acme_raise (Acme 500 ''SERVER_INTERNAL'')
     | Some pem \<Rightarrow> acme_return pem))))"

definition load_cert_pem :: "acme_env \<Rightarrow> string \<Rightarrow> cert_body acme_op" where
  "load_cert_pem env pem = (case x5_load_pem (en_x509 env) pem of
     None \<Rightarrow> acme_raise (Acme 500 ''SERVER_INTERNAL'')
   | Some b \<Rightarrow> acme_return b)"

definition subject_names :: "string list" where
  "subject_names = [''CN'', ''O'', ''OU'', ''C'', ''ST'', ''L'']"

definition extract_subject :: "cert_body \<Rightarrow> (string \<times> pyval) list" where
  "extract_subject b = filter (\<lambda>(k, _). k \<in> set subject_names) (cb_subject b)"

record certificate_create =
  cr_order_id :: int
  cr_serial :: string
  cr_pem :: string
  cr_subject :: "(string \<times> pyval) list"
  cr_not_before :: int
  cr_not_after :: int
  cr_aic :: string

definition new_acme_cert :: "int \<Rightarrow> string \<Rightarrow> certificate_create \<Rightarrow> acme_cert" where
  "new_acme_cert i cert_id d = \<lparr>ce_id = i, ce_cert_id = cert_id, ce_order_id = cr_order_id d, ce_serial = cr_serial d, ce_pem = cr_pem d,
     ce_status = CertValid, ce_subject = cr_subject d, ce_not_before = cr_not_before d, ce_not_after = cr_not_after d,
     ce_revoked_at = None, ce_reason = None, ce_aic = Some (cr_aic d)\<rparr>"

definition new_agent_cert :: "acme_env \<Rightarrow> int \<Rightarrow> int \<Rightarrow> nat \<Rightarrow> certificate_create \<Rightarrow> common_cert" where
  "new_agent_cert env i now version d = \<lparr>cc_id = i, cc_type = AgentCert, cc_serial = cr_serial d,
     cc_subject = ''CN='' @ build_agent_common_name (cr_aic d), cc_issuer = ''Agent Trusted Registration CA'', cc_status = CertValid,
     cc_expires_at = cr_not_after d, cc_revoked_at = None, cc_reason = None, cc_pem = cr_pem d,
     cc_public_key = map_option cb_key (x5_load_pem (en_x509 env) (cr_pem d)), cc_version = version, cc_parent = None,
     cc_aic = Some (cr_aic d), cc_created_at = now\<rparr>"

definition insert_common_cert :: "common_cert \<Rightarrow> unit acme_op" where
  "insert_common_cert c = acme_insert (\<lambda>db. cc_serial c \<in> cc_serial ` set (db_common db))
     (\<lambda>db. db\<lparr>db_common := db_common db @ [c]\<rparr>)"

definition create_certificate_row :: "acme_env \<Rightarrow> certificate_create \<Rightarrow> acme_cert acme_op" where
  "create_certificate_row env d =
     acme_then (acme_external (\<lambda>t. ''cert_'' @ base64url_encode (en_random env t))) (\<lambda>cert_id.
     acme_then next_id (\<lambda>i.
     let certificate = new_acme_cert i cert_id d in
     acme_then (acme_insert (\<lambda>db. cert_id \<in> ce_cert_id ` set (db_certs db) \<or> cr_serial d \<in> ce_serial ` set (db_certs db))
       (\<lambda>db. db\<lparr>db_certs := db_certs db @ [certificate]\<rparr>)) (\<lambda>_.
     if cr_aic d = [] then acme_return certificate
     else acme_then (get_next_certificate_version (cr_aic d)) (\<lambda>version.
       acme_then (beijing_now env) (\<lambda>now.
       acme_then next_id (\<lambda>j.
       acme_then (insert_common_cert (new_agent_cert env j now version d)) (\<lambda>_.
       acme_return certificate)))))))"

definition issue_one :: "acme_env \<Rightarrow> acme_order \<Rightarrow> csr \<Rightarrow> agent_info list \<Rightarrow> string \<Rightarrow> nat \<times> string \<Rightarrow> acme_cert acme_op" where
  "issue_one env order csr agent_infos usage = (\<lambda>(i, agent_id).
     let agent_info = find_agent_info agent_infos i agent_id in
     acme_then (generate_certificate_for_agent env csr agent_id agent_info usage) (\<lambda>pem.
     acme_then (acme_lift (agent_validity env agent_info)) (\<lambda>days.
     acme_then (beijing_now env) (\<lambda>now.
     acme_then (load_cert_pem env pem) (\<lambda>b.
     acme_then (beijing_now env) (\<lambda>not_before.
     create_certificate_row env \<lparr>cr_order_id = or_id order, cr_serial = hex_upper (cb_serial b), cr_pem = pem,
       cr_subject = extract_subject b, cr_not_before = not_before, cr_not_after = now + days * DAY, cr_aic = agent_id\<rparr>))))))"

definition order_agent_ids :: "acme_order \<Rightarrow> string list" where
  "order_agent_ids order = map (\<lambda>i. pick i ''value'') (filter (\<lambda>i. pick i ''type'' = ''agent'') (or_identifiers order))"

definition issue_certificate :: "acme_env \<Rightarrow> acme_order \<Rightarrow> bytes \<Rightarrow> agent_info list \<Rightarrow> string \<Rightarrow> acme_cert list acme_op" where
  "issue_certificate env order csr_der agent_infos usage =
     (case x5_load_csr (en_x509 env) csr_der of
        None \<Rightarrow> acme_raise (Unhandled ''ValueError'')
      | Some csr \<Rightarrow>
          acme_then (acme_lift (verify_csr_identifiers csr (or_identifiers order))) (\<lambda>_.
          if order_agent_ids order = [] then acme_raise (Acme 400 ''INVALID_CERTIFICATE_FORMAT'')
          else acme_each (issue_one env order csr agent_infos usage) (enumerate 0 (order_agent_ids order))))"

definition get_certificate_by_id :: "string \<Rightarrow> acme_cert option acme_op" where
  "get_certificate_by_id cert_id = acme_get (\<lambda>db. List.find (\<lambda>c. ce_cert_id c = cert_id) (db_certs db))"

subsection \<open>Revoking\<close>

definition get_revocable_certificate :: "acme_env \<Rightarrow> bytes \<Rightarrow> int option \<Rightarrow> (acme_cert \<times> cert_body) acme_op" where
  "get_revocable_certificate env cert_der account_id =
     (case x5_load_der (en_x509 env) cert_der of
        None \<Rightarrow> acme_raise (Acme 400 ''MALFORMED_REQUEST'')
      | Some b \<Rightarrow>
          acme_then (acme_get (\<lambda>db. List.find (\<lambda>c. ce_serial c = hex_upper (cb_serial b)) (db_certs db))) (\<lambda>found.
          case found of
            None \<Rightarrow> acme_raise (Acme 404 ''CERTIFICATE_NOT_FOUND'')
          | Some acme_cert \<Rightarrow>
              acme_then
                (case account_id of
                   None \<Rightarrow> acme_return ()
                 | Some i \<Rightarrow> acme_then (get_order_by_pk (ce_order_id acme_cert)) (\<lambda>order.
                     acme_require (case order of None \<Rightarrow> False | Some r \<Rightarrow> or_account_id r = i) 403 ''UNAUTHORIZED'')) (\<lambda>_.
              if ce_status acme_cert = CertRevoked then acme_raise (Acme 400 ''ALREADY_REVOKED'')
              else acme_return (acme_cert, b))))"

definition put_cert :: "acme_cert \<Rightarrow> acme_db \<Rightarrow> acme_db" where
  "put_cert c db = db\<lparr>db_certs := replace_row ce_id c (db_certs db)\<rparr>"

definition put_common :: "common_cert \<Rightarrow> acme_db \<Rightarrow> acme_db" where
  "put_common c db = db\<lparr>db_common := replace_row cc_id c (db_common db)\<rparr>"

definition revoke_common :: "int \<Rightarrow> revocation_reason option \<Rightarrow> common_cert \<Rightarrow> common_cert" where
  "revoke_common now reason c = c\<lparr>cc_status := CertRevoked, cc_revoked_at := Some now, cc_reason := reason\<rparr>"

definition revoke_acme_certificate :: "acme_env \<Rightarrow> acme_cert \<Rightarrow> int \<Rightarrow> unit acme_op" where
  "revoke_acme_certificate env certificate reason =
     acme_then (beijing_now env) (\<lambda>now.
     acme_then (acme_get (\<lambda>db. List.find (\<lambda>c. cc_serial c = ce_serial certificate) (db_common db))) (\<lambda>found.
     acme_then
       (case found of
          None \<Rightarrow> acme_return ()
        | Some c \<Rightarrow> if cc_status c \<noteq> CertRevoked then acme_put (put_common (revoke_common now (Some (from_acme_code reason)) c))
            else acme_return ()) (\<lambda>_.
     acme_put (put_cert (certificate\<lparr>ce_status := CertRevoked, ce_revoked_at := Some now, ce_reason := Some (from_acme_code reason)\<rparr>)))))"

subsection \<open>External account binding\<close>

definition eab_field :: "acme_env \<Rightarrow> json_object \<Rightarrow> string \<Rightarrow> (acme_exn, string) result" where
  "eab_field env eab k = (case map_of eab k of None \<Rightarrow> Inl (Acme 400 ''MALFORMED_REQUEST'') | Some v \<Rightarrow> Inr (str_of env v))"

definition compose_jws :: "acme_env \<Rightarrow> json_object \<Rightarrow> (acme_exn, jws_request) result" where
  "compose_jws env eab =
     bind_result (eab_field env eab ''protected'') (\<lambda>p.
     bind_result (eab_field env eab ''payload'') (\<lambda>l.
     bind_result (eab_field env eab ''signature'') (\<lambda>s.
     Inr \<lparr>jr_protected = p, jr_payload = l, jr_signature = s\<rparr>)))"

text \<open>The checks before the credential is used: the algorithm, the URL, the key id, the key in the payload.\<close>

definition check_eab_header :: "acme_env \<Rightarrow> pyval \<Rightarrow> pyval \<Rightarrow> public_jwk \<Rightarrow> string \<Rightarrow> (acme_exn, string) result" where
  "check_eab_header env header payload account_jwk expected_url = (case header of
     PDict protected \<Rightarrow>
       if dict_get protected ''alg'' \<noteq> PStr ''HS256'' then Inl (Acme 400 ''UNSUPPORTED_ALGORITHM'')
       else if dict_get protected ''url'' \<noteq> PStr expected_url then Inl (Acme 400 ''MALFORMED_REQUEST'')
       else (case dict_get protected ''kid'' of
         PStr key_id \<Rightarrow>
           if strip key_id = [] then Inl (Acme 400 ''MALFORMED_REQUEST'')
           else bind_result (compute_jwk_thumbprint (en_crypto env) payload) (\<lambda>t.
             bind_result (compute_jwk_thumbprint (en_crypto env) (jwk_value account_jwk)) (\<lambda>u.
             if t \<noteq> u then Inl (Acme 400 ''MALFORMED_REQUEST'') else Inr key_id))
       | _ \<Rightarrow> Inl (Acme 400 ''MALFORMED_REQUEST''))
   | _ \<Rightarrow> Inl (Unhandled ''AttributeError''))"

definition check_eab_mac :: "acme_env \<Rightarrow> jws_request \<Rightarrow> string \<Rightarrow> (acme_exn, unit) result" where
  "check_eab_mac env jws mac_key =
     bind_result (base64url_decode mac_key) (\<lambda>key.
     let signing_input = jr_protected jws @ ''.'' @ jr_payload jws in
     if \<not> list_all (\<lambda>c. ord c < 128) signing_input then Inl (Unhandled ''UnicodeEncodeError'')
     else bind_result (base64url_decode (jr_signature jws)) (\<lambda>actual.
       if cr_hmac_sha256 (en_crypto env) key signing_input \<noteq> actual then Inl (Acme 400 ''BAD_SIGNATURE'') else Inr ()))"

definition verify_eab_binding :: "acme_env \<Rightarrow> json_object \<Rightarrow> public_jwk \<Rightarrow> string \<Rightarrow> string acme_op" where
  "verify_eab_binding env eab account_jwk expected_url =
     acme_then (acme_lift (compose_jws env eab)) (\<lambda>jws.
     acme_then (acme_lift (parse_jws (en_crypto env) (jws_string jws))) (\<lambda>(header, payload, _).
     acme_then (acme_lift (check_eab_header env header payload account_jwk expected_url)) (\<lambda>key_id.
     acme_then (consume_eab_credential env key_id) (\<lambda>consumed.
     case consumed of
       None \<Rightarrow> acme_raise (Acme 400 ''EXTERNAL_ACCOUNT_REQUIRED'')
     | Some (mac_key, aic) \<Rightarrow>
         acme_then (acme_lift (check_eab_mac env jws mac_key)) (\<lambda>_. acme_return aic)))))"

end
