(* ===== verification/AcmeApi.thy ===== *)
theory AcmeApi
  imports AcmeCerts
begin

text \<open>
  The routes of \<open>ca-server/app/acme/api.py\<close>, one definition per route, and the server: a request is one handler on one
  session, which commits or is rolled back. Between requests the registry hands out credentials.
\<close>

subsection \<open>URLs and responses\<close>

definition get_configured_acme_base_url :: "acme_env \<Rightarrow> string" where
  "get_configured_acme_base_url env = rstrip_while (\<lambda>c. c = CHR ''/'') (en_directory_url env)"

definition build_expected_acme_request_url :: "acme_env \<Rightarrow> string \<Rightarrow> string" where
  "build_expected_acme_request_url env path_suffix =
     get_configured_acme_base_url env @ (if startswith path_suffix ''/'' then path_suffix else ''/'' @ path_suffix)"

definition ensure_post_as_get_uses_empty_payload :: "jws_request \<Rightarrow> unit acme_op" where
  "ensure_post_as_get_uses_empty_payload r = acme_require (jr_payload r = []) 400 ''MALFORMED_REQUEST''"

record acme_response =
  rs_status :: nat
  rs_body :: pyval
  rs_nonce :: "string option"
  rs_location :: "string option"

definition create_acme_response :: "acme_env \<Rightarrow> json_object \<Rightarrow> nat \<Rightarrow> string option \<Rightarrow> acme_response acme_op" where
  "create_acme_response env data status_code location =
     acme_then (generate_nonce env) (\<lambda>nonce.
     acme_return \<lparr>rs_status = status_code, rs_body = PDict data, rs_nonce = Some nonce, rs_location = location\<rparr>)"

definition account_status_name :: "account_status \<Rightarrow> string" where
  "account_status_name s = (case s of AccountValid \<Rightarrow> ''valid'' | AccountDeactivated \<Rightarrow> ''deactivated'' | AccountRevoked \<Rightarrow> ''revoked'')"

definition order_status_name :: "order_status \<Rightarrow> string" where
  "order_status_name s = (case s of OrderPending \<Rightarrow> ''pending'' | OrderReady \<Rightarrow> ''ready'' | OrderProcessing \<Rightarrow> ''processing''
     | OrderValid \<Rightarrow> ''valid'' | OrderInvalid \<Rightarrow> ''invalid'')"

definition authz_status_name :: "authz_status \<Rightarrow> string" where
  "authz_status_name s = (case s of AuthzPending \<Rightarrow> ''pending'' | AuthzValid \<Rightarrow> ''valid'' | AuthzInvalid \<Rightarrow> ''invalid''
     | AuthzDeactivated \<Rightarrow> ''deactivated'' | AuthzExpired \<Rightarrow> ''expired'' | AuthzRevoked \<Rightarrow> ''revoked'')"

definition identifier_value :: "order_identifier \<Rightarrow> pyval" where
  "identifier_value i = PDict (map (\<lambda>(k, v). (k, PStr v)) i)"

definition account_body :: "acme_env \<Rightarrow> acme_account \<Rightarrow> json_object" where
  "account_body env a = [(''status'', PStr (account_status_name (ac_status a))), (''contact'', ac_contact a),
     (''termsOfServiceAgreed'', PBool (ac_terms_agreed a)),
     (''orders'', PStr (get_configured_acme_base_url env @ ''/acct/'' @ int_to_str (ac_id a) @ ''/orders''))]"

definition order_url :: "acme_env \<Rightarrow> acme_order \<Rightarrow> string" where
  "order_url env r = get_configured_acme_base_url env @ ''/order/'' @ or_order_id r"

definition order_body :: "acme_env \<Rightarrow> acme_order \<Rightarrow> json_object" where
  "order_body env r = [(''status'', PStr (order_status_name (or_status r))), (''expires'', PStr (en_format env (or_expires r))),
     (''identifiers'', PList (map identifier_value (or_identifiers r))),
     (''authorizations'', PList (map PStr (case or_authorizations r of None \<Rightarrow> [] | Some us \<Rightarrow> us))),
     (''finalize'', PStr (order_url env r @ ''/finalize''))]"

definition time_item :: "acme_env \<Rightarrow> string \<Rightarrow> int option \<Rightarrow> json_object" where
  "time_item env k t = (case t of None \<Rightarrow> [] | Some i \<Rightarrow> [(k, PStr (en_format env i))])"

text \<open>No route creates a challenge, so the list of challenges is empty.\<close>

definition build_authorization_response :: "acme_env \<Rightarrow> acme_authz \<Rightarrow> json_object" where
  "build_authorization_response env a = [(''identifier'', identifier_value (az_identifier a)),
     (''status'', PStr (authz_status_name (az_status a))), (''expires'', PStr (en_format env (az_expires a))),
     (''challenges'', PList [])]"

subsection \<open>Directory, CA certificate and nonces\<close>

definition get_directory :: "acme_env \<Rightarrow> acme_response acme_op" where
  "get_directory env =
     (let base_url = en_directory_url env in
      acme_return \<lparr>rs_status = 200, rs_body = PDict [(''newNonce'', PStr (base_url @ ''/new-nonce'')),
        (''newAccount'', PStr (base_url @ ''/new-account'')), (''newOrder'', PStr (base_url @ ''/new-order'')), (''newAuthz'', PNone),
        (''revokeCert'', PStr (base_url @ ''/revoke-cert'')), (''keyChange'', PStr (base_url @ ''/key-change'')),
        (''meta'', PDict [(''externalAccountRequired'', PBool True)])], rs_nonce = None, rs_location = None\<rparr>)"

definition get_ca_certificate :: "acme_env \<Rightarrow> acme_response acme_op" where
  "get_ca_certificate env = (case ca_certificate_pem (en_ca env) of
     None \<Rightarrow> acme_raise (Acme 500 ''SERVER_INTERNAL'')
   | Some pem \<Rightarrow> acme_return \<lparr>rs_status = 200, rs_body = PStr pem, rs_nonce = None, rs_location = None\<rparr>)"

definition get_new_nonce :: "acme_env \<Rightarrow> acme_response acme_op" where
  "get_new_nonce env =
     acme_then (generate_nonce env) (\<lambda>nonce.
     acme_return \<lparr>rs_status = 200, rs_body = PNone, rs_nonce = Some nonce, rs_location = None\<rparr>)"

subsection \<open>Accounts\<close>

text \<open>A request from an existing account: its payload and the account whose key signed it.\<close>

definition signed_by_account :: "acme_env \<Rightarrow> jws_request \<Rightarrow> json_object \<Rightarrow> acme_account acme_op" where
  "signed_by_account env r protected =
     acme_then (get_account_from_request env protected) (\<lambda>account.
     acme_then (acme_lift (verify_jws_signature (en_crypto env) r (ac_public_key account))) (\<lambda>_.
     acme_return account))"

definition get_or_default :: "json_object \<Rightarrow> string \<Rightarrow> pyval \<Rightarrow> pyval" where
  "get_or_default d k v = (case map_of d k of None \<Rightarrow> v | Some x \<Rightarrow> x)"

fun string_list :: "pyval \<Rightarrow> bool" where
  "string_list PNone = True"
| "string_list (PList vs) = list_all (\<lambda>v. case v of PStr _ \<Rightarrow> True | _ \<Rightarrow> False) vs"
| "string_list _ = False"

text \<open>\<open>AccountCreate\<close> refuses a contact that is no list of strings and a consent that is no truth value.\<close>

definition account_create_of :: "acme_env \<Rightarrow> json_object \<Rightarrow> string \<Rightarrow> public_jwk \<Rightarrow> json_object \<Rightarrow> string \<Rightarrow> (acme_exn, account_create) result" where
  "account_create_of env payload key_id jwk eab aic =
     (let contact = dict_get payload ''contact'' in
      case en_bool env (get_or_default payload ''termsOfServiceAgreed'' (PBool False)) of
        None \<Rightarrow> Inl (Unhandled ''ValidationError'')
      | Some terms \<Rightarrow>
          if \<not> string_list contact then Inl (Unhandled ''ValidationError'')
          else Inr \<lparr>new_key_id = key_id, new_public_key = jwk, new_contact = contact, new_terms_agreed = terms,
            new_eab = PDict eab, new_aic = Some aic\<rparr>)"

definition existing_account :: "acme_env \<Rightarrow> jws_request \<Rightarrow> string \<Rightarrow> acme_account acme_op" where
  "existing_account env r key_id =
     acme_then (get_account_by_key_id key_id) (\<lambda>found.
     case found of
       None \<Rightarrow> acme_raise (Acme 404 ''ACCOUNT_NOT_FOUND'')
     | Some account \<Rightarrow>
         acme_then (acme_lift (verify_jws_signature (en_crypto env) r (ac_public_key account))) (\<lambda>_.
         acme_return account))"

text \<open>The URL of the binding is the URL of the request, which has been compared with the expected one.\<close>

definition bound_account :: "acme_env \<Rightarrow> jws_request \<Rightarrow> json_object \<Rightarrow> string \<Rightarrow> public_jwk \<Rightarrow> string \<Rightarrow> acme_account acme_op" where
  "bound_account env r payload expected_url jwk key_id = (case dict_get payload ''externalAccountBinding'' of
     PDict eab \<Rightarrow>
       acme_then (acme_lift (verify_new_account_signature (en_crypto env) r (jwk_value jwk))) (\<lambda>_.
       acme_then (verify_eab_binding env eab jwk expected_url) (\<lambda>aic.
       acme_then (acme_lift (account_create_of env payload key_id jwk eab aic)) (\<lambda>d.
       create_account env d)))
   | _ \<Rightarrow> acme_raise (Acme 400 ''EXTERNAL_ACCOUNT_REQUIRED''))"

definition new_account_route :: "acme_env \<Rightarrow> jws_request \<Rightarrow> acme_response acme_op" where
  "new_account_route env r =
     (let expected_url = build_expected_acme_request_url env ''/new-account'' in
      acme_then (parse_jws_request env r expected_url) (\<lambda>(protected, payload).
      if \<not> has_key protected ''jwk'' then acme_raise (Acme 400 ''MALFORMED_REQUEST'')
      else acme_then (acme_lift (public_jwk_projection (dict_get protected ''jwk''))) (\<lambda>jwk.
        acme_then (acme_lift (compute_jwk_thumbprint (en_crypto env) (jwk_value jwk))) (\<lambda>key_id.
        acme_then (if truthy (dict_get payload ''onlyReturnExisting'') then existing_account env r key_id
          else bound_account env r payload expected_url jwk key_id) (\<lambda>account.
        acme_then (beijing_now env) (\<lambda>now.
        create_acme_response env (account_body env account) (if now - ac_created_at account < 5000000 then 201 else 200)
          (Some (get_configured_acme_base_url env @ ''/acct/'' @ int_to_str (ac_id account)))))))))"

definition update_account_route :: "acme_env \<Rightarrow> int \<Rightarrow> jws_request \<Rightarrow> acme_response acme_op" where
  "update_account_route env account_id r =
     acme_then (parse_jws_request env r (build_expected_acme_request_url env (''/acct/'' @ int_to_str account_id))) (\<lambda>(protected, payload).
     acme_then (if payload = [] then ensure_post_as_get_uses_empty_payload r else acme_return ()) (\<lambda>_.
     acme_then (signed_by_account env r protected) (\<lambda>account.
     acme_then (acme_require (ac_id account = account_id) 403 ''UNAUTHORIZED'') (\<lambda>_.
     acme_then
       (if has_key payload ''contact'' \<or> has_key payload ''status'' then
          update_account_fields env account (map_of payload ''contact'') (map_of payload ''status'')
        else acme_return account) (\<lambda>account'.
     create_acme_response env (account_body env account') 200 None)))))"

definition key_change_route :: "acme_env \<Rightarrow> jws_request \<Rightarrow> acme_response acme_op" where
  "key_change_route env r =
     acme_then (parse_jws_request env r (build_expected_acme_request_url env ''/key-change'')) (\<lambda>(protected, payload).
     acme_then (signed_by_account env r protected) (\<lambda>account.
     if payload = [] then acme_raise (Acme 400 ''MALFORMED_REQUEST'')
     else acme_then (apply_key_change env account payload (get_configured_acme_base_url env)) (\<lambda>account'.
       create_acme_response env (account_body env account') 200 None)))"

subsection \<open>Orders\<close>

definition optional_time :: "acme_env \<Rightarrow> pyval \<Rightarrow> (acme_exn, int option) result" where
  "optional_time env v = (if v = PNone then Inr None else case en_datetime env v of
     None \<Rightarrow> Inl (Unhandled ''ValidationError'') | Some t \<Rightarrow> Inr (Some t))"

definition new_order_route :: "acme_env \<Rightarrow> jws_request \<Rightarrow> acme_response acme_op" where
  "new_order_route env r =
     acme_then (parse_jws_request env r (build_expected_acme_request_url env ''/new-order'')) (\<lambda>(protected, payload).
     acme_then (signed_by_account env r protected) (\<lambda>account.
     if \<not> str_given (ac_aic account) then acme_raise (Acme 403 ''UNAUTHORIZED'')
     else acme_then (normalize_and_validate_agent_identifiers env (dict_get payload ''identifiers'') (the (ac_aic account))) (\<lambda>identifiers.
       acme_then (acme_lift (optional_time env (dict_get payload ''notBefore''))) (\<lambda>not_before.
       acme_then (acme_lift (optional_time env (dict_get payload ''notAfter''))) (\<lambda>not_after.
       acme_then (create_order_row env (ac_id account) identifiers not_before not_after) (\<lambda>order.
       acme_then (create_valid_authorization_urls env order identifiers (get_configured_acme_base_url env)) (\<lambda>authorizations.
       acme_then (mark_ready_with_authorizations env order authorizations) (\<lambda>order'.
       create_acme_response env (order_body env order' @ time_item env ''notBefore'' (or_not_before order')
         @ time_item env ''notAfter'' (or_not_after order')) 201 (Some (order_url env order'))))))))))"

text \<open>An order of the account; any other order is not found.\<close>

definition own_order :: "acme_account \<Rightarrow> string \<Rightarrow> acme_order acme_op" where
  "own_order account order_id =
     acme_then (get_order_by_id order_id) (\<lambda>found.
     case found of
       None \<Rightarrow> acme_raise (Acme 404 ''ORDER_NOT_FOUND'')
     | Some order \<Rightarrow> if or_account_id order \<noteq> ac_id account then acme_raise (Acme 404 ''ORDER_NOT_FOUND'') else acme_return order)"

definition get_order_route :: "acme_env \<Rightarrow> string \<Rightarrow> jws_request \<Rightarrow> acme_response acme_op" where
  "get_order_route env order_id r =
     acme_then (parse_jws_request env r (build_expected_acme_request_url env (''/order/'' @ order_id))) (\<lambda>(protected, payload).
     acme_then (ensure_post_as_get_uses_empty_payload r) (\<lambda>_.
     acme_then (signed_by_account env r protected) (\<lambda>account.
     acme_then (own_order account order_id) (\<lambda>order.
     create_acme_response env (order_body env order
       @ (if str_given (or_certificate order) then [(''certificate'', PStr (the (or_certificate order)))] else [])) 200 None))))"

definition authz_route :: "acme_env \<Rightarrow> string \<Rightarrow> jws_request \<Rightarrow> acme_response acme_op" where
  "authz_route env authz_id r =
     acme_then (parse_jws_request env r (build_expected_acme_request_url env (''/authz/'' @ authz_id))) (\<lambda>(protected, payload).
     acme_then (signed_by_account env r protected) (\<lambda>account.
     acme_then (get_authorization_by_id authz_id) (\<lambda>found.
     case found of
       None \<Rightarrow> acme_raise (Acme 404 ''AUTHORIZATION_NOT_FOUND'')
     | Some (authz, order) \<Rightarrow>
         if or_account_id order \<noteq> ac_id account then acme_raise (Acme 403 ''UNAUTHORIZED'')
         else acme_then
           (if payload \<noteq> [] then
              (if payload \<noteq> [(''status'', PStr ''deactivated'')] then acme_raise (Acme 400 ''MALFORMED_REQUEST'')
               else deactivate_authorization env authz order)
            else acme_then (ensure_post_as_get_uses_empty_payload r) (\<lambda>_. acme_return authz)) (\<lambda>authz'.
         create_acme_response env (build_authorization_response env authz') 200 None))))"

text \<open>The use of the certificates is the one of the first identifier.\<close>

definition order_usage :: "acme_order \<Rightarrow> string" where
  "order_usage order = (case or_identifiers order of
     [] \<Rightarrow> ''clientAuth''
   | i # _ \<Rightarrow> if str_given (map_of i ''usage'') then the (map_of i ''usage'') else ''clientAuth'')"

definition cert_url :: "acme_env \<Rightarrow> acme_cert \<Rightarrow> string" where
  "cert_url env c = get_configured_acme_base_url env @ ''/cert/'' @ ce_cert_id c"

definition finalize_body :: "acme_env \<Rightarrow> acme_order \<Rightarrow> acme_cert list \<Rightarrow> json_object" where
  "finalize_body env order certificates = order_body env order
     @ [(''certificate'', case or_certificate order of None \<Rightarrow> PNone | Some u \<Rightarrow> PStr u)]
     @ (if 1 < length certificates then [(''certificates'', PList (map (\<lambda>c. PStr (cert_url env c)) certificates)),
         (''certificate_count'', PInt (int (length certificates)))] else [])"

definition finalize_route :: "acme_env \<Rightarrow> string \<Rightarrow> jws_request \<Rightarrow> acme_response acme_op" where
  "finalize_route env order_id r =
     acme_then (parse_jws_request env r (build_expected_acme_request_url env (''/order/'' @ order_id @ ''/finalize''))) (\<lambda>(protected, payload).
     acme_then (signed_by_account env r protected) (\<lambda>account.
     acme_then (own_order account order_id) (\<lambda>order.
     acme_then (acme_require (or_status order = OrderReady) 400 ''ORDER_NOT_READY'') (\<lambda>_.
     acme_then (acme_lift (decode_payload (dict_get payload ''csr''))) (\<lambda>csr_der.
     acme_then (validate_order_agents env (or_identifiers order)) (\<lambda>agent_infos.
     acme_then (update_order_status env order OrderProcessing) (\<lambda>order1.
     acme_then (issue_certificate env order1 csr_der agent_infos (order_usage order1)) (\<lambda>certificates.
     acme_then (update_order_status env
         (if certificates = [] then order1 else order1\<lparr>or_certificate := Some (cert_url env (hd certificates))\<rparr>) OrderValid) (\<lambda>order2.
     create_acme_response env (finalize_body env order2 certificates) 200 (Some (order_url env order2)))))))))))"

subsection \<open>Certificates\<close>

definition get_certificate_route :: "acme_env \<Rightarrow> string \<Rightarrow> jws_request \<Rightarrow> acme_response acme_op" where
  "get_certificate_route env cert_id r =
     acme_then (parse_jws_request env r (build_expected_acme_request_url env (''/cert/'' @ cert_id))) (\<lambda>(protected, payload).
     acme_then (ensure_post_as_get_uses_empty_payload r) (\<lambda>_.
     acme_then (signed_by_account env r protected) (\<lambda>account.
     acme_then (get_certificate_by_id cert_id) (\<lambda>found.
     case found of
       None \<Rightarrow> acme_raise (Acme 404 ''CERTIFICATE_NOT_FOUND'')
     | Some certificate \<Rightarrow>
         acme_then (get_order_by_pk (ce_order_id certificate)) (\<lambda>order.
         acme_then (acme_require (case order of None \<Rightarrow> False | Some q \<Rightarrow> or_account_id q = ac_id account) 403 ''UNAUTHORIZED'') (\<lambda>_.
         acme_then (generate_nonce env) (\<lambda>nonce.
         case ca_issuer_chain (en_ca env) of
           None \<Rightarrow> acme_raise (Unhandled ''RuntimeError'')
         | Some chain \<Rightarrow> acme_return \<lparr>rs_status = 200, rs_body = PStr (ce_pem certificate @ chain), rs_nonce = Some nonce,
             rs_location = None\<rparr>)))))))"

text \<open>The account that asks for a revocation, if the request names one or its key belongs to one.\<close>

definition revoking_account :: "acme_env \<Rightarrow> json_object \<Rightarrow> acme_account option acme_op" where
  "revoking_account env protected =
     (if has_key protected ''kid'' then acme_then (get_account_from_request env protected) (\<lambda>a. acme_return (Some a))
      else if has_key protected ''jwk'' then get_account_by_jwk env protected
      else acme_raise (Acme 400 ''MALFORMED_REQUEST''))"

definition verify_account_signature :: "acme_env \<Rightarrow> jws_request \<Rightarrow> acme_account option \<Rightarrow> unit acme_op" where
  "verify_account_signature env r account = (case account of
     None \<Rightarrow> acme_return ()
   | Some a \<Rightarrow> acme_lift (verify_jws_signature (en_crypto env) r (ac_public_key a)))"

definition verify_certificate_key :: "acme_env \<Rightarrow> jws_request \<Rightarrow> acme_account option \<Rightarrow> cert_body \<Rightarrow> unit acme_op" where
  "verify_certificate_key env r account b = (case account of
     Some _ \<Rightarrow> acme_return ()
   | None \<Rightarrow> acme_then (acme_lift (public_key_to_jwk (cb_key b))) (\<lambda>jwk.
       acme_lift (verify_jws_signature_with_jwk (en_crypto env) r (jwk_value jwk))))"

definition revoke_route :: "acme_env \<Rightarrow> jws_request \<Rightarrow> acme_response acme_op" where
  "revoke_route env r =
     acme_then (parse_jws_request env r (build_expected_acme_request_url env ''/revoke-cert'')) (\<lambda>(protected, payload).
     acme_then (acme_lift (decode_payload (dict_get payload ''certificate''))) (\<lambda>cert_der.
     acme_then (acme_lift (validate_revocation_reason (dict_get payload ''reason''))) (\<lambda>reason.
     acme_then (revoking_account env protected) (\<lambda>account.
     acme_then (verify_account_signature env r account) (\<lambda>_.
     acme_then (get_revocable_certificate env cert_der (map_option ac_id account)) (\<lambda>(acme_cert, b).
     acme_then (verify_certificate_key env r account b) (\<lambda>_.
     acme_then (revoke_acme_certificate env acme_cert reason) (\<lambda>_.
     acme_then (generate_nonce env) (\<lambda>nonce.
     acme_return \<lparr>rs_status = 200, rs_body = PNone, rs_nonce = Some nonce, rs_location = None\<rparr>)))))))))"

subsection \<open>The server\<close>

datatype acme_request =
    GetDirectory
  | GetCaCertificate
  | NewNonce
  | NewAccount jws_request
  | UpdateAccount int jws_request
  | KeyChange jws_request
  | NewOrder jws_request
  | GetOrder string jws_request
  | PostAuthz string jws_request
  | Finalize string jws_request
  | GetCertificate string jws_request
  | RevokeCert jws_request

definition acme_handler :: "acme_env \<Rightarrow> acme_request \<Rightarrow> acme_response acme_op" where
  "acme_handler env req = (case req of
     GetDirectory \<Rightarrow> get_directory env
   | GetCaCertificate \<Rightarrow> get_ca_certificate env
   | NewNonce \<Rightarrow> get_new_nonce env
   | NewAccount r \<Rightarrow> new_account_route env r
   | UpdateAccount i r \<Rightarrow> update_account_route env i r
   | KeyChange r \<Rightarrow> key_change_route env r
   | NewOrder r \<Rightarrow> new_order_route env r
   | GetOrder s r \<Rightarrow> get_order_route env s r
   | PostAuthz s r \<Rightarrow> authz_route env s r
   | Finalize s r \<Rightarrow> finalize_route env s r
   | GetCertificate s r \<Rightarrow> get_certificate_route env s r
   | RevokeCert r \<Rightarrow> revoke_route env r)"

definition serve_request :: "acme_env \<Rightarrow> acme_request \<Rightarrow> acme_response acme_op" where
  "serve_request env req = in_session (acme_handler env req)"

text \<open>The requests of one server in the order of their sessions, with the credentials the registry hands out between them.\<close>

datatype ca_event = AcmeRequest acme_request | IssueCredential string string string string int

definition registry_event :: "string \<Rightarrow> string \<Rightarrow> string \<Rightarrow> string \<Rightarrow> int \<Rightarrow> acme_run \<Rightarrow> acme_run" where
  "registry_event user aic key_id mac expires w =
     w\<lparr>run_registry := snd (generate_eab_credential user aic key_id mac expires (run_registry w))\<rparr>"

fun serve_events :: "acme_env \<Rightarrow> ca_event list \<Rightarrow> acme_run \<Rightarrow> acme_run" where
  "serve_events env [] w = w"
| "serve_events env (AcmeRequest req # es) w = serve_events env es (snd (serve_request env req w))"
| "serve_events env (IssueCredential u a k m x # es) w = serve_events env es (registry_event u a k m x w)"

definition initial_run :: "registry \<Rightarrow> acme_run" where
  "initial_run r = \<lparr>run_db = empty_db, run_registry = r, run_seq = 0, run_tick = 0\<rparr>"

end
