(* ===== verification/AcmeRules.thy ===== *)
theory AcmeRules
  imports AcmeApi
begin

text \<open>
  Reasoning about the handlers: what holds after an operation that returns, with a rule for every operation of the
  services, and what every operation leaves alone even when it raises.
\<close>

named_theorems acme_rules
named_theorems grow_rules

subsection \<open>After an operation that returns\<close>

definition post :: "'a acme_op \<Rightarrow> acme_run \<Rightarrow> ('a \<Rightarrow> acme_run \<Rightarrow> bool) \<Rightarrow> bool" where
  "post m w Q \<longleftrightarrow> (\<forall>a w'. m w = (Inr a, w') \<longrightarrow> Q a w')"

lemma postD: "post m w Q \<Longrightarrow> m w = (Inr a, w') \<Longrightarrow> Q a w'"
  by (simp add: post_def)

lemma post_mono: "post m w R \<Longrightarrow> (\<And>a w'. R a w' \<Longrightarrow> Q a w') \<Longrightarrow> post m w Q"
  by (simp add: post_def)

lemma post_return [acme_rules]: "Q a w \<Longrightarrow> post (acme_return a) w Q"
  by (simp add: post_def acme_return_def)

lemma post_raise [acme_rules]: "post (acme_raise e) w Q"
  by (simp add: post_def acme_raise_def)

lemma post_lift [acme_rules]: "(\<And>a. r = Inr a \<Longrightarrow> Q a w) \<Longrightarrow> post (acme_lift r) w Q"
  by (simp add: post_def acme_lift_def)

lemma post_then [acme_rules]: "post m w (\<lambda>a w'. post (k a) w' Q) \<Longrightarrow> post (acme_then m k) w Q"
  unfolding post_def acme_then_def by (auto split: prod.splits sum.splits)

lemma post_require [acme_rules]: "(b \<Longrightarrow> Q () w) \<Longrightarrow> post (acme_require b s c) w Q"
  by (simp add: post_def acme_require_def acme_return_def acme_raise_def)

lemma post_get [acme_rules]: "Q (f (run_db w)) w \<Longrightarrow> post (acme_get f) w Q"
  by (simp add: post_def acme_get_def)

lemma post_put [acme_rules]: "Q () (w\<lparr>run_db := f (run_db w)\<rparr>) \<Longrightarrow> post (acme_put f) w Q"
  by (simp add: post_def acme_put_def)

lemma post_external [acme_rules]:
  "(\<And>t. t = run_tick w \<Longrightarrow> Q (f t) (w\<lparr>run_tick := Suc t\<rparr>)) \<Longrightarrow> post (acme_external f) w Q"
  by (simp add: post_def acme_external_def)

lemma post_next_id [acme_rules]:
  "Q (int (Suc (run_seq w))) (w\<lparr>run_seq := Suc (run_seq w)\<rparr>) \<Longrightarrow> post next_id w Q"
  by (simp add: post_def next_id_def)

lemma post_now [acme_rules]:
  "(\<And>t. t = run_tick w \<Longrightarrow> Q (en_now env t) (w\<lparr>run_tick := Suc t\<rparr>)) \<Longrightarrow> post (beijing_now env) w Q"
  unfolding beijing_now_def by (rule post_external) 

lemma post_insert [acme_rules]:
  "(\<not> taken (run_db w) \<Longrightarrow> Q () (w\<lparr>run_db := f (run_db w)\<rparr>)) \<Longrightarrow> post (acme_insert taken f) w Q"
  unfolding acme_insert_def by (intro acme_rules) (simp add: post_def acme_raise_def acme_put_def)

lemma post_as_malformed [acme_rules]: "post m w Q \<Longrightarrow> post (as_malformed m) w Q"
  unfolding post_def as_malformed_def by (auto split: prod.splits sum.splits acme_exn.splits)

lemma post_if [acme_rules]: "(b \<Longrightarrow> post m w Q) \<Longrightarrow> (\<not> b \<Longrightarrow> post n w Q) \<Longrightarrow> post (if b then m else n) w Q"
  by simp

lemma post_case_option [acme_rules]:
  "(x = None \<Longrightarrow> post m w Q) \<Longrightarrow> (\<And>a. x = Some a \<Longrightarrow> post (k a) w Q) \<Longrightarrow> post (case x of None \<Rightarrow> m | Some a \<Rightarrow> k a) w Q"
  by (cases x) simp_all

lemma post_case_prod [acme_rules]:
  "(\<And>a b. x = (a, b) \<Longrightarrow> post (k a b) w Q) \<Longrightarrow> post (case x of (a, b) \<Rightarrow> k a b) w Q"
  by (cases x) simp

text \<open>A loop keeps what its body keeps.\<close>

lemma post_each:
  assumes "I w" and step: "\<And>x v. x \<in> set xs \<Longrightarrow> I v \<Longrightarrow> post (f x) v (\<lambda>y v'. I v' \<and> R x y)"
  shows "post (acme_each f xs) w (\<lambda>ys w'. I w' \<and> list_all2 R xs ys)"
  using assms
proof (induction xs arbitrary: w)
  case Nil
  then show ?case by (simp add: post_def acme_return_def)
next
  case (Cons x xs)
  have "post (f x) w (\<lambda>y v. I v \<and> R x y)" using Cons.prems by simp
  then show ?case
    unfolding acme_each.simps
  proof (intro post_then, rule post_mono)
    fix y v assume y: "I v \<and> R x y"
    show "post (acme_then (acme_each f xs) (\<lambda>ys. acme_return (y # ys))) v (\<lambda>ys w'. I w' \<and> list_all2 R (x # xs) ys)"
      by (rule post_then, rule post_mono [OF Cons.IH]) (use y Cons.prems in \<open>auto intro: post_return\<close>)
  qed
qed

subsection \<open>What every operation leaves alone\<close>

text \<open>
  Sequences only grow, and the registry forgets no credential that was consumed. This holds on every path, so also for a
  session that is rolled back.
\<close>

definition bindings :: "registry \<Rightarrow> (string \<times> string) set" where
  "bindings r = {(ec_key_id c, ec_aic c) | c. c \<in> set (rg_credentials r) \<and> ec_consumed c}"

definition grown :: "acme_run \<Rightarrow> acme_run \<Rightarrow> bool" where
  "grown w w' \<longleftrightarrow> run_seq w \<le> run_seq w' \<and> bindings (run_registry w) \<subseteq> bindings (run_registry w')"

lemma grown_refl [simp]: "grown w w"
  by (simp add: grown_def)

lemma grown_trans [trans]: "grown u v \<Longrightarrow> grown v w \<Longrightarrow> grown u w"
  by (auto simp: grown_def)

definition grows :: "'a acme_op \<Rightarrow> bool" where
  "grows m \<longleftrightarrow> (\<forall>w. grown w (snd (m w)))"

lemma grows_return [grow_rules]: "grows (acme_return a)"
  by (simp add: grows_def acme_return_def)

lemma grows_raise [grow_rules]: "grows (acme_raise e)"
  by (simp add: grows_def acme_raise_def)

lemma grows_lift [grow_rules]: "grows (acme_lift r)"
  by (simp add: grows_def acme_lift_def)

lemma grows_then [grow_rules]: "grows m \<Longrightarrow> (\<And>a. grows (k a)) \<Longrightarrow> grows (acme_then m k)"
  unfolding grows_def acme_then_def by (auto split: prod.splits sum.splits) (metis grown_trans snd_conv)+

lemma grows_require [grow_rules]: "grows (acme_require b s c)"
  by (simp add: acme_require_def grows_return grows_raise)

lemma grows_get [grow_rules]: "grows (acme_get f)"
  by (simp add: grows_def acme_get_def)

lemma grows_put [grow_rules]: "grows (acme_put f)"
  by (simp add: grows_def acme_put_def grown_def)

lemma grows_external [grow_rules]: "grows (acme_external f)"
  by (simp add: grows_def acme_external_def grown_def)

lemma grows_next_id [grow_rules]: "grows next_id"
  by (simp add: grows_def next_id_def grown_def)

lemma grows_as_malformed [grow_rules]: "grows m \<Longrightarrow> grows (as_malformed m)"
  unfolding grows_def as_malformed_def by (auto split: prod.splits sum.splits acme_exn.splits) (metis snd_conv)+

lemma grows_if [grow_rules]: "grows m \<Longrightarrow> grows n \<Longrightarrow> grows (if b then m else n)"
  by simp

lemma grows_case_option [grow_rules]: "grows m \<Longrightarrow> (\<And>a. grows (k a)) \<Longrightarrow> grows (case x of None \<Rightarrow> m | Some a \<Rightarrow> k a)"
  by (cases x) simp_all

lemma grows_case_prod [grow_rules]: "(\<And>a b. grows (k a b)) \<Longrightarrow> grows (case x of (a, b) \<Rightarrow> k a b)"
  by (cases x) simp

lemma grows_case_pyval [grow_rules]:
  "grows n \<Longrightarrow> (\<And>b. grows (fb b)) \<Longrightarrow> (\<And>i. grows (fi i)) \<Longrightarrow> (\<And>s. grows (fs s)) \<Longrightarrow> (\<And>t. grows (ft t)) \<Longrightarrow> (\<And>l. grows (fl l)) \<Longrightarrow>
    (\<And>d. grows (fd d)) \<Longrightarrow> (\<And>e. grows (fo e)) \<Longrightarrow>
    grows (case x of PNone \<Rightarrow> n | PBool b \<Rightarrow> fb b | PInt i \<Rightarrow> fi i | PStr s \<Rightarrow> fs s | PTuple t \<Rightarrow> ft t | PList l \<Rightarrow> fl l | PDict d \<Rightarrow> fd d
      | PObj e \<Rightarrow> fo e)"
  by (cases x) simp_all

lemma grows_each [grow_rules]: "(\<And>x. grows (f x)) \<Longrightarrow> grows (acme_each f xs)"
  by (induction xs) (auto intro!: grow_rules)

lemma grows_insert [grow_rules]: "grows (acme_insert t f)"
  unfolding acme_insert_def by (intro grow_rules)

lemma grows_now [grow_rules]: "grows (beijing_now env)"
  unfolding beijing_now_def by (rule grow_rules)

subsection \<open>The registry\<close>

lemma consume_grows: "bindings r \<subseteq> bindings (snd (eab_consume_route d tok conf now k r))"
  by (force simp: eab_consume_route_def consume_credential_def bindings_def split: option.splits)

lemma attempt_grows:
  "(\<And>t r. bindings r \<subseteq> bindings (snd (serve t r))) \<Longrightarrow> grows (http_attempt env serve)"
  unfolding grows_def http_attempt_def grown_def
  by (auto simp: Let_def split: prod.splits link.splits) (metis snd_conv subset_iff)+

lemma request_grows:
  "(\<And>t r. bindings r \<subseteq> bindings (snd (serve t r))) \<Longrightarrow> grows (make_request_with_retry env serve n)"
proof (induction n)
  case 0
  then show ?case by (simp add: grow_rules)
next
  case (Suc n)
  show ?case unfolding make_request_with_retry.simps
  proof (rule grows_then)
    show "grows (http_attempt env serve)" using Suc.prems by (rule attempt_grows)
    show "grows (case a of Replied reply \<Rightarrow> acme_return (Some reply) | NoReply \<Rightarrow> make_request_with_retry env serve n
        | OtherFailure \<Rightarrow> acme_return None)" for a
      using Suc by (cases a) (simp_all add: grow_rules)
  qed
qed

lemma grows_consume [grow_rules]: "grows (consume_eab_credential env key_id)"
  unfolding consume_eab_credential_def by (intro grow_rules request_grows) (rule consume_grows)

lemma grows_agent [grow_rules]: "grows (validate_aic_and_get_info env aic)"
  unfolding validate_aic_and_get_info_def by (intro grow_rules request_grows) simp

end
