(* ===== verification/AcmeSteps.thy ===== *)
theory AcmeSteps
  imports AcmeRules
begin

text \<open>
  The certificate authority as a step relation: every change the handlers make to the tables is one of the steps below,
  with the conditions under which it happens. The tables are well formed in every reachable state: keys are unique, and
  rows that refer to an order refer to one that exists.
\<close>

subsection \<open>Rows\<close>

lemma replace_row_Cons: "replace_row key a (r # rows) = (if key r = key a then a else r) # replace_row key a rows"
  by (simp add: replace_row_def)

lemma replace_row_keys [simp]: "map key (replace_row key a rows) = map key rows"
  by (induction rows) (auto simp: replace_row_def)

lemma replace_row_image [simp]: "key ` set (replace_row key a rows) = key ` set rows"
  by (metis list.set_map replace_row_keys)

lemma replace_row_other:
  "(\<And>b. b \<in> set rows \<Longrightarrow> key b = key a \<Longrightarrow> f b = f a) \<Longrightarrow> map f (replace_row key a rows) = map f rows"
  by (induction rows) (auto simp: replace_row_def)

lemma replace_row_other_image:
  "(\<And>b. b \<in> set rows \<Longrightarrow> key b = key a \<Longrightarrow> f b = f a) \<Longrightarrow> f ` set (replace_row key a rows) = f ` set rows"
  by (metis list.set_map replace_row_other)

lemma replace_rowD: "x \<in> set (replace_row key a rows) \<Longrightarrow> x = a \<or> x \<in> set rows \<and> key x \<noteq> key a"
  by (auto simp: replace_row_def split: if_splits)

lemma replace_row_member: "b \<in> set rows \<Longrightarrow> key b = key a \<Longrightarrow> a \<in> set (replace_row key a rows)"
  by (force simp: replace_row_def)

lemma replace_row_keep: "b \<in> set rows \<Longrightarrow> key b \<noteq> key a \<Longrightarrow> b \<in> set (replace_row key a rows)"
  by (force simp: replace_row_def)

lemma distinct_key: "distinct (map f xs) \<Longrightarrow> a \<in> set xs \<Longrightarrow> b \<in> set xs \<Longrightarrow> f a = f b \<Longrightarrow> a = b"
  by (auto simp: distinct_map dest: inj_onD)

lemma distinct_replace_row:
  assumes "distinct (map f rows)" and "distinct (map key rows)"
    and "\<And>b. b \<in> set rows \<Longrightarrow> key b \<noteq> key a \<Longrightarrow> f b \<noteq> f a"
  shows "distinct (map f (replace_row key a rows))"
  using assms
proof (induction rows)
  case (Cons r rows)
  have "distinct (map f (replace_row key a rows))" using Cons by simp
  moreover have "f (if key r = key a then a else r) \<notin> f ` set (replace_row key a rows)"
  proof (cases "key r = key a")
    case True
    have "key r \<notin> key ` set rows" using Cons.prems(2) by simp
    then have others: "\<forall>b\<in>set rows. key b \<noteq> key a" using True by (metis image_eqI)
    then have "replace_row key a rows = rows"
      by (simp add: replace_row_def map_idI)
    moreover have "\<forall>b\<in>set rows. f b \<noteq> f a" using others Cons.prems(3) by simp
    ultimately show ?thesis using True by auto
  next
    case False
    then show ?thesis using Cons.prems by (auto dest!: replace_rowD)
  qed
  ultimately show ?case by (simp add: replace_row_Cons)
qed (simp add: replace_row_def)

lemma find_SomeD: "List.find p xs = Some x \<Longrightarrow> x \<in> set xs \<and> p x"
  by (auto simp: find_Some_iff)

subsection \<open>Steps\<close>

definition add_nonce :: "string \<Rightarrow> int \<Rightarrow> acme_db \<Rightarrow> acme_db" where
  "add_nonce nonce expires db = db\<lparr>db_nonces := db_nonces db @ [\<lparr>no_nonce = nonce, no_used = False, no_expires = expires\<rparr>]\<rparr>"

definition add_account :: "acme_account \<Rightarrow> acme_db \<Rightarrow> acme_db" where
  "add_account a db = db\<lparr>db_accounts := db_accounts db @ [a]\<rparr>"

definition add_order :: "acme_order \<Rightarrow> acme_db \<Rightarrow> acme_db" where
  "add_order r db = db\<lparr>db_orders := db_orders db @ [r]\<rparr>"

definition add_authz :: "acme_authz \<Rightarrow> acme_db \<Rightarrow> acme_db" where
  "add_authz z db = db\<lparr>db_authzs := db_authzs db @ [z]\<rparr>"

definition add_certs :: "acme_cert \<Rightarrow> common_cert \<Rightarrow> acme_db \<Rightarrow> acme_db" where
  "add_certs c k db = db\<lparr>db_certs := db_certs db @ [c], db_common := db_common db @ [k]\<rparr>"

text \<open>A new primary key: above all that were handed out.\<close>

definition fresh_id :: "acme_run \<Rightarrow> acme_run \<Rightarrow> int \<Rightarrow> bool" where
  "fresh_id w w' i \<longleftrightarrow> int (run_seq w) < i \<and> i \<le> int (run_seq w')"

text \<open>The identifiers of an order are all the one AIC.\<close>

definition for_agent :: "string \<Rightarrow> order_identifier list \<Rightarrow> bool" where
  "for_agent aic ids \<longleftrightarrow> aic \<noteq> [] \<and> ids \<noteq> []
     \<and> (\<forall>i\<in>set ids. map_of i ''type'' = Some ''agent'' \<and> map_of i ''value'' = Some aic)"

definition same_order :: "acme_order \<Rightarrow> acme_order \<Rightarrow> bool" where
  "same_order r r' \<longleftrightarrow> or_id r' = or_id r \<and> or_order_id r' = or_order_id r \<and> or_account_id r' = or_account_id r
     \<and> or_identifiers r' = or_identifiers r"

definition next_version :: "string \<Rightarrow> acme_db \<Rightarrow> nat" where
  "next_version aic db = Suc (foldr max (map cc_version (filter (\<lambda>c. cc_aic c = Some aic) (db_common db))) 0)"

definition open_states :: "order_status set" where
  "open_states = {OrderPending, OrderReady, OrderProcessing}"

inductive ca_step :: "acme_env \<Rightarrow> acme_run \<Rightarrow> acme_run \<Rightarrow> bool" for env where
  quiet: "grown w w' \<Longrightarrow> run_db w' = run_db w \<Longrightarrow> ca_step env w w'"
| nonce_added: "grown w w' \<Longrightarrow> n \<notin> no_nonce ` set (db_nonces (run_db w)) \<Longrightarrow> run_db w' = add_nonce n x (run_db w) \<Longrightarrow> ca_step env w w'"
| nonce_used: "grown w w' \<Longrightarrow> run_db w' = use_nonce n (run_db w) \<Longrightarrow> ca_step env w w'"
| account_added: "grown w w' \<Longrightarrow> fresh_id w w' (ac_id a) \<Longrightarrow> ac_key_id a \<notin> ac_key_id ` set (db_accounts (run_db w)) \<Longrightarrow>
    ac_status a = AccountValid \<Longrightarrow> ac_aic a = Some aic \<Longrightarrow> (k, aic) \<in> bindings (run_registry w') \<Longrightarrow>
    run_db w' = add_account a (run_db w) \<Longrightarrow> ca_step env w w'"
| account_changed: "grown w w' \<Longrightarrow> a \<in> set (db_accounts (run_db w)) \<Longrightarrow> ac_status a \<noteq> AccountDeactivated \<Longrightarrow> ac_id b = ac_id a \<Longrightarrow>
    ac_aic b = ac_aic a \<Longrightarrow> (\<And>c. c \<in> set (db_accounts (run_db w)) \<Longrightarrow> ac_id c \<noteq> ac_id b \<Longrightarrow> ac_key_id c \<noteq> ac_key_id b) \<Longrightarrow>
    run_db w' = put_account b (run_db w) \<Longrightarrow> ca_step env w w'"
| order_added: "grown w w' \<Longrightarrow> fresh_id w w' (or_id r) \<Longrightarrow> or_order_id r \<notin> or_order_id ` set (db_orders (run_db w)) \<Longrightarrow>
    a \<in> set (db_accounts (run_db w)) \<Longrightarrow> ac_status a \<noteq> AccountDeactivated \<Longrightarrow> or_account_id r = ac_id a \<Longrightarrow> ac_aic a = Some aic \<Longrightarrow>
    for_agent aic (or_identifiers r) \<Longrightarrow> or_status r = OrderPending \<Longrightarrow> run_db w' = add_order r (run_db w) \<Longrightarrow> ca_step env w w'"
| authz_added: "grown w w' \<Longrightarrow> fresh_id w w' (az_id z) \<Longrightarrow> az_authz_id z \<notin> az_authz_id ` set (db_authzs (run_db w)) \<Longrightarrow>
    r \<in> set (db_orders (run_db w)) \<Longrightarrow> or_id r = az_order_id z \<Longrightarrow> or_status r = OrderPending \<Longrightarrow>
    run_db w' = add_authz z (run_db w) \<Longrightarrow> ca_step env w w'"
| authz_validated: "grown w w' \<Longrightarrow> z \<in> set (db_authzs (run_db w)) \<Longrightarrow> r \<in> set (db_orders (run_db w)) \<Longrightarrow> or_id r = az_order_id z \<Longrightarrow>
    or_status r = OrderPending \<Longrightarrow> z' = z\<lparr>az_status := AuthzValid, az_updated_at := u\<rparr> \<Longrightarrow> run_db w' = put_authz z' (run_db w) \<Longrightarrow> ca_step env w w'"
| order_ready: "grown w w' \<Longrightarrow> r \<in> set (db_orders (run_db w)) \<Longrightarrow> or_status r = OrderPending \<Longrightarrow> same_order r r' \<Longrightarrow> or_status r' = OrderReady \<Longrightarrow>
    (\<And>z. z \<in> set (db_authzs (run_db w)) \<Longrightarrow> az_order_id z = or_id r \<Longrightarrow> az_status z = AuthzValid) \<Longrightarrow>
    run_db w' = put_order r' (run_db w) \<Longrightarrow> ca_step env w w'"
| authz_deactivated: "grown w w' \<Longrightarrow> z \<in> set (db_authzs (run_db w)) \<Longrightarrow> r \<in> set (db_orders (run_db w)) \<Longrightarrow> or_id r = az_order_id z \<Longrightarrow>
    z' = z\<lparr>az_status := AuthzDeactivated, az_updated_at := u\<rparr> \<Longrightarrow> same_order r r' \<Longrightarrow>
    (if or_status r \<in> open_states then or_status r' = OrderInvalid \<and> run_db w' = put_order r' (put_authz z' (run_db w))
      else run_db w' = put_authz z' (run_db w)) \<Longrightarrow> ca_step env w w'"
| order_processing: "grown w w' \<Longrightarrow> r \<in> set (db_orders (run_db w)) \<Longrightarrow> or_status r = OrderReady \<Longrightarrow> same_order r r' \<Longrightarrow> or_status r' = OrderProcessing \<Longrightarrow>
    run_db w' = put_order r' (run_db w) \<Longrightarrow> ca_step env w w'"
| issued: "grown w w' \<Longrightarrow> fresh_id w w' (ce_id c) \<Longrightarrow> fresh_id w w' (cc_id k) \<Longrightarrow> r \<in> set (db_orders (run_db w)) \<Longrightarrow> or_id r = ce_order_id c \<Longrightarrow>
    or_status r = OrderProcessing \<Longrightarrow> aic \<noteq> [] \<Longrightarrow> aic \<in> set (order_agent_ids r) \<Longrightarrow> ce_aic c = Some aic \<Longrightarrow> ce_status c = CertValid \<Longrightarrow>
    x5_load_pem (en_x509 env) (ce_pem c) = Some b \<Longrightarrow> x5_sign (en_x509 env) b' = Some (ce_pem c) \<Longrightarrow> names_agent b' aic \<Longrightarrow> ce_serial c = hex_upper (cb_serial b) \<Longrightarrow>
    ce_cert_id c \<notin> ce_cert_id ` set (db_certs (run_db w)) \<Longrightarrow>
    ce_serial c \<notin> ce_serial ` set (db_certs (run_db w)) \<Longrightarrow> ce_serial c \<notin> cc_serial ` set (db_common (run_db w)) \<Longrightarrow>
    cc_serial k = ce_serial c \<Longrightarrow> cc_aic k = Some aic \<Longrightarrow> cc_status k = CertValid \<Longrightarrow> cc_pem k = ce_pem c \<Longrightarrow>
    cc_version k = next_version aic (run_db w) \<Longrightarrow> run_db w' = add_certs c k (run_db w) \<Longrightarrow> ca_step env w w'"
| order_done: "grown w w' \<Longrightarrow> r \<in> set (db_orders (run_db w)) \<Longrightarrow> or_status r = OrderProcessing \<Longrightarrow> same_order r r' \<Longrightarrow> or_status r' = OrderValid \<Longrightarrow>
    run_db w' = put_order r' (run_db w) \<Longrightarrow> ca_step env w w'"
| revoked: "grown w w' \<Longrightarrow> c \<in> set (db_certs (run_db w)) \<Longrightarrow> ce_status c \<noteq> CertRevoked \<Longrightarrow>
    c' = c\<lparr>ce_status := CertRevoked, ce_revoked_at := t, ce_reason := rr\<rparr> \<Longrightarrow>
    (case List.find (\<lambda>k. cc_serial k = ce_serial c) (db_common (run_db w)) of
       None \<Rightarrow> run_db w' = put_cert c' (run_db w)
     | Some k \<Rightarrow> if cc_status k \<noteq> CertRevoked then \<exists>now. run_db w' = put_cert c' (put_common (revoke_common now rr k) (run_db w))
         else run_db w' = put_cert c' (run_db w)) \<Longrightarrow> ca_step env w w'"

abbreviation ca_steps :: "acme_env \<Rightarrow> acme_run \<Rightarrow> acme_run \<Rightarrow> bool" where
  "ca_steps env \<equiv> (ca_step env)\<^sup>*\<^sup>*"

lemma ca_step_grown: "ca_step env w w' \<Longrightarrow> grown w w'"
  by (induction rule: ca_step.induct) auto

lemma ca_steps_grown: "ca_steps env w w' \<Longrightarrow> grown w w'"
  by (induction rule: rtranclp_induct) (auto intro: grown_trans ca_step_grown)

subsection \<open>Well-formed tables\<close>

text \<open>A table whose primary keys come from the sequence.\<close>

definition keyed :: "('a \<Rightarrow> int) \<Rightarrow> nat \<Rightarrow> 'a list \<Rightarrow> bool" where
  "keyed key seq rows \<longleftrightarrow> distinct (map key rows) \<and> (\<forall>a\<in>set rows. key a \<le> int seq)"

lemma keyed_grown: "keyed key (run_seq w) rows \<Longrightarrow> grown w w' \<Longrightarrow> keyed key (run_seq w') rows"
  by (force simp: keyed_def grown_def)

lemma keyed_insert: "keyed key (run_seq w) rows \<Longrightarrow> grown w w' \<Longrightarrow> fresh_id w w' (key a) \<Longrightarrow> keyed key (run_seq w') (rows @ [a])"
  by (force simp: keyed_def grown_def fresh_id_def)

lemma keyed_replace: "keyed key (run_seq w) rows \<Longrightarrow> grown w w' \<Longrightarrow> b \<in> set rows \<Longrightarrow> key a = key b \<Longrightarrow> keyed key (run_seq w') (replace_row key a rows)"
  by (force simp: keyed_def grown_def dest!: replace_rowD)

lemma keyed_unique: "keyed key n rows \<Longrightarrow> a \<in> set rows \<Longrightarrow> b \<in> set rows \<Longrightarrow> key a = key b \<Longrightarrow> a = b"
  by (auto simp: keyed_def dest: distinct_key)

lemma keyed_distinct: "keyed key n rows \<Longrightarrow> distinct (map key rows)"
  by (simp add: keyed_def)

definition wf_nonces :: "acme_run \<Rightarrow> bool" where
  "wf_nonces w \<longleftrightarrow> distinct (map no_nonce (db_nonces (run_db w)))"

definition wf_accounts :: "acme_run \<Rightarrow> bool" where
  "wf_accounts w \<longleftrightarrow> keyed ac_id (run_seq w) (db_accounts (run_db w)) \<and> distinct (map ac_key_id (db_accounts (run_db w)))"

definition wf_orders :: "acme_run \<Rightarrow> bool" where
  "wf_orders w \<longleftrightarrow> keyed or_id (run_seq w) (db_orders (run_db w)) \<and> distinct (map or_order_id (db_orders (run_db w)))"

definition wf_authzs :: "acme_run \<Rightarrow> bool" where
  "wf_authzs w \<longleftrightarrow> keyed az_id (run_seq w) (db_authzs (run_db w)) \<and> distinct (map az_authz_id (db_authzs (run_db w)))
     \<and> az_order_id ` set (db_authzs (run_db w)) \<subseteq> or_id ` set (db_orders (run_db w))"

definition wf_certs :: "acme_run \<Rightarrow> bool" where
  "wf_certs w \<longleftrightarrow> keyed ce_id (run_seq w) (db_certs (run_db w)) \<and> distinct (map ce_cert_id (db_certs (run_db w)))
     \<and> distinct (map ce_serial (db_certs (run_db w))) \<and> ce_order_id ` set (db_certs (run_db w)) \<subseteq> or_id ` set (db_orders (run_db w))"

definition wf_common :: "acme_run \<Rightarrow> bool" where
  "wf_common w \<longleftrightarrow> keyed cc_id (run_seq w) (db_common (run_db w)) \<and> distinct (map cc_serial (db_common (run_db w)))"

definition wf_tables :: "acme_run \<Rightarrow> bool" where
  "wf_tables w \<longleftrightarrow> wf_nonces w \<and> wf_accounts w \<and> wf_orders w \<and> wf_authzs w \<and> wf_certs w \<and> wf_common w"

lemmas db_changes = add_nonce_def use_nonce_def add_account_def put_account_def add_order_def put_order_def add_authz_def
  put_authz_def add_certs_def put_cert_def put_common_def

lemma used_nonces_same: "map (no_nonce \<circ> (\<lambda>n. if no_nonce n = m then n\<lparr>no_used := True\<rparr> else n)) ns = map no_nonce ns"
  by (induction ns) auto

lemma replace_key_subset:
  "f ` set rows \<subseteq> B \<Longrightarrow> f a \<in> B \<Longrightarrow> f ` set (replace_row key a rows) \<subseteq> B"
  by (auto dest!: replace_rowD)

text \<open>A row that differs in other columns only leaves a unique column distinct.\<close>

lemma distinct_replace_same:
  "keyed key n rows \<Longrightarrow> distinct (map f rows) \<Longrightarrow> b \<in> set rows \<Longrightarrow> key a = key b \<Longrightarrow> f a = f b \<Longrightarrow> distinct (map f (replace_row key a rows))"
  by (metis keyed_unique replace_row_other)

lemma revoked_cases:
  assumes "case List.find p xs of None \<Rightarrow> A | Some k \<Rightarrow> if Q k then \<exists>now. B now k else A"
  obtains A | k now where "k \<in> set xs" "p k" "Q k" "B now k"
  using assms by (auto split: option.splits if_splits dest: find_SomeD)

lemma db_of_deactivation:
  "(if or_status r \<in> open_states then or_status r' = OrderInvalid \<and> d = put_order r' (put_authz z d0) else d = put_authz z d0) \<Longrightarrow>
   db_nonces d = db_nonces d0 \<and> db_accounts d = db_accounts d0 \<and> db_certs d = db_certs d0 \<and> db_common d = db_common d0
   \<and> db_authzs d = replace_row az_id z (db_authzs d0) \<and> (db_orders d = db_orders d0 \<or> db_orders d = replace_row or_id r' (db_orders d0))"
  by (auto simp: db_changes split: if_splits)

lemma db_of_revocation:
  assumes "(case List.find (\<lambda>k. cc_serial k = ce_serial c) (db_common d0) of
       None \<Rightarrow> d = put_cert c' d0
     | Some k \<Rightarrow> if cc_status k \<noteq> CertRevoked then \<exists>now. d = put_cert c' (put_common (revoke_common now rr k) d0)
         else d = put_cert c' d0)"
  shows "db_nonces d = db_nonces d0 \<and> db_accounts d = db_accounts d0 \<and> db_orders d = db_orders d0 \<and> db_authzs d = db_authzs d0
   \<and> db_certs d = replace_row ce_id c' (db_certs d0)
   \<and> (db_common d = db_common d0 \<or> (\<exists>k now. k \<in> set (db_common d0) \<and> db_common d = replace_row cc_id (revoke_common now rr k) (db_common d0)))"
proof (cases "List.find (\<lambda>k. cc_serial k = ce_serial c) (db_common d0)")
  case None
  then show ?thesis using assms by (simp add: db_changes)
next
  case (Some k)
  then have k: "k \<in> set (db_common d0)" by (auto dest: find_SomeD)
  show ?thesis
  proof (cases "cc_status k \<noteq> CertRevoked")
    case True
    then obtain now where "d = put_cert c' (put_common (revoke_common now rr k) d0)" using assms Some by auto
    then show ?thesis using k by (auto simp: db_changes)
  next
    case False
    then show ?thesis using assms Some by (simp add: db_changes)
  qed
qed

lemma step_wf_nonces: "ca_step env w w' \<Longrightarrow> wf_nonces w \<Longrightarrow> wf_nonces w'"
proof (induction rule: ca_step.induct)
  case (authz_deactivated w w' z r z' u r')
  then show ?case using db_of_deactivation [OF authz_deactivated.hyps(7)] by (simp add: wf_nonces_def)
next
  case (revoked w w' c c' rr t)
  then show ?case using db_of_revocation [OF revoked.hyps(5)] by (simp add: wf_nonces_def)
next
  case (nonce_used w w' n)
  then show ?case by (simp add: wf_nonces_def db_changes used_nonces_same)
qed (simp_all add: wf_nonces_def db_changes)

lemma step_wf_accounts: "ca_step env w w' \<Longrightarrow> wf_accounts w \<Longrightarrow> wf_accounts w'"
proof (induction rule: ca_step.induct)
  case (account_added w w' a aic k)
  then show ?case by (auto simp: wf_accounts_def db_changes intro: keyed_insert)
next
  case (account_changed w w' a b)
  then show ?case
    by (auto simp: wf_accounts_def db_changes intro!: keyed_replace distinct_replace_row dest: keyed_distinct)
next
  case (authz_deactivated w w' z r z' u r')
  then show ?case using db_of_deactivation [OF authz_deactivated.hyps(7)] by (auto simp: wf_accounts_def intro: keyed_grown)
next
  case (revoked w w' c c' rr t)
  then show ?case using db_of_revocation [OF revoked.hyps(5)] by (auto simp: wf_accounts_def intro: keyed_grown)
qed (auto simp: wf_accounts_def db_changes intro: keyed_grown)

lemma wf_orders_replace:
  "wf_orders w \<Longrightarrow> grown w w' \<Longrightarrow> r \<in> set (db_orders (run_db w)) \<Longrightarrow> same_order r r' \<Longrightarrow>
   db_orders (run_db w') = replace_row or_id r' (db_orders (run_db w)) \<Longrightarrow> wf_orders w'"
  by (auto simp: wf_orders_def same_order_def intro: keyed_replace distinct_replace_same)

lemma step_wf_orders: "ca_step env w w' \<Longrightarrow> wf_orders w \<Longrightarrow> wf_orders w'"
proof (induction rule: ca_step.induct)
  case (order_added w w' r a aic)
  then show ?case by (auto simp: wf_orders_def db_changes intro: keyed_insert)
next
  case (order_ready w w' r r')
  then show ?case by (rule_tac wf_orders_replace [of w w' r r']) (simp_all add: db_changes)
next
  case (order_processing w w' r r')
  then show ?case by (rule_tac wf_orders_replace [of w w' r r']) (simp_all add: db_changes)
next
  case (order_done w w' r r')
  then show ?case by (rule_tac wf_orders_replace [of w w' r r']) (simp_all add: db_changes)
next
  case (authz_deactivated w w' z r z' u r')
  then show ?case using db_of_deactivation [OF authz_deactivated.hyps(7)] wf_orders_replace [of w w' r r']
    by (auto simp: wf_orders_def intro: keyed_grown)
next
  case (revoked w w' c c' rr t)
  then show ?case using db_of_revocation [OF revoked.hyps(5)] by (auto simp: wf_orders_def intro: keyed_grown)
qed (auto simp: wf_orders_def db_changes intro: keyed_grown)

text \<open>No order disappears.\<close>

lemma step_orders_stay: "ca_step env w w' \<Longrightarrow> or_id ` set (db_orders (run_db w)) \<subseteq> or_id ` set (db_orders (run_db w'))"
proof (induction rule: ca_step.induct)
  case (authz_deactivated w w' z r z' u r')
  then show ?case using db_of_deactivation [OF authz_deactivated.hyps(7)] by auto
next
  case (revoked w w' c c' rr t)
  then show ?case using db_of_revocation [OF revoked.hyps(5)] by simp
qed (auto simp: db_changes)

lemma wf_authzs_replace:
  assumes "wf_authzs w" and "grown w w'" and "z \<in> set (db_authzs (run_db w))" and "z' = z\<lparr>az_status := st, az_updated_at := u\<rparr>"
    and new: "db_authzs (run_db w') = replace_row az_id z' (db_authzs (run_db w))"
    and stay: "or_id ` set (db_orders (run_db w)) \<subseteq> or_id ` set (db_orders (run_db w'))"
  shows "wf_authzs w'"
proof -
  have k: "keyed az_id (run_seq w) (db_authzs (run_db w))" and "distinct (map az_authz_id (db_authzs (run_db w)))"
    and refs: "az_order_id ` set (db_authzs (run_db w)) \<subseteq> or_id ` set (db_orders (run_db w))"
    using assms(1) by (simp_all add: wf_authzs_def)
  moreover have "az_id z' = az_id z" "az_authz_id z' = az_authz_id z" "az_order_id z' = az_order_id z" using assms(4) by simp_all
  moreover have "az_order_id z \<in> or_id ` set (db_orders (run_db w'))" using refs stay assms(3) by blast
  ultimately show ?thesis
    unfolding wf_authzs_def new using keyed_replace [OF k assms(2,3)] distinct_replace_same [OF k _ assms(3)]
      replace_key_subset [of az_order_id "db_authzs (run_db w)" "or_id ` set (db_orders (run_db w'))" z' az_id] stay by auto
qed

lemma step_wf_authzs: "ca_step env w w' \<Longrightarrow> or_id ` set (db_orders (run_db w)) \<subseteq> or_id ` set (db_orders (run_db w')) \<Longrightarrow>
  wf_authzs w \<Longrightarrow> wf_authzs w'"
proof (induction rule: ca_step.induct)
  case (authz_added w w' z r)
  have "az_order_id z \<in> or_id ` set (db_orders (run_db w))" using authz_added.hyps(4,5) by (metis image_eqI)
  then show ?case using authz_added by (auto simp: wf_authzs_def db_changes intro: keyed_insert)
next
  case (authz_validated w w' z r z' u)
  then show ?case by (auto intro: wf_authzs_replace simp: db_changes)
next
  case (authz_deactivated w w' z r z' u r')
  then show ?case using db_of_deactivation [OF authz_deactivated.hyps(7)] by (auto intro: wf_authzs_replace)
next
  case (revoked w w' c c' rr t)
  then show ?case using db_of_revocation [OF revoked.hyps(5)] by (auto simp: wf_authzs_def intro: keyed_grown)
qed (auto simp: wf_authzs_def db_changes intro: keyed_grown)

lemma step_wf_certs: "ca_step env w w' \<Longrightarrow> or_id ` set (db_orders (run_db w)) \<subseteq> or_id ` set (db_orders (run_db w')) \<Longrightarrow>
  wf_certs w \<Longrightarrow> wf_certs w'"
proof (induction rule: ca_step.induct)
  case (issued w w' c k r aic b b')
  have "ce_order_id c \<in> or_id ` set (db_orders (run_db w))" using issued.hyps(4,5) by (metis image_eqI)
  then show ?case using issued by (auto simp: wf_certs_def db_changes intro: keyed_insert)
next
  case (authz_deactivated w w' z r z' u r')
  then show ?case using db_of_deactivation [OF authz_deactivated.hyps(7)] by (auto simp: wf_certs_def intro: keyed_grown)
next
  case (revoked w w' c c' rr t)
  have new: "db_certs (run_db w') = replace_row ce_id c' (db_certs (run_db w))" "db_orders (run_db w') = db_orders (run_db w)"
    using db_of_revocation [OF revoked.hyps(5)] by simp_all
  have k: "keyed ce_id (run_seq w) (db_certs (run_db w))" and d: "distinct (map ce_cert_id (db_certs (run_db w)))"
    "distinct (map ce_serial (db_certs (run_db w)))"
    and refs: "ce_order_id ` set (db_certs (run_db w)) \<subseteq> or_id ` set (db_orders (run_db w))"
    using revoked.prems by (simp_all add: wf_certs_def)
  have c': "ce_id c' = ce_id c" "ce_cert_id c' = ce_cert_id c" "ce_serial c' = ce_serial c" "ce_order_id c' = ce_order_id c"
    using revoked.hyps(4) by simp_all
  show ?case unfolding wf_certs_def new
    using keyed_replace [OF k revoked.hyps(1,2) c'(1)] distinct_replace_same [OF k d(1) revoked.hyps(2) c'(1,2)]
      distinct_replace_same [OF k d(2) revoked.hyps(2) c'(1,3)]
      replace_key_subset [OF refs, of c' ce_id] refs revoked.hyps(2) c'(4) by auto
qed (auto simp: wf_certs_def db_changes intro: keyed_grown)

lemma step_wf_common: "ca_step env w w' \<Longrightarrow> wf_common w \<Longrightarrow> wf_common w'"
proof (induction rule: ca_step.induct)
  case (issued w w' c k r aic b b')
  then show ?case by (auto simp: wf_common_def db_changes intro: keyed_insert)
next
  case (authz_deactivated w w' z r z' u r')
  then show ?case using db_of_deactivation [OF authz_deactivated.hyps(7)] by (auto simp: wf_common_def intro: keyed_grown)
next
  case (revoked w w' c c' rr t)
  then have "db_common (run_db w') = db_common (run_db w)
      \<or> (\<exists>k now. k \<in> set (db_common (run_db w)) \<and> db_common (run_db w') = replace_row cc_id (revoke_common now rr k) (db_common (run_db w)))"
    using db_of_revocation [OF revoked.hyps(5)] by blast
  then show ?case
  proof (elim disjE exE conjE)
    assume "db_common (run_db w') = db_common (run_db w)"
    then show ?thesis using revoked.prems revoked.hyps(1) by (auto simp: wf_common_def intro: keyed_grown)
  next
    fix k now assume k: "k \<in> set (db_common (run_db w))"
      and new: "db_common (run_db w') = replace_row cc_id (revoke_common now rr k) (db_common (run_db w))"
    have "cc_id (revoke_common now rr k) = cc_id k" "cc_serial (revoke_common now rr k) = cc_serial k" by (simp_all add: revoke_common_def)
    then show ?thesis using revoked.prems revoked.hyps(1) k unfolding wf_common_def new
      by (auto intro: keyed_replace distinct_replace_same)
  qed
qed (auto simp: wf_common_def db_changes intro: keyed_grown)

lemma step_wf_tables: "ca_step env w w' \<Longrightarrow> wf_tables w \<Longrightarrow> wf_tables w'"
  unfolding wf_tables_def
  using step_wf_nonces step_wf_accounts step_wf_orders step_wf_authzs step_wf_certs step_wf_common step_orders_stay by metis

lemma steps_wf_tables: "ca_steps env w w' \<Longrightarrow> wf_tables w \<Longrightarrow> wf_tables w'"
  by (induction rule: rtranclp_induct) (auto intro: step_wf_tables)

lemma wf_tables_empty: "run_db w = empty_db \<Longrightarrow> wf_tables w"
  by (simp add: wf_tables_def wf_nonces_def wf_accounts_def wf_orders_def wf_authzs_def wf_certs_def wf_common_def empty_db_def keyed_def)

end
