(* ===== verification/AcmePost.thy ===== *)
theory AcmePost
  imports AcmeSteps
begin

text \<open>
  What holds after each operation of the services that returns: a rule per operation, which names the rows it found and the
  change it made, and the operations that are several steps of the certificate authority.
\<close>

subsection \<open>Rules for nonces and accounts\<close>

lemma post_generate_nonce [acme_rules]:
  assumes "\<And>n x w'. n \<notin> no_nonce ` set (db_nonces (run_db w)) \<Longrightarrow> run_db w' = add_nonce n x (run_db w) \<Longrightarrow> grown w w' \<Longrightarrow> Q n w'"
  shows "post (generate_nonce env) w Q"
  unfolding generate_nonce_def by (intro acme_rules) (rule assms; simp add: add_nonce_def grown_def)

lemma post_verify_nonce:
  assumes "\<And>n now w'. dict_get p ''nonce'' = PStr n \<Longrightarrow> list_ex (nonce_usable n now) (db_nonces (run_db w)) \<Longrightarrow>
      run_db w' = use_nonce n (run_db w) \<Longrightarrow> grown w w' \<Longrightarrow> Q () w'"
  shows "post (verify_nonce env p) w Q"
proof (cases "dict_get p ''nonce''")
  case (PStr n)
  show ?thesis unfolding verify_nonce_def validate_and_consume_nonce_def PStr pyval.case Let_def
    by (intro acme_rules) (auto intro: assms [OF PStr] simp: grown_def)
qed (auto simp: verify_nonce_def post_raise)

lemma post_parse_jws_request [acme_rules]:
  assumes "\<And>p l n now w'. parse_protected_header (en_crypto env) (jr_protected r) = Inr p \<Longrightarrow>
      parse_payload (en_crypto env) (jr_payload r) = Inr l \<Longrightarrow> dict_get p ''nonce'' = PStr n \<Longrightarrow>
      list_ex (nonce_usable n now) (db_nonces (run_db w)) \<Longrightarrow> run_db w' = use_nonce n (run_db w) \<Longrightarrow> grown w w' \<Longrightarrow>
      (url \<noteq> [] \<Longrightarrow> dict_get p ''url'' = PStr url) \<Longrightarrow> Q (p, l) w'"
  shows "post (parse_jws_request env r url) w Q"
  unfolding parse_jws_request_def by (intro acme_rules post_verify_nonce) (rule assms; blast)

definition names_account :: "json_object \<Rightarrow> acme_account \<Rightarrow> bool" where
  "names_account p a \<longleftrightarrow> (has_key p ''kid'' \<longrightarrow>
     (\<exists>url. dict_get p ''kid'' = PStr url \<and> python_int (last (split_on CHR ''/'' url)) = Some (ac_id a)))"

lemma post_account_of_kid:
  assumes "\<And>found. (\<And>a. found = Some a \<Longrightarrow> a \<in> set (db_accounts (run_db w)) \<and>
      (\<exists>url. kid = PStr url \<and> python_int (last (split_on CHR ''/'' url)) = Some (ac_id a))) \<Longrightarrow> Q found w"
  shows "post (account_of_kid kid) w Q"
proof (cases kid)
  case (PStr url)
  show ?thesis unfolding account_of_kid_def PStr pyval.case get_account_by_id_def
    by (intro acme_rules) (rule assms, auto simp: PStr dest!: find_SomeD)
qed (simp_all add: account_of_kid_def post_raise)

lemma post_get_account_from_request:
  assumes "\<And>a. a \<in> set (db_accounts (run_db w)) \<Longrightarrow> ac_status a \<noteq> AccountDeactivated \<Longrightarrow> names_account p a \<Longrightarrow> Q a w"
  shows "post (get_account_from_request env p) w Q"
  unfolding get_account_from_request_def ensure_account_is_active_def get_account_by_key_id_def
  by (intro acme_rules post_account_of_kid) (auto intro!: assms simp: names_account_def dest!: find_SomeD)

lemma post_signed_by_account [acme_rules]:
  assumes "\<And>a. a \<in> set (db_accounts (run_db w)) \<Longrightarrow> ac_status a \<noteq> AccountDeactivated \<Longrightarrow> names_account p a \<Longrightarrow>
      signed_with (en_crypto env) r (jwk_value (ac_public_key a)) \<Longrightarrow> Q a w"
  shows "post (signed_by_account env r p) w Q"
  unfolding signed_by_account_def
  by (intro acme_rules post_get_account_from_request assms)
    (auto simp: verify_jws_signature_def intro: verified_is_signed)

lemma post_get_account_by_jwk:
  assumes "\<And>found. (\<And>a. found = Some a \<Longrightarrow> a \<in> set (db_accounts (run_db w)) \<and> ac_status a \<noteq> AccountDeactivated) \<Longrightarrow> Q found w"
  shows "post (get_account_by_jwk env p) w Q"
proof (cases "dict_get p ''jwk''")
  case (PDict d)
  show ?thesis unfolding get_account_by_jwk_def PDict pyval.case ensure_account_is_active_def get_account_by_key_id_def
    by (intro acme_rules) (rule assms, auto dest!: find_SomeD)+
qed (auto simp: get_account_by_jwk_def intro!: post_return assms)

lemma post_revoking_account [acme_rules]:
  assumes "\<And>found. (\<And>a. found = Some a \<Longrightarrow> a \<in> set (db_accounts (run_db w)) \<and> ac_status a \<noteq> AccountDeactivated) \<Longrightarrow> Q found w"
  shows "post (revoking_account env p) w Q"
  unfolding revoking_account_def
  by (intro acme_rules post_get_account_from_request post_get_account_by_jwk assms) auto

lemma post_verify_account_signature [acme_rules]:
  assumes "(\<And>a. found = Some a \<Longrightarrow> signed_with (en_crypto env) r (jwk_value (ac_public_key a))) \<Longrightarrow> Q () w"
  shows "post (verify_account_signature env r found) w Q"
  unfolding verify_account_signature_def
  by (intro acme_rules) (auto intro!: assms verified_is_signed simp: verify_jws_signature_def)

lemma post_verify_certificate_key [acme_rules]:
  assumes "(found = None \<Longrightarrow> \<exists>jwk. public_key_to_jwk (cb_key b) = Inr jwk \<and> signed_with (en_crypto env) r (jwk_value jwk)) \<Longrightarrow> Q () w"
  shows "post (verify_certificate_key env r found b) w Q"
  unfolding verify_certificate_key_def
  by (intro acme_rules) (auto intro!: assms verified_is_signed)

lemma post_update_account_row:
  assumes "\<And>b w'. ac_id b = ac_id a \<Longrightarrow> ac_aic b = ac_aic a \<Longrightarrow>
      (\<And>c. c \<in> set (db_accounts (run_db w)) \<Longrightarrow> ac_id c \<noteq> ac_id b \<Longrightarrow> ac_key_id c \<noteq> ac_key_id b) \<Longrightarrow>
      run_db w' = put_account b (run_db w) \<Longrightarrow> grown w w' \<Longrightarrow> Q b w'"
  shows "post (update_account_row env a) w Q"
  unfolding update_account_row_def Let_def
  by (intro acme_rules) (rule assms, auto simp: grown_def)

lemma post_update_account_fields [acme_rules]:
  assumes "\<And>b w'. ac_id b = ac_id a \<Longrightarrow> ac_aic b = ac_aic a \<Longrightarrow>
      (\<And>c. c \<in> set (db_accounts (run_db w)) \<Longrightarrow> ac_id c \<noteq> ac_id b \<Longrightarrow> ac_key_id c \<noteq> ac_key_id b) \<Longrightarrow>
      run_db w' = put_account b (run_db w) \<Longrightarrow> grown w w' \<Longrightarrow> Q b w'"
  shows "post (update_account_fields env a contact st) w Q"
proof -
  obtain a' where a': "a' = (case contact of None \<Rightarrow> a | Some c \<Rightarrow> a\<lparr>ac_contact := c\<rparr>)" by blast
  then have same: "ac_id a' = ac_id a" "ac_aic a' = ac_aic a" by (simp_all split: option.splits)
  show ?thesis unfolding update_account_fields_def Let_def a' [symmetric]
    by (intro acme_rules post_update_account_row) (rule assms; simp add: same)+
qed

lemma post_apply_key_change [acme_rules]:
  assumes "\<And>b w'. ac_id b = ac_id a \<Longrightarrow> ac_aic b = ac_aic a \<Longrightarrow>
      (\<And>c. c \<in> set (db_accounts (run_db w)) \<Longrightarrow> ac_id c \<noteq> ac_id b \<Longrightarrow> ac_key_id c \<noteq> ac_key_id b) \<Longrightarrow>
      run_db w' = put_account b (run_db w) \<Longrightarrow> grown w w' \<Longrightarrow> Q b w'"
  shows "post (apply_key_change env a payload url) w Q"
  unfolding apply_key_change_def Let_def get_account_by_key_id_def
  by (intro acme_rules post_update_account_row) (rule assms, auto)

subsection \<open>Rules for the registry\<close>

lemma post_request:
  assumes serve: "\<And>t r. bindings r \<subseteq> bindings (snd (serve t r))" and good: "\<And>t r. G (fst (serve t r)) (bindings (snd (serve t r)))"
    and mono: "\<And>x B C. G x B \<Longrightarrow> B \<subseteq> C \<Longrightarrow> G x C"
  shows "post (make_request_with_retry env serve n) w
    (\<lambda>reply w'. run_db w' = run_db w \<and> grown w w' \<and> (\<forall>x. reply = Some x \<longrightarrow> G x (bindings (run_registry w'))))"
proof (induction n arbitrary: w)
  case 0
  then show ?case by (simp add: post_def acme_return_def)
next
  case (Suc n)
  have attempt: "post (http_attempt env serve) w (\<lambda>oc w'. run_db w' = run_db w \<and> grown w w'
      \<and> (\<forall>x. oc = Replied x \<longrightarrow> G x (bindings (run_registry w'))))"
    unfolding post_def http_attempt_def grown_def using serve [of "run_registry w" "run_tick w"] good [of "run_tick w" "run_registry w"]
    by (auto simp: Let_def split: prod.splits link.splits)
  show ?case unfolding make_request_with_retry.simps
  proof (rule post_then, rule post_mono [OF attempt])
    fix o' w1 assume w1: "run_db w1 = run_db w \<and> grown w w1 \<and> (\<forall>x. o' = Replied x \<longrightarrow> G x (bindings (run_registry w1)))"
    show "post (case o' of Replied reply \<Rightarrow> acme_return (Some reply) | NoReply \<Rightarrow> make_request_with_retry env serve n
        | OtherFailure \<Rightarrow> acme_return None) w1
      (\<lambda>reply w'. run_db w' = run_db w \<and> grown w w' \<and> (\<forall>x. reply = Some x \<longrightarrow> G x (bindings (run_registry w'))))"
    proof (cases o')
      case NoReply
      then show ?thesis using w1 by (auto intro!: post_mono [OF Suc.IH] elim: grown_trans)
    qed (use w1 in \<open>simp_all add: post_return\<close>)
  qed
qed

lemma consume_route_binds:
  assumes "Option.bind (ok_body (Some (fst (eab_consume_route d tok conf now k r)))) credential_of = Some (m, aic)"
  shows "(k, aic) \<in> bindings (snd (eab_consume_route d tok conf now k r))"
proof -
  obtain c where c: "List.find (\<lambda>c. ec_key_id c = k) (rg_credentials r) = Some c" "service_token_ok tok conf"
      "\<not> ec_consumed c" "\<not> ec_expires_at c \<le> now"
    using assms by (auto simp: eab_consume_route_def consume_credential_def ok_body_def split: if_splits option.splits)
  then have route: "eab_consume_route d tok conf now k r
      = (HttpReply 200 (Some (PDict [(''macKey'', PStr (d (ec_mac_key_encrypted c))), (''aic'', PStr (ec_aic c))])),
         r\<lparr>rg_credentials := map (\<lambda>d. if ec_key_id d = k then d\<lparr>ec_consumed := True\<rparr> else d) (rg_credentials r)\<rparr>)"
    by (simp add: eab_consume_route_def consume_credential_def)
  have "aic = ec_aic c" using assms by (simp add: route ok_body_def dict_get_def)
  moreover have "c \<in> set (rg_credentials r)" "ec_key_id c = k" using find_SomeD [OF c(1)] by simp_all
  ultimately show ?thesis
    by (auto simp: route bindings_def intro!: exI [of _ "c\<lparr>ec_consumed := True\<rparr>"] image_eqI [of _ _ c])
qed

lemma post_consume_eab_credential [acme_rules]:
  assumes "\<And>res w'. run_db w' = run_db w \<Longrightarrow> grown w w' \<Longrightarrow> (\<And>m aic. res = Some (m, aic) \<Longrightarrow> (k, aic) \<in> bindings (run_registry w')) \<Longrightarrow> Q res w'"
  shows "post (consume_eab_credential env k) w Q"
  unfolding consume_eab_credential_def
  by (intro post_then, rule post_mono [OF post_request
        [where G = "\<lambda>x B. \<forall>m aic. Option.bind (ok_body (Some x)) credential_of = Some (m, aic) \<longrightarrow> (k, aic) \<in> B"]])
    (use consume_grows consume_route_binds in \<open>blast | intro acme_rules | auto intro!: assms post_return simp: ok_body_def split: option.splits\<close>)+

lemma accept_agentD: "accept_agent aic reply = Some ai \<Longrightarrow> ai_aic ai = PStr aic \<and> ai_active ai"
  by (auto simp: accept_agent_def split: bind_split_asm if_splits)

lemma post_validate_aic [acme_rules]:
  assumes "\<And>res w'. run_db w' = run_db w \<Longrightarrow> grown w w' \<Longrightarrow> (\<And>ai. res = Some ai \<Longrightarrow> ai_aic ai = PStr aic \<and> ai_active ai) \<Longrightarrow> Q res w'"
  shows "post (validate_aic_and_get_info env aic) w Q"
  unfolding validate_aic_and_get_info_def
  by (intro post_then, rule post_mono [OF post_request [where G = "\<lambda>_ _. True"]])
    (auto intro!: post_return assms dest: accept_agentD)

lemma post_verify_eab_binding [acme_rules]:
  assumes "\<And>aic w' k. run_db w' = run_db w \<Longrightarrow> grown w w' \<Longrightarrow> (k, aic) \<in> bindings (run_registry w') \<Longrightarrow> Q aic w'"
  shows "post (verify_eab_binding env eab jwk url) w Q"
  unfolding verify_eab_binding_def by (intro acme_rules) (auto intro: assms)

lemma post_create_account [acme_rules]:
  assumes "\<And>a. a \<in> set (db_accounts (run_db w)) \<Longrightarrow> Q a w"
    and "\<And>a w'. fresh_id w w' (ac_id a) \<Longrightarrow> ac_key_id a \<notin> ac_key_id ` set (db_accounts (run_db w)) \<Longrightarrow> ac_status a = AccountValid \<Longrightarrow>
      ac_aic a = new_aic d \<Longrightarrow> run_db w' = add_account a (run_db w) \<Longrightarrow> grown w w' \<Longrightarrow> run_registry w' = run_registry w \<Longrightarrow> Q a w'"
  shows "post (create_account env d) w Q"
  unfolding create_account_def get_account_by_key_id_def Let_def
  by (intro acme_rules) (rule assms, auto simp: fresh_id_def grown_def add_account_def dest!: find_SomeD)+

subsection \<open>Rules for orders and authorizations\<close>

lemma post_create_order_row [acme_rules]:
  assumes "\<And>r w'. fresh_id w w' (or_id r) \<Longrightarrow> or_order_id r \<notin> or_order_id ` set (db_orders (run_db w)) \<Longrightarrow> or_account_id r = i \<Longrightarrow>
      or_status r = OrderPending \<Longrightarrow> or_identifiers r = ids \<Longrightarrow> run_db w' = add_order r (run_db w) \<Longrightarrow> grown w w' \<Longrightarrow> Q r w'"
  shows "post (create_order_row env i ids nb na) w Q"
  unfolding create_order_row_def Let_def
  by (intro acme_rules) (rule assms, auto simp: fresh_id_def grown_def add_order_def)

lemma post_update_order_status [acme_rules]:
  assumes "\<And>r' u w'. r' = r\<lparr>or_status := st, or_updated_at := u\<rparr> \<Longrightarrow> run_db w' = put_order r' (run_db w) \<Longrightarrow> grown w w' \<Longrightarrow> Q r' w'"
  shows "post (update_order_status env r st) w Q"
  unfolding update_order_status_def Let_def by (intro acme_rules) (rule assms, auto simp: grown_def)

lemma post_own_order [acme_rules]:
  assumes "\<And>r. r \<in> set (db_orders (run_db w)) \<Longrightarrow> or_order_id r = i \<Longrightarrow> or_account_id r = ac_id a \<Longrightarrow> Q r w"
  shows "post (own_order a i) w Q"
  unfolding own_order_def get_order_by_id_def by (intro acme_rules) (auto intro: assms dest!: find_SomeD)

lemma post_create_authorization [acme_rules]:
  assumes "\<And>z w'. fresh_id w w' (az_id z) \<Longrightarrow> az_authz_id z \<notin> az_authz_id ` set (db_authzs (run_db w)) \<Longrightarrow> az_order_id z = i \<Longrightarrow>
      run_db w' = add_authz z (run_db w) \<Longrightarrow> grown w w' \<Longrightarrow> Q z w'"
  shows "post (create_authorization env i ident x) w Q"
  unfolding create_authorization_def Let_def
  by (intro acme_rules) (rule assms, auto simp: fresh_id_def grown_def add_authz_def)

lemma post_update_authorization_status [acme_rules]:
  assumes "\<And>z' u w'. z' = z\<lparr>az_status := st, az_updated_at := u\<rparr> \<Longrightarrow> run_db w' = put_authz z' (run_db w) \<Longrightarrow> grown w w' \<Longrightarrow> Q z' w'"
  shows "post (update_authorization_status env z st) w Q"
  unfolding update_authorization_status_def Let_def by (intro acme_rules) (rule assms, auto simp: grown_def)

lemma post_get_authorization_by_id [acme_rules]:
  assumes "\<And>found. (\<And>z r. found = Some (z, r) \<Longrightarrow> z \<in> set (db_authzs (run_db w)) \<and> az_authz_id z = i \<and> r \<in> set (db_orders (run_db w)) \<and> or_id r = az_order_id z)
      \<Longrightarrow> Q found w"
  shows "post (get_authorization_by_id i) w Q"
  unfolding get_authorization_by_id_def get_order_by_pk_def
  by (intro acme_rules) (rule assms, auto dest!: find_SomeD)+

lemma post_normalize_identifier:
  assumes "\<And>ident w'. map_of ident ''type'' = Some ''agent'' \<Longrightarrow> map_of ident ''value'' = Some aic \<Longrightarrow> run_db w' = run_db w \<Longrightarrow> grown w w' \<Longrightarrow> Q ident w'"
  shows "post (normalize_identifier env aic v) w Q"
proof (cases v)
  case (PDict d)
  show ?thesis unfolding normalize_identifier_def PDict pyval.case Let_def
    by (intro acme_rules) (rule assms, simp_all)
qed (auto simp: normalize_identifier_def intro!: post_raise)

lemma post_normalize_identifiers [acme_rules]:
  assumes "\<And>ids w'. (aic \<noteq> [] \<Longrightarrow> for_agent aic ids) \<Longrightarrow> run_db w' = run_db w \<Longrightarrow> grown w w' \<Longrightarrow> Q ids w'"
  shows "post (normalize_and_validate_agent_identifiers env v aic) w Q"
proof (cases "truthy v \<and> (\<exists>vs. v = PList vs)")
  case True
  then obtain vs where vs: "v = PList vs" by blast
  then have v: "vs \<noteq> []" using True by simp
  have loop: "normalize_and_validate_agent_identifiers env v aic = acme_each (normalize_identifier env aic) vs"
    using v by (simp add: normalize_and_validate_agent_identifiers_def vs)
  let ?R = "\<lambda>(_::pyval) ident. map_of ident ''type'' = Some ''agent'' \<and> map_of ident ''value'' = Some aic"
  have "post (acme_each (normalize_identifier env aic) vs) w
      (\<lambda>ids w'. (run_db w' = run_db w \<and> grown w w') \<and> list_all2 ?R vs ids)"
    by (rule post_each) (auto intro!: post_normalize_identifier elim: grown_trans)
  then show ?thesis unfolding loop
  proof (rule post_mono)
    fix ids w' assume h: "(run_db w' = run_db w \<and> grown w w') \<and> list_all2 ?R vs ids"
    have "for_agent aic ids" if "aic \<noteq> []"
      using h v that by (auto simp: for_agent_def list_all2_conv_all_nth in_set_conv_nth)
    then show "Q ids w'" using h assms by blast
  qed
next
  case False
  then show ?thesis
    by (cases v) (auto simp: normalize_and_validate_agent_identifiers_def intro!: acme_rules)
qed

lemma post_deactivate_authorization [acme_rules]:
  assumes "\<And>z' r' u w'. z' = z\<lparr>az_status := AuthzDeactivated, az_updated_at := u\<rparr> \<Longrightarrow> same_order r r' \<Longrightarrow> grown w w' \<Longrightarrow>
      (if or_status r \<in> open_states then or_status r' = OrderInvalid \<and> run_db w' = put_order r' (put_authz z' (run_db w))
       else run_db w' = put_authz z' (run_db w)) \<Longrightarrow> Q z' w'"
    and "Q z w"
  shows "post (deactivate_authorization env z r) w Q"
  unfolding deactivate_authorization_def Let_def
proof (intro acme_rules)
  show "Q z w" by (rule assms)
next
  fix t t' assume "or_status r \<in> {OrderPending, OrderReady, OrderProcessing}"
  then show "Q (z\<lparr>az_status := AuthzDeactivated, az_updated_at := Some (en_now env t)\<rparr>)
      (w\<lparr>run_tick := Suc t, run_db := put_authz (z\<lparr>az_status := AuthzDeactivated, az_updated_at := Some (en_now env t)\<rparr>) (run_db (w\<lparr>run_tick := Suc t\<rparr>)),
         run_tick := Suc t', run_db := put_order (r\<lparr>or_status := OrderInvalid, or_updated_at := Some (en_now env t')\<rparr>)
           (run_db (w\<lparr>run_tick := Suc t, run_db := put_authz (z\<lparr>az_status := AuthzDeactivated, az_updated_at := Some (en_now env t)\<rparr>) (run_db (w\<lparr>run_tick := Suc t\<rparr>)),
             run_tick := Suc t'\<rparr>))\<rparr>)"
    by (intro assms(1) [where r' = "r\<lparr>or_status := OrderInvalid, or_updated_at := Some (en_now env t')\<rparr>"])
      (auto simp: same_order_def grown_def open_states_def)
next
  fix t assume "or_status r \<notin> {OrderPending, OrderReady, OrderProcessing}"
  then show "Q (z\<lparr>az_status := AuthzDeactivated, az_updated_at := Some (en_now env t)\<rparr>)
      (w\<lparr>run_tick := Suc t, run_db := put_authz (z\<lparr>az_status := AuthzDeactivated, az_updated_at := Some (en_now env t)\<rparr>) (run_db (w\<lparr>run_tick := Suc t\<rparr>))\<rparr>)"
    by (intro assms(1) [where r' = r]) (auto simp: same_order_def grown_def open_states_def)
qed

subsection \<open>Rules for certificates\<close>

definition order_agent :: "order_identifier \<Rightarrow> agent_info \<Rightarrow> bool" where
  "order_agent ident ai \<longleftrightarrow> (\<exists>aic. map_of ident ''value'' = Some aic \<and> ai_aic ai = PStr aic \<and> ai_active ai)"

lemma post_validate_order_agent:
  assumes "\<And>ai w'. order_agent ident ai \<Longrightarrow> run_db w' = run_db w \<Longrightarrow> grown w w' \<Longrightarrow> Q ai w'"
  shows "post (validate_order_agent env ident) w Q"
  unfolding validate_order_agent_def by (intro acme_rules) (rule assms, auto simp: order_agent_def)

lemma post_validate_order_agents [acme_rules]:
  assumes "\<And>ais w'. list_all2 order_agent ids ais \<Longrightarrow> run_db w' = run_db w \<Longrightarrow> grown w w' \<Longrightarrow> Q ais w'"
  shows "post (validate_order_agents env ids) w Q"
  unfolding validate_order_agents_def
proof (rule post_mono)
  show "post (acme_each (validate_order_agent env) ids) w (\<lambda>ais w'. (run_db w' = run_db w \<and> grown w w') \<and> list_all2 order_agent ids ais)"
    by (rule post_each) (auto intro!: post_validate_order_agent elim: grown_trans)
qed (use assms in blast)

lemma post_generate_certificate [acme_rules]:
  assumes "\<And>pem b w'. x5_sign (en_x509 env) b = Some pem \<Longrightarrow> names_agent b aic \<Longrightarrow> cb_key b = csr_public_key csr \<Longrightarrow>
      cb_key_usages b = [extended_key_usage usage] \<Longrightarrow> run_db w' = run_db w \<Longrightarrow> grown w w' \<Longrightarrow> Q pem w'"
  shows "post (generate_certificate_for_agent env csr aic ai usage) w Q"
  unfolding generate_certificate_for_agent_def
proof (intro acme_rules)
  fix dns_ips dns ips days t t' pem
  assume "sign_certificate (en_x509 env) (en_ca env) csr [aic] days (agent_components ai) dns ips usage (en_now env t) (en_serial env t') = Some pem"
  from signed_certificate_names_agent [OF this] obtain b where "x5_sign (en_x509 env) b = Some pem" "names_agent b aic"
      "cb_key b = csr_public_key csr" "cb_key_usages b = [extended_key_usage usage]"
    by auto
  then show "Q pem (w\<lparr>run_tick := Suc t, run_tick := Suc t'\<rparr>)" by (rule assms) (simp_all add: grown_def)
qed

lemma post_load_cert_pem [acme_rules]:
  assumes "\<And>b. x5_load_pem (en_x509 env) pem = Some b \<Longrightarrow> Q b w"
  shows "post (load_cert_pem env pem) w Q"
  unfolding load_cert_pem_def by (intro acme_rules assms)

text \<open>The same rules with the run after the operation described, not computed.\<close>

lemma post_external_step:
  assumes "\<And>a w'. run_db w' = run_db w \<Longrightarrow> grown w w' \<Longrightarrow> run_seq w' = run_seq w \<Longrightarrow> Q a w'"
  shows "post (acme_external f) w Q"
  by (intro acme_rules assms; simp add: grown_def)

lemma post_now_step:
  assumes "\<And>a w'. run_db w' = run_db w \<Longrightarrow> grown w w' \<Longrightarrow> run_seq w' = run_seq w \<Longrightarrow> Q a w'"
  shows "post (beijing_now env) w Q"
  by (intro acme_rules assms; simp add: grown_def)

lemma post_next_id_step:
  assumes "\<And>i w'. fresh_id w w' i \<Longrightarrow> run_db w' = run_db w \<Longrightarrow> grown w w' \<Longrightarrow> Q i w'"
  shows "post next_id w Q"
  by (intro acme_rules assms; simp add: grown_def fresh_id_def)

lemma post_insert_step:
  assumes "\<And>w'. \<not> taken (run_db w) \<Longrightarrow> run_db w' = f (run_db w) \<Longrightarrow> grown w w' \<Longrightarrow> run_seq w' = run_seq w \<Longrightarrow> Q () w'"
  shows "post (acme_insert taken f) w Q"
  by (intro acme_rules assms; simp add: grown_def)

lemmas step_rules = post_then post_external_step post_now_step post_next_id_step post_insert_step post_get post_return

lemma fresh_id_grown: "grown u v \<Longrightarrow> fresh_id v w i \<Longrightarrow> grown w x \<Longrightarrow> fresh_id u x i"
  by (auto simp: fresh_id_def grown_def)

lemma post_create_certificate_row:
  assumes aic: "cr_aic d \<noteq> []" and q: "\<And>c k w'. fresh_id w w' (ce_id c) \<Longrightarrow> fresh_id w w' (cc_id k) \<Longrightarrow>
      ce_order_id c = cr_order_id d \<Longrightarrow> ce_serial c = cr_serial d \<Longrightarrow> ce_pem c = cr_pem d \<Longrightarrow> ce_status c = CertValid \<Longrightarrow> ce_aic c = Some (cr_aic d) \<Longrightarrow>
      ce_cert_id c \<notin> ce_cert_id ` set (db_certs (run_db w)) \<Longrightarrow> cr_serial d \<notin> ce_serial ` set (db_certs (run_db w)) \<Longrightarrow>
      cr_serial d \<notin> cc_serial ` set (db_common (run_db w)) \<Longrightarrow> cc_serial k = cr_serial d \<Longrightarrow> cc_aic k = Some (cr_aic d) \<Longrightarrow>
      cc_status k = CertValid \<Longrightarrow> cc_pem k = cr_pem d \<Longrightarrow> cc_version k = next_version (cr_aic d) (run_db w) \<Longrightarrow>
      run_db w' = add_certs c k (run_db w) \<Longrightarrow> grown w w' \<Longrightarrow> Q c w'"
  shows "post (create_certificate_row env d) w Q"
  unfolding create_certificate_row_def Let_def get_next_certificate_version_def insert_common_cert_def
proof (simp only: aic if_False, intro step_rules)
  fix cert_id i now j and w1 w2 w3 w4 w5 w6 :: acme_run
  let ?c = "new_acme_cert i cert_id d" and ?v = "Suc (foldr max (map cc_version (filter (\<lambda>c. cc_aic c = Some (cr_aic d)) (db_common (run_db w3)))) 0)"
  let ?k = "new_agent_cert env j now ?v d"
  assume w: "run_db w1 = run_db w" "run_db w2 = run_db w1" "run_db w3 = run_db w2\<lparr>db_certs := db_certs (run_db w2) @ [?c]\<rparr>"
      "run_db w4 = run_db w3" "run_db w5 = run_db w4" "run_db w6 = run_db w5\<lparr>db_common := db_common (run_db w5) @ [?k]\<rparr>"
    and g: "grown w w1" "grown w1 w2" "grown w2 w3" "grown w3 w4" "grown w4 w5" "grown w5 w6"
    and new: "fresh_id w1 w2 i" "fresh_id w4 w5 j"
    and free: "\<not> (cert_id \<in> ce_cert_id ` set (db_certs (run_db w2)) \<or> cr_serial d \<in> ce_serial ` set (db_certs (run_db w2)))"
      "\<not> cc_serial ?k \<in> cc_serial ` set (db_common (run_db w5))"
  have "grown w2 w6" "grown w w6" using g grown_trans by blast+
  then have "fresh_id w w6 i" using fresh_id_grown [OF g(1) new(1)] by simp
  moreover have "grown w w4" using g grown_trans by blast
  then have "fresh_id w w6 j" using fresh_id_grown [OF _ new(2) g(6)] by simp
  ultimately show "Q ?c w6"
    by (intro q [where k = ?k]) (use free \<open>grown w w6\<close> in \<open>simp_all add: new_acme_cert_def new_agent_cert_def w next_version_def add_certs_def\<close>)
qed

subsection \<open>Operations as steps\<close>

text \<open>An order that is being processed stays as it is while its certificates are issued.\<close>

lemma post_issue_one:
  assumes r: "r \<in> set (db_orders (run_db w))" "or_status r = OrderProcessing" and aic: "aic \<noteq> []" "aic \<in> set (order_agent_ids r)"
  shows "post (issue_one env r csr ais usage (i, aic)) w (\<lambda>c w'. ca_steps env w w' \<and> r \<in> set (db_orders (run_db w')))"
  unfolding issue_one_def Let_def split
proof (intro post_then post_generate_certificate post_lift post_now_step post_load_cert_pem)
  fix pem b and w1 w2 w3 :: acme_run and days now b' now'
  let ?d = "\<lparr>cr_order_id = or_id r, cr_serial = hex_upper (cb_serial b'), cr_pem = pem, cr_subject = extract_subject b', cr_not_before = now',
      cr_not_after = now + days * DAY, cr_aic = aic\<rparr>"
  assume sign: "x5_sign (en_x509 env) b = Some pem" "names_agent b aic" and load: "x5_load_pem (en_x509 env) pem = Some b'"
    and w: "run_db w1 = run_db w" "run_db w2 = run_db w1" "run_db w3 = run_db w2" and g: "grown w w1" "grown w1 w2" "grown w2 w3"
  have w3: "run_db w3 = run_db w" "grown w w3" using w g grown_trans by (simp, blast)
  show "post (create_certificate_row env ?d) w3 (\<lambda>c w'. ca_steps env w w' \<and> r \<in> set (db_orders (run_db w')))"
  proof (rule post_create_certificate_row)
    fix c k w'
    assume c: "ce_order_id c = cr_order_id ?d" "ce_serial c = cr_serial ?d" "ce_pem c = cr_pem ?d" "ce_status c = CertValid" "ce_aic c = Some (cr_aic ?d)"
      and fresh: "fresh_id w3 w' (ce_id c)" "fresh_id w3 w' (cc_id k)" "ce_cert_id c \<notin> ce_cert_id ` set (db_certs (run_db w3))"
        "cr_serial ?d \<notin> ce_serial ` set (db_certs (run_db w3))" "cr_serial ?d \<notin> cc_serial ` set (db_common (run_db w3))"
      and k: "cc_serial k = cr_serial ?d" "cc_aic k = Some (cr_aic ?d)" "cc_status k = CertValid" "cc_pem k = cr_pem ?d"
        "cc_version k = next_version (cr_aic ?d) (run_db w3)"
      and w': "run_db w' = add_certs c k (run_db w3)" "grown w3 w'"
    have "ca_step env w3 w'"
      by (rule ca_step.issued [where r = r and aic = aic and b = b' and b' = b and c = c and k = k])
        (use c fresh k w' sign load r aic w3 in simp_all)
    moreover have "ca_step env w w3" using w3 by (intro ca_step.quiet) auto
    ultimately show "ca_steps env w w' \<and> r \<in> set (db_orders (run_db w'))"
      using r w3 w'(1) by (auto simp: add_certs_def)
  qed (simp add: aic)
qed

lemma post_issue_certificate:
  assumes r: "r \<in> set (db_orders (run_db w))" "or_status r = OrderProcessing" and ids: "for_agent aic (or_identifiers r)"
    and q: "\<And>cs w'. ca_steps env w w' \<Longrightarrow> r \<in> set (db_orders (run_db w')) \<Longrightarrow> cs \<noteq> [] \<Longrightarrow> Q cs w'"
  shows "post (issue_certificate env r csr_der ais usage) w Q"
  unfolding issue_certificate_def
proof (intro acme_rules)
  fix csr u assume "order_agent_ids r \<noteq> []"
  have ids: "x = aic" if "x \<in> set (order_agent_ids r)" for x
    using ids that by (auto simp: order_agent_ids_def for_agent_def pick_def)
  have "aic \<noteq> []" using assms(3) by (simp add: for_agent_def)
  have "post (acme_each (issue_one env r csr ais usage) (enumerate 0 (order_agent_ids r))) w
      (\<lambda>cs w'. (ca_steps env w w' \<and> r \<in> set (db_orders (run_db w'))) \<and> list_all2 (\<lambda>_ _. True) (enumerate 0 (order_agent_ids r)) cs)"
  proof (rule post_each)
    fix x v assume x: "x \<in> set (enumerate 0 (order_agent_ids r))" and v: "ca_steps env w v \<and> r \<in> set (db_orders (run_db v))"
    obtain i a where ia: "x = (i, a)" by (cases x)
    then have "a \<in> set (order_agent_ids r)" using x by (auto simp: in_set_enumerate_eq)
    then have "post (issue_one env r csr ais usage (i, a)) v (\<lambda>c w'. ca_steps env v w' \<and> r \<in> set (db_orders (run_db w')))"
      using ids \<open>aic \<noteq> []\<close> v r(2) by (intro post_issue_one) auto
    then show "post (issue_one env r csr ais usage x) v (\<lambda>y v'. (ca_steps env w v' \<and> r \<in> set (db_orders (run_db v'))) \<and> True)"
      unfolding ia by (rule post_mono) (use v in \<open>auto intro: rtranclp_trans\<close>)
  qed (use r in simp)
  then show "post (acme_each (issue_one env r csr ais usage) (enumerate 0 (order_agent_ids r))) w Q"
  proof (rule post_mono)
    fix cs :: "acme_cert list" and w' assume h: "(ca_steps env w w' \<and> r \<in> set (db_orders (run_db w'))) \<and> list_all2 (\<lambda>_ _. True) (enumerate 0 (order_agent_ids r)) cs"
    then have "length cs = length (order_agent_ids r)" by (auto dest: list_all2_lengthD)
    then have "cs \<noteq> []" using \<open>order_agent_ids r \<noteq> []\<close> by auto
    then show "Q cs w'" using h q by blast
  qed
qed

text \<open>The authorizations of a new order: each is added and validated, and there are no others.\<close>

definition all_valid :: "acme_order \<Rightarrow> acme_run \<Rightarrow> bool" where
  "all_valid r w \<longleftrightarrow> (\<forall>z\<in>set (db_authzs (run_db w)). az_order_id z = or_id r \<longrightarrow> az_status z = AuthzValid)"

lemma post_create_valid_authorization_urls:
  assumes r: "r \<in> set (db_orders (run_db w))" "or_status r = OrderPending" "all_valid r w"
    and q: "\<And>urls w'. ca_steps env w w' \<Longrightarrow> r \<in> set (db_orders (run_db w')) \<Longrightarrow> all_valid r w' \<Longrightarrow> Q urls w'"
  shows "post (create_valid_authorization_urls env r ids url) w Q"
  unfolding create_valid_authorization_urls_def
proof (rule post_mono)
  let ?f = "\<lambda>ident. acme_then (create_authorization env (or_id r) ident (or_expires r)) (\<lambda>authz.
     acme_then (update_authorization_status env authz AuthzValid) (\<lambda>authz'. acme_return (url @ ''/authz/'' @ az_authz_id authz')))"
  let ?I = "\<lambda>v. ca_steps env w v \<and> r \<in> set (db_orders (run_db v)) \<and> all_valid r v"
  show "post (acme_each ?f ids) w (\<lambda>us w'. ?I w' \<and> list_all2 (\<lambda>_ _. True) ids us)"
  proof (rule post_each)
    fix x v assume v: "?I v"
    show "post (?f x) v (\<lambda>y v'. ?I v' \<and> True)"
    proof (intro post_then post_create_authorization post_update_authorization_status post_return conjI TrueI)
      fix z v1 z' u v2
      assume z: "fresh_id v v1 (az_id z)" "az_authz_id z \<notin> az_authz_id ` set (db_authzs (run_db v))" "az_order_id z = or_id r"
        and v1: "run_db v1 = add_authz z (run_db v)" "grown v v1"
        and z': "z' = z\<lparr>az_status := AuthzValid, az_updated_at := u\<rparr>" and v2: "run_db v2 = put_authz z' (run_db v1)" "grown v1 v2"
      have "ca_step env v v1"
        by (rule ca_step.authz_added [where z = z and r = r]) (use z v1 v r in auto)
      moreover have "ca_step env v1 v2"
        by (rule ca_step.authz_validated [where z = z and r = r and u = u]) (use z z' v1 v2 v r in \<open>auto simp: add_authz_def\<close>)
      ultimately show "ca_steps env w v2" using v by (meson rtranclp.rtrancl_into_rtrancl)
      show "r \<in> set (db_orders (run_db v2))" using v v1 v2 by (simp add: add_authz_def put_authz_def)
      show "all_valid r v2"
        using v z' unfolding all_valid_def v1 v2 add_authz_def put_authz_def by (auto dest!: replace_rowD)
    qed
  qed (use r in simp)
qed (use q in blast)

end
