(* ===== verification/AcmeBinding.thy ===== *)
theory AcmeBinding
  imports AcmeSteps
begin

text \<open>
  Who gets a certificate: invariants of the steps. An account is bound to the AIC of a credential that was consumed, an order
  asks for the AIC of its account, and a certificate names the AIC of its order.
\<close>

subsection \<open>Certificates of an order\<close>

definition bound_account_row :: "registry \<Rightarrow> acme_account \<Rightarrow> bool" where
  "bound_account_row r a \<longleftrightarrow> (\<exists>k aic. ac_aic a = Some aic \<and> (k, aic) \<in> bindings r)"

definition order_of_account :: "acme_db \<Rightarrow> acme_order \<Rightarrow> bool" where
  "order_of_account db r \<longleftrightarrow> (\<exists>a aic. a \<in> set (db_accounts db) \<and> ac_id a = or_account_id r \<and> ac_aic a = Some aic \<and> for_agent aic (or_identifiers r))"

definition cert_of_order :: "acme_env \<Rightarrow> acme_db \<Rightarrow> acme_cert \<Rightarrow> bool" where
  "cert_of_order env db c \<longleftrightarrow> (\<exists>r aic b. r \<in> set (db_orders db) \<and> or_id r = ce_order_id c \<and> or_status r \<noteq> OrderPending \<and> or_status r \<noteq> OrderReady
     \<and> ce_aic c = Some aic \<and> aic \<in> set (order_agent_ids r) \<and> x5_sign (en_x509 env) b = Some (ce_pem c) \<and> names_agent b aic)"

definition bound_tables :: "acme_env \<Rightarrow> acme_run \<Rightarrow> bool" where
  "bound_tables env w \<longleftrightarrow> (\<forall>a\<in>set (db_accounts (run_db w)). bound_account_row (run_registry w) a)
     \<and> (\<forall>r\<in>set (db_orders (run_db w)). order_of_account (run_db w) r) \<and> (\<forall>c\<in>set (db_certs (run_db w)). cert_of_order env (run_db w) c)"

lemma bound_account_row_grown: "bound_account_row (run_registry w) a \<Longrightarrow> grown w w' \<Longrightarrow> bound_account_row (run_registry w') a"
  by (auto simp: bound_account_row_def grown_def)

text \<open>The columns of the invariant that a change of another column keeps.\<close>

definition account_aics :: "acme_db \<Rightarrow> (int \<times> string option) set" where
  "account_aics db = (\<lambda>a. (ac_id a, ac_aic a)) ` set (db_accounts db)"

lemma order_of_account_aics:
  "order_of_account db r \<longleftrightarrow> (\<exists>aic. (or_account_id r, Some aic) \<in> account_aics db \<and> for_agent aic (or_identifiers r))"
  by (force simp: order_of_account_def account_aics_def)

lemma bound_account_aics:
  "(\<forall>a\<in>set (db_accounts db). bound_account_row g a) \<longleftrightarrow> (\<forall>(i, aic)\<in>account_aics db. \<exists>k x. aic = Some x \<and> (k, x) \<in> bindings g)"
  by (auto simp: bound_account_row_def account_aics_def)

definition taken_order :: "acme_order \<Rightarrow> bool" where
  "taken_order r \<longleftrightarrow> or_status r \<noteq> OrderPending \<and> or_status r \<noteq> OrderReady"

definition order_facts :: "acme_db \<Rightarrow> (int \<times> int \<times> order_identifier list) set" where
  "order_facts db = (\<lambda>r. (or_id r, or_account_id r, or_identifiers r)) ` set (db_orders db)"

definition taken_orders :: "acme_db \<Rightarrow> (int \<times> order_identifier list) set" where
  "taken_orders db = (\<lambda>r. (or_id r, or_identifiers r)) ` {r \<in> set (db_orders db). taken_order r}"

lemma orders_of_accounts_facts:
  "(\<forall>r\<in>set (db_orders db). order_of_account db r) \<longleftrightarrow>
   (\<forall>(i, a, ids)\<in>order_facts db. \<exists>aic. (a, Some aic) \<in> account_aics db \<and> for_agent aic ids)"
  by (auto simp: order_of_account_aics order_facts_def)

definition cert_named :: "acme_env \<Rightarrow> (int \<times> order_identifier list) set \<Rightarrow> int \<times> string \<times> string option \<Rightarrow> bool" where
  "cert_named env taken = (\<lambda>(i, pem, aic). \<exists>ids x b. (i, ids) \<in> taken \<and> aic = Some x
     \<and> x \<in> set (map (\<lambda>i. pick i ''value'') (filter (\<lambda>i. pick i ''type'' = ''agent'') ids)) \<and> x5_sign (en_x509 env) b = Some pem \<and> names_agent b x)"

definition cert_facts :: "acme_db \<Rightarrow> (int \<times> string \<times> string option) set" where
  "cert_facts db = (\<lambda>c. (ce_order_id c, ce_pem c, ce_aic c)) ` set (db_certs db)"

lemma certs_of_orders_facts:
  "(\<forall>c\<in>set (db_certs db). cert_of_order env db c) \<longleftrightarrow> (\<forall>x\<in>cert_facts db. cert_named env (taken_orders db) x)"
  unfolding cert_facts_def ball_simps
  by (rule ball_cong [OF refl]) (force simp: cert_of_order_def cert_named_def taken_orders_def taken_order_def order_agent_ids_def)

lemma bound_tables_facts:
  "bound_tables env w \<longleftrightarrow> (\<forall>(i, aic)\<in>account_aics (run_db w). \<exists>k x. aic = Some x \<and> (k, x) \<in> bindings (run_registry w))
     \<and> (\<forall>(i, a, ids)\<in>order_facts (run_db w). \<exists>aic. (a, Some aic) \<in> account_aics (run_db w) \<and> for_agent aic ids)
     \<and> (\<forall>x\<in>cert_facts (run_db w). cert_named env (taken_orders (run_db w)) x)"
  by (simp only: bound_tables_def bound_account_aics orders_of_accounts_facts certs_of_orders_facts)

text \<open>A step that adds no account, order or certificate keeps the invariant if orders that were taken stay taken.\<close>

lemma cert_named_mono: "cert_named env A x \<Longrightarrow> A \<subseteq> B \<Longrightarrow> cert_named env B x"
  by (fastforce simp: cert_named_def)

lemma bound_tables_keep:
  assumes "bound_tables env w" "grown w w'" "account_aics (run_db w') = account_aics (run_db w)" "order_facts (run_db w') = order_facts (run_db w)"
    "cert_facts (run_db w') = cert_facts (run_db w)" "taken_orders (run_db w) \<subseteq> taken_orders (run_db w')"
  shows "bound_tables env w'"
proof -
  have b: "bindings (run_registry w) \<subseteq> bindings (run_registry w')" using assms(2) by (simp add: grown_def)
  have "\<forall>(i, aic)\<in>account_aics (run_db w). \<exists>k x. aic = Some x \<and> (k, x) \<in> bindings (run_registry w')"
    using assms(1) b unfolding bound_tables_facts by blast
  moreover have "\<forall>x\<in>cert_facts (run_db w). cert_named env (taken_orders (run_db w')) x"
    using assms(1) cert_named_mono [OF _ assms(6)] unfolding bound_tables_facts by blast
  ultimately show ?thesis using assms(1) unfolding bound_tables_facts assms(3,4,5) by blast
qed

lemma replace_order_facts:
  assumes "keyed or_id n (db_orders db)" "r \<in> set (db_orders db)" "same_order r r'"
  shows "order_facts (put_order r' db) = order_facts db"
  unfolding order_facts_def put_order_def
  by (simp, rule replace_row_other_image) (use assms keyed_unique [OF assms(1) _ assms(2)] in \<open>auto simp: same_order_def\<close>)

lemma replace_order_taken:
  assumes k: "keyed or_id n (db_orders db)" and r: "r \<in> set (db_orders db)" "same_order r r'" and t: "taken_order r \<longrightarrow> taken_order r'"
  shows "taken_orders db \<subseteq> taken_orders (put_order r' db)"
proof
  fix x assume "x \<in> taken_orders db"
  then obtain q where q: "q \<in> set (db_orders db)" "taken_order q" "x = (or_id q, or_identifiers q)" by (auto simp: taken_orders_def)
  have new: "db_orders (put_order r' db) = replace_row or_id r' (db_orders db)" by (simp add: put_order_def)
  show "x \<in> taken_orders (put_order r' db)"
  proof (cases "or_id q = or_id r'")
    case True
    then have "q = r" using keyed_unique [OF k q(1) r(1)] r(2) by (simp add: same_order_def)
    moreover have "r' \<in> set (replace_row or_id r' (db_orders db))" using replace_row_member [OF q(1) True] .
    ultimately show ?thesis using q r(2) t unfolding taken_orders_def new by (auto simp: same_order_def intro!: image_eqI [of _ _ r'])
  next
    case False
    then have "q \<in> set (replace_row or_id r' (db_orders db))" by (rule replace_row_keep [OF q(1)])
    then show ?thesis using q unfolding taken_orders_def new by (auto intro!: image_eqI [of _ _ q])
  qed
qed


text \<open>The steps that do add one.\<close>

lemma bound_tables_account:
  assumes "bound_tables env w" "grown w w'" "ac_aic a = Some aic" "(k, aic) \<in> bindings (run_registry w')" "run_db w' = add_account a (run_db w)"
  shows "bound_tables env w'"
proof -
  have same: "order_facts (run_db w') = order_facts (run_db w)" "cert_facts (run_db w') = cert_facts (run_db w)"
      "taken_orders (run_db w') = taken_orders (run_db w)" and
    new: "account_aics (run_db w') = insert (ac_id a, Some aic) (account_aics (run_db w))"
    by (simp_all add: assms(3,5) add_account_def order_facts_def cert_facts_def taken_orders_def account_aics_def)
  have b: "bindings (run_registry w) \<subseteq> bindings (run_registry w')" using assms(2) by (simp add: grown_def)
  show ?thesis using assms(1,4) b unfolding bound_tables_facts same new by blast
qed

lemma bound_tables_order:
  assumes "bound_tables env w" "grown w w'" "a \<in> set (db_accounts (run_db w))" "or_account_id r = ac_id a" "ac_aic a = Some aic"
    "for_agent aic (or_identifiers r)" "run_db w' = add_order r (run_db w)"
  shows "bound_tables env w'"
proof -
  have same: "account_aics (run_db w') = account_aics (run_db w)" "cert_facts (run_db w') = cert_facts (run_db w)" and
    new: "order_facts (run_db w') = insert (or_id r, or_account_id r, or_identifiers r) (order_facts (run_db w))" and
    t: "taken_orders (run_db w) \<subseteq> taken_orders (run_db w')"
    by (auto simp: assms(7) add_order_def order_facts_def cert_facts_def taken_orders_def account_aics_def)
  have "(or_account_id r, Some aic) \<in> account_aics (run_db w)"
    using assms(3-5) unfolding account_aics_def by (metis (mono_tags, lifting) image_eqI)
  moreover have b: "bindings (run_registry w) \<subseteq> bindings (run_registry w')" using assms(2) by (simp add: grown_def)
  moreover have "\<forall>x\<in>cert_facts (run_db w). cert_named env (taken_orders (run_db w')) x"
    using assms(1) cert_named_mono [OF _ t] unfolding bound_tables_facts by blast
  ultimately show ?thesis using assms(1,6) unfolding bound_tables_facts same new by blast
qed

lemma bound_tables_cert:
  assumes "bound_tables env w" "grown w w'" "r \<in> set (db_orders (run_db w))" "or_id r = ce_order_id c" "taken_order r"
    "aic \<in> set (order_agent_ids r)" "ce_aic c = Some aic" "x5_sign (en_x509 env) b = Some (ce_pem c)" "names_agent b aic"
    "run_db w' = add_certs c k (run_db w)"
  shows "bound_tables env w'"
proof -
  have same: "account_aics (run_db w') = account_aics (run_db w)" "order_facts (run_db w') = order_facts (run_db w)"
      "taken_orders (run_db w') = taken_orders (run_db w)" and
    new: "cert_facts (run_db w') = insert (ce_order_id c, ce_pem c, ce_aic c) (cert_facts (run_db w))"
    by (simp_all add: assms(10) add_certs_def order_facts_def cert_facts_def taken_orders_def account_aics_def)
  have "(ce_order_id c, or_identifiers r) \<in> taken_orders (run_db w)"
    using assms(3-5) unfolding taken_orders_def by (force intro!: image_eqI [of _ _ r])
  then have "cert_named env (taken_orders (run_db w)) (ce_order_id c, ce_pem c, ce_aic c)"
    using assms(6-9) unfolding cert_named_def order_agent_ids_def by blast
  moreover have b: "bindings (run_registry w) \<subseteq> bindings (run_registry w')" using assms(2) by (simp add: grown_def)
  ultimately show ?thesis using assms(1) unfolding bound_tables_facts same new by blast
qed


subsection \<open>Every step keeps the invariant\<close>

lemma order_change_bound:
  assumes b: "bound_tables env w" "grown w w'" and k: "keyed or_id n (db_orders (run_db w))"
    and r: "r \<in> set (db_orders (run_db w))" "same_order r r'" "taken_order r \<longrightarrow> taken_order r'"
    and db: "account_aics (run_db w') = account_aics (run_db w)" "cert_facts (run_db w') = cert_facts (run_db w)"
      "db_orders (run_db w') = replace_row or_id r' (db_orders (run_db w))"
  shows "bound_tables env w'"
proof -
  have "order_facts (run_db w') = order_facts (put_order r' (run_db w))" "taken_orders (run_db w') = taken_orders (put_order r' (run_db w))"
    by (simp_all add: order_facts_def taken_orders_def put_order_def db(3))
  then show ?thesis using bound_tables_keep [OF b db(1) _ db(2)] replace_order_facts [OF k r(1,2)] replace_order_taken [OF k r] by simp
qed

lemma step_bound_tables:
  assumes "ca_step env w w'" "bound_tables env w" "wf_tables w"
  shows "bound_tables env w'"
proof -
  have ka: "keyed ac_id (run_seq w) (db_accounts (run_db w))" and ko: "keyed or_id (run_seq w) (db_orders (run_db w))"
    and kc: "keyed ce_id (run_seq w) (db_certs (run_db w))"
    using assms(3) by (simp_all add: wf_tables_def wf_accounts_def wf_orders_def wf_certs_def)
  have same: "bound_tables env w'" if "grown w w'" "db_accounts (run_db w') = db_accounts (run_db w)" "db_orders (run_db w') = db_orders (run_db w)"
      "db_certs (run_db w') = db_certs (run_db w)"
    using that by (intro bound_tables_keep [OF assms(2)]) (simp_all add: account_aics_def order_facts_def taken_orders_def cert_facts_def)
  have order: "bound_tables env w'" if "grown w w'" "r \<in> set (db_orders (run_db w))" "same_order r r'" "taken_order r \<longrightarrow> taken_order r'"
      "db_accounts (run_db w') = db_accounts (run_db w)" "db_certs (run_db w') = db_certs (run_db w)"
      "db_orders (run_db w') = replace_row or_id r' (db_orders (run_db w))" for r r'
    using that by (intro order_change_bound [OF assms(2) _ ko]) (simp_all add: account_aics_def cert_facts_def)
  from assms(1) show ?thesis
  proof cases
    case (account_added a aic k)
    then show ?thesis using bound_tables_account [OF assms(2)] by blast
  next
    case (account_changed a b)
    have "(\<lambda>a. (ac_id a, ac_aic a)) ` set (replace_row ac_id b (db_accounts (run_db w))) = (\<lambda>a. (ac_id a, ac_aic a)) ` set (db_accounts (run_db w))"
      by (rule replace_row_other_image) (use account_changed(4,5) keyed_unique [OF ka _ account_changed(2)] in fastforce)
    then show ?thesis using account_changed
      by (intro bound_tables_keep [OF assms(2)]) (simp_all add: account_aics_def order_facts_def taken_orders_def cert_facts_def put_account_def)
  next
    case (order_added r a aic)
    then show ?thesis using bound_tables_order [OF assms(2)] by blast
  next
    case (order_ready r r')
    then show ?thesis using order [of r r'] by (simp add: taken_order_def put_order_def)
  next
    case (order_processing r r')
    then show ?thesis using order [of r r'] by (simp add: taken_order_def put_order_def)
  next
    case (order_done r r')
    then show ?thesis using order [of r r'] by (simp add: taken_order_def put_order_def)
  next
    case (authz_deactivated z r z' u r')
    show ?thesis
    proof (cases "or_status r \<in> open_states")
      case True
      then show ?thesis using authz_deactivated order [of r r'] by (simp add: taken_order_def put_order_def put_authz_def)
    next
      case False
      then show ?thesis using authz_deactivated by (intro same) (simp_all add: put_authz_def)
    qed
  next
    case (issued c k r aic b b')
    then show ?thesis using bound_tables_cert [OF assms(2), of w' r c aic b' k] by (simp add: taken_order_def)
  next
    case (revoked c c' rr t)
    have db: "db_accounts (run_db w') = db_accounts (run_db w)" "db_orders (run_db w') = db_orders (run_db w)"
      "db_certs (run_db w') = replace_row ce_id c' (db_certs (run_db w))"
      using db_of_revocation [OF revoked(5)] by simp_all
    have "(\<lambda>c. (ce_order_id c, ce_pem c, ce_aic c)) ` set (replace_row ce_id c' (db_certs (run_db w))) = (\<lambda>c. (ce_order_id c, ce_pem c, ce_aic c)) ` set (db_certs (run_db w))"
      by (rule replace_row_other_image) (use revoked(4) keyed_unique [OF kc _ revoked(2)] in fastforce)
    then show ?thesis using revoked(1) db
      by (intro bound_tables_keep [OF assms(2)]) (simp_all add: account_aics_def order_facts_def taken_orders_def cert_facts_def)
  qed (auto intro: same simp: db_changes)
qed

definition sound_tables :: "acme_env \<Rightarrow> acme_run \<Rightarrow> bool" where
  "sound_tables env w \<longleftrightarrow> wf_tables w \<and> bound_tables env w"

lemma steps_sound_tables: "ca_steps env w w' \<Longrightarrow> sound_tables env w \<Longrightarrow> sound_tables env w'"
  by (induction rule: rtranclp_induct) (auto simp: sound_tables_def intro: step_wf_tables step_bound_tables)

lemma sound_tables_empty: "run_db w = empty_db \<Longrightarrow> sound_tables env w"
  by (simp add: sound_tables_def wf_tables_empty bound_tables_def) (simp add: empty_db_def)

end
