(* ===== verification/AcmeHandlers.thy ===== *)
theory AcmeHandlers
  imports AcmePost AcmeBinding
begin

text \<open>
  Every handler that answers makes a sequence of steps of the certificate authority.
\<close>

subsection \<open>Handlers\<close>

lemma steps_quiet: "ca_steps env u v \<Longrightarrow> run_db w = run_db v \<Longrightarrow> grown v w \<Longrightarrow> ca_steps env u w"
  by (meson ca_step.quiet rtranclp.rtrancl_into_rtrancl)

lemma steps_nonce: "ca_steps env u v \<Longrightarrow> n \<notin> no_nonce ` set (db_nonces (run_db v)) \<Longrightarrow> run_db w = add_nonce n x (run_db v) \<Longrightarrow> grown v w \<Longrightarrow> ca_steps env u w"
  by (meson ca_step.nonce_added rtranclp.rtrancl_into_rtrancl)

lemma steps_use_nonce: "run_db w = use_nonce n (run_db v) \<Longrightarrow> grown v w \<Longrightarrow> ca_steps env v w"
  by (meson ca_step.nonce_used r_into_rtranclp)

lemma post_response [acme_rules]:
  assumes "\<And>a n x w'. n \<notin> no_nonce ` set (db_nonces (run_db w)) \<Longrightarrow> run_db w' = add_nonce n x (run_db w) \<Longrightarrow> grown w w' \<Longrightarrow> Q a w'"
  shows "post (create_acme_response env d st loc) w Q"
  unfolding create_acme_response_def by (intro acme_rules assms)

lemma use_nonce_tables [simp]:
  "db_accounts (use_nonce n db) = db_accounts db" "db_orders (use_nonce n db) = db_orders db" "db_authzs (use_nonce n db) = db_authzs db"
  "db_certs (use_nonce n db) = db_certs db" "db_common (use_nonce n db) = db_common db"
  by (simp_all add: use_nonce_def)

definition stepped :: "acme_env \<Rightarrow> acme_run \<Rightarrow> 'a \<Rightarrow> acme_run \<Rightarrow> bool" where
  "stepped env w a w' \<longleftrightarrow> ca_steps env w w'"

lemma steps_then: "ca_steps env u v \<Longrightarrow> ca_step env v w \<Longrightarrow> ca_steps env u w"
  by (rule rtranclp.rtrancl_into_rtrancl)

text \<open>The last operations of a handler, and the first one.\<close>

lemma tail_nonce:
  "ca_steps env w v \<Longrightarrow> (\<And>n v'. ca_steps env w v' \<Longrightarrow> post (k n) v' (stepped env w)) \<Longrightarrow>
   post (acme_then (generate_nonce env) k) v (stepped env w)"
  by (intro post_then post_generate_nonce) (blast intro: steps_nonce)

lemma tail_return: "ca_steps env w v \<Longrightarrow> post (acme_return a) v (stepped env w)"
  by (rule post_return) (simp add: stepped_def)

lemma tail_response: "ca_steps env w v \<Longrightarrow> post (create_acme_response env d st loc) v (stepped env w)"
  unfolding create_acme_response_def by (intro tail_nonce tail_return)

lemma tail_now: "ca_steps env w v \<Longrightarrow> (\<And>t v'. ca_steps env w v' \<Longrightarrow> post (k t) v' (stepped env w)) \<Longrightarrow>
   post (acme_then (beijing_now env) k) v (stepped env w)"
  by (intro post_then post_now_step) (blast intro: steps_quiet)

text \<open>
  An answered request used its nonce, which the server had issued and nobody had used, and made its steps after that.
\<close>

definition answered :: "acme_env \<Rightarrow> jws_request \<Rightarrow> acme_run \<Rightarrow> 'a \<Rightarrow> acme_run \<Rightarrow> bool" where
  "answered env r w a w' \<longleftrightarrow> (\<exists>p n now v. parse_protected_header (en_crypto env) (jr_protected r) = Inr p \<and> dict_get p ''nonce'' = PStr n
     \<and> list_ex (nonce_usable n now) (db_nonces (run_db w)) \<and> run_db v = use_nonce n (run_db w) \<and> grown w v \<and> ca_steps env v w')"

lemma answered_stepped: "answered env r w a w' \<Longrightarrow> ca_steps env w w'"
  by (meson answered_def converse_rtranclp_into_rtranclp ca_step.nonce_used)

lemma head_parse:
  assumes w: "sound_tables env w"
    and k: "\<And>p l w v. sound_tables env w \<Longrightarrow> ca_steps env w v \<Longrightarrow> post (k (p, l)) v (stepped env w)"
  shows "post (acme_then (parse_jws_request env r url) k) w (answered env r w)"
proof (intro post_then post_parse_jws_request)
  fix p l n now v
  assume h: "parse_protected_header (en_crypto env) (jr_protected r) = Inr p" "dict_get p ''nonce'' = PStr n"
    "list_ex (nonce_usable n now) (db_nonces (run_db w))" and v: "run_db v = use_nonce n (run_db w)" "grown w v"
  have "sound_tables env v" using steps_sound_tables [OF steps_use_nonce [OF v] w] .
  then have "post (k (p, l)) v (stepped env v)" by (intro k rtranclp.rtrancl_refl)
  then show "post (k (p, l)) v (answered env r w)"
    by (rule post_mono) (use h v in \<open>auto simp: stepped_def answered_def\<close>)
qed

lemma head_signed:
  assumes "\<And>a. a \<in> set (db_accounts (run_db v)) \<Longrightarrow> ac_status a \<noteq> AccountDeactivated \<Longrightarrow> post (k a) v Q"
  shows "post (acme_then (signed_by_account env r p) k) v Q"
  by (intro post_then post_signed_by_account assms)

lemma get_new_nonce_steps: "post (get_new_nonce env) w (stepped env w)"
  unfolding get_new_nonce_def by (intro tail_nonce tail_return rtranclp.rtrancl_refl)

lemma post_existing_account [acme_rules]:
  assumes "\<And>a. a \<in> set (db_accounts (run_db w)) \<Longrightarrow> Q a w"
  shows "post (existing_account env r k) w Q"
  unfolding existing_account_def get_account_by_key_id_def by (intro acme_rules) (auto intro: assms dest!: find_SomeD)

lemma account_create_aic: "account_create_of env payload k jwk eab aic = Inr d \<Longrightarrow> new_aic d = Some aic"
  unfolding account_create_of_def Let_def by (clarsimp split: option.split_asm if_split_asm)

lemma post_bound_account:
  assumes "\<And>a w'. ca_steps env w w' \<Longrightarrow> Q a w'"
  shows "post (bound_account env r payload url jwk k) w Q"
proof (cases "dict_get payload ''externalAccountBinding''")
  case (PDict eab)
  show ?thesis unfolding bound_account_def PDict pyval.case
  proof (intro acme_rules)
    fix aic w1 key d a assume w1: "run_db w1 = run_db w" "grown w w1" "(key, aic) \<in> bindings (run_registry w1)"
    have s: "ca_steps env w w1" using w1 by (intro r_into_rtranclp ca_step.quiet)
    show "Q a w1" using s by (rule assms)
    fix w2 assume d: "account_create_of env payload k jwk eab aic = Inr d"
      and a: "fresh_id w1 w2 (ac_id a)" "ac_key_id a \<notin> ac_key_id ` set (db_accounts (run_db w1))" "ac_status a = AccountValid"
        "ac_aic a = new_aic d" "run_db w2 = add_account a (run_db w1)" "grown w1 w2" "run_registry w2 = run_registry w1"
    have "new_aic d = Some aic" using d by (rule account_create_aic)
    then have "ca_step env w1 w2" using a w1(3) by (intro ca_step.account_added [where a = a and k = key]) auto
    then show "Q a w2" using s by (intro assms) auto
  qed
qed (auto simp: bound_account_def intro!: acme_rules)

lemma new_account_steps:
  assumes "sound_tables env w"
  shows "post (new_account_route env r) w (answered env r w)"
  unfolding new_account_route_def Let_def
proof (intro head_parse assms, unfold split, intro post_if post_raise post_then [of "acme_lift _"] post_lift)
  fix p l w v jwk k assume v: "ca_steps env w v"
  let ?tail = "\<lambda>account. acme_then (beijing_now env) (\<lambda>now.
        create_acme_response env (account_body env account) (if now - ac_created_at account < 5000000 then 201 else 200)
          (Some (get_configured_acme_base_url env @ ''/acct/'' @ int_to_str (ac_id account))))"
  have tail: "post (?tail account) v' (stepped env w)" if "ca_steps env w v'" for account v'
    using that by (intro tail_now tail_response)
  show "post (acme_then (if truthy (dict_get l ''onlyReturnExisting'') then existing_account env r k
          else bound_account env r l (build_expected_acme_request_url env ''/new-account'') jwk k) ?tail) v (stepped env w)"
    by (intro post_then post_if post_existing_account post_bound_account tail v) (rule rtranclp_trans [OF v])
qed

lemma steps_account_changed:
  assumes "ca_steps env w v" "a \<in> set (db_accounts (run_db v))" "ac_status a \<noteq> AccountDeactivated" "ac_id b = ac_id a" "ac_aic b = ac_aic a"
    "\<And>c. c \<in> set (db_accounts (run_db v)) \<Longrightarrow> ac_id c \<noteq> ac_id b \<Longrightarrow> ac_key_id c \<noteq> ac_key_id b"
    "run_db v' = put_account b (run_db v)" "grown v v'"
  shows "ca_steps env w v'"
  using steps_then [OF assms(1)] ca_step.account_changed [OF assms(8,2,3,4,5,6,7)] by blast

lemma tail_update:
  assumes v: "ca_steps env w v" "a \<in> set (db_accounts (run_db v))" "ac_status a \<noteq> AccountDeactivated"
  shows "post (acme_then (if u then update_account_fields env a contact st else acme_return a) (\<lambda>b. create_acme_response env (f b) n loc)) v (stepped env w)"
proof (cases u)
  case True
  show ?thesis unfolding if_P [OF True]
    by (intro post_then post_update_account_fields tail_response) (rule steps_account_changed [OF v])
next
  case False
  then show ?thesis using v(1) by (auto intro!: post_then post_return tail_response)
qed

lemma update_account_steps:
  assumes "sound_tables env w"
  shows "post (update_account_route env i r) w (answered env r w)"
  unfolding update_account_route_def ensure_post_as_get_uses_empty_payload_def
  by (intro head_parse assms, unfold split, intro post_then [of "if _ then _ else _"] post_if post_require post_return head_signed
    post_then [of "acme_require _ _ _"] tail_update)

lemma key_change_steps:
  assumes "sound_tables env w"
  shows "post (key_change_route env r) w (answered env r w)"
  unfolding key_change_route_def
  by (intro head_parse assms, unfold split, intro head_signed post_if post_raise post_then post_apply_key_change tail_response)
    (rule steps_account_changed, blast+)

lemma get_order_steps:
  assumes "sound_tables env w"
  shows "post (get_order_route env i r) w (answered env r w)"
  unfolding get_order_route_def ensure_post_as_get_uses_empty_payload_def
  by (intro head_parse assms, unfold split, intro post_then post_require post_signed_by_account post_own_order tail_response)

lemma authz_steps:
  assumes "sound_tables env w"
  shows "post (authz_route env i r) w (answered env r w)"
  unfolding authz_route_def ensure_post_as_get_uses_empty_payload_def
proof (intro head_parse assms, unfold split, intro head_signed post_then post_get_authorization_by_id post_case_option post_case_prod post_if
    post_raise post_require post_return tail_response post_deactivate_authorization)
  fix w v found x z r z' r' u v'
  assume v: "ca_steps env w v" and found: "found = Some x" "x = (z, r)"
    and in_db: "\<And>z r. found = Some (z, r) \<Longrightarrow> z \<in> set (db_authzs (run_db v)) \<and> az_authz_id z = i \<and> r \<in> set (db_orders (run_db v)) \<and> or_id r = az_order_id z"
    and step: "z' = z\<lparr>az_status := AuthzDeactivated, az_updated_at := u\<rparr>" "same_order r r'" "grown v v'"
      "if or_status r \<in> open_states then or_status r' = OrderInvalid \<and> run_db v' = put_order r' (put_authz z' (run_db v))
       else run_db v' = put_authz z' (run_db v)"
  have "ca_step env v v'"
    by (rule ca_step.authz_deactivated [where z = z and r = r and u = u and r' = r']) (use step in_db found in auto)
  then show "ca_steps env w v'" by (rule steps_then [OF v])
qed


lemma new_order_steps:
  assumes "sound_tables env w"
  shows "post (new_order_route env r) w (answered env r w)"
  unfolding new_order_route_def mark_ready_with_authorizations_def
proof (intro head_parse assms, unfold split, intro head_signed post_if post_raise post_then post_normalize_identifiers post_lift post_create_order_row)
  fix w v a ids v1 q v2 nb na
  assume sound: "sound_tables env w" and v: "ca_steps env w v" and a: "a \<in> set (db_accounts (run_db v))" "ac_status a \<noteq> AccountDeactivated" "\<not> \<not> str_given (ac_aic a)"
    and ids: "the (ac_aic a) \<noteq> [] \<Longrightarrow> for_agent (the (ac_aic a)) ids" and v1: "run_db v1 = run_db v" "grown v v1"
    and q: "fresh_id v1 v2 (or_id q)" "or_order_id q \<notin> or_order_id ` set (db_orders (run_db v1))" "or_account_id q = ac_id a" "or_status q = OrderPending"
      "or_identifiers q = ids" and v2: "run_db v2 = add_order q (run_db v1)" "grown v1 v2"
  obtain aic where aic: "ac_aic a = Some aic" "aic \<noteq> []" using a(3) by (auto simp: str_given_def split: option.splits)
  have s1: "ca_steps env w v1" by (rule steps_quiet [OF v v1])
  have "ca_step env v1 v2"
    by (rule ca_step.order_added [where a = a and aic = aic]) (use a ids v1 q v2 aic in simp_all)
  then have s2: "ca_steps env w v2" by (rule steps_then [OF s1])
  have "wf_tables v1" using steps_sound_tables [OF s1 sound] by (simp add: sound_tables_def)
  then have "az_order_id z \<le> int (run_seq v1)" if "z \<in> set (db_authzs (run_db v1))" for z
    using that by (force simp: wf_tables_def wf_authzs_def wf_orders_def keyed_def)
  then have fresh: "all_valid q v2" using q(1) v2 by (fastforce simp: all_valid_def fresh_id_def add_order_def)
  show "post (create_valid_authorization_urls env q ids (get_configured_acme_base_url env)) v2
    (\<lambda>urls v3. post (acme_then (update_order_status env (q\<lparr>or_authorizations := Some urls\<rparr>) OrderReady)
      (\<lambda>q'. create_acme_response env (order_body env q' @ time_item env ''notBefore'' (or_not_before q') @ time_item env ''notAfter'' (or_not_after q'))
        201 (Some (order_url env q')))) v3 (stepped env w))"
  proof (intro post_create_valid_authorization_urls post_then post_update_order_status tail_response)
    show "q \<in> set (db_orders (run_db v2))" "or_status q = OrderPending" "all_valid q v2" using q v2 fresh by (simp_all add: add_order_def)
    fix urls v3 q' u v4 assume s3: "ca_steps env v2 v3" and q3: "q \<in> set (db_orders (run_db v3))" "all_valid q v3"
      and q': "q' = (q\<lparr>or_authorizations := Some urls\<rparr>)\<lparr>or_status := OrderReady, or_updated_at := u\<rparr>"
        "run_db v4 = put_order q' (run_db v3)" "grown v3 v4"
    have "ca_step env v3 v4"
      by (rule ca_step.order_ready [where r = q and r' = q']) (use q q3 q' in \<open>auto simp: all_valid_def same_order_def\<close>)
    then show "ca_steps env w v4" using s2 s3 by (meson rtranclp_trans steps_then)
  qed
qed

lemma finalize_steps:
  assumes "sound_tables env w"
  shows "post (finalize_route env i r) w (answered env r w)"
  unfolding finalize_route_def
proof (intro head_parse assms, unfold split, intro head_signed post_then post_own_order post_require post_lift post_validate_order_agents post_update_order_status)
  fix w v a q csr ais v1 q1 u v2
  assume sound: "sound_tables env w" and v: "ca_steps env w v" and q: "q \<in> set (db_orders (run_db v))" "or_status q = OrderReady" and v1: "run_db v1 = run_db v" "grown v v1"
    and q1: "q1 = q\<lparr>or_status := OrderProcessing, or_updated_at := u\<rparr>" and v2: "run_db v2 = put_order q1 (run_db v1)" "grown v1 v2"
  have s1: "ca_steps env w v1" by (rule steps_quiet [OF v v1])
  have "ca_step env v1 v2"
    by (rule ca_step.order_processing [where r = q and r' = q1]) (use q q1 v1 v2 in \<open>simp_all add: same_order_def\<close>)
  then have s2: "ca_steps env w v2" by (rule steps_then [OF s1])
  have "bound_tables env v" using steps_sound_tables [OF v sound] by (simp add: sound_tables_def)
  then obtain aic where aic: "for_agent aic (or_identifiers q1)" using q q1 by (force simp: bound_tables_def order_of_account_def)
  have q2: "q1 \<in> set (db_orders (run_db v2))" using replace_row_member [of q _ or_id q1] q q1 v1 v2 by (simp add: put_order_def)
  show "post (issue_certificate env q1 csr ais (order_usage q1)) v2
    (\<lambda>cs v3. post (acme_then (update_order_status env (if cs = [] then q1 else q1\<lparr>or_certificate := Some (cert_url env (hd cs))\<rparr>) OrderValid)
      (\<lambda>q3. create_acme_response env (finalize_body env q3 cs) 200 (Some (order_url env q3)))) v3 (stepped env w))"
  proof (intro post_issue_certificate post_then post_update_order_status tail_response)
    show "q1 \<in> set (db_orders (run_db v2))" "or_status q1 = OrderProcessing" "for_agent aic (or_identifiers q1)" using q2 q1 aic by simp_all
    fix cs v3 q3 u' v4 assume s3: "ca_steps env v2 v3" and q3: "q1 \<in> set (db_orders (run_db v3))"
      and q4: "q3 = (if cs = [] then q1 else q1\<lparr>or_certificate := Some (cert_url env (hd cs))\<rparr>)\<lparr>or_status := OrderValid, or_updated_at := u'\<rparr>"
        "run_db v4 = put_order q3 (run_db v3)" "grown v3 v4"
    have "ca_step env v3 v4"
      by (rule ca_step.order_done [where r = q1 and r' = q3]) (use q1 q3 q4 in \<open>auto simp: same_order_def\<close>)
    then show "ca_steps env w v4" using s2 s3 by (meson rtranclp_trans steps_then)
  qed
qed

lemma get_certificate_steps:
  assumes "sound_tables env w"
  shows "post (get_certificate_route env i r) w (answered env r w)"
  unfolding get_certificate_route_def ensure_post_as_get_uses_empty_payload_def get_certificate_by_id_def get_order_by_pk_def
  by (intro head_parse assms, unfold split, intro post_then [of "acme_require _ _ _"] post_require head_signed post_then [of "acme_get _"] post_get
    post_case_option post_raise tail_nonce tail_return)

lemma post_get_revocable_certificate:
  assumes "\<And>c b. c \<in> set (db_certs (run_db w)) \<Longrightarrow> ce_status c \<noteq> CertRevoked \<Longrightarrow> x5_load_der (en_x509 env) der = Some b \<Longrightarrow>
      ce_serial c = hex_upper (cb_serial b) \<Longrightarrow>
      (\<And>i. account = Some i \<Longrightarrow> \<exists>r. r \<in> set (db_orders (run_db w)) \<and> or_id r = ce_order_id c \<and> or_account_id r = i) \<Longrightarrow> Q (c, b) w"
  shows "post (get_revocable_certificate env der account) w Q"
  unfolding get_revocable_certificate_def get_order_by_pk_def
  by (intro acme_rules) (auto intro!: assms dest!: find_SomeD split: option.split_asm)

lemma post_revoke_acme_certificate:
  assumes "\<And>c' t w'. c' = c\<lparr>ce_status := CertRevoked, ce_revoked_at := t, ce_reason := Some (from_acme_code reason)\<rparr> \<Longrightarrow>
      (case List.find (\<lambda>k. cc_serial k = ce_serial c) (db_common (run_db w)) of
         None \<Rightarrow> run_db w' = put_cert c' (run_db w)
       | Some k \<Rightarrow> if cc_status k \<noteq> CertRevoked then \<exists>now. run_db w' = put_cert c' (put_common (revoke_common now (Some (from_acme_code reason)) k) (run_db w))
           else run_db w' = put_cert c' (run_db w)) \<Longrightarrow> grown w w' \<Longrightarrow> Q () w'"
  shows "post (revoke_acme_certificate env c reason) w Q"
  unfolding revoke_acme_certificate_def
  by (intro acme_rules) (rule assms, auto simp: grown_def)+

lemma revoke_steps:
  assumes "sound_tables env w"
  shows "post (revoke_route env r) w (answered env r w)"
  unfolding revoke_route_def
proof (intro head_parse assms, unfold split, intro post_then [of "acme_lift _"] post_lift post_then [of "revoking_account _ _"] post_revoking_account
    post_then [of "verify_account_signature _ _ _"] post_verify_account_signature post_then [of "get_revocable_certificate _ _ _"]
    post_get_revocable_certificate, unfold split, intro post_then [of "verify_certificate_key _ _ _ _"] post_verify_certificate_key
    post_then [of "revoke_acme_certificate _ _ _"] post_revoke_acme_certificate tail_nonce tail_return)
  fix w v c reason c' t v'
  assume v: "ca_steps env w v" and c: "c \<in> set (db_certs (run_db v))" "ce_status c \<noteq> CertRevoked"
    and c': "c' = c\<lparr>ce_status := CertRevoked, ce_revoked_at := t, ce_reason := Some (from_acme_code reason)\<rparr>"
      "case List.find (\<lambda>k. cc_serial k = ce_serial c) (db_common (run_db v)) of
         None \<Rightarrow> run_db v' = put_cert c' (run_db v)
       | Some k \<Rightarrow> if cc_status k \<noteq> CertRevoked then \<exists>now. run_db v' = put_cert c' (put_common (revoke_common now (Some (from_acme_code reason)) k) (run_db v))
           else run_db v' = put_cert c' (run_db v)" "grown v v'"
  show "ca_steps env w v'" by (rule steps_then [OF v ca_step.revoked [OF c'(3) c c'(1,2)]])
qed

end
