(* ===== verification/AcmeServer.thy ===== *)
theory AcmeServer
  imports AcmeHandlers
begin

text \<open>
  The server refines the certificate authority: a request that is answered is a sequence of steps, a request that raises
  changes no table, and what the registry does between requests changes none either.
\<close>

subsection \<open>Every handler, also one that raises\<close>

lemma grows_verify_nonce [grow_rules]: "grows (verify_nonce env p)"
  unfolding verify_nonce_def validate_and_consume_nonce_def Let_def by (intro grow_rules)

lemma grows_generate_nonce [grow_rules]: "grows (generate_nonce env)"
  unfolding generate_nonce_def by (intro grow_rules)

lemma grows_parse [grow_rules]: "grows (parse_jws_request env r url)"
  unfolding parse_jws_request_def by (intro grow_rules)

lemma grows_response [grow_rules]: "grows (create_acme_response env d st loc)"
  unfolding create_acme_response_def by (intro grow_rules)

lemma grows_account_of_kid [grow_rules]: "grows (account_of_kid kid)"
  unfolding account_of_kid_def get_account_by_id_def by (intro grow_rules)

lemma grows_account_from_request [grow_rules]: "grows (get_account_from_request env p)"
  unfolding get_account_from_request_def get_account_by_key_id_def ensure_account_is_active_def by (intro grow_rules)

lemma grows_signed [grow_rules]: "grows (signed_by_account env r p)"
  unfolding signed_by_account_def by (intro grow_rules)

lemma grows_update_row [grow_rules]: "grows (update_account_row env a)"
  unfolding update_account_row_def Let_def by (intro grow_rules)

lemma grows_update_fields [grow_rules]: "grows (update_account_fields env a c st)"
  unfolding update_account_fields_def Let_def by (intro grow_rules)

lemma grows_order_status [grow_rules]: "grows (update_order_status env r st)"
  unfolding update_order_status_def Let_def by (intro grow_rules)

lemma grows_authz_status [grow_rules]: "grows (update_authorization_status env z st)"
  unfolding update_authorization_status_def Let_def by (intro grow_rules)

lemma grows_own_order [grow_rules]: "grows (own_order a i)"
  unfolding own_order_def get_order_by_id_def by (intro grow_rules)

lemma grows_existing [grow_rules]: "grows (existing_account env r k)"
  unfolding existing_account_def get_account_by_key_id_def by (intro grow_rules)

lemma grows_eab [grow_rules]: "grows (verify_eab_binding env eab jwk url)"
  unfolding verify_eab_binding_def by (intro grow_rules)

lemma grows_create_account [grow_rules]: "grows (create_account env d)"
  unfolding create_account_def get_account_by_key_id_def Let_def by (intro grow_rules)

lemma grows_bound_account [grow_rules]: "grows (bound_account env r l url jwk k)"
  unfolding bound_account_def by (intro grow_rules)

lemma grows_key_change [grow_rules]: "grows (apply_key_change env a l url)"
  unfolding apply_key_change_def get_account_by_key_id_def Let_def by (intro grow_rules)

lemma grows_identifiers [grow_rules]: "grows (normalize_and_validate_agent_identifiers env v aic)"
  unfolding normalize_and_validate_agent_identifiers_def normalize_identifier_def Let_def by (intro grow_rules)

lemma grows_create_order [grow_rules]: "grows (create_order_row env i ids nb na)"
  unfolding create_order_row_def Let_def by (intro grow_rules)

lemma grows_authorizations [grow_rules]: "grows (create_valid_authorization_urls env r ids url)"
  unfolding create_valid_authorization_urls_def create_authorization_def Let_def by (intro grow_rules)

lemma grows_get_authorization [grow_rules]: "grows (get_authorization_by_id i)"
  unfolding get_authorization_by_id_def get_order_by_pk_def by (intro grow_rules)

lemma grows_deactivate [grow_rules]: "grows (deactivate_authorization env z r)"
  unfolding deactivate_authorization_def Let_def by (intro grow_rules)

lemma grows_order_agents [grow_rules]: "grows (validate_order_agents env ids)"
  unfolding validate_order_agents_def validate_order_agent_def by (intro grow_rules)

lemma grows_certificate_row [grow_rules]: "grows (create_certificate_row env d)"
  unfolding create_certificate_row_def get_next_certificate_version_def insert_common_cert_def Let_def by (intro grow_rules)

lemma grows_issue_one [grow_rules]: "grows (issue_one env r csr ais usage x)"
  unfolding issue_one_def generate_certificate_for_agent_def load_cert_pem_def Let_def by (intro grow_rules)

lemma grows_issue [grow_rules]: "grows (issue_certificate env r der ais usage)"
  unfolding issue_certificate_def by (intro grow_rules)

lemma grows_revoking [grow_rules]: "grows (revoking_account env p)"
  unfolding revoking_account_def by (intro grow_rules) (auto simp: get_account_by_jwk_def get_account_by_key_id_def ensure_account_is_active_def intro!: grow_rules)

lemma grows_revocable [grow_rules]: "grows (get_revocable_certificate env der i)"
  unfolding get_revocable_certificate_def get_order_by_pk_def by (intro grow_rules)

lemma grows_revoke [grow_rules]: "grows (revoke_acme_certificate env c reason)"
  unfolding revoke_acme_certificate_def by (intro grow_rules)

lemmas route_defs = get_directory_def get_ca_certificate_def get_new_nonce_def new_account_route_def update_account_route_def
  key_change_route_def new_order_route_def get_order_route_def authz_route_def finalize_route_def get_certificate_route_def revoke_route_def

lemma handler_grows: "grows (acme_handler env req)"
  by (cases req) (simp_all only: acme_handler_def acme_request.case route_defs Let_def ensure_post_as_get_uses_empty_payload_def
    mark_ready_with_authorizations_def get_certificate_by_id_def get_order_by_pk_def verify_account_signature_def verify_certificate_key_def,
    (intro grow_rules)+)

text \<open>The signed part of a request.\<close>

definition signed_part :: "acme_request \<Rightarrow> jws_request option" where
  "signed_part req = (case req of GetDirectory \<Rightarrow> None | GetCaCertificate \<Rightarrow> None | NewNonce \<Rightarrow> None
     | NewAccount r \<Rightarrow> Some r | UpdateAccount _ r \<Rightarrow> Some r | KeyChange r \<Rightarrow> Some r | NewOrder r \<Rightarrow> Some r | GetOrder _ r \<Rightarrow> Some r
     | PostAuthz _ r \<Rightarrow> Some r | Finalize _ r \<Rightarrow> Some r | GetCertificate _ r \<Rightarrow> Some r | RevokeCert r \<Rightarrow> Some r)"

lemma signed_handler_steps:
  "sound_tables env w \<Longrightarrow> signed_part req = Some r \<Longrightarrow> post (acme_handler env req) w (answered env r w)"
  by (cases req) (auto simp: acme_handler_def signed_part_def intro: new_account_steps update_account_steps key_change_steps get_order_steps
    authz_steps get_certificate_steps revoke_steps new_order_steps finalize_steps)

lemma unsigned_handler_steps: "signed_part req = None \<Longrightarrow> post (acme_handler env req) w (stepped env w)"
  by (cases req) (auto simp: acme_handler_def signed_part_def get_directory_def get_ca_certificate_def Let_def
    intro: get_new_nonce_steps tail_return post_raise split: option.split)

lemma handler_steps:
  assumes "sound_tables env w"
  shows "post (acme_handler env req) w (stepped env w)"
proof (cases "signed_part req")
  case (Some r)
  show ?thesis
    by (rule post_mono [OF signed_handler_steps [OF assms Some]]) (auto simp: stepped_def dest: answered_stepped)
qed (rule unsigned_handler_steps)

subsection \<open>Sessions and events\<close>

lemma session_steps:
  assumes "sound_tables env w"
  shows "ca_steps env w (snd (serve_request env req w))"
proof (cases "acme_handler env req w")
  case (Pair res w')
  show ?thesis
  proof (cases res)
    case (Inl e)
    have "grown w w'" using handler_grows [of env req] Pair by (simp add: grows_def) (metis snd_conv)
    then have "grown w (w'\<lparr>run_db := run_db w\<rparr>)" by (simp add: grown_def)
    then show ?thesis using steps_quiet [of env w w] by (simp add: serve_request_def in_session_def Pair Inl)
  next
    case (Inr a)
    then show ?thesis using handler_steps [OF assms, of req] Pair by (auto simp: serve_request_def in_session_def stepped_def dest: postD)
  qed
qed

lemma registry_event_quiet: "ca_step env w (registry_event u a k m x w)"
  by (rule ca_step.quiet)
    (auto simp: registry_event_def grown_def generate_eab_credential_def bindings_def Let_def split: option.splits)

lemma serve_events_steps: "sound_tables env w \<Longrightarrow> ca_steps env w (serve_events env es w)"
proof (induction env es w rule: serve_events.induct)
  case (2 env req es w)
  then show ?case using session_steps [OF 2(2), of req] steps_sound_tables by (auto intro: rtranclp_trans)
next
  case (3 env u a k m x es w)
  have "ca_steps env w (registry_event u a k m x w)" by (rule r_into_rtranclp, rule registry_event_quiet)
  then show ?case using 3 steps_sound_tables [of env w] by (auto intro: rtranclp_trans)
qed simp

end
