(* ===== verification/AcmeInvariants.thy ===== *)
theory AcmeInvariants
  imports AcmeServer
begin

text \<open>
  Invariants of the certificate authority and what never changes back: an order that can be finalised has only valid
  authorizations, the two tables of certificates agree, the versions of an agent are distinct; a nonce stays used, an
  account stays deactivated, a certificate stays revoked.
\<close>

subsection \<open>Orders and authorizations\<close>

definition authorized_orders :: "acme_db \<Rightarrow> bool" where
  "authorized_orders db \<longleftrightarrow> (\<forall>r\<in>set (db_orders db). or_status r \<in> {OrderReady, OrderProcessing} \<longrightarrow>
     (\<forall>z\<in>set (db_authzs db). az_order_id z = or_id r \<longrightarrow> az_status z = AuthzValid))"

lemma authorized_replace_order:
  assumes "authorized_orders db" and "or_status r' \<in> {OrderReady, OrderProcessing} \<Longrightarrow>
      (\<forall>z\<in>set (db_authzs db). az_order_id z = or_id r' \<longrightarrow> az_status z = AuthzValid)"
  shows "authorized_orders (put_order r' db)"
  using assms unfolding authorized_orders_def put_order_def by (auto dest!: replace_rowD)

lemma step_authorized:
  assumes "ca_step env w w'" "authorized_orders (run_db w)" "wf_tables w"
  shows "authorized_orders (run_db w')"
proof -
  have k: "keyed or_id (run_seq w) (db_orders (run_db w))" using assms(3) by (simp add: wf_tables_def wf_orders_def)
  have same: "authorized_orders (run_db w')" if "db_orders (run_db w') = db_orders (run_db w)" "db_authzs (run_db w') = db_authzs (run_db w)"
    using assms(2) that by (simp add: authorized_orders_def)
  from assms(1) show ?thesis
  proof cases
    case (order_added r a aic)
    then show ?thesis using assms(2) by (auto simp: authorized_orders_def add_order_def)
  next
    case (authz_added z r)
    have "or_status q \<notin> {OrderReady, OrderProcessing}" if "q \<in> set (db_orders (run_db w))" "or_id q = az_order_id z" for q
      using keyed_unique [OF k that(1) authz_added(4)] that(2) authz_added(5,6) by simp
    then show ?thesis using assms(2) authz_added(7) by (auto simp: authorized_orders_def add_authz_def)
  next
    case (authz_validated z r z' u)
    then show ?thesis using assms(2) by (auto simp: authorized_orders_def put_authz_def dest!: replace_rowD)
  next
    case (order_ready r r')
    have "\<forall>z\<in>set (db_authzs (run_db w)). az_order_id z = or_id r' \<longrightarrow> az_status z = AuthzValid"
      using order_ready(4,6) by (simp add: same_order_def)
    then show ?thesis unfolding order_ready(7) by (intro authorized_replace_order [OF assms(2)])
  next
    case (order_processing r r')
    have "\<forall>z\<in>set (db_authzs (run_db w)). az_order_id z = or_id r' \<longrightarrow> az_status z = AuthzValid"
      using assms(2) order_processing(2-4) by (simp add: authorized_orders_def same_order_def)
    then show ?thesis unfolding order_processing(6) by (intro authorized_replace_order [OF assms(2)])
  next
    case (order_done r r')
    then show ?thesis using authorized_replace_order [OF assms(2), of r'] by simp
  next
    case (authz_deactivated z r z' u r')
    have unique: "q = r" if "q \<in> set (db_orders (run_db w))" "or_id q = az_order_id z" for q
      using keyed_unique [OF k that(1) authz_deactivated(3)] that(2) authz_deactivated(4) by simp
    have z': "az_order_id z' = az_order_id z" "az_id z' = az_id z" using authz_deactivated(5) by simp_all
    have kept: "az_status y = AuthzValid" if "q \<in> set (db_orders (run_db w))" "or_status q \<in> {OrderReady, OrderProcessing}" "q \<noteq> r"
        "y \<in> set (replace_row az_id z' (db_authzs (run_db w)))" "az_order_id y = or_id q" for q y
      using replace_rowD [OF that(4)]
    proof
      assume "y = z'"
      then show ?thesis using unique [OF that(1)] that(3,5) z' by simp
    next
      assume "y \<in> set (db_authzs (run_db w)) \<and> az_id y \<noteq> az_id z'"
      then show ?thesis using assms(2) that unfolding authorized_orders_def by blast
    qed
    show ?thesis
    proof (cases "or_status r \<in> open_states")
      case True
      then have r': "or_status r' = OrderInvalid" "or_id r' = or_id r"
        and db: "db_orders (run_db w') = replace_row or_id r' (db_orders (run_db w))" "db_authzs (run_db w') = replace_row az_id z' (db_authzs (run_db w))"
        using authz_deactivated(6,7) by (simp_all add: same_order_def put_order_def put_authz_def)
      show ?thesis unfolding authorized_orders_def db
      proof (intro ballI impI)
        fix q y assume q: "q \<in> set (replace_row or_id r' (db_orders (run_db w)))" "or_status q \<in> {OrderReady, OrderProcessing}"
          and y: "y \<in> set (replace_row az_id z' (db_authzs (run_db w)))" "az_order_id y = or_id q"
        have "q \<in> set (db_orders (run_db w))" "q \<noteq> r" using replace_rowD [OF q(1)] q(2) r' by auto
        then show "az_status y = AuthzValid" using kept q(2) y by blast
      qed
    next
      case False
      then have db: "db_orders (run_db w') = db_orders (run_db w)" "db_authzs (run_db w') = replace_row az_id z' (db_authzs (run_db w))"
        using authz_deactivated(7) by (simp_all add: put_authz_def)
      have "q \<noteq> r" if "or_status q \<in> {OrderReady, OrderProcessing}" for q using that False by (auto simp: open_states_def)
      then show ?thesis unfolding authorized_orders_def db using kept by blast
    qed
  next
    case (revoked c c' rr t)
    then show ?thesis using db_of_revocation [OF revoked(5)] by (intro same) simp_all
  qed (use assms(2) in \<open>simp_all add: authorized_orders_def db_changes\<close>)
qed

subsection \<open>The two tables of certificates\<close>

definition same_cert :: "acme_cert \<Rightarrow> common_cert \<Rightarrow> bool" where
  "same_cert c k \<longleftrightarrow> cc_serial k = ce_serial c \<and> cc_pem k = ce_pem c \<and> cc_aic k = ce_aic c \<and> cc_status k = ce_status c"

definition tables_agree :: "acme_db \<Rightarrow> bool" where
  "tables_agree db \<longleftrightarrow> (\<forall>c\<in>set (db_certs db). \<exists>k\<in>set (db_common db). same_cert c k)"

definition versions_distinct :: "acme_db \<Rightarrow> bool" where
  "versions_distinct db \<longleftrightarrow> distinct (map (\<lambda>k. (cc_aic k, cc_version k)) (db_common db))"

lemma version_below_next: "k \<in> set (db_common db) \<Longrightarrow> cc_aic k = Some aic \<Longrightarrow> cc_version k < next_version aic db"
proof -
  have "x \<le> foldr max xs 0" if "x \<in> set xs" for x and xs :: "nat list"
    using that by (induction xs) auto
  then show "k \<in> set (db_common db) \<Longrightarrow> cc_aic k = Some aic \<Longrightarrow> cc_version k < next_version aic db"
    by (simp add: next_version_def le_imp_less_Suc)
qed

lemma revocation_in_both:
  assumes agree: "tables_agree (run_db w)" and wf: "wf_certs w" "wf_common w" and c: "c \<in> set (db_certs (run_db w))" "ce_status c \<noteq> CertRevoked"
    and rule: "case List.find (\<lambda>k. cc_serial k = ce_serial c) (db_common (run_db w)) of
       None \<Rightarrow> run_db w' = put_cert c' (run_db w)
     | Some k \<Rightarrow> if cc_status k \<noteq> CertRevoked then \<exists>now. run_db w' = put_cert c' (put_common (revoke_common now rr k) (run_db w))
         else run_db w' = put_cert c' (run_db w)"
  shows "\<exists>k now. k \<in> set (db_common (run_db w)) \<and> same_cert c k \<and> run_db w' = put_cert c' (put_common (revoke_common now rr k) (run_db w))"
proof -
  obtain j where j: "j \<in> set (db_common (run_db w))" "same_cert c j" using agree c(1) by (auto simp: tables_agree_def)
  then have "List.find (\<lambda>k. cc_serial k = ce_serial c) (db_common (run_db w)) \<noteq> None"
    by (auto simp: find_None_iff same_cert_def)
  then obtain k where k: "List.find (\<lambda>k. cc_serial k = ce_serial c) (db_common (run_db w)) = Some k" by auto
  then have "k \<in> set (db_common (run_db w))" "cc_serial k = cc_serial j" using find_SomeD [OF k] j(2) by (simp_all add: same_cert_def)
  then have "k = j" using j(1) wf(2) distinct_key [of cc_serial] by (metis wf_common_def)
  then show ?thesis using rule k j c(2) by (auto simp: same_cert_def)
qed

lemma step_tables_agree:
  assumes "ca_step env w w'" "tables_agree (run_db w)" "wf_tables w"
  shows "tables_agree (run_db w')"
proof -
  have wf: "wf_certs w" "wf_common w" using assms(3) by (simp_all add: wf_tables_def)
  have same: "tables_agree (run_db w')" if "db_certs (run_db w') = db_certs (run_db w)" "db_common (run_db w') = db_common (run_db w)"
    using assms(2) that by (simp add: tables_agree_def)
  from assms(1) show ?thesis
  proof cases
    case (issued c k r aic b b')
    then have "same_cert c k" by (simp add: same_cert_def)
    then show ?thesis using assms(2) issued(23) by (auto simp: tables_agree_def add_certs_def)
  next
    case (authz_deactivated z r z' u r')
    then show ?thesis using db_of_deactivation [OF authz_deactivated(7)] by (intro same) simp_all
  next
    case (revoked c c' rr t)
    obtain k now where k: "k \<in> set (db_common (run_db w))" "same_cert c k"
      and w': "run_db w' = put_cert c' (put_common (revoke_common now rr k) (run_db w))"
      using revocation_in_both [OF assms(2) wf revoked(2,3,5)] by blast
    let ?k = "revoke_common now rr k"
    have db: "db_certs (run_db w') = replace_row ce_id c' (db_certs (run_db w))" "db_common (run_db w') = replace_row cc_id ?k (db_common (run_db w))"
      by (simp_all add: w' put_cert_def put_common_def)
    have new: "same_cert c' ?k" using k(2) revoked(4) by (simp add: same_cert_def revoke_common_def)
    have kc: "keyed ce_id (run_seq w) (db_certs (run_db w))" and kk: "keyed cc_id (run_seq w) (db_common (run_db w))"
      using wf by (simp_all add: wf_certs_def wf_common_def)
    have id: "cc_id ?k = cc_id k" "ce_id c' = ce_id c" using revoked(4) by (simp_all add: revoke_common_def)
    show ?thesis unfolding tables_agree_def db
    proof
      fix d assume "d \<in> set (replace_row ce_id c' (db_certs (run_db w)))"
      then consider "d = c'" | "d \<in> set (db_certs (run_db w))" "ce_id d \<noteq> ce_id c'" by (auto dest!: replace_rowD)
      then show "\<exists>j\<in>set (replace_row cc_id ?k (db_common (run_db w))). same_cert d j"
      proof cases
        case 1
        then show ?thesis using new replace_row_member [OF k(1) id(1) [symmetric]] by blast
      next
        case 2
        then obtain j where j: "j \<in> set (db_common (run_db w))" "same_cert d j" using assms(2) by (auto simp: tables_agree_def)
        have "ce_serial d \<noteq> ce_serial c"
          using 2 id(2) wf(1) revoked(2) distinct_key [of ce_serial "db_certs (run_db w)" d c] by (auto simp: wf_certs_def)
        then have "cc_id j \<noteq> cc_id ?k" using keyed_unique [OF kk j(1) k(1)] j(2) k(2) id(1) by (auto simp: same_cert_def)
        then show ?thesis using replace_row_keep [OF j(1)] j(2) by blast
      qed
    qed
  qed (use assms(2) in \<open>simp_all add: tables_agree_def db_changes\<close>)
qed

lemma step_versions_distinct:
  assumes "ca_step env w w'" "versions_distinct (run_db w)" "wf_tables w"
  shows "versions_distinct (run_db w')"
  using assms(1)
proof cases
  case (issued c k r aic b b')
  have "(cc_aic k, cc_version k) \<notin> (\<lambda>k. (cc_aic k, cc_version k)) ` set (db_common (run_db w))"
    using version_below_next [of _ "run_db w" aic] issued(19,22) by fastforce
  then show ?thesis using assms(2) issued(23) by (simp add: versions_distinct_def add_certs_def)
next
  case (authz_deactivated z r z' u r')
  then show ?thesis using db_of_deactivation [OF authz_deactivated(7)] assms(2) by (simp add: versions_distinct_def)
next
  case (revoked c c' rr t)
  have kk: "keyed cc_id (run_seq w) (db_common (run_db w))" using assms(3) by (simp add: wf_tables_def wf_common_def)
  have "db_common (run_db w') = db_common (run_db w)
      \<or> (\<exists>k now. k \<in> set (db_common (run_db w)) \<and> db_common (run_db w') = replace_row cc_id (revoke_common now rr k) (db_common (run_db w)))"
    using db_of_revocation [OF revoked(5)] by blast
  then show ?thesis
    using assms(2) distinct_replace_same [OF kk, of "\<lambda>k. (cc_aic k, cc_version k)"] by (auto simp: versions_distinct_def revoke_common_def)
qed (use assms(2) in \<open>simp_all add: versions_distinct_def db_changes\<close>)

subsection \<open>What never changes back\<close>

definition used_nonces :: "acme_db \<Rightarrow> string set" where
  "used_nonces db = no_nonce ` {n \<in> set (db_nonces db). no_used n}"

lemma step_used_nonces: "ca_step env w w' \<Longrightarrow> used_nonces (run_db w) \<subseteq> used_nonces (run_db w')"
proof (induction rule: ca_step.induct)
  case (nonce_used w w' n)
  have "used_nonces (run_db w) \<subseteq> used_nonces (use_nonce n (run_db w))"
    by (force simp: used_nonces_def use_nonce_def)
  then show ?case using nonce_used by simp
next
  case (authz_deactivated w w' z r z' u r')
  then show ?case using db_of_deactivation [OF authz_deactivated(7)] by (simp add: used_nonces_def)
next
  case (revoked w w' c c' rr t)
  then show ?case using db_of_revocation [OF revoked(5)] by (simp add: used_nonces_def)
qed (auto simp: used_nonces_def db_changes)

lemma step_deactivated_stays:
  assumes "ca_step env w w'" "wf_tables w" "a \<in> set (db_accounts (run_db w))" "ac_status a = AccountDeactivated"
  shows "a \<in> set (db_accounts (run_db w'))"
  using assms(1)
proof cases
  case (account_changed c b)
  have "ac_id a \<noteq> ac_id b"
    using keyed_unique [of ac_id "run_seq w" "db_accounts (run_db w)" a c] account_changed(2-4) assms(2-4) by (auto simp: wf_tables_def wf_accounts_def)
  then show ?thesis using replace_row_keep [OF assms(3)] account_changed(7) by (simp add: put_account_def)
next
  case (authz_deactivated z r z' u r')
  then show ?thesis using db_of_deactivation [OF authz_deactivated(7)] assms(3) by simp
next
  case (revoked c c' rr t)
  then show ?thesis using db_of_revocation [OF revoked(5)] assms(3) by simp
qed (use assms(3) in \<open>simp_all add: db_changes\<close>)

lemma step_revoked_stays:
  assumes "ca_step env w w'" "wf_tables w" "c \<in> set (db_certs (run_db w))" "ce_status c = CertRevoked"
  shows "c \<in> set (db_certs (run_db w'))"
  using assms(1)
proof cases
  case (authz_deactivated z r z' u r')
  then show ?thesis using db_of_deactivation [OF authz_deactivated(7)] assms(3) by simp
next
  case (revoked d d' rr t)
  have "ce_id c \<noteq> ce_id d'"
    using keyed_unique [of ce_id "run_seq w" "db_certs (run_db w)" c d] revoked(2-4) assms(2-4) by (auto simp: wf_tables_def wf_certs_def)
  then show ?thesis using replace_row_keep [OF assms(3)] db_of_revocation [OF revoked(5)] by simp
qed (use assms(3) in \<open>simp_all add: db_changes\<close>)

subsection \<open>Reachable states\<close>

definition ca_invariant :: "acme_env \<Rightarrow> acme_run \<Rightarrow> bool" where
  "ca_invariant env w \<longleftrightarrow> sound_tables env w \<and> authorized_orders (run_db w) \<and> tables_agree (run_db w) \<and> versions_distinct (run_db w)"

lemma ca_invariant_initial: "ca_invariant env (initial_run g)"
  unfolding ca_invariant_def
  by (simp add: initial_run_def sound_tables_empty) (simp add: authorized_orders_def tables_agree_def versions_distinct_def empty_db_def)

lemma steps_ca_invariant: "ca_steps env w w' \<Longrightarrow> ca_invariant env w \<Longrightarrow> ca_invariant env w'"
proof (induction rule: rtranclp_induct)
  case (step v w')
  then have "sound_tables env v" "authorized_orders (run_db v)" "tables_agree (run_db v)" "versions_distinct (run_db v)" by (simp_all add: ca_invariant_def)
  moreover have "sound_tables env w'" using steps_sound_tables [of env v w'] step(2) calculation(1) by blast
  ultimately show ?case using step(2) step_authorized step_tables_agree step_versions_distinct
    unfolding ca_invariant_def sound_tables_def by blast
qed

lemma events_ca_invariant: "ca_invariant env w \<Longrightarrow> ca_invariant env (serve_events env es w)"
  using steps_ca_invariant serve_events_steps by (metis ca_invariant_def)

lemma steps_used_nonces: "ca_steps env w w' \<Longrightarrow> used_nonces (run_db w) \<subseteq> used_nonces (run_db w')"
  by (induction rule: rtranclp_induct) (use step_used_nonces in blast)+

lemma steps_stay:
  assumes "ca_steps env w w'" "wf_tables w" "x \<in> A w" and step: "\<And>v v'. ca_step env v v' \<Longrightarrow> wf_tables v \<Longrightarrow> x \<in> A v \<Longrightarrow> x \<in> A v'"
  shows "x \<in> A w'"
  using assms(1-3)
proof (induction rule: rtranclp_induct)
  case (step v w')
  then show ?case using steps_wf_tables [OF step(1)] assms(4) by blast
qed

end
