(* ===== verification/AcmeSafety.thy ===== *)
theory AcmeSafety
  imports AcmeInvariants
begin

text \<open>
  What the server guarantees over any sequence of requests: it refines the certificate authority, certificates go to the
  agent whose credential was consumed, a nonce is accepted once, a deactivated account is refused.
\<close>

subsection \<open>Who signed an answered request\<close>

text \<open>The requests of an account: all but the ones without a signature, the first one, and a revocation.\<close>

definition account_part :: "acme_request \<Rightarrow> jws_request option" where
  "account_part req = (case req of NewAccount _ \<Rightarrow> None | RevokeCert _ \<Rightarrow> None | _ \<Rightarrow> signed_part req)"

definition signed_by_active :: "acme_env \<Rightarrow> jws_request \<Rightarrow> acme_run \<Rightarrow> bool" where
  "signed_by_active env r w \<longleftrightarrow> (\<exists>p a. parse_protected_header (en_crypto env) (jr_protected r) = Inr p \<and> a \<in> set (db_accounts (run_db w))
     \<and> ac_status a \<noteq> AccountDeactivated \<and> names_account p a \<and> signed_with (en_crypto env) r (jwk_value (ac_public_key a)))"

lemma post_const: "P \<Longrightarrow> post m w (\<lambda>_ _. P)"
  by (simp add: post_def)

lemma signed_head:
  assumes "\<And>p l v. parse_protected_header (en_crypto env) (jr_protected r) = Inr p \<Longrightarrow> db_accounts (run_db v) = db_accounts (run_db w) \<Longrightarrow>
      post (k (p, l)) v Q"
  shows "post (acme_then (parse_jws_request env r url) k) w Q"
  by (intro post_then post_parse_jws_request assms) simp_all

lemma signed_body:
  "parse_protected_header (en_crypto env) (jr_protected r) = Inr p \<Longrightarrow> db_accounts (run_db v) = db_accounts (run_db w) \<Longrightarrow>
   post (acme_then (signed_by_account env r p) k) v (\<lambda>_ _. signed_by_active env r w)"
  by (intro post_then post_signed_by_account post_const) (auto simp: signed_by_active_def)

lemmas signed_rules = post_then [of "acme_require _ _ _"] post_require post_then [of "if _ then _ else _"] post_if post_return signed_body

lemma account_routes_signed:
  "post (update_account_route env i r) w (\<lambda>_ _. signed_by_active env r w)"
  "post (key_change_route env r) w (\<lambda>_ _. signed_by_active env r w)"
  "post (new_order_route env r) w (\<lambda>_ _. signed_by_active env r w)"
  "post (get_order_route env s r) w (\<lambda>_ _. signed_by_active env r w)"
  "post (authz_route env s r) w (\<lambda>_ _. signed_by_active env r w)"
  "post (finalize_route env s r) w (\<lambda>_ _. signed_by_active env r w)"
  "post (get_certificate_route env s r) w (\<lambda>_ _. signed_by_active env r w)"
  unfolding update_account_route_def key_change_route_def new_order_route_def get_order_route_def authz_route_def finalize_route_def
    get_certificate_route_def ensure_post_as_get_uses_empty_payload_def
  by (rule signed_head, unfold split, intro signed_rules, assumption+)+

lemma account_handler_signed:
  "account_part req = Some r \<Longrightarrow> post (acme_handler env req) w (\<lambda>_ _. signed_by_active env r w)"
  by (cases req) (auto simp: acme_handler_def account_part_def signed_part_def intro: account_routes_signed)

lemma answered_request:
  "fst (serve_request env req w) = Inr a \<Longrightarrow> acme_handler env req w = (Inr a, snd (serve_request env req w))"
  by (auto simp: serve_request_def in_session_def split: prod.splits sum.splits)

subsection \<open>Refinement\<close>

text \<open>
  C4: The server implements the certificate authority: whatever requests arrive, answered or refused, and whatever the
  links to the registry lose, the tables only change by steps of the authority, each under its conditions.
\<close>
theorem server_refines_authority: "ca_steps env (initial_run g) (serve_events env es (initial_run g))"
  using ca_invariant_initial [of env g] by (intro serve_events_steps) (simp add: ca_invariant_def)

subsection \<open>Certificates\<close>

text \<open>
  C3: A certificate is only issued for an agent whose one-time credential the registry has handed out and seen used: the
  certificate belongs to an order that has left the state ready, all its identifiers and the account behind it have this
  AIC, and the signed certificate names the AIC as its common name and only URI and is no certificate authority.
\<close>
theorem certificates_name_bound_agents:
  assumes "w = serve_events env es (initial_run g)" and "c \<in> set (db_certs (run_db w))"
  shows "\<exists>aic k r a b. ce_aic c = Some aic \<and> (k, aic) \<in> bindings (run_registry w)
    \<and> r \<in> set (db_orders (run_db w)) \<and> or_id r = ce_order_id c \<and> or_status r \<in> {OrderProcessing, OrderValid, OrderInvalid} \<and> for_agent aic (or_identifiers r)
    \<and> a \<in> set (db_accounts (run_db w)) \<and> ac_id a = or_account_id r \<and> ac_aic a = Some aic
    \<and> x5_sign (en_x509 env) b = Some (ce_pem c) \<and> names_agent b aic"
proof -
  have b: "bound_tables env w"
    using events_ca_invariant [OF ca_invariant_initial] assms(1) by (simp add: ca_invariant_def sound_tables_def)
  then obtain r aic b where r: "r \<in> set (db_orders (run_db w))" "or_id r = ce_order_id c" "or_status r \<noteq> OrderPending" "or_status r \<noteq> OrderReady"
    and c: "ce_aic c = Some aic" "aic \<in> set (order_agent_ids r)" "x5_sign (en_x509 env) b = Some (ce_pem c)" "names_agent b aic"
    using assms(2) by (auto simp: bound_tables_def cert_of_order_def)
  obtain a x where a: "a \<in> set (db_accounts (run_db w))" "ac_id a = or_account_id r" "ac_aic a = Some x" "for_agent x (or_identifiers r)"
    using b r(1) by (auto simp: bound_tables_def order_of_account_def)
  have "aic = x" using c(2) a(4) by (auto simp: order_agent_ids_def for_agent_def pick_def)
  moreover obtain k where "(k, x) \<in> bindings (run_registry w)" using b a(1,3) by (auto simp: bound_tables_def bound_account_row_def)
  moreover have "or_status r \<in> {OrderProcessing, OrderValid, OrderInvalid}" using r(3,4) by (cases "or_status r") simp_all
  ultimately show ?thesis using r(1,2) c a by blast
qed


text \<open>
  C21: A certificate that is revoked stays in the tables as revoked, with its time and reason, whatever requests follow,
  and the row of the certificate management with its serial is revoked too.
\<close>
theorem revocation_is_final:
  assumes "w = serve_events env es (initial_run g)" and "c \<in> set (db_certs (run_db w))" and "ce_status c = CertRevoked"
  shows "c \<in> set (db_certs (run_db (serve_events env es' w)))
    \<and> (\<exists>k\<in>set (db_common (run_db (serve_events env es' w))). cc_serial k = ce_serial c \<and> cc_status k = CertRevoked)"
proof -
  have inv: "ca_invariant env w" using events_ca_invariant [OF ca_invariant_initial] assms(1) by simp
  then have "ca_steps env w (serve_events env es' w)" "wf_tables w" by (simp_all add: serve_events_steps ca_invariant_def sound_tables_def)
  then have "c \<in> set (db_certs (run_db (serve_events env es' w)))"
    using steps_stay [of env w "serve_events env es' w" c "\<lambda>v. set (db_certs (run_db v))"] step_revoked_stays assms(2,3) by blast
  moreover have "tables_agree (run_db (serve_events env es' w))" using events_ca_invariant [OF inv] by (simp add: ca_invariant_def)
  ultimately show ?thesis using assms(3) unfolding tables_agree_def same_cert_def by metis
qed

subsection \<open>Nonces\<close>

definition request_nonce :: "acme_env \<Rightarrow> acme_request \<Rightarrow> string option" where
  "request_nonce env req = (case signed_part req of
     None \<Rightarrow> None
   | Some r \<Rightarrow> (case parse_protected_header (en_crypto env) (jr_protected r) of
        Inr p \<Rightarrow> (case dict_get p ''nonce'' of PStr n \<Rightarrow> Some n | _ \<Rightarrow> None)
      | Inl _ \<Rightarrow> None))"

lemma answered_nonce:
  assumes "ca_invariant env w" "fst (serve_request env req w) = Inr a" "request_nonce env req = Some n"
  shows "\<exists>row\<in>set (db_nonces (run_db w)). no_nonce row = n \<and> \<not> no_used row" and "n \<in> used_nonces (run_db (snd (serve_request env req w)))"
    and "n \<notin> used_nonces (run_db w)"
proof -
  obtain r where r: "signed_part req = Some r" using assms(3) by (auto simp: request_nonce_def split: option.splits)
  have "post (acme_handler env req) w (answered env r w)"
    using assms(1) r by (intro signed_handler_steps) (simp_all add: ca_invariant_def)
  then have "answered env r w a (snd (serve_request env req w))" using answered_request [OF assms(2)] by (rule postD)
  then obtain now v where h: "list_ex (nonce_usable n now) (db_nonces (run_db w))" and v: "run_db v = use_nonce n (run_db w)"
    and s: "ca_steps env v (snd (serve_request env req w))"
    using assms(3) r by (auto simp: answered_def request_nonce_def)
  then obtain row where row: "row \<in> set (db_nonces (run_db w))" "no_nonce row = n" "\<not> no_used row" by (auto simp: list_ex_iff nonce_usable_def)
  then show "\<exists>row\<in>set (db_nonces (run_db w)). no_nonce row = n \<and> \<not> no_used row" by blast
  have "n \<in> used_nonces (run_db v)" unfolding v used_nonces_def use_nonce_def
    using row(1,2) by (intro image_eqI [of _ _ "row\<lparr>no_used := True\<rparr>"]) force+
  then show "n \<in> used_nonces (run_db (snd (serve_request env req w)))" using steps_used_nonces [OF s] by blast
  have "wf_nonces w" using assms(1) by (simp add: ca_invariant_def sound_tables_def wf_tables_def)
  then show "n \<notin> used_nonces (run_db w)" using row distinct_key [of no_nonce] by (fastforce simp: used_nonces_def wf_nonces_def)
qed

text \<open>
  C6: No request is replayed: of two signed requests that are answered, with any requests between them, the second has
  another nonce than the first, and the server had issued the nonce.
\<close>
theorem nonce_accepted_once:
  assumes "w = serve_events env es (initial_run g)" and "fst (serve_request env req w) = Inr a"
    and "fst (serve_request env req' (serve_events env es' (snd (serve_request env req w)))) = Inr a'"
    and "request_nonce env req = Some n" and "request_nonce env req' = Some n'"
  shows "n' \<noteq> n \<and> n \<in> no_nonce ` set (db_nonces (run_db w))"
proof -
  let ?w1 = "snd (serve_request env req w)" and ?w2 = "serve_events env es' (snd (serve_request env req w))"
  have w: "ca_invariant env w" using events_ca_invariant [OF ca_invariant_initial] assms(1) by simp
  have "?w1 = serve_events env [AcmeRequest req] w" by simp
  then have w1: "ca_invariant env ?w1" using events_ca_invariant [OF w] by metis
  then have w2: "ca_invariant env ?w2" by (rule events_ca_invariant)
  have "n \<in> used_nonces (run_db ?w1)" using answered_nonce(2) [OF w assms(2,4)] .
  moreover have "ca_steps env ?w1 ?w2" using w1 by (intro serve_events_steps) (simp add: ca_invariant_def)
  ultimately have "n \<in> used_nonces (run_db ?w2)" using steps_used_nonces by blast
  moreover have "n' \<notin> used_nonces (run_db ?w2)" using answered_nonce(3) [OF w2 assms(3,5)] .
  ultimately show ?thesis using answered_nonce(1) [OF w assms(2,4)] by blast
qed

subsection \<open>Accounts\<close>

text \<open>
  C19: Every answered request to an account, an order, an authorization or a certificate is signed with the key of an account
  that is not deactivated, and the account is the one that the request names.
\<close>
theorem answered_requests_are_signed:
  assumes "account_part req = Some r" and "fst (serve_request env req w) = Inr a"
  shows "\<exists>p account. parse_protected_header (en_crypto env) (jr_protected r) = Inr p \<and> account \<in> set (db_accounts (run_db w))
    \<and> ac_status account \<noteq> AccountDeactivated \<and> names_account p account \<and> signed_with (en_crypto env) r (jwk_value (ac_public_key account))"
  using postD [OF account_handler_signed [OF assms(1)] answered_request [OF assms(2)]] by (simp add: signed_by_active_def)


end
