(* ===== verification/AcmeExample.thy ===== *)
theory AcmeExample
  imports AcmeSafety
begin

text \<open>
  A run of the server from the credential to the revoked certificate and the deactivated account, which shows that what the
  theorems assume happens.
\<close>

definition demo_jwk :: json_object where
  "demo_jwk = [(''kty'', PStr ''RSA''), (''n'', PStr ''AQAB''), (''e'', PStr ''AQAB'')]"

definition demo_header :: "string \<Rightarrow> string \<Rightarrow> string \<times> pyval \<Rightarrow> pyval" where
  "demo_header nonce url key = PDict [(''alg'', PStr ''RS256''), (''nonce'', PStr nonce), (''url'', PStr (''u'' @ url)), key]"

definition demo_kid :: "string \<times> pyval" where
  "demo_kid = (''kid'', PStr ''u/acct/1'')"

text \<open>The documents of the run, by their bytes.\<close>

definition demo_documents :: "(bytes \<times> pyval) list" where
  "demo_documents = [
     (''h1'', demo_header ''AA'' ''/new-account'' (''jwk'', PDict demo_jwk)),
     (''p1'', PDict [(''externalAccountBinding'', PDict [(''protected'', PStr ''ZWg''), (''payload'', PStr ''ams''), (''signature'', PStr ''bWE'')])]),
     (''eh'', PDict [(''alg'', PStr ''HS256''), (''url'', PStr ''u/new-account''), (''kid'', PStr ''key'')]),
     (''jk'', PDict demo_jwk),
     (''h2'', demo_header ''GA'' ''/new-order'' demo_kid),
     (''p2'', PDict [(''identifiers'', PList [PDict [(''type'', PStr ''agent''), (''value'', PStr ''A'')]])]),
     (''h3'', demo_header ''RA'' ''/order/order_KA/finalize'' demo_kid),
     (''p3'', PDict [(''csr'', PStr ''AQAB'')]),
     (''h4'', demo_header ''dA'' ''/revoke-cert'' demo_kid),
     (''p4'', PDict [(''certificate'', PStr ''AQAB'')]),
     (''h5'', demo_header ''hA'' ''/acct/1'' demo_kid),
     (''p5'', PDict [(''status'', PStr ''deactivated'')])]"

definition demo_crypto :: crypto where
  "demo_crypto = \<lparr>cr_json = map_of demo_documents, cr_sha256 = (\<lambda>_. ''k''), cr_hmac_sha256 = (\<lambda>_ _. ''ma''), cr_rsa_numbers = (\<lambda>_ _. True),
     cr_ec_point = (\<lambda>_ _ _. False), cr_verify_ed = (\<lambda>_ _ _. False), cr_verify_rsa = (\<lambda>_ _ _ _ _. True), cr_verify_ec = (\<lambda>_ _ _ _ _ _ _. False)\<rparr>"

definition demo_cert :: cert_body where
  "demo_cert = \<lparr>cb_subject = [(''CN'', PStr ''A'')], cb_issuer = ''CA'', cb_key = RSAKey 65537 65537, cb_serial = 7, cb_not_before = 0, cb_not_after = 49 * DAY,
     cb_is_ca = False, cb_digital_signature = True, cb_key_encipherment = True, cb_key_usages = [''clientAuth''], cb_ocsp_url = '''', cb_crl_url = '''',
     cb_san = [SanUri ''acps://A'']\<rparr>"

definition demo_x509 :: x509_lib where
  "demo_x509 = \<lparr>x5_load_csr = (\<lambda>_. Some \<lparr>csr_common_name = Some ''A'', csr_public_key = EdKey ''x'', csr_signature_valid = False\<rparr>),
     x5_name_value = (\<lambda>_ _. True), x5_dns_name = (\<lambda>_. None), x5_ip_address = (\<lambda>_. None), x5_sign = (\<lambda>_. Some ''PEM''),
     x5_load_pem = (\<lambda>_. Some demo_cert), x5_load_der = (\<lambda>_. Some demo_cert)\<rparr>"

definition demo_ca :: ca_config where
  "demo_ca = \<lparr>ca_loaded = True, ca_subject = ''CA'', ca_ocsp_url = '''', ca_crl_url = '''', ca_certificate_pem = Some ''CA'', ca_issuer_chain = Some ''CA'',
     ca_max_validity_days = 1825\<rparr>"

definition demo_random :: "nat \<Rightarrow> bytes" where
  "demo_random t = [char_of (4 * t)]"

definition demo_env :: acme_env where
  "demo_env = \<lparr>en_crypto = demo_crypto, en_x509 = demo_x509, en_ca = demo_ca, en_directory_url = ''u'', en_service_token = ''t'', en_registry_token = ''t'',
     en_max_retries = 0, en_now = (\<lambda>t. if t < 17 then 0 else 3 * DAY), en_random = demo_random, en_serial = (\<lambda>_. 7), en_link = (\<lambda>_. LinkOk),
     en_acs = (\<lambda>_ aic. HttpReply 200 (Some (PDict [(''aic'', PStr aic), (''active'', PBool True)]))), en_decrypt = (\<lambda>s. s), en_str = (\<lambda>_. ''''),
     en_bool = (\<lambda>v. case v of PBool b \<Rightarrow> Some b | _ \<Rightarrow> None), en_datetime = (\<lambda>_. None),
     en_account_status = (\<lambda>v. if v = PStr ''deactivated'' then Some AccountDeactivated else None), en_format = (\<lambda>_. ''now'')\<rparr>"

definition demo_registry :: registry where
  "demo_registry = \<lparr>rg_agents = [\<lparr>ra_aic = ''A'', ra_owner = Some ''user'', ra_active = True, ra_deleted = False, ra_disabled = False\<rparr>], rg_credentials = []\<rparr>"

definition demo_request :: "string \<Rightarrow> string \<Rightarrow> jws_request" where
  "demo_request h p = \<lparr>jr_protected = h, jr_payload = p, jr_signature = ''bWE''\<rparr>"

subsection \<open>Evaluation\<close>

text \<open>Continuations are evaluated when their argument is known.\<close>

lemma bind_result_later: "r = r' \<Longrightarrow> bind_result r f = bind_result r' f"
  by simp

lemma acme_then_later: "m = m' \<Longrightarrow> acme_then m k = acme_then m' k"
  by simp

lemma demo_base64 [simp]:
  "base64url_decode_bytes ''aDE'' = Some ''h1''" "base64url_decode_bytes ''cDE'' = Some ''p1''" "base64url_decode_bytes ''ZWg'' = Some ''eh''"
  "base64url_decode_bytes ''ams'' = Some ''jk''" "base64url_decode_bytes ''bWE'' = Some ''ma''"
  "base64url_decode_bytes ''AQAB'' = Some [CHR 0x01, CHR 0x00, CHR 0x01]" "base64url_encode ''k'' = ''aw''"
  by code_simp+

lemma demo_env_simps [simp]:
  "en_crypto demo_env = demo_crypto" "en_x509 demo_env = demo_x509" "en_ca demo_env = demo_ca" "en_directory_url demo_env = ''u''"
  "en_service_token demo_env = ''t''" "en_registry_token demo_env = ''t''" "en_max_retries demo_env = 0"
  "en_now demo_env t = (if t < 17 then 0 else 3 * DAY)" "en_random demo_env = demo_random" "en_serial demo_env t = 7"
  "en_link demo_env t = LinkOk" "en_decrypt demo_env = (\<lambda>s. s)" "en_format demo_env i = ''now''"
  "en_acs demo_env t aic = HttpReply 200 (Some (PDict [(''aic'', PStr aic), (''active'', PBool True)]))"
  "en_bool demo_env v = (case v of PBool b \<Rightarrow> Some b | _ \<Rightarrow> None)"
  "en_account_status demo_env v = (if v = PStr ''deactivated'' then Some AccountDeactivated else None)"
  by (simp_all add: demo_env_def)

lemma demo_crypto_simps [simp]:
  "cr_json demo_crypto = map_of demo_documents" "cr_sha256 demo_crypto b = ''k''" "cr_hmac_sha256 demo_crypto x b = ''ma''"
  "cr_rsa_numbers demo_crypto n e" "cr_verify_rsa demo_crypto n e h x y"
  by (simp_all add: demo_crypto_def)

lemmas result_defs = bind_result_simps result_simps

lemma demo_base64_more [simp]:
  "base64url_decode_bytes ''aDI'' = Some ''h2''" "base64url_decode_bytes ''cDI'' = Some ''p2''" "base64url_decode_bytes ''aDM'' = Some ''h3''"
  "base64url_decode_bytes ''cDM'' = Some ''p3''" "base64url_decode_bytes ''aDQ'' = Some ''h4''" "base64url_decode_bytes ''cDQ'' = Some ''p4''"
  "base64url_decode_bytes ''aDU'' = Some ''h5''" "base64url_decode_bytes ''cDU'' = Some ''p5''"
  "urlsafe_b64decode ''AQAB=='' = Some [CHR 0x01, CHR 0x00, CHR 0x01]" "hex_upper 7 = ''7''"
  by code_simp+

lemma demo_random_text [simp]:
  "base64url_encode (demo_random 0) = ''AA''" "base64url_encode (demo_random 6) = ''GA''" "base64url_encode (demo_random 10) = ''KA''"
  "base64url_encode (demo_random 12) = ''MA''" "base64url_encode (demo_random 15) = ''PA''" "base64url_encode (demo_random 17) = ''RA''"
  "base64url_encode (demo_random 26) = ''aA''" "base64url_encode (demo_random 29) = ''dA''" "base64url_encode (demo_random 33) = ''hA''"
  "base64url_encode (demo_random 37) = ''lA''"
  by code_simp+

lemma demo_request_simps [simp]: "jr_protected (demo_request h p) = h" "jr_payload (demo_request h p) = p" "jr_signature (demo_request h p) = ''bWE''"
  by (simp_all add: demo_request_def)

lemma demo_text [simp]: "upper (strip ''a '') = ''A''" "upper (strip ''A'') = ''A''" "strip ''t'' = ''t''" "strip ''key'' = ''key''" "python_int ''1'' = Some 1" "int_to_str 1 = ''1''"
    "rstrip_while (\<lambda>c. c = CHR ''/'') ''u'' = ''u''"
  by code_simp+

abbreviation demo_public :: public_jwk where
  "demo_public \<equiv> [(''kty'', ''RSA''), (''n'', ''AQAB''), (''e'', ''AQAB'')]"

lemma demo_projection [simp]: "public_jwk_projection (PDict demo_jwk) = Inr demo_public" "public_jwk_projection (jwk_value demo_public) = Inr demo_public"
  by (simp_all add: demo_jwk_def jwk_value_def rsa_projection_def reject_private_jwk_material_def require_string_field_def dict_get_def cong: bind_result_later)

declare public_jwk_projection.simps [simp del]

lemma demo_thumbprint [simp]: "compute_jwk_thumbprint demo_crypto (PDict demo_jwk) = Inr ''aw''" "compute_jwk_thumbprint demo_crypto (jwk_value demo_public) = Inr ''aw''"
  by (simp_all add: compute_jwk_thumbprint_def)

lemma demo_docs [simp]:
  "map_of demo_documents ''h1'' = Some (demo_header ''AA'' ''/new-account'' (''jwk'', PDict demo_jwk))"
  "map_of demo_documents ''p1'' = Some (PDict [(''externalAccountBinding'', PDict [(''protected'', PStr ''ZWg''), (''payload'', PStr ''ams''), (''signature'', PStr ''bWE'')])])"
  "map_of demo_documents ''eh'' = Some (PDict [(''alg'', PStr ''HS256''), (''url'', PStr ''u/new-account''), (''kid'', PStr ''key'')])"
  "map_of demo_documents ''jk'' = Some (PDict demo_jwk)"
  "map_of demo_documents ''h2'' = Some (demo_header ''GA'' ''/new-order'' demo_kid)"
  "map_of demo_documents ''p2'' = Some (PDict [(''identifiers'', PList [PDict [(''type'', PStr ''agent''), (''value'', PStr ''A'')]])])"
  "map_of demo_documents ''h3'' = Some (demo_header ''RA'' ''/order/order_KA/finalize'' demo_kid)"
  "map_of demo_documents ''p3'' = Some (PDict [(''csr'', PStr ''AQAB'')])"
  "map_of demo_documents ''h4'' = Some (demo_header ''dA'' ''/revoke-cert'' demo_kid)"
  "map_of demo_documents ''p4'' = Some (PDict [(''certificate'', PStr ''AQAB'')])"
  "map_of demo_documents ''h5'' = Some (demo_header ''hA'' ''/acct/1'' demo_kid)"
  "map_of demo_documents ''p5'' = Some (PDict [(''status'', PStr ''deactivated'')])"
  by (simp_all add: demo_documents_def)

lemmas header_defs = demo_header_def demo_kid_def has_key_def dict_get_def

lemmas verify_defs = verifier_verify_def parse_jws_def jws_string_def malformed_def header_defs
    has_key_def dict_get_def SIGNATURE_ALGORITHMS_def expect_field_def str_given_def check_header_key_def jwk_matches_def
    verify_compact_jws_signature_def base64url_decode_def jwk_to_public_key_def pick_def hash_of_alg_def startswith_def verified_def Let_def ord_def

lemma demo_new_account_signature [simp]: "verify_new_account_signature demo_crypto (demo_request ''aDE'' ''cDE'') (jwk_value demo_public) = Inr ()"
  by (simp add: verify_new_account_signature_def verify_defs cong: bind_result_later)

lemma demo_signature [simp]:
  "verify_jws_signature demo_crypto (demo_request ''aDI'' ''cDI'') demo_public = Inr ()"
  "verify_jws_signature demo_crypto (demo_request ''aDM'' ''cDM'') demo_public = Inr ()"
  "verify_jws_signature demo_crypto (demo_request ''aDQ'' ''cDQ'') demo_public = Inr ()"
  "verify_jws_signature demo_crypto (demo_request ''aDU'' ''cDU'') demo_public = Inr ()"
  by (simp_all add: verify_jws_signature_def verify_jws_signature_with_jwk_def verify_defs cong: bind_result_later)

lemmas run_defs = acme_then_def acme_return_def acme_raise_def acme_lift_def acme_get_def acme_put_def acme_external_def next_id_def acme_insert_def
  acme_require_def beijing_now_def in_session_def serve_request_def acme_handler_def

lemma tick_two [simp]: "Suc (Suc 0) = 2"
  by simp

definition demo_start :: acme_run where
  "demo_start = \<lparr>run_db = empty_db\<lparr>db_nonces := [\<lparr>no_nonce = ''AA'', no_used = False, no_expires = HOUR\<rparr>]\<rparr>,
     run_registry = \<lparr>rg_agents = rg_agents demo_registry, rg_credentials = [\<lparr>ec_key_id = ''key'', ec_mac_key_encrypted = ''bWE'', ec_aic = ''A'',
       ec_user = ''user'', ec_consumed = False, ec_expires_at = 1\<rparr>]\<rparr>, run_seq = 0, run_tick = 2\<rparr>"

lemma demo_run_start: "serve_events demo_env [IssueCredential ''user'' ''a '' ''key'' ''bWE'' 1, AcmeRequest NewNonce] (initial_run demo_registry) = demo_start"
  by (simp add: run_defs registry_event_def initial_run_def demo_registry_def generate_eab_credential_def get_new_nonce_def generate_nonce_def empty_db_def demo_start_def
    Let_def cong: acme_then_later)

lemmas parse_defs = run_defs header_defs parse_jws_request_def as_malformed_def parse_protected_header_def parse_payload_def json_object_of_def
  base64url_decode_def verify_nonce_def validate_and_consume_nonce_def nonce_usable_def use_nonce_def HOUR_def Let_def empty_db_def
  build_expected_acme_request_url_def get_configured_acme_base_url_def startswith_def generate_nonce_def create_acme_response_def

lemmas account_defs = signed_by_account_def get_account_from_request_def account_of_kid_def get_account_by_id_def ensure_account_is_active_def

definition demo_account :: "account_status \<Rightarrow> int option \<Rightarrow> acme_account" where
  "demo_account st u = \<lparr>ac_id = 1, ac_key_id = ''aw'', ac_public_key = demo_public, ac_status = st, ac_contact = PNone, ac_terms_agreed = False,
     ac_eab = PDict [(''protected'', PStr ''ZWg''), (''payload'', PStr ''ams''), (''signature'', PStr ''bWE'')], ac_aic = Some ''A'',
     ac_created_at = 0, ac_updated_at = u\<rparr>"

definition used_nonce :: "string \<Rightarrow> int \<Rightarrow> acme_nonce" where
  "used_nonce n x = \<lparr>no_nonce = n, no_used = True, no_expires = x\<rparr>"

definition free_nonce :: "string \<Rightarrow> int \<Rightarrow> acme_nonce" where
  "free_nonce n x = \<lparr>no_nonce = n, no_used = False, no_expires = x\<rparr>"

definition demo_used_registry :: registry where
  "demo_used_registry = \<lparr>rg_agents = rg_agents demo_registry, rg_credentials = [\<lparr>ec_key_id = ''key'', ec_mac_key_encrypted = ''bWE'', ec_aic = ''A'',
       ec_user = ''user'', ec_consumed = True, ec_expires_at = 1\<rparr>]\<rparr>"

definition demo_bound :: acme_run where
  "demo_bound = \<lparr>run_db = \<lparr>db_nonces = [used_nonce ''AA'' HOUR, free_nonce ''GA'' HOUR], db_accounts = [demo_account AccountValid None],
       db_orders = [], db_authzs = [], db_certs = [], db_common = []\<rparr>, run_registry = demo_used_registry, run_seq = 1, run_tick = 8\<rparr>"

lemmas row_defs = demo_account_def used_nonce_def free_nonce_def

lemma demo_run_account: "\<exists>a. serve_request demo_env (NewAccount (demo_request ''aDE'' ''cDE'')) demo_start = (Inr a, demo_bound)"
  by (simp add: parse_defs new_account_route_def demo_start_def demo_bound_def row_defs demo_used_registry_def
   bound_account_def verify_eab_binding_def compose_jws_def eab_field_def str_of_def parse_jws_def jws_string_def malformed_def check_eab_header_def
   consume_eab_credential_def http_attempt_def eab_consume_route_def service_token_ok_def consume_credential_def ok_body_def check_eab_mac_def
   account_create_of_def get_or_default_def create_account_def get_account_by_key_id_def ord_def
   cong: acme_then_later bind_result_later)

definition demo_order :: "order_status \<Rightarrow> string option \<Rightarrow> int \<Rightarrow> acme_order" where
  "demo_order st cert u = \<lparr>or_id = 2, or_order_id = ''order_KA'', or_account_id = 1, or_status = st,
     or_identifiers = [[(''type'', ''agent''), (''value'', ''A'')]], or_not_before = None, or_not_after = None,
     or_authorizations = Some [''u/authz/authz_MA''], or_certificate = cert, or_expires = DAY, or_updated_at = Some u\<rparr>"

definition demo_authz :: acme_authz where
  "demo_authz = \<lparr>az_id = 3, az_authz_id = ''authz_MA'', az_order_id = 2, az_identifier = [(''type'', ''agent''), (''value'', ''A'')],
     az_status = AuthzValid, az_expires = DAY, az_updated_at = Some 0\<rparr>"

definition demo_ordered :: acme_run where
  "demo_ordered = \<lparr>run_db = \<lparr>db_nonces = [used_nonce ''AA'' HOUR, used_nonce ''GA'' HOUR, free_nonce ''PA'' HOUR], db_accounts = [demo_account AccountValid None],
       db_orders = [demo_order OrderReady None 0], db_authzs = [demo_authz], db_certs = [], db_common = []\<rparr>,
     run_registry = demo_used_registry, run_seq = 3, run_tick = 17\<rparr>"

lemmas order_defs = demo_order_def demo_authz_def DAY_def

lemma demo_run_order: "\<exists>a. serve_request demo_env (NewOrder (demo_request ''aDI'' ''cDI'')) demo_bound = (Inr a, demo_ordered)"
  by (simp add: parse_defs account_defs new_order_route_def demo_bound_def demo_ordered_def row_defs order_defs str_given_def str_of_def
    normalize_and_validate_agent_identifiers_def normalize_identifier_def validate_aic_and_get_info_def http_attempt_def accept_agent_def ok_body_def
    new_agent_info_def get_or_def or_else_value_def normalized_usage_def optional_time_def create_order_row_def create_valid_authorization_urls_def
    create_authorization_def update_authorization_status_def put_authz_def replace_row_def mark_ready_with_authorizations_def update_order_status_def put_order_def
    cong: acme_then_later bind_result_later)

definition demo_later :: acme_run where
  "demo_later = demo_ordered\<lparr>run_db := (run_db demo_ordered)\<lparr>db_nonces := [used_nonce ''AA'' HOUR, used_nonce ''GA'' HOUR, free_nonce ''PA'' HOUR,
     free_nonce ''RA'' (3 * DAY + HOUR)]\<rparr>, run_tick := 19\<rparr>"

lemma demo_run_nonce: "\<exists>a. serve_request demo_env NewNonce demo_ordered = (Inr a, demo_later)"
  by (simp add: run_defs get_new_nonce_def generate_nonce_def demo_ordered_def demo_later_def row_defs DAY_def HOUR_def cong: acme_then_later)

definition demo_cert_row :: "cert_status \<Rightarrow> int option \<Rightarrow> revocation_reason option \<Rightarrow> acme_cert" where
  "demo_cert_row st t reason = \<lparr>ce_id = 4, ce_cert_id = ''cert_aA'', ce_order_id = 2, ce_serial = ''7'', ce_pem = ''PEM'', ce_status = st,
     ce_subject = [(''CN'', PStr ''A'')], ce_not_before = 3 * DAY, ce_not_after = 52 * DAY, ce_revoked_at = t, ce_reason = reason, ce_aic = Some ''A''\<rparr>"

definition demo_common_row :: "cert_status \<Rightarrow> int option \<Rightarrow> revocation_reason option \<Rightarrow> common_cert" where
  "demo_common_row st t reason = \<lparr>cc_id = 5, cc_type = AgentCert, cc_serial = ''7'', cc_subject = ''CN=A'', cc_issuer = ''Agent Trusted Registration CA'',
     cc_status = st, cc_expires_at = 52 * DAY, cc_revoked_at = t, cc_reason = reason, cc_pem = ''PEM'', cc_public_key = Some (RSAKey 65537 65537),
     cc_version = 1, cc_parent = None, cc_aic = Some ''A'', cc_created_at = 3 * DAY\<rparr>"

lemmas cert_defs = demo_cert_row_def demo_common_row_def

definition demo_issued :: acme_run where
  "demo_issued = \<lparr>run_db = \<lparr>db_nonces = [used_nonce ''AA'' HOUR, used_nonce ''GA'' HOUR, free_nonce ''PA'' HOUR, used_nonce ''RA'' (3 * DAY + HOUR),
       free_nonce ''dA'' (3 * DAY + HOUR)], db_accounts = [demo_account AccountValid None],
       db_orders = [demo_order OrderValid (Some ''u/cert/cert_aA'') (3 * DAY)], db_authzs = [demo_authz],
       db_certs = [demo_cert_row CertValid None None], db_common = [demo_common_row CertValid None None]\<rparr>,
     run_registry = demo_used_registry, run_seq = 5, run_tick = 31\<rparr>"

lemma then_Inr: "m w = (Inr a, w') \<Longrightarrow> acme_then m k w = k a w'"
  by (simp add: acme_then_def)

definition demo_taken :: "nat \<Rightarrow> acme_order \<Rightarrow> acme_run" where
  "demo_taken t r = demo_later\<lparr>run_db := (run_db demo_later)\<lparr>db_nonces := [used_nonce ''AA'' HOUR, used_nonce ''GA'' HOUR, free_nonce ''PA'' HOUR,
     used_nonce ''RA'' (3 * DAY + HOUR)], db_orders := [r]\<rparr>, run_tick := t\<rparr>"

definition demo_certified :: "nat \<Rightarrow> acme_order \<Rightarrow> acme_run" where
  "demo_certified t r = (demo_taken t r)\<lparr>run_db := (run_db (demo_taken t r))\<lparr>db_certs := [demo_cert_row CertValid None None],
     db_common := [demo_common_row CertValid None None]\<rparr>, run_seq := 5\<rparr>"

lemmas state_defs = demo_certified_def demo_taken_def demo_later_def demo_ordered_def

definition demo_info :: agent_info where
  "demo_info = \<lparr>ai_aic = PStr ''A'', ai_active = True, ai_organization = PStr [], ai_department = PStr [], ai_country_code = PStr ''CN'',
     ai_alt_dns = PList [], ai_alt_ip = PList [], ai_requested_validity = PNone\<rparr>"

lemma demo_finalize_parse:
  "parse_jws_request demo_env (demo_request ''aDM'' ''cDM'') ''u/order/order_KA/finalize'' demo_later
     = (Inr ([(''alg'', PStr ''RS256''), (''nonce'', PStr ''RA''), (''url'', PStr ''u/order/order_KA/finalize''), demo_kid], [(''csr'', PStr ''AQAB'')]),
        demo_taken 20 (demo_order OrderReady None 0))"
  by (simp add: parse_defs state_defs row_defs DAY_def cong: acme_then_later bind_result_later)

lemma demo_finalize_account:
  "signed_by_account demo_env (demo_request ''aDM'' ''cDM'') [(''alg'', PStr ''RS256''), (''nonce'', PStr ''RA''), (''url'', PStr ''u/order/order_KA/finalize''), demo_kid]
     (demo_taken t r) = (Inr (demo_account AccountValid None), demo_taken t r)"
  by (simp add: run_defs header_defs account_defs state_defs demo_account_def cong: acme_then_later)

lemma demo_finalize_agents:
  "validate_order_agents demo_env (or_identifiers (demo_order OrderReady None 0)) (demo_taken 20 r) = (Inr [demo_info], demo_taken 21 r)"
  by (simp add: run_defs validate_order_agents_def validate_order_agent_def validate_aic_and_get_info_def http_attempt_def accept_agent_def ok_body_def
    new_agent_info_def get_or_def or_else_value_def state_defs demo_order_def demo_info_def cong: acme_then_later)

lemma demo_finalize_order:
  "t \<ge> 17 \<Longrightarrow> or_id r = 2 \<Longrightarrow> update_order_status demo_env r st (demo_taken t r') = (Inr (r\<lparr>or_status := st, or_updated_at := Some (3 * DAY)\<rparr>),
     demo_taken (Suc t) (if or_id r' = 2 then r\<lparr>or_status := st, or_updated_at := Some (3 * DAY)\<rparr> else r'))"
  "t \<ge> 17 \<Longrightarrow> or_id r = 2 \<Longrightarrow> update_order_status demo_env r st (demo_certified t r') = (Inr (r\<lparr>or_status := st, or_updated_at := Some (3 * DAY)\<rparr>),
     demo_certified (Suc t) (if or_id r' = 2 then r\<lparr>or_status := st, or_updated_at := Some (3 * DAY)\<rparr> else r'))"
  by (simp_all add: run_defs update_order_status_def put_order_def replace_row_def state_defs Let_def)

lemma demo_finalize_sign:
  "generate_certificate_for_agent demo_env \<lparr>csr_common_name = Some ''A'', csr_public_key = EdKey ''x'', csr_signature_valid = False\<rparr> ''A'' (Some demo_info) ''clientAuth''
     (demo_taken 22 r) = (Inr ''PEM'', demo_taken 24 r)"
  by (simp add: run_defs generate_certificate_for_agent_def agent_sans_of_def get_certificate_dns_names_def get_certificate_ip_addresses_def agent_validity_def
    get_certificate_validity_days_def demo_info_def demo_x509_def demo_ca_def sign_certificate_def validate_csr_public_key_def build_certificate_subject_def
    agent_sans_def agent_components_def get_certificate_subject_components_def build_agent_common_name_def state_defs Let_def cong: acme_then_later bind_result_later)

lemma demo_finalize_row:
  "create_certificate_row demo_env \<lparr>cr_order_id = 2, cr_serial = ''7'', cr_pem = ''PEM'', cr_subject = [(''CN'', PStr ''A'')], cr_not_before = 3 * DAY,
       cr_not_after = 52 * DAY, cr_aic = ''A''\<rparr> (demo_taken 26 r) = (Inr (demo_cert_row CertValid None None), demo_certified 28 r)"
  by (simp add: run_defs create_certificate_row_def get_next_certificate_version_def insert_common_cert_def new_acme_cert_def new_agent_cert_def
    build_agent_common_name_def demo_x509_def demo_cert_def state_defs cert_defs Let_def cong: acme_then_later)

lemma demo_finalize_now: "17 \<le> t \<Longrightarrow> beijing_now demo_env (demo_taken t r) = (Inr (3 * DAY), demo_taken (Suc t) r)"
  by (simp add: run_defs state_defs)

lemma demo_finalize_issue:
  "issue_certificate demo_env (demo_order OrderProcessing None (3 * DAY)) csr [demo_info] ''clientAuth'' (demo_taken 22 r)
     = (Inr [demo_cert_row CertValid None None], demo_certified 28 r)"
proof -
  let ?csr = "\<lparr>csr_common_name = Some ''A'', csr_public_key = EdKey ''x'', csr_signature_valid = False\<rparr>"
  have ids: "order_agent_ids (demo_order OrderProcessing None (3 * DAY)) = [''A'']" "or_id (demo_order OrderProcessing None (3 * DAY)) = 2"
    by (simp_all add: order_agent_ids_def demo_order_def pick_def)
  have found: "find_agent_info [demo_info] 0 ''A'' = Some demo_info" and days: "agent_validity demo_env (Some demo_info) = Inr 49"
    by (simp_all add: find_agent_info_def demo_info_def agent_validity_def get_certificate_validity_days_def DEFAULT_VALIDITY_DAYS_def)
  have load: "load_cert_pem demo_env ''PEM'' w = (Inr demo_cert, w)" "hex_upper (cb_serial demo_cert) = ''7''" "extract_subject demo_cert = [(''CN'', PStr ''A'')]" for w
    by (simp_all add: load_cert_pem_def demo_x509_def acme_return_def demo_cert_def extract_subject_def subject_names_def)
  have one: "issue_one demo_env (demo_order OrderProcessing None (3 * DAY)) ?csr [demo_info] ''clientAuth'' (0, ''A'') (demo_taken 22 r)
      = (Inr (demo_cert_row CertValid None None), demo_certified 28 r)"
    by (simp add: issue_one_def Let_def acme_then_def acme_lift_def found days demo_finalize_sign demo_finalize_now load ids demo_finalize_row)
  have csr: "x5_load_csr (en_x509 demo_env) der = Some ?csr" "verify_csr_identifiers ?csr (or_identifiers (demo_order OrderProcessing None (3 * DAY))) = Inr ()" for der
    by (simp_all add: demo_x509_def verify_csr_identifiers_def str_given_def demo_order_def pick_def)
  show ?thesis
    unfolding issue_certificate_def csr option.case
    by (simp add: acme_then_def acme_lift_def csr(2) ids one acme_return_def)
qed

lemma demo_finalize_lookup:
  "own_order (demo_account AccountValid None) ''order_KA'' (demo_taken t (demo_order OrderReady None 0)) = (Inr (demo_order OrderReady None 0), demo_taken t (demo_order OrderReady None 0))"
  by (simp add: run_defs own_order_def get_order_by_id_def state_defs demo_order_def demo_account_def)

lemma demo_finalize_response:
  "create_acme_response demo_env d st loc (demo_certified 29 (demo_order OrderValid (Some ''u/cert/cert_aA'') (3 * DAY)))
     = (Inr \<lparr>rs_status = st, rs_body = PDict d, rs_nonce = Some ''dA'', rs_location = loc\<rparr>, demo_issued)"
  by (simp add: run_defs create_acme_response_def generate_nonce_def state_defs demo_issued_def row_defs DAY_def HOUR_def empty_db_def cong: acme_then_later)

lemma demo_run_finalize: "\<exists>a. serve_request demo_env (Finalize ''order_KA'' (demo_request ''aDM'' ''cDM'')) demo_later = (Inr a, demo_issued)"
proof -
  have url: "build_expected_acme_request_url demo_env ''/order/order_KA/finalize'' = ''u/order/order_KA/finalize''"
    by (simp add: build_expected_acme_request_url_def get_configured_acme_base_url_def startswith_def)
  have order: "or_status (demo_order st c u) = st" "or_id (demo_order st c u) = 2" "(demo_order st c u)\<lparr>or_status := st', or_updated_at := Some u'\<rparr> = demo_order st' c u'"
    "(demo_order st c u)\<lparr>or_certificate := c'\<rparr> = demo_order st c' u" "order_usage (demo_order st c u) = ''clientAuth''" for st st' c c' u u'
    by (simp_all add: demo_order_def order_usage_def str_given_def)
  have body: "decode_payload (PStr ''AQAB'') = Inr [CHR 0x01, CHR 0x00, CHR 0x01]"
    "cert_url demo_env (demo_cert_row st t x) = ''u/cert/cert_aA''" for st t x
    by (simp_all add: decode_payload_def dict_get_def cert_url_def get_configured_acme_base_url_def demo_cert_row_def)
  show ?thesis
    by (simp add: serve_request_def in_session_def acme_handler_def finalize_route_def url acme_then_def demo_finalize_parse demo_finalize_account demo_finalize_lookup
      acme_require_def acme_return_def acme_lift_def order body demo_finalize_agents demo_finalize_order demo_finalize_issue demo_finalize_response)
qed

definition demo_revoked :: acme_run where
  "demo_revoked = \<lparr>run_db = \<lparr>db_nonces = [used_nonce ''AA'' HOUR, used_nonce ''GA'' HOUR, free_nonce ''PA'' HOUR, used_nonce ''RA'' (3 * DAY + HOUR),
       used_nonce ''dA'' (3 * DAY + HOUR), free_nonce ''hA'' (3 * DAY + HOUR)], db_accounts = [demo_account AccountValid None],
       db_orders = [demo_order OrderValid (Some ''u/cert/cert_aA'') (3 * DAY)], db_authzs = [demo_authz],
       db_certs = [demo_cert_row CertRevoked (Some (3 * DAY)) (Some Unspecified)],
       db_common = [demo_common_row CertRevoked (Some (3 * DAY)) (Some Unspecified)]\<rparr>,
     run_registry = demo_used_registry, run_seq = 5, run_tick = 35\<rparr>"

lemma demo_run_revoke: "\<exists>a. serve_request demo_env (RevokeCert (demo_request ''aDQ'' ''cDQ'')) demo_issued = (Inr a, demo_revoked)"
  by (simp add: parse_defs account_defs revoke_route_def demo_issued_def demo_revoked_def cert_defs row_defs order_defs
    decode_payload_def validate_revocation_reason_def revoking_account_def verify_account_signature_def verify_certificate_key_def
    get_revocable_certificate_def get_order_by_pk_def revoke_acme_certificate_def put_cert_def put_common_def revoke_common_def replace_row_def
    from_acme_code_def demo_x509_def demo_cert_def
    cong: acme_then_later bind_result_later)

definition demo_closed :: acme_run where
  "demo_closed = demo_revoked\<lparr>run_db := (run_db demo_revoked)\<lparr>db_accounts := [demo_account AccountDeactivated (Some (3 * DAY))],
     db_nonces := [used_nonce ''AA'' HOUR, used_nonce ''GA'' HOUR, free_nonce ''PA'' HOUR, used_nonce ''RA'' (3 * DAY + HOUR),
       used_nonce ''dA'' (3 * DAY + HOUR), used_nonce ''hA'' (3 * DAY + HOUR), free_nonce ''lA'' (3 * DAY + HOUR)]\<rparr>, run_tick := 39\<rparr>"

lemma demo_run_close: "\<exists>a. serve_request demo_env (UpdateAccount 1 (demo_request ''aDU'' ''cDU'')) demo_revoked = (Inr a, demo_closed)"
  by (simp add: parse_defs account_defs update_account_route_def demo_revoked_def demo_closed_def row_defs DAY_def
    update_account_fields_def update_account_row_def put_account_def replace_row_def
    cong: acme_then_later bind_result_later)

text \<open>The whole run.\<close>

definition demo_setup :: "ca_event list" where
  "demo_setup = [IssueCredential ''user'' ''a '' ''key'' ''bWE'' 1, AcmeRequest NewNonce] @ [AcmeRequest (NewAccount (demo_request ''aDE'' ''cDE''))]"

definition demo_events :: "ca_event list" where
  "demo_events = demo_setup @ [AcmeRequest (NewOrder (demo_request ''aDI'' ''cDI'')), AcmeRequest NewNonce,
     AcmeRequest (Finalize ''order_KA'' (demo_request ''aDM'' ''cDM''))]"

lemma serve_answered: "\<exists>a. serve_request env req w = (Inr a, w') \<Longrightarrow> serve_events env (AcmeRequest req # es) w = serve_events env es w'"
  by auto

lemma serve_append: "serve_events env (es @ fs) w = serve_events env fs (serve_events env es w)"
  by (induction env es w rule: serve_events.induct) simp_all

lemma demo_run: "serve_events demo_env demo_setup (initial_run demo_registry) = demo_bound"
    "serve_events demo_env demo_events (initial_run demo_registry) = demo_issued"
  by (simp_all only: demo_events_def demo_setup_def serve_append demo_run_start serve_answered [OF demo_run_account] serve_answered [OF demo_run_order]
    serve_answered [OF demo_run_nonce] serve_answered [OF demo_run_finalize] serve_events.simps(1))

lemma demo_run_on:
  "serve_events demo_env [AcmeRequest (RevokeCert (demo_request ''aDQ'' ''cDQ''))] demo_issued = demo_revoked"
  "serve_events demo_env [AcmeRequest (UpdateAccount 1 (demo_request ''aDU'' ''cDU''))] demo_revoked = demo_closed"
  by (simp_all only: serve_answered [OF demo_run_revoke] serve_answered [OF demo_run_close] serve_events.simps(1))


subsection \<open>The theorems at this run\<close>

lemma certificates_name_bound_agents_witness:
  "demo_cert_row CertValid None None \<in> set (db_certs (run_db demo_issued))
    \<and> (\<exists>aic k b. ce_aic (demo_cert_row CertValid None None) = Some aic \<and> (k, aic) \<in> bindings (run_registry demo_issued)
      \<and> x5_sign (en_x509 demo_env) b = Some ''PEM'' \<and> names_agent b aic)"
proof -
  have c: "demo_cert_row CertValid None None \<in> set (db_certs (run_db demo_issued))" "ce_pem (demo_cert_row CertValid None None) = ''PEM''"
    by (simp_all add: demo_issued_def demo_cert_row_def)
  show ?thesis using certificates_name_bound_agents [OF demo_run(2) [symmetric] c(1)] c by auto
qed

lemma revocation_is_final_witness:
  "demo_cert_row CertRevoked (Some (3 * DAY)) (Some Unspecified) \<in> set (db_certs (run_db demo_closed))
    \<and> (\<exists>k\<in>set (db_common (run_db demo_closed)). cc_serial k = ''7'' \<and> cc_status k = CertRevoked)"
proof -
  let ?c = "demo_cert_row CertRevoked (Some (3 * DAY)) (Some Unspecified)"
  have w: "demo_revoked = serve_events demo_env (demo_events @ [AcmeRequest (RevokeCert (demo_request ''aDQ'' ''cDQ''))]) (initial_run demo_registry)"
    by (simp only: serve_append demo_run demo_run_on)
  have "?c \<in> set (db_certs (run_db demo_revoked))" "ce_status ?c = CertRevoked" "ce_serial ?c = ''7''"
    by (simp_all add: demo_revoked_def demo_cert_row_def)
  then show ?thesis using revocation_is_final [OF w, of ?c "[AcmeRequest (UpdateAccount 1 (demo_request ''aDU'' ''cDU''))]"] by (simp only: demo_run_on)
qed

lemma nonce_accepted_once_witness:
  "(''RA''::string) \<noteq> ''GA'' \<and> ''GA'' \<in> no_nonce ` set (db_nonces (run_db demo_bound))"
proof -
  obtain a where a: "serve_request demo_env (NewOrder (demo_request ''aDI'' ''cDI'')) demo_bound = (Inr a, demo_ordered)" using demo_run_order by blast
  obtain b where b: "serve_request demo_env (Finalize ''order_KA'' (demo_request ''aDM'' ''cDM'')) demo_later = (Inr b, demo_issued)" using demo_run_finalize by blast
  have n: "request_nonce demo_env (NewOrder (demo_request ''aDI'' ''cDI'')) = Some ''GA''"
    "request_nonce demo_env (Finalize ''order_KA'' (demo_request ''aDM'' ''cDM'')) = Some ''RA''"
    by (simp_all add: request_nonce_def signed_part_def parse_protected_header_def base64url_decode_def json_object_of_def header_defs)
  have later: "serve_events demo_env [AcmeRequest NewNonce] demo_ordered = demo_later"
    by (simp only: serve_answered [OF demo_run_nonce] serve_events.simps(1))
  show ?thesis
    by (rule nonce_accepted_once [OF demo_run(1) [symmetric], where es' = "[AcmeRequest NewNonce]" and a = a and a' = b, OF _ _ n])
      (simp_all only: a later b fst_conv snd_conv)
qed

lemma answered_requests_are_signed_witness:
  "\<exists>p account. account \<in> set (db_accounts (run_db demo_later)) \<and> names_account p account
    \<and> signed_with demo_crypto (demo_request ''aDM'' ''cDM'') (jwk_value (ac_public_key account))"
proof -
  obtain b where "serve_request demo_env (Finalize ''order_KA'' (demo_request ''aDM'' ''cDM'')) demo_later = (Inr b, demo_issued)" using demo_run_finalize by blast
  then have "fst (serve_request demo_env (Finalize ''order_KA'' (demo_request ''aDM'' ''cDM'')) demo_later) = Inr b" by simp
  moreover have "account_part (Finalize ''order_KA'' (demo_request ''aDM'' ''cDM'')) = Some (demo_request ''aDM'' ''cDM'')"
    by (simp add: account_part_def signed_part_def)
  ultimately show ?thesis using answered_requests_are_signed unfolding demo_env_simps(1) [symmetric] by blast
qed


end
