(* ===== verification/HeartbeatCodec.thy ===== *)
theory HeartbeatCodec
  imports Prelude
begin

text \<open>
  \<open>acps-sdk/acps_sdk/amp/heartbeat_sync.py\<close>: the wire format both sides of the alive-delta
  synchronisation share: object ids, shard ids, sequence numbers, and the records of the messages.
\<close>

subsection \<open>Codes\<close>

datatype codec_error = CodecValueError

definition ALIVE_DELTA_TYPE :: string where "ALIVE_DELTA_TYPE = ''amp-alive-delta''"
definition SNAPSHOT_META_RECORD_TYPE :: string where "SNAPSHOT_META_RECORD_TYPE = ''snapshot-meta''"
definition ALIVE_OBJECT_ID_PREFIX :: string where "ALIVE_OBJECT_ID_PREFIX = ''urn:amp:alive:''"

definition alive_object_id :: "string \<Rightarrow> string" where
  "alive_object_id aic = ALIVE_OBJECT_ID_PREFIX @ aic"

definition aic_from_object_id :: "string \<Rightarrow> (codec_error, string) result" where
  "aic_from_object_id object_id =
     (if \<not> startswith object_id ALIVE_OBJECT_ID_PREFIX then Inl CodecValueError
      else Inr (drop (length ALIVE_OBJECT_ID_PREFIX) object_id))"

text \<open>\<open>f"{n:0wd}"\<close> of any integer: the sign counts towards the width.\<close>

definition pad_int :: "nat \<Rightarrow> int \<Rightarrow> string" where
  "pad_int w n = (if n < 0 then CHR ''-'' # zero_pad (w - 1) (nat (- n)) else zero_pad w (nat n))"

definition shard_id :: "int \<Rightarrow> int \<Rightarrow> string" where
  "shard_id shard_index shard_count =
     (let width = max 3 (length (int_to_str (shard_count - 1))) in ''hb-'' @ pad_int width shard_index)"

definition shard_index_from_id :: "string \<Rightarrow> (codec_error, int) result" where
  "shard_index_from_id shard =
     (if \<not> startswith shard ''hb-'' then Inl CodecValueError
      else
        let numeric_part = drop 3 shard in
        if \<not> all_digits numeric_part then Inl CodecValueError
        else Inr (int (digits_to_nat numeric_part)))"

definition seq_to_str :: "int \<Rightarrow> string" where
  "seq_to_str s = int_to_str s"

text \<open>\<open>int\<close> accepts at most one sign; more of them pass the digit test and make \<open>int\<close> raise.\<close>

definition seq_from_str :: "string \<Rightarrow> (codec_error, int) result" where
  "seq_from_str value =
     (if value = [] then Inl CodecValueError
      else
        let digits = dropWhile (\<lambda>c. c = CHR ''-'') value;
            signs = length value - length digits in
        if \<not> all_digits digits then Inl CodecValueError
        else if signs > 1 then Inl CodecValueError
        else
          let n = (if signs = 1 then - int (digits_to_nat digits) else int (digits_to_nat digits)) in
          if n < 0 then Inl CodecValueError else Inr n)"

subsection \<open>Messages\<close>

datatype delta_op = Upsert | Delete
datatype delta_kind = KindSnapshot | EnterAlive | RefreshAlive | LeaveAlive

record alive_set_entry =
  en_aic :: string
  en_last_seen_at :: string
  en_source_timestamp :: "string option"

record alive_delta =
  dv_shard :: string
  dv_seq :: string
  dv_id :: string
  dv_version :: string
  dv_op :: delta_op
  dv_kind :: delta_kind
  dv_payload :: "alive_set_entry option"

record heartbeat_sync_info =
  hi_kafka_topic :: string
  hi_shard_count :: int
  hi_refresh_emit_interval :: int
  hi_delta_retention_hours :: int
  hi_published_seq :: "(string \<times> string) list"

record snapshot_meta =
  sm_cutover :: "(string \<times> string) list"
  sm_generated_at :: string

subsection \<open>Round trips\<close>

lemma aic_from_object_id_alive [simp]: "aic_from_object_id (alive_object_id a) = Inr a"
proof -
  have "startswith (alive_object_id a) ALIVE_OBJECT_ID_PREFIX" unfolding alive_object_id_def by (rule startswith_append)
  then show ?thesis by (simp add: aic_from_object_id_def alive_object_id_def)
qed

lemma digits_no_minus: "list_all is_digit s \<Longrightarrow> dropWhile (\<lambda>c. c = CHR ''-'') s = s"
  by (cases s) (auto simp: is_digit_def ord_def)

lemma seq_from_str_nat [simp]: "seq_from_str (nat_to_str n) = Inr (int n)"
  by (simp add: seq_from_str_def digits_no_minus nat_to_str_digits)

lemma shard_index_lemma:
  assumes "0 \<le> i"
  shows "shard_index_from_id (shard_id i c) = Inr i"
proof -
  have id: "shard_id i c = ''hb-'' @ zero_pad (max 3 (length (int_to_str (c - 1)))) (nat i)"
    using assms by (simp add: shard_id_def pad_int_def Let_def)
  have start: "startswith (shard_id i c) ''hb-''" unfolding id by (rule startswith_append)
  have "drop 3 (shard_id i c) = zero_pad (max 3 (length (int_to_str (c - 1)))) (nat i)"
    unfolding id by simp
  with start show ?thesis using assms by (simp add: shard_index_from_id_def zero_pad_props)
qed

lemma zero_pad_length: "length (nat_to_str n) \<le> w \<Longrightarrow> length (zero_pad w n) = w"
  by (simp add: zero_pad_def rjust_def)

lemma nat_to_str_length_mono: "m \<le> n \<Longrightarrow> length (nat_to_str m) \<le> length (nat_to_str n)"
proof (induction n arbitrary: m rule: nat_to_str.induct)
  case (1 n)
  show ?case
  proof (cases "m < 10")
    case True
    then have "length (nat_to_str m) = 1" by (subst nat_to_str.simps) simp
    then show ?thesis by (simp add: Suc_leI)
  next
    case False
    with "1.prems" have n: "\<not> n < 10" by simp
    have "length (nat_to_str (m div 10)) \<le> length (nat_to_str (n div 10))"
      using "1.IH" [OF n] "1.prems" by (simp add: div_le_mono)
    with False n show ?thesis
      by (subst nat_to_str.simps, subst (2) nat_to_str.simps) simp
  qed
qed

text \<open>
  The wire codes of the synchronisation can be taken apart again: an object id gives back its
  AIC, a sequence number its value, and the id of every non-negative shard index its index.
\<close>
theorem wire_codes_round_trip:
  "aic_from_object_id (alive_object_id a) = Inr a
   \<and> (0 \<le> n \<longrightarrow> seq_from_str (seq_to_str n) = Inr n)
   \<and> (0 \<le> i \<longrightarrow> shard_index_from_id (shard_id i c) = Inr i)"
  using shard_index_lemma [of i c] by (auto simp: seq_to_str_def int_to_str_def)

theorem wire_codes_round_trip_witness:
  "seq_from_str (seq_to_str 1024) = Inr 1024 \<and> shard_index_from_id (shard_id 7 16) = Inr 7"
  using wire_codes_round_trip [of "[]" 1024 7 16] by simp

lemma shard_ids_distinct: "0 \<le> i \<Longrightarrow> 0 \<le> j \<Longrightarrow> shard_id i c = shard_id j c \<longleftrightarrow> i = j"
  using shard_index_lemma [of i c] shard_index_lemma [of j c] by (metis sum.inject(2))

text \<open>
  All shards of one deployment have ids of the same length, \<open>hb-\<close> and as many digits as the largest
  index needs, but at least three, and different shards have different ids.
\<close>
theorem shard_ids_fixed_width_distinct:
  assumes "0 \<le> i" and "i < c" and "0 \<le> j" and "j < c"
  shows "length (shard_id i c) = 3 + max 3 (length (int_to_str (c - 1)))
    \<and> (shard_id i c = shard_id j c \<longleftrightarrow> i = j)"
proof
  have "length (nat_to_str (nat i)) \<le> length (int_to_str (c - 1))"
    using assms by (auto simp: int_to_str_def intro: nat_to_str_length_mono)
  then show "length (shard_id i c) = 3 + max 3 (length (int_to_str (c - 1)))"
    using assms by (simp add: shard_id_def pad_int_def Let_def zero_pad_length)
  show "shard_id i c = shard_id j c \<longleftrightarrow> i = j" by (rule shard_ids_distinct [OF assms(1,3)])
qed

theorem shard_ids_fixed_width_distinct_witness: "length (shard_id 7 10000) = 7"
proof -
  have "length (int_to_str 9999) = 4" by (simp add: int_to_str_def nat_to_str.simps)
  with shard_ids_fixed_width_distinct [of 7 10000 8] show ?thesis by simp
qed

end
