(* ===== verification/HbSharding.thy ===== *)
theory HbSharding
  imports HeartbeatCodec "HOL-Library.Word"
begin

text \<open>
  \<open>monitor-server/app/heartbeat/sharding.py\<close>: the shard of an agent (a hash of the standard library) and the
  partition of the input topic, a copy of the hash function of the Kafka client. SHA-256 is a parameter: nothing
  depends on its values.
\<close>

unbundle bit_operations_syntax

subsection \<open>Shards\<close>

text \<open>\<open>str.encode("utf-8")\<close>; a character of the model is a code point below 256.\<close>

definition utf8 :: "string \<Rightarrow> 8 word list" where
  "utf8 s = concat (map (\<lambda>c. let n = ord c in
     if n < 128 then [of_nat n] else [of_nat (192 + n div 64), of_nat (128 + n mod 64)]) s)"

text \<open>\<open>int.from_bytes(bs, "big")\<close>\<close>

fun from_bytes_big :: "int \<Rightarrow> 8 word list \<Rightarrow> int" where
  "from_bytes_big acc [] = acc"
| "from_bytes_big acc (b # bs) = from_bytes_big (acc * 256 + uint b) bs"

definition stable_shard_hash :: "(8 word list \<Rightarrow> 8 word list) \<Rightarrow> string \<Rightarrow> int" where
  "stable_shard_hash sha256 aic = (let digest = sha256 (utf8 aic) in from_bytes_big 0 (take 8 digest))"

definition shard_index_for_aic :: "(8 word list \<Rightarrow> 8 word list) \<Rightarrow> string \<Rightarrow> int \<Rightarrow> int" where
  "shard_index_for_aic sha256 aic shard_count = stable_shard_hash sha256 aic mod shard_count"

definition shard_id_for_aic :: "(8 word list \<Rightarrow> 8 word list) \<Rightarrow> int \<Rightarrow> string \<Rightarrow> string" where
  "shard_id_for_aic sha256 count aic =
     (let idx = shard_index_for_aic sha256 aic count in shard_id idx count)"

definition all_shard_ids :: "int \<Rightarrow> string list" where
  "all_shard_ids count = map (\<lambda>i. shard_id (int i) count) [0..<nat count]"

subsection \<open>Input partitions\<close>

text \<open>
  The loop over four bytes at a time and the rest, with the masks of the source. Python integers are
  unbounded: the masks keep them in 32 bits.
\<close>

definition murmur_m :: int where "murmur_m = 0x5BD1E995"

definition low32 :: "int \<Rightarrow> int" where "low32 x = x AND 0xFFFFFFFF"

definition unpack_le :: "8 word list \<Rightarrow> int" where
  "unpack_le bs = uint (bs ! 0) + 256 * uint (bs ! 1) + 65536 * uint (bs ! 2) + 16777216 * uint (bs ! 3)"

fun murmur_loop :: "int \<Rightarrow> 8 word list \<Rightarrow> int \<times> 8 word list" where
  "murmur_loop h (b0 # b1 # b2 # b3 # rest) =
     (let k0 = unpack_le [b0, b1, b2, b3];
          k1 = low32 (k0 * murmur_m);
          k2 = k1 XOR drop_bit 24 k1;
          k = low32 (k2 * murmur_m);
          h1 = low32 (h * murmur_m)
      in murmur_loop (h1 XOR k) rest)"
| "murmur_loop h rest = (h, rest)"

definition murmur_tail :: "int \<Rightarrow> 8 word list \<Rightarrow> int" where
  "murmur_tail h rest =
     (let remaining = length rest;
          byte = (\<lambda>i. uint (rest ! i) AND 0xFF) in
      if remaining = 3 then
        low32 ((((h XOR push_bit 16 (byte 2)) XOR push_bit 8 (byte 1)) XOR byte 0) * murmur_m)
      else if remaining = 2 then low32 (((h XOR push_bit 8 (byte 1)) XOR byte 0) * murmur_m)
      else if remaining = 1 then low32 ((h XOR byte 0) * murmur_m)
      else h)"

definition murmur2_kafka :: "8 word list \<Rightarrow> int" where
  "murmur2_kafka data =
     (let (h1, rest) = murmur_loop (0x9747B28C XOR int (length data)) data;
          h2 = murmur_tail h1 rest;
          h3 = h2 XOR drop_bit 13 h2;
          h4 = low32 (h3 * murmur_m);
          h5 = h4 XOR drop_bit 15 h4
      in if h5 \<ge> 0x80000000 then h5 - 0x100000000 else h5)"

definition input_partition_for_aic :: "string \<Rightarrow> int \<Rightarrow> int" where
  "input_partition_for_aic aic partition_count = (murmur2_kafka (utf8 aic) AND 0x7FFFFFFF) mod partition_count"

subsection \<open>The hash of the Kafka client\<close>

text \<open>
  The algorithm as the Java client has it: 32-bit integers that wrap, unsigned shifts, and a switch
  that falls through on the bytes that are left.
\<close>

definition java_m :: "32 word" where "java_m = 0x5BD1E995"

definition java_mix :: "8 word \<Rightarrow> 8 word \<Rightarrow> 8 word \<Rightarrow> 8 word \<Rightarrow> 32 word" where
  "java_mix b0 b1 b2 b3 =
     (let k0 = ucast b0 + push_bit 8 (ucast b1) + push_bit 16 (ucast b2) + push_bit 24 (ucast b3);
          k1 = k0 * java_m; k2 = k1 XOR drop_bit 24 k1 in k2 * java_m)"

fun java_loop :: "32 word \<Rightarrow> 8 word list \<Rightarrow> 32 word" where
  "java_loop h (b0 # b1 # b2 # b3 # rest) = java_loop (h * java_m XOR java_mix b0 b1 b2 b3) rest"
| "java_loop h [b0, b1, b2] =
     (((h XOR push_bit 16 (ucast b2)) XOR push_bit 8 (ucast b1)) XOR ucast b0) * java_m"
| "java_loop h [b0, b1] = ((h XOR push_bit 8 (ucast b1)) XOR ucast b0) * java_m"
| "java_loop h [b0] = (h XOR ucast b0) * java_m"
| "java_loop h [] = h"

definition java_murmur2 :: "8 word list \<Rightarrow> 32 word" where
  "java_murmur2 data =
     (let h1 = java_loop (0x9747B28C XOR of_nat (length data)) data;
          h2 = h1 XOR drop_bit 13 h1; h3 = h2 * java_m
      in h3 XOR drop_bit 15 h3)"

lemma low32_word: "low32 x = uint (word_of_int x :: 32 word)"
proof -
  have "x AND 0xFFFFFFFF = take_bit 32 x" using take_bit_eq_mask [of 32 x] by (simp add: mask_eq_exp_minus_1)
  then show ?thesis by (simp add: low32_def unsigned_of_int)
qed

lemma murmur_m_word: "word_of_int murmur_m = java_m"
  by (simp add: murmur_m_def java_m_def)

lemma uint_xor_drop: "uint w XOR drop_bit n (uint w) = uint (w XOR drop_bit n w)" for w :: "32 word"
proof -
  have "take_bit 32 (uint w) = uint w" using uint_lt2p [of w] by (simp add: take_bit_int_eq_self)
  then show ?thesis by (simp add: unsigned_xor_eq unsigned_drop_bit_eq)
qed

lemma unpack_word: "word_of_int (unpack_le [b0, b1, b2, b3])
    = (ucast b0 + push_bit 8 (ucast b1) + push_bit 16 (ucast b2) + push_bit 24 (ucast b3) :: 32 word)"
  by (simp add: unpack_le_def push_bit_eq_mult)

lemma word_mult_low: "low32 (x * murmur_m) = uint ((word_of_int x :: 32 word) * java_m)"
  by (simp add: low32_word murmur_m_word [symmetric])

lemma murmur_step:
  "low32 (h * murmur_m) XOR low32 ((low32 (unpack_le [b0, b1, b2, b3] * murmur_m)
      XOR drop_bit 24 (low32 (unpack_le [b0, b1, b2, b3] * murmur_m))) * murmur_m)
   = uint ((word_of_int h :: 32 word) * java_m XOR java_mix b0 b1 b2 b3)"
  unfolding word_mult_low uint_xor_drop word_of_int_uint unpack_word
  by (simp add: java_mix_def Let_def unsigned_xor_eq)

lemma uint_push_xor:
  "uint (w :: 32 word) XOR push_bit 8 (uint (b :: 8 word)) = uint (w XOR push_bit 8 (ucast b))"
  "uint (w :: 32 word) XOR push_bit 16 (uint (b :: 8 word)) = uint (w XOR push_bit 16 (ucast b))"
  "uint (w :: 32 word) XOR uint (b :: 8 word) = uint (w XOR ucast b)"
proof -
  have lt: "uint b < 256" using uint_lt2p [of b] by simp
  have n8: "uint (push_bit 8 (ucast b :: 32 word)) = push_bit 8 (uint b)"
    using lt by (simp add: push_bit_eq_mult uint_word_ariths unsigned_ucast_eq take_bit_eq_mod)
  have n16: "uint (push_bit 16 (ucast b :: 32 word)) = push_bit 16 (uint b)"
    using lt by (simp add: push_bit_eq_mult uint_word_ariths unsigned_ucast_eq take_bit_eq_mod)
  show "uint w XOR push_bit 8 (uint b) = uint (w XOR push_bit 8 (ucast b))" by (simp add: unsigned_xor_eq n8)
  show "uint w XOR push_bit 16 (uint b) = uint (w XOR push_bit 16 (ucast b))" by (simp add: unsigned_xor_eq n16)
  show "uint w XOR uint b = uint (w XOR ucast b)"
    using lt by (simp add: unsigned_xor_eq unsigned_ucast_eq take_bit_eq_mod)
qed

lemma byte_mask: "uint (b :: 8 word) AND 0xFF = uint b"
proof -
  have "uint b AND 0xFF = take_bit 8 (uint b)" using take_bit_eq_mask [of 8 "uint b"] by (simp add: mask_eq_exp_minus_1)
  also have "\<dots> = uint b" using uint_lt2p [of b] by (simp add: take_bit_int_eq_self)
  finally show ?thesis .
qed

lemma of_bytes:
  "(word_of_int (x XOR y) :: 32 word) = word_of_int x XOR word_of_int y"
  "(word_of_int (push_bit n x) :: 32 word) = push_bit n (word_of_int x)"
  "(word_of_int (uint (b :: 8 word)) :: 32 word) = ucast b"
  by (simp_all add: of_int_xor_eq push_bit_eq_mult word_of_int_power_hom)

lemma unsigned_less_32: "uint (w :: 32 word) < 4294967296"
  using uint_lt2p [of w] by simp

text \<open>The Python value agrees with the word; it is in range once a round has been done, or no round was.\<close>

lemma murmur_loop_tail:
  assumes "murmur_loop h data = (h1, rest)"
  shows "word_of_int (murmur_tail h1 rest) = java_loop (word_of_int h) data
    \<and> (0 \<le> h \<and> h < 2 ^ 32 \<longrightarrow> 0 \<le> murmur_tail h1 rest \<and> murmur_tail h1 rest < 2 ^ 32)"
  using assms
proof (induction "word_of_int h :: 32 word" data arbitrary: h rule: java_loop.induct)
  case (1 b0 b1 b2 b3 rest')
  let ?h = "low32 (h * murmur_m) XOR low32 ((low32 (unpack_le [b0, b1, b2, b3] * murmur_m)
      XOR drop_bit 24 (low32 (unpack_le [b0, b1, b2, b3] * murmur_m))) * murmur_m)"
  let ?w = "(word_of_int h :: 32 word) * java_m XOR java_mix b0 b1 b2 b3"
  have h: "?h = uint ?w" by (rule murmur_step)
  have run: "murmur_loop ?h rest' = (h1, rest)" using 1(2) by (simp add: Let_def)
  have "word_of_int ?h = ?w" unfolding h by simp
  moreover have "0 \<le> ?h \<and> ?h < 2 ^ 32" unfolding h using uint_lt2p [of ?w] by simp
  ultimately show ?case using 1(1) [OF _ run] by simp
next
  case (2 b0 b1 b2)
  then have eq: "h1 = h" "rest = [b0, b1, b2]" by simp_all
  show ?case
    by (simp add: eq murmur_tail_def Let_def byte_mask word_mult_low of_bytes unsigned_less_32)
next
  case (3 b0 b1)
  then have eq: "h1 = h" "rest = [b0, b1]" by simp_all
  show ?case
    by (simp add: eq murmur_tail_def Let_def byte_mask word_mult_low of_bytes unsigned_less_32)
next
  case (4 b0)
  then have eq: "h1 = h" "rest = [b0]" by simp_all
  show ?case
    by (simp add: eq murmur_tail_def Let_def byte_mask word_mult_low of_bytes unsigned_less_32)
next
  case 5
  then have eq: "h1 = h" "rest = []" by simp_all
  show ?case by (simp add: eq murmur_tail_def)
qed

lemma murmur_loop_short: "length rest < 4 \<Longrightarrow> murmur_loop h rest = (h, rest)"
  by (cases "(h, rest)" rule: murmur_loop.cases) auto

lemma murmur_loop_idem: "murmur_loop h data = (h1, rest) \<Longrightarrow> murmur_loop h1 rest = (h1, rest)"
  by (induction h data rule: murmur_loop.induct) (auto simp: Let_def)

lemma murmur_loop_range:
  assumes "murmur_loop h data = (h1, rest)" and "4 \<le> length data"
  shows "0 \<le> h1 \<and> h1 < 2 ^ 32"
  using assms
proof (induction h data rule: murmur_loop.induct)
  case (1 h b0 b1 b2 b3 rest')
  let ?h = "low32 (h * murmur_m) XOR low32 ((low32 (unpack_le [b0, b1, b2, b3] * murmur_m)
      XOR drop_bit 24 (low32 (unpack_le [b0, b1, b2, b3] * murmur_m))) * murmur_m)"
  have h: "0 \<le> ?h \<and> ?h < 2 ^ 32" unfolding murmur_step by (simp add: unsigned_less_32)
  have run: "murmur_loop ?h rest' = (h1, rest)" using 1(2) by (simp add: Let_def)
  show ?case
  proof (cases "4 \<le> length rest'")
    case True
    show ?thesis by (rule 1(1) [OF refl refl refl refl refl run True])
  next
    case False
    with run h show ?thesis using murmur_loop_short [of rest' ?h] by simp
  qed
qed auto

text \<open>Before the mixing the Python value is the word of the Java client.\<close>

lemma murmur_body:
  assumes "murmur_loop (0x9747B28C XOR int (length data)) data = (h1, rest)"
  shows "murmur_tail h1 rest = uint (java_loop (0x9747B28C XOR of_nat (length data)) data)"
proof -
  let ?h = "0x9747B28C XOR int (length data)"
  have w: "(word_of_int ?h :: 32 word) = 0x9747B28C XOR of_nat (length data)" by (simp add: of_bytes)
  note lt = murmur_loop_tail [OF assms]
  have range: "0 \<le> murmur_tail h1 rest \<and> murmur_tail h1 rest < 2 ^ 32"
  proof (cases "4 \<le> length data")
    case True
    have run: "murmur_loop h1 rest = (h1, rest)"
      by (rule murmur_loop_idem [OF assms])
    show ?thesis using murmur_loop_tail [OF run] murmur_loop_range [OF assms True] by simp
  next
    case False
    have "?h = take_bit 32 ?h"
    proof -
      have "take_bit 32 (int (length data)) = int (length data)" using False by (simp add: take_bit_int_eq_self)
      then show ?thesis by (simp add: take_bit_int_eq_self)
    qed
    then have "0 \<le> ?h \<and> ?h < 2 ^ 32" by (metis take_bit_nonnegative take_bit_int_less_exp)
    with lt show ?thesis by blast
  qed
  have "uint (word_of_int (murmur_tail h1 rest) :: 32 word) = murmur_tail h1 rest"
    using range by (simp add: unsigned_of_int take_bit_int_eq_self)
  with lt w show ?thesis by simp
qed

lemma signed_value: "sint (w :: 32 word) = (if uint w \<ge> 0x80000000 then uint w - 0x100000000 else uint w)"
proof -
  have sint: "sint w = (uint w + 0x80000000) mod 0x100000000 - 0x80000000"
    by (simp add: sint_uint signed_take_bit_eq_take_bit_shift take_bit_eq_mod)
  have range: "0 \<le> uint w" "uint w < 0x100000000" using uint_lt2p [of w] by simp_all
  show ?thesis
  proof (cases "uint w \<ge> 0x80000000")
    case True
    have "(uint w + 0x80000000) mod 0x100000000 = (uint w + 0x80000000 - 0x100000000) mod 0x100000000"
      by (simp only: minus_mod_self2)
    also have "\<dots> = uint w + 0x80000000 - 0x100000000"
      using True range by (intro mod_pos_pos_trivial) simp_all
    finally show ?thesis using sint True by simp
  next
    case False
    then have "(uint w + 0x80000000) mod 0x100000000 = uint w + 0x80000000"
      using range by (intro mod_pos_pos_trivial) simp_all
    with sint False show ?thesis by simp
  qed
qed

text \<open>
  The hash that computes the partition of an agent in the input topic is the hash of the Kafka Java
  client, bit for bit: the masks and the last correction make the unbounded integers of Python behave as
  32-bit integers that wrap, and the result is the signed value the Java client gets.
\<close>
theorem murmur2_is_kafka_hash: "murmur2_kafka data = sint (java_murmur2 data)"
proof -
  let ?w = "java_loop (0x9747B28C XOR of_nat (length data)) data"
  obtain h1 rest where run: "murmur_loop (0x9747B28C XOR int (length data)) data = (h1, rest)"
    by (cases "murmur_loop (0x9747B28C XOR int (length data)) data")
  have tail: "murmur_tail h1 rest = uint ?w" by (rule murmur_body [OF run])
  have "(let h3 = murmur_tail h1 rest XOR drop_bit 13 (murmur_tail h1 rest); h4 = low32 (h3 * murmur_m)
      in h4 XOR drop_bit 15 h4) = uint (java_murmur2 data)"
    unfolding Let_def tail uint_xor_drop word_mult_low word_of_int_uint
    by (simp only: java_murmur2_def Let_def)
  then show ?thesis by (simp add: murmur2_kafka_def run signed_value Let_def)
qed

subsection \<open>Ranges\<close>

lemma all_shard_idsI: "0 \<le> i \<Longrightarrow> i < count \<Longrightarrow> shard_id i count \<in> set (all_shard_ids count)"
  unfolding all_shard_ids_def set_map by (rule image_eqI [where x = "nat i"]) simp_all

lemma home_shard_listed: "0 < count \<Longrightarrow> shard_id_for_aic sha256 count aic \<in> set (all_shard_ids count)"
  unfolding shard_id_for_aic_def shard_index_for_aic_def Let_def by (rule all_shard_idsI) simp_all

text \<open>
  With any positive number of partitions the input partition of an agent is one of them, and so is
  the shard of an agent among the shards; no shard is listed twice.
\<close>
theorem sharding_in_range:
  assumes "0 < count"
  shows "0 \<le> input_partition_for_aic aic count \<and> input_partition_for_aic aic count < count
    \<and> shard_id_for_aic sha256 count aic \<in> set (all_shard_ids count) \<and> distinct (all_shard_ids count)"
proof -
  have "distinct (all_shard_ids count)"
    by (auto simp: all_shard_ids_def distinct_map inj_on_def shard_ids_distinct)
  then show ?thesis using assms home_shard_listed by (simp add: input_partition_for_aic_def)
qed

theorem sharding_in_range_witness:
  "input_partition_for_aic ''1.2.156.3088.1.AB.12.34.9A.0001'' 4 < 4"
  using sharding_in_range [of 4] by simp

end
