(* ===== verification/HbRedis.thy ===== *)
theory HbRedis
  imports HbSharding
begin

text \<open>
  The state the monitor keeps of an agent's heartbeat: \<open>monitor-server/app/heartbeat/lua/hb_functions.lua\<close> (the
  functions that Redis runs atomically) and \<open>functions.py\<close> (their callers). One shard has a hash per agent, a sorted
  set of last-seen times, a counter, and an outbox stream with the consumer group of the relay.

  What Redis itself contributes is explicit: its clock and how many of the entries past the approximate
  limit \<open>MAXLEN ~\<close> it drops.
\<close>

subsection \<open>State\<close>

datatype membership = MAlive | MLeft

text \<open>Only \<open>hb_apply_heartbeat\<close> creates a hash, with the three fields that are not optional.\<close>

record latest_hash =
  lh_seen_ms :: int
  lh_seen :: string
  lh_membership :: membership
  lh_source_ms :: "int option"
  lh_delta_seen_ms :: "int option"
  lh_delta_seq :: "int option"

record outbox_fields =
  of_seq :: int
  of_kind :: delta_kind
  of_op :: delta_op
  of_aic :: string
  of_seen_ms :: "int option"
  of_source_ms :: "int option"
  of_reason :: "string option"

type_synonym stream_id = "int \<times> int"

text \<open>
  A consumer group: the last entry delivered, the entries delivered and not acknowledged with the consumer that
  has them, and the consumers with the time each last read.
\<close>

record relay_group =
  rg_last :: stream_id
  rg_pel :: "(stream_id \<times> string) list"
  rg_consumers :: "(string \<times> int) list"

record hb_shard =
  hs_latest :: "string \<Rightarrow> latest_hash option"
  hs_zset :: "(string \<times> int) list"
  hs_seq :: int
  hs_outbox :: "(stream_id \<times> outbox_fields) list"
  hs_last_id :: stream_id
  hs_group :: "relay_group option"
  hs_published :: "int option"
  hs_epoch :: "int option"

definition empty_shard :: hb_shard where
  "empty_shard = \<lparr>hs_latest = (\<lambda>_. None), hs_zset = [], hs_seq = 0, hs_outbox = [], hs_last_id = (0, 0),
     hs_group = None, hs_published = None, hs_epoch = None\<rparr>"

type_synonym hb_redis = "string \<Rightarrow> hb_shard"

record hb_settings =
  set_shard_count :: int
  set_silence_s :: int
  set_evict_s :: int
  set_refresh_s :: int
  set_outbox_max_len :: nat

text \<open>What Redis does at a call: its time, and how many entries it drops above the limit at most.\<close>

record redis_moment =
  rm_now :: int
  rm_drop :: nat

subsection \<open>Redis commands\<close>

text \<open>A sorted set is kept in the order of score and member.\<close>

definition z_before :: "string \<times> int \<Rightarrow> string \<times> int \<Rightarrow> bool" where
  "z_before x y = (snd x < snd y \<or> snd x = snd y \<and> str_less (fst x) (fst y))"

fun z_insert :: "string \<times> int \<Rightarrow> (string \<times> int) list \<Rightarrow> (string \<times> int) list" where
  "z_insert x [] = [x]"
| "z_insert x (y # ys) = (if z_before x y then x # y # ys else y # z_insert x ys)"

definition zrem :: "string \<Rightarrow> (string \<times> int) list \<Rightarrow> (string \<times> int) list" where
  "zrem member z = filter (\<lambda>(m, _). m \<noteq> member) z"

definition zadd :: "string \<Rightarrow> int \<Rightarrow> (string \<times> int) list \<Rightarrow> (string \<times> int) list" where
  "zadd member score z = z_insert (member, score) (zrem member z)"

text \<open>\<open>XADD *\<close>: ids increase even when the clock does not.\<close>

definition next_stream_id :: "int \<Rightarrow> stream_id \<Rightarrow> stream_id" where
  "next_stream_id now lid = (if now > fst lid then (now, 0) else (fst lid, snd lid + 1))"

definition xadd_outbox :: "redis_moment \<Rightarrow> nat \<Rightarrow> outbox_fields \<Rightarrow> hb_shard \<Rightarrow> hb_shard" where
  "xadd_outbox mo max_len fs sh =
     (let entry_id = next_stream_id (rm_now mo) (hs_last_id sh);
          entries = hs_outbox sh @ [(entry_id, fs)]
      in sh\<lparr>hs_last_id := entry_id,
          hs_outbox := (if max_len > 0 then drop (min (rm_drop mo) (length entries - max_len)) entries else entries)\<rparr>)"

subsection \<open>The functions\<close>

datatype apply_status = IgnoredOlder | Applied | AppliedWithDelta

definition delta_kind_of :: "latest_hash option \<Rightarrow> int \<Rightarrow> int \<Rightarrow> delta_kind option" where
  "delta_kind_of prev observed_at_ms refresh_emit_interval_ms =
     (case prev of
        None \<Rightarrow> Some EnterAlive
      | Some h \<Rightarrow>
          (case lh_membership h of
             MLeft \<Rightarrow> Some EnterAlive
           | MAlive \<Rightarrow>
               (case lh_delta_seen_ms h of
                  None \<Rightarrow> Some RefreshAlive
                | Some d \<Rightarrow> if observed_at_ms - d \<ge> refresh_emit_interval_ms then Some RefreshAlive else None)))"

definition hb_apply_heartbeat ::
  "redis_moment \<Rightarrow> int \<Rightarrow> nat \<Rightarrow> string \<Rightarrow> int \<Rightarrow> string \<Rightarrow> int option \<Rightarrow> hb_shard
     \<Rightarrow> (apply_status \<times> delta_kind option \<times> int) \<times> hb_shard" where
  "hb_apply_heartbeat mo refresh_emit_interval_ms outbox_max_len aic observed_at_ms observed_at_iso source_ts_ms sh =
     (let prev = hs_latest sh aic in
      if (case prev of None \<Rightarrow> False | Some h \<Rightarrow> observed_at_ms \<le> lh_seen_ms h) then ((IgnoredOlder, None, 0), sh)
      else
        let h1 = (case prev of
              None \<Rightarrow> \<lparr>lh_seen_ms = observed_at_ms, lh_seen = observed_at_iso, lh_membership = MAlive,
                lh_source_ms = source_ts_ms, lh_delta_seen_ms = None, lh_delta_seq = None\<rparr>
            | Some h \<Rightarrow> h\<lparr>lh_seen_ms := observed_at_ms, lh_seen := observed_at_iso, lh_membership := MAlive,
                lh_source_ms := (if source_ts_ms \<noteq> None then source_ts_ms else lh_source_ms h)\<rparr>);
            sh1 = sh\<lparr>hs_latest := (hs_latest sh)(aic \<mapsto> h1), hs_zset := zadd aic observed_at_ms (hs_zset sh)\<rparr>
        in case delta_kind_of prev observed_at_ms refresh_emit_interval_ms of
             None \<Rightarrow> ((Applied, None, 0), sh1)
           | Some kind \<Rightarrow>
               let s = hs_seq sh1 + 1;
                   h2 = h1\<lparr>lh_delta_seen_ms := Some observed_at_ms, lh_delta_seq := Some s\<rparr>;
                   sh2 = sh1\<lparr>hs_seq := s, hs_latest := (hs_latest sh1)(aic \<mapsto> h2)\<rparr>;
                   fs = \<lparr>of_seq = s, of_kind = kind, of_op = Upsert, of_aic = aic,
                     of_seen_ms = Some observed_at_ms, of_source_ms = source_ts_ms, of_reason = None\<rparr>
               in ((AppliedWithDelta, Some kind, s), xadd_outbox mo outbox_max_len fs sh2))"

datatype silent_status = SkippedMissing | SkippedMembership | SkippedRefreshed | LeftAlive

definition leave_fields :: "int \<Rightarrow> string \<Rightarrow> string \<Rightarrow> outbox_fields" where
  "leave_fields s aic reason = \<lparr>of_seq = s, of_kind = LeaveAlive, of_op = Delete, of_aic = aic,
     of_seen_ms = None, of_source_ms = None, of_reason = Some reason\<rparr>"

definition hb_mark_silent_one ::
  "redis_moment \<Rightarrow> int \<Rightarrow> nat \<Rightarrow> string \<Rightarrow> hb_shard \<Rightarrow> (silent_status \<times> int) \<times> hb_shard" where
  "hb_mark_silent_one mo silence_threshold_ms outbox_max_len aic sh =
     (case hs_latest sh aic of
        None \<Rightarrow> ((SkippedMissing, 0), sh\<lparr>hs_zset := zrem aic (hs_zset sh)\<rparr>)
      | Some h \<Rightarrow>
          if lh_membership h = MLeft then ((SkippedMembership, 0), sh)
          else if rm_now mo - lh_seen_ms h \<le> silence_threshold_ms then ((SkippedRefreshed, 0), sh)
          else
            let s = hs_seq sh + 1;
                sh1 = sh\<lparr>hs_seq := s,
                  hs_latest := (hs_latest sh)(aic \<mapsto> h\<lparr>lh_membership := MLeft, lh_delta_seq := Some s\<rparr>),
                  hs_zset := zrem aic (hs_zset sh)\<rparr>
            in ((LeftAlive, s), xadd_outbox mo outbox_max_len (leave_fields s aic ''silent'') sh1))"

datatype evict_status = EvictSkippedMissing | EvictSkippedRefreshed | Evicted | EvictedWithRepair

definition hb_evict_one ::
  "redis_moment \<Rightarrow> int \<Rightarrow> nat \<Rightarrow> string \<Rightarrow> hb_shard \<Rightarrow> (evict_status \<times> int) \<times> hb_shard" where
  "hb_evict_one mo evict_after_ms outbox_max_len aic sh =
     (case hs_latest sh aic of
        None \<Rightarrow> ((EvictSkippedMissing, 0), sh)
      | Some h \<Rightarrow>
          if rm_now mo - lh_seen_ms h \<le> evict_after_ms then ((EvictSkippedRefreshed, 0), sh)
          else
            let del = (\<lambda>sh. sh\<lparr>hs_latest := (hs_latest sh)(aic := None), hs_zset := zrem aic (hs_zset sh)\<rparr>) in
            if lh_membership h = MLeft then ((Evicted, 0), del sh)
            else
              let s = hs_seq sh + 1;
                  sh1 = xadd_outbox mo outbox_max_len (leave_fields s aic ''evict_repair'') (sh\<lparr>hs_seq := s\<rparr>)
              in ((EvictedWithRepair, s), del sh1))"

text \<open>The three functions of the relay do nothing when the epoch is not the current one.\<close>

definition hb_relay_commit :: "int \<Rightarrow> int \<Rightarrow> hb_shard \<Rightarrow> int \<times> hb_shard" where
  "hb_relay_commit epoch s sh = (if hs_epoch sh \<noteq> Some epoch then (0, sh) else (1, sh\<lparr>hs_published := Some s\<rparr>))"

definition hb_relay_ack :: "int \<Rightarrow> stream_id \<Rightarrow> hb_shard \<Rightarrow> int \<times> hb_shard" where
  "hb_relay_ack epoch entry_id sh =
     (if hs_epoch sh \<noteq> Some epoch then (0, sh)
      else (1, sh\<lparr>hs_group := map_option (\<lambda>g. g\<lparr>rg_pel := filter (\<lambda>(i, _). i \<noteq> entry_id) (rg_pel g)\<rparr>) (hs_group sh)\<rparr>))"

definition id_before :: "stream_id \<Rightarrow> stream_id \<Rightarrow> bool" where
  "id_before x y = (fst x < fst y \<or> fst x = fst y \<and> snd x < snd y)"

definition hb_relay_trim :: "int \<Rightarrow> stream_id \<Rightarrow> hb_shard \<Rightarrow> int \<times> hb_shard" where
  "hb_relay_trim epoch min_entry_id sh =
     (if hs_epoch sh \<noteq> Some epoch then (0, sh)
      else (1, sh\<lparr>hs_outbox := filter (\<lambda>(i, _). \<not> id_before i min_entry_id) (hs_outbox sh)\<rparr>))"

subsection \<open>The callers\<close>

record apply_result =
  ap_status :: apply_status
  ap_kind :: "delta_kind option"
  ap_seq :: "int option"

definition positive_seq :: "int \<Rightarrow> int option" where
  "positive_seq s = (if s > 0 then Some s else None)"

definition on_shard :: "string \<Rightarrow> (hb_shard \<Rightarrow> 'a \<times> hb_shard) \<Rightarrow> hb_redis \<Rightarrow> 'a \<times> hb_redis" where
  "on_shard shard f redis = (let (a, sh) = f (redis shard) in (a, redis(shard := sh)))"

definition apply_heartbeat ::
  "(8 word list \<Rightarrow> 8 word list) \<Rightarrow> (int \<Rightarrow> string) \<Rightarrow> hb_settings \<Rightarrow> redis_moment \<Rightarrow> string \<Rightarrow> int \<Rightarrow> int option
     \<Rightarrow> hb_redis \<Rightarrow> apply_result \<times> hb_redis" where
  "apply_heartbeat sha256 isoformat settings mo aic observed_at_ms source_timestamp_ms redis =
     (let shard = shard_id_for_aic sha256 (set_shard_count settings) aic;
          observed_at_iso = isoformat observed_at_ms;
          ((status, kind, s), redis') = on_shard shard
            (hb_apply_heartbeat mo (set_refresh_s settings * 1000) (set_outbox_max_len settings) aic observed_at_ms
               observed_at_iso source_timestamp_ms) redis
      in (\<lparr>ap_status = status, ap_kind = kind, ap_seq = positive_seq s\<rparr>, redis'))"

definition mark_silent_one ::
  "hb_settings \<Rightarrow> redis_moment \<Rightarrow> string \<Rightarrow> string \<Rightarrow> hb_redis \<Rightarrow> (silent_status \<times> int option) \<times> hb_redis" where
  "mark_silent_one settings mo shard aic redis =
     (let ((status, s), redis') = on_shard shard
        (hb_mark_silent_one mo (set_silence_s settings * 1000) (set_outbox_max_len settings) aic) redis
      in ((status, positive_seq s), redis'))"

definition evict_one ::
  "hb_settings \<Rightarrow> redis_moment \<Rightarrow> string \<Rightarrow> string \<Rightarrow> hb_redis \<Rightarrow> (evict_status \<times> int option) \<times> hb_redis" where
  "evict_one settings mo shard aic redis =
     (let ((status, s), redis') = on_shard shard
        (hb_evict_one mo (set_evict_s settings * 1000) (set_outbox_max_len settings) aic) redis
      in ((status, positive_seq s), redis'))"

definition relay_commit_published_seq :: "string \<Rightarrow> int \<Rightarrow> int \<Rightarrow> hb_redis \<Rightarrow> bool \<times> hb_redis" where
  "relay_commit_published_seq shard epoch s redis =
     (let (n, redis') = on_shard shard (hb_relay_commit epoch s) redis in (n = 1, redis'))"

definition relay_ack :: "string \<Rightarrow> int \<Rightarrow> stream_id \<Rightarrow> hb_redis \<Rightarrow> bool \<times> hb_redis" where
  "relay_ack shard epoch entry_id redis =
     (let (n, redis') = on_shard shard (hb_relay_ack epoch entry_id) redis in (n = 1, redis'))"

definition relay_trim :: "string \<Rightarrow> int \<Rightarrow> stream_id \<Rightarrow> hb_redis \<Rightarrow> bool \<times> hb_redis" where
  "relay_trim shard epoch min_entry_id redis =
     (let (n, redis') = on_shard shard (hb_relay_trim epoch min_entry_id) redis in (n = 1, redis'))"

end
