(* ===== verification/AliveEngine.thy ===== *)
theory AliveEngine
  imports HeartbeatCodec
begin

text \<open>
  \<open>acps-sdk/acps_sdk/amp/alive_sync\<close>: \<open>store.py\<close> (records and the store protocol), \<open>models.py\<close>,
  \<open>errors.py\<close> and \<open>engine.py\<close>, the consumer that keeps a set of alive agents in step with its provider.
  The store is behind the protocol \<open>alive_store_ops\<close>: a method returns a result and the store afterwards.
\<close>

subsection \<open>Records\<close>

record alive_record =
  ar_aic :: string
  ar_alive :: bool
  ar_last_seen :: "string option"
  ar_version :: int
  ar_shard :: string

record shard_checkpoint =
  cp_shard :: string
  cp_last_seen_seq :: int
  cp_cutover_seq :: int
  cp_next_offset :: "int option"
  cp_generated_at :: "string option"

record alive_view =
  av_aic :: string
  av_alive :: bool
  av_last_seen :: "string option"

definition to_output_dict :: "alive_view \<Rightarrow> (string \<times> pyval) list" where
  "to_output_dict v =
     [(''alive'', PBool (av_alive v)),
      (''aliveLastSeenAt'', case av_last_seen v of None \<Rightarrow> PNone | Some s \<Rightarrow> PStr s)]"

datatype sync_exn =
    SnapshotProtocolError string
  | GapDetected string int int
  | ResyncRequired string
  | SyncValueError
  | StoreFailed
  | TransportError string int
  | OtherSyncError string

definition codec :: "(codec_error, 'a) result \<Rightarrow> (sync_exn, 'a) result" where
  "codec r = (case r of Inl _ \<Rightarrow> Inl SyncValueError | Inr a \<Rightarrow> Inr a)"

text \<open>
  A stream of rows is the rows it yields and the exception it ends with, if any: the consumer sees the
  exception after it has taken the rows before it.
\<close>

type_synonym 'a stream_of = "'a list \<times> sync_exn option"

record 's alive_store_ops =
  load_alive_views :: "string list \<Rightarrow> 's \<Rightarrow> (sync_exn, (string \<times> alive_view) list) result \<times> 's"
  replace_alive_set :: "alive_record stream_of \<Rightarrow> shard_checkpoint list \<Rightarrow> 's \<Rightarrow> (sync_exn, unit) result \<times> 's"
  store_upsert :: "alive_record \<Rightarrow> string \<Rightarrow> int \<Rightarrow> int option \<Rightarrow> 's \<Rightarrow> (sync_exn, unit) result \<times> 's"
  store_delete :: "string \<Rightarrow> string \<Rightarrow> int \<Rightarrow> int option \<Rightarrow> int \<Rightarrow> 's \<Rightarrow> (sync_exn, unit) result \<times> 's"
  load_checkpoints :: "'s \<Rightarrow> (sync_exn, shard_checkpoint list) result \<times> 's"
  load_local_versions :: "'s \<Rightarrow> (sync_exn, (string \<times> int) list) result \<times> 's"
  store_reset :: "'s \<Rightarrow> (sync_exn, unit) result \<times> 's"

subsection \<open>Decisions\<close>

definition passes_seq_gate :: "int \<Rightarrow> int \<Rightarrow> bool" where
  "passes_seq_gate s last_seen_seq = (s > last_seen_seq)"

definition is_gap :: "int \<Rightarrow> int \<Rightarrow> bool" where
  "is_gap s last_seen_seq = (s > last_seen_seq + 1)"

definition passes_version :: "int \<Rightarrow> int option \<Rightarrow> bool" where
  "passes_version v local_version = (case local_version of None \<Rightarrow> True | Some l \<Rightarrow> v > l)"

datatype delta_decision = APPLY_UPSERT | APPLY_DELETE | SKIP_SEQ_GATE | SKIP_VERSION | GAP

definition classify_delta :: "alive_delta \<Rightarrow> int \<Rightarrow> int option \<Rightarrow> (sync_exn, delta_decision) result" where
  "classify_delta env last_seen_seq local_version =
     bind_result (codec (seq_from_str (dv_seq env))) (\<lambda>s.
     bind_result (codec (seq_from_str (dv_version env))) (\<lambda>v.
       Inr (if \<not> passes_seq_gate s last_seen_seq then SKIP_SEQ_GATE
            else if is_gap s last_seen_seq then GAP
            else if \<not> passes_version v local_version then SKIP_VERSION
            else if dv_op env = Upsert then APPLY_UPSERT else APPLY_DELETE)))"

subsection \<open>The engine\<close>

record engine =
  en_seen :: "string \<Rightarrow> int option"
  en_version :: "string \<Rightarrow> int option"
  en_cutover :: "(string \<times> int) list"

definition new_engine :: engine where
  "new_engine = \<lparr>en_seen = (\<lambda>_. None), en_version = (\<lambda>_. None), en_cutover = []\<rparr>"

definition seen_or_zero :: "engine \<Rightarrow> string \<Rightarrow> int" where
  "seen_or_zero e shard = (case en_seen e shard of None \<Rightarrow> 0 | Some s \<Rightarrow> s)"

text \<open>The checkpoints are in memory before the versions are read, also when that read fails.\<close>

definition hydrate :: "'s alive_store_ops \<Rightarrow> engine \<Rightarrow> 's \<Rightarrow> (sync_exn, unit) result \<times> engine \<times> 's" where
  "hydrate ops e st =
     (case load_checkpoints ops st of
        (Inl x, st1) \<Rightarrow> (Inl x, e, st1)
      | (Inr checkpoints, st1) \<Rightarrow>
          if checkpoints = [] then (Inl (ResyncRequired ''no_checkpoints''), e, st1)
          else
            let e1 = e\<lparr>en_seen := map_of (rev (map (\<lambda>cp. (cp_shard cp, cp_last_seen_seq cp)) checkpoints)),
                  en_cutover := map (\<lambda>cp. (cp_shard cp, cp_cutover_seq cp)) checkpoints\<rparr> in
            (case load_local_versions ops st1 of
               (Inl x, st2) \<Rightarrow> (Inl x, e1, st2)
             | (Inr versions, st2) \<Rightarrow> (Inr (), e1\<lparr>en_version := map_of (rev versions)\<rparr>, st2)))"

definition last_seen_of :: "alive_delta \<Rightarrow> string option" where
  "last_seen_of env = map_option en_last_seen_at (dv_payload env)"

definition row_to_record :: "alive_delta \<Rightarrow> (sync_exn, alive_record) result" where
  "row_to_record env =
     bind_result (codec (aic_from_object_id (dv_id env))) (\<lambda>aic.
     bind_result (codec (seq_from_str (dv_version env))) (\<lambda>v.
       Inr \<lparr>ar_aic = aic, ar_alive = True, ar_last_seen = last_seen_of env, ar_version = v,
            ar_shard = dv_shard env\<rparr>))"

text \<open>The generator that turns rows into records and notes their versions on the way.\<close>

fun record_gen :: "alive_delta list \<Rightarrow> sync_exn option \<Rightarrow> alive_record stream_of" where
  "record_gen [] stop = ([], stop)"
| "record_gen (env # envs) stop =
     (case row_to_record env of
        Inl x \<Rightarrow> ([], Some x)
      | Inr r \<Rightarrow> (let (rs, x) = record_gen envs stop in (r # rs, x)))"

fun decode_seqs :: "(string \<times> string) list \<Rightarrow> (sync_exn, (string \<times> int) list) result" where
  "decode_seqs [] = Inr []"
| "decode_seqs ((shard, s) # rest) =
     bind_result (codec (seq_from_str s)) (\<lambda>n. bind_result (decode_seqs rest) (\<lambda>ns. Inr ((shard, n) # ns)))"

definition apply_snapshot ::
  "'s alive_store_ops \<Rightarrow> snapshot_meta \<Rightarrow> alive_delta stream_of \<Rightarrow> engine \<Rightarrow> 's
     \<Rightarrow> (sync_exn, engine) result \<times> 's" where
  "apply_snapshot ops meta rows e st =
     (case decode_seqs (sm_cutover meta) of
        Inl x \<Rightarrow> (Inl x, st)
      | Inr cutover_by_shard \<Rightarrow>
          let records = record_gen (fst rows) (snd rows);
              checkpoints = map (\<lambda>(shard, cutover). \<lparr>cp_shard = shard, cp_last_seen_seq = cutover,
                cp_cutover_seq = cutover, cp_next_offset = None, cp_generated_at = Some (sm_generated_at meta)\<rparr>)
                cutover_by_shard
          in case replace_alive_set ops records checkpoints st of
               (Inl x, st') \<Rightarrow> (Inl x, st')
             | (Inr _, st') \<Rightarrow>
                 (Inr \<lparr>en_seen = map_of (rev cutover_by_shard),
                    en_version = map_of (rev (map (\<lambda>r. (ar_aic r, ar_version r)) (fst records))),
                    en_cutover = cutover_by_shard\<rparr>, st'))"

definition apply_delta ::
  "'s alive_store_ops \<Rightarrow> alive_delta \<Rightarrow> int option \<Rightarrow> engine \<Rightarrow> 's
     \<Rightarrow> (sync_exn, delta_decision) result \<times> engine \<times> 's" where
  "apply_delta ops env kafka_next_offset e st =
     (let shard = dv_shard env; last_seen = seen_or_zero e shard in
      case codec (aic_from_object_id (dv_id env)) of
        Inl x \<Rightarrow> (Inl x, e, st)
      | Inr aic \<Rightarrow>
          (case classify_delta env last_seen (en_version e aic) of
             Inl x \<Rightarrow> (Inl x, e, st)
           | Inr dec \<Rightarrow>
               (case (seq_from_str (dv_seq env), seq_from_str (dv_version env)) of
                  (Inr s, Inr v) \<Rightarrow>
                    if dec = GAP then (Inl (GapDetected shard (last_seen + 1) s), e, st)
                    else if dec = APPLY_UPSERT then
                      (case store_upsert ops
                              \<lparr>ar_aic = aic, ar_alive = True, ar_last_seen = last_seen_of env,
                               ar_version = v, ar_shard = shard\<rparr> shard s kafka_next_offset st of
                         (Inl x, st') \<Rightarrow> (Inl x, e, st')
                       | (Inr _, st') \<Rightarrow>
                           (Inr dec, e\<lparr>en_seen := (en_seen e)(shard \<mapsto> s),
                              en_version := (en_version e)(aic \<mapsto> v)\<rparr>, st'))
                    else if dec = APPLY_DELETE then
                      (case store_delete ops aic shard s kafka_next_offset v st of
                         (Inl x, st') \<Rightarrow> (Inl x, e, st')
                       | (Inr _, st') \<Rightarrow>
                           (Inr dec, e\<lparr>en_seen := (en_seen e)(shard \<mapsto> s),
                              en_version := (en_version e)(aic \<mapsto> v)\<rparr>, st'))
                    else
                      (Inr dec, e\<lparr>en_seen := (en_seen e)(shard \<mapsto> max (seen_or_zero e shard) s)\<rparr>, st)
                | _ \<Rightarrow> (Inl SyncValueError, e, st))))"

definition cutover_seq_by_shard :: "engine \<Rightarrow> (string \<times> int) list" where
  "cutover_seq_by_shard e = en_cutover e"

subsection \<open>What a delta does\<close>

lemma codec_simps [simp]: "codec (Inr a) = Inr a" "codec (Inl x) = Inl SyncValueError"
  by (simp_all add: codec_def)

text \<open>A well-formed event: its codes decode to an AIC and the sequence number that is its version too.\<close>

definition event_of :: "alive_delta \<Rightarrow> string \<Rightarrow> string \<Rightarrow> int \<Rightarrow> bool" where
  "event_of env shard aic s \<longleftrightarrow>
     dv_shard env = shard \<and> aic_from_object_id (dv_id env) = Inr aic \<and> seq_from_str (dv_seq env) = Inr s
     \<and> seq_from_str (dv_version env) = Inr s"

definition record_of :: "alive_delta \<Rightarrow> string \<Rightarrow> int \<Rightarrow> alive_record" where
  "record_of env aic s =
     \<lparr>ar_aic = aic, ar_alive = True, ar_last_seen = last_seen_of env, ar_version = s, ar_shard = dv_shard env\<rparr>"

lemma apply_delta_skip:
  assumes "event_of env shard aic s" and "s \<le> seen_or_zero e shard"
  shows "apply_delta ops env off e st
    = (Inr SKIP_SEQ_GATE, e\<lparr>en_seen := (en_seen e)(shard \<mapsto> seen_or_zero e shard)\<rparr>, st)"
  using assms by (simp add: apply_delta_def event_of_def classify_delta_def passes_seq_gate_def Let_def max_def)

lemma apply_delta_gap:
  assumes "event_of env shard aic s" and "s > seen_or_zero e shard + 1"
  shows "apply_delta ops env off e st = (Inl (GapDetected shard (seen_or_zero e shard + 1) s), e, st)"
  using assms by (simp add: apply_delta_def event_of_def classify_delta_def passes_seq_gate_def is_gap_def Let_def)

lemma apply_delta_old_version:
  assumes "event_of env shard aic s" and "s = seen_or_zero e shard + 1" and "en_version e aic = Some v" and "s \<le> v"
  shows "apply_delta ops env off e st = (Inr SKIP_VERSION, e\<lparr>en_seen := (en_seen e)(shard \<mapsto> s)\<rparr>, st)"
  using assms by (simp add: apply_delta_def event_of_def classify_delta_def passes_seq_gate_def is_gap_def
      passes_version_def Let_def max_def)

lemma apply_delta_new:
  assumes "event_of env shard aic s" and "s = seen_or_zero e shard + 1"
    and "\<And>v. en_version e aic = Some v \<Longrightarrow> v < s"
  shows "apply_delta ops env off e st =
    (let (r, st') = (if dv_op env = Upsert then store_upsert ops (record_of env aic s) shard s off st
                     else store_delete ops aic shard s off s st)
     in case r of
          Inl x \<Rightarrow> (Inl x, e, st')
        | Inr _ \<Rightarrow> (Inr (if dv_op env = Upsert then APPLY_UPSERT else APPLY_DELETE),
            e\<lparr>en_seen := (en_seen e)(shard \<mapsto> s), en_version := (en_version e)(aic \<mapsto> s)\<rparr>, st'))"
proof -
  have "passes_version s (en_version e aic)" using assms(3) by (simp add: passes_version_def split: option.splits)
  with assms(1,2) show ?thesis
    by (auto simp: apply_delta_def event_of_def classify_delta_def passes_seq_gate_def is_gap_def Let_def
        record_of_def split: prod.splits sum.splits)
qed

end
