(* ===== verification/AliveStore.thy ===== *)
theory AliveStore
  imports AliveEngine
begin

text \<open>
  The contract of the store protocol (the locale \<open>alive_store\<close>) and its provider
  \<open>discovery-server/app/heartbeat_sync/store.py\<close> with the two tables of \<open>model.py\<close>.

  A method of the Postgres store is one transaction: it commits as a whole or the connection fails and
  nothing is changed. Which transactions fail is a schedule of the environment. A table with a unique
  key is an association list; its rows keep their order of insertion.
\<close>

subsection \<open>The contract\<close>

definition advance :: "string \<Rightarrow> int \<Rightarrow> int option \<Rightarrow> (string \<Rightarrow> shard_checkpoint option) \<Rightarrow> string \<Rightarrow> shard_checkpoint option" where
  "advance shard s off cps =
     cps(shard \<mapsto> (case cps shard of
        None \<Rightarrow> \<lparr>cp_shard = shard, cp_last_seen_seq = s, cp_cutover_seq = 0, cp_next_offset = off, cp_generated_at = None\<rparr>
      | Some cp \<Rightarrow> cp\<lparr>cp_last_seen_seq := s, cp_next_offset := (if off = None then cp_next_offset cp else off)\<rparr>))"

locale alive_store =
  fixes ops :: "'s alive_store_ops"
    and ok :: "'s \<Rightarrow> bool"
    and rows :: "'s \<Rightarrow> string \<Rightarrow> alive_record option"
    and cps :: "'s \<Rightarrow> string \<Rightarrow> shard_checkpoint option"
  assumes upsert_done: "ok st \<Longrightarrow> store_upsert ops r shard s off st = (Inr u, st') \<Longrightarrow>
      ok st' \<and> rows st' = (rows st)(ar_aic r \<mapsto> r) \<and> cps st' = advance shard s off (cps st)"
    and upsert_failed: "ok st \<Longrightarrow> store_upsert ops r shard s off st = (Inl x, st') \<Longrightarrow>
      ok st' \<and> rows st' = rows st \<and> cps st' = cps st"
    and delete_done: "ok st \<Longrightarrow> store_delete ops a shard s off v st = (Inr u, st') \<Longrightarrow>
      ok st' \<and> rows st' = (rows st)(a := map_option (\<lambda>r. r\<lparr>ar_alive := False, ar_version := v\<rparr>) (rows st a))
      \<and> cps st' = advance shard s off (cps st)"
    and delete_failed: "ok st \<Longrightarrow> store_delete ops a shard s off v st = (Inl x, st') \<Longrightarrow>
      ok st' \<and> rows st' = rows st \<and> cps st' = cps st"
    and replace_done: "ok st \<Longrightarrow> replace_alive_set ops recs cs st = (Inr u, st') \<Longrightarrow>
      ok st' \<and> snd recs = None \<and> distinct (map ar_aic (fst recs)) \<and> distinct (map cp_shard cs)
      \<and> rows st' = map_of (map (\<lambda>r. (ar_aic r, r)) (fst recs)) \<and> cps st' = map_of (map (\<lambda>c. (cp_shard c, c)) cs)"
    and replace_failed: "ok st \<Longrightarrow> replace_alive_set ops recs cs st = (Inl x, st') \<Longrightarrow>
      ok st' \<and> rows st' = rows st \<and> cps st' = cps st"
    and checkpoints_reply: "ok st \<Longrightarrow> load_checkpoints ops st = (Inr cs, st') \<Longrightarrow>
      distinct (map cp_shard cs) \<and> cps st = map_of (map (\<lambda>c. (cp_shard c, c)) cs)"
    and checkpoints_keep: "ok st \<Longrightarrow> load_checkpoints ops st = (yc, st') \<Longrightarrow>
      ok st' \<and> rows st' = rows st \<and> cps st' = cps st"
    and versions_reply: "ok st \<Longrightarrow> load_local_versions ops st = (Inr vs, st') \<Longrightarrow>
      distinct (map fst vs) \<and> map_of vs = (\<lambda>a. map_option ar_version (rows st a))"
    and versions_keep: "ok st \<Longrightarrow> load_local_versions ops st = (yv, st') \<Longrightarrow>
      ok st' \<and> rows st' = rows st \<and> cps st' = cps st"
    and reset_done: "ok st \<Longrightarrow> store_reset ops st = (Inr u, st') \<Longrightarrow>
      ok st' \<and> rows st' = (\<lambda>_. None) \<and> cps st' = (\<lambda>_. None)"
    and reset_failed: "ok st \<Longrightarrow> store_reset ops st = (Inl x, st') \<Longrightarrow>
      ok st' \<and> rows st' = rows st \<and> cps st' = cps st"

subsection \<open>The Postgres store\<close>

record pg_store =
  agent_rows :: "(string \<times> alive_record) list"
  shard_rows :: "(string \<times> shard_checkpoint) list"
  pg_faults :: "bool list"

definition transaction ::
  "(pg_store \<Rightarrow> (sync_exn, 'a) result \<times> pg_store) \<Rightarrow> pg_store \<Rightarrow> (sync_exn, 'a) result \<times> pg_store" where
  "transaction f st =
     (let (fails, st1) = (case pg_faults st of [] \<Rightarrow> (False, st) | b # bs \<Rightarrow> (b, st\<lparr>pg_faults := bs\<rparr>)) in
      if fails then (Inl StoreFailed, st1)
      else (case f st1 of (Inl x, _) \<Rightarrow> (Inl x, st1) | (Inr a, st2) \<Rightarrow> (Inr a, st2)))"

definition pg_load_alive_views ::
  "string list \<Rightarrow> pg_store \<Rightarrow> (sync_exn, (string \<times> alive_view) list) result \<times> pg_store" where
  "pg_load_alive_views aics st =
     (if aics = [] then (Inr [], st)
      else transaction (\<lambda>st.
        (Inr (map (\<lambda>(aic, row). (aic, \<lparr>av_aic = aic, av_alive = ar_alive row, av_last_seen = ar_last_seen row\<rparr>))
          (filter (\<lambda>(aic, row). aic \<in> set aics) (agent_rows st))), st)) st)"

definition pg_load_checkpoints :: "pg_store \<Rightarrow> (sync_exn, shard_checkpoint list) result \<times> pg_store" where
  "pg_load_checkpoints = transaction (\<lambda>st. (Inr (map snd (shard_rows st)), st))"

definition pg_load_local_versions :: "pg_store \<Rightarrow> (sync_exn, (string \<times> int) list) result \<times> pg_store" where
  "pg_load_local_versions =
     transaction (\<lambda>st. (Inr (map (\<lambda>(aic, row). (aic, ar_version row)) (agent_rows st)), st))"

definition SNAPSHOT_BATCH_ROWS :: nat where
  "SNAPSHOT_BATCH_ROWS = 500"

text \<open>The rows of the stream go to the session in batches; the unique key is checked when they are written.\<close>

fun write_batches :: "nat \<Rightarrow> alive_record list \<Rightarrow> alive_record list \<Rightarrow> alive_record list \<Rightarrow> alive_record list" where
  "write_batches rows_max batch added [] = (if batch \<noteq> [] then added @ batch else added)"
| "write_batches rows_max batch added (r # rs) =
     (let batch' = batch @ [r] in
      if length batch' \<ge> rows_max then write_batches rows_max [] (added @ batch') rs
      else write_batches rows_max batch' added rs)"

definition pg_replace_alive_set ::
  "alive_record stream_of \<Rightarrow> shard_checkpoint list \<Rightarrow> pg_store \<Rightarrow> (sync_exn, unit) result \<times> pg_store" where
  "pg_replace_alive_set records checkpoints =
     transaction (\<lambda>st.
       let added = write_batches SNAPSHOT_BATCH_ROWS [] [] (fst records) in
       case snd records of
         Some x \<Rightarrow> (Inl x, st)
       | None \<Rightarrow>
           if \<not> distinct (map ar_aic added) \<or> \<not> distinct (map cp_shard checkpoints) then (Inl StoreFailed, st)
           else (Inr (), st\<lparr>agent_rows := map (\<lambda>r. (ar_aic r, r)) added,
                  shard_rows := map (\<lambda>c. (cp_shard c, c)) checkpoints\<rparr>))"

definition upsert_checkpoint :: "string \<Rightarrow> int \<Rightarrow> int option \<Rightarrow> pg_store \<Rightarrow> pg_store" where
  "upsert_checkpoint shard last_seen_seq kafka_next_offset st =
     (case map_of (shard_rows st) shard of
        None \<Rightarrow> st\<lparr>shard_rows := shard_rows st @ [(shard,
          \<lparr>cp_shard = shard, cp_last_seen_seq = last_seen_seq, cp_cutover_seq = 0,
           cp_next_offset = kafka_next_offset, cp_generated_at = None\<rparr>)]\<rparr>
      | Some row \<Rightarrow>
          let row1 = row\<lparr>cp_last_seen_seq := last_seen_seq\<rparr>;
              row2 = (if kafka_next_offset \<noteq> None then row1\<lparr>cp_next_offset := kafka_next_offset\<rparr> else row1)
          in st\<lparr>shard_rows := AList.update shard row2 (shard_rows st)\<rparr>)"

definition pg_apply_upsert ::
  "alive_record \<Rightarrow> string \<Rightarrow> int \<Rightarrow> int option \<Rightarrow> pg_store \<Rightarrow> (sync_exn, unit) result \<times> pg_store" where
  "pg_apply_upsert record shard last_seen_seq kafka_next_offset =
     transaction (\<lambda>st.
       let st1 =
         (case map_of (agent_rows st) (ar_aic record) of
            None \<Rightarrow> st\<lparr>agent_rows := agent_rows st @ [(ar_aic record, record)]\<rparr>
          | Some existing \<Rightarrow>
              st\<lparr>agent_rows := AList.update (ar_aic record)
                (existing\<lparr>ar_alive := ar_alive record, ar_last_seen := ar_last_seen record,
                   ar_version := ar_version record, ar_shard := ar_shard record\<rparr>) (agent_rows st)\<rparr>)
       in (Inr (), upsert_checkpoint shard last_seen_seq kafka_next_offset st1))"

definition pg_apply_delete ::
  "string \<Rightarrow> string \<Rightarrow> int \<Rightarrow> int option \<Rightarrow> int \<Rightarrow> pg_store \<Rightarrow> (sync_exn, unit) result \<times> pg_store" where
  "pg_apply_delete aic shard last_seen_seq kafka_next_offset v =
     transaction (\<lambda>st.
       let st1 =
         (case map_of (agent_rows st) aic of
            None \<Rightarrow> st
          | Some row \<Rightarrow> st\<lparr>agent_rows := AList.update aic (row\<lparr>ar_alive := False, ar_version := v\<rparr>) (agent_rows st)\<rparr>)
       in (Inr (), upsert_checkpoint shard last_seen_seq kafka_next_offset st1))"

definition pg_reset :: "pg_store \<Rightarrow> (sync_exn, unit) result \<times> pg_store" where
  "pg_reset = transaction (\<lambda>st. (Inr (), st\<lparr>agent_rows := [], shard_rows := []\<rparr>))"

definition pg_ops :: "pg_store alive_store_ops" where
  "pg_ops = \<lparr>load_alive_views = pg_load_alive_views, replace_alive_set = pg_replace_alive_set,
     store_upsert = pg_apply_upsert, store_delete = pg_apply_delete, load_checkpoints = pg_load_checkpoints,
     load_local_versions = pg_load_local_versions, store_reset = pg_reset\<rparr>"

subsection \<open>The Postgres store keeps the contract\<close>

text \<open>
  The invariant of the tables: their keys are unique, and a row carries its own key.
\<close>

definition pg_ok :: "pg_store \<Rightarrow> bool" where
  "pg_ok st \<longleftrightarrow> distinct (map fst (agent_rows st)) \<and> distinct (map fst (shard_rows st))
     \<and> (\<forall>(a, r)\<in>set (agent_rows st). ar_aic r = a) \<and> (\<forall>(k, c)\<in>set (shard_rows st). cp_shard c = k)"

lemma write_batches_all: "write_batches rows_max batch added rs = added @ batch @ rs"
  by (induction rows_max batch added rs rule: write_batches.induct) (auto simp: Let_def)


lemma pg_ok_faults [simp]: "pg_ok (st\<lparr>pg_faults := fs\<rparr>) \<longleftrightarrow> pg_ok st"
  by (simp add: pg_ok_def)

lemma transactionE:
  assumes "transaction f st = (y, st')"
  obtains fs where "y = Inl StoreFailed" "st' = st\<lparr>pg_faults := fs\<rparr>"
  | x st2 fs where "f (st\<lparr>pg_faults := fs\<rparr>) = (Inl x, st2)" "y = Inl x" "st' = st\<lparr>pg_faults := fs\<rparr>"
  | a fs where "f (st\<lparr>pg_faults := fs\<rparr>) = (Inr a, st')" "y = Inr a"
proof -
  obtain b fs where pop: "(case pg_faults st of [] \<Rightarrow> (False, st) | b # bs \<Rightarrow> (b, st\<lparr>pg_faults := bs\<rparr>))
      = (b, st\<lparr>pg_faults := fs\<rparr>)"
  proof (cases "pg_faults st")
    case Nil
    then have "st\<lparr>pg_faults := []\<rparr> = st" by (cases st) simp
    with Nil that [of False "[]"] show thesis by simp
  qed (simp add: that)
  show thesis
  proof (cases b)
    case True
    with assms pop that(1) [of fs] show thesis by (auto simp: transaction_def)
  next
    case False
    with assms pop have "(case f (st\<lparr>pg_faults := fs\<rparr>) of (Inl x, _) \<Rightarrow> (Inl x, st\<lparr>pg_faults := fs\<rparr>)
        | (Inr a, st2) \<Rightarrow> (Inr a, st2)) = (y, st')"
      by (simp add: transaction_def)
    then show thesis
      using that(2) [of fs] that(3) [of fs] by (cases "f (st\<lparr>pg_faults := fs\<rparr>)"; cases "fst (f (st\<lparr>pg_faults := fs\<rparr>))") auto
  qed
qed

definition pg_rows :: "pg_store \<Rightarrow> string \<Rightarrow> alive_record option" where
  "pg_rows st = map_of (agent_rows st)"

definition pg_cps :: "pg_store \<Rightarrow> string \<Rightarrow> shard_checkpoint option" where
  "pg_cps st = map_of (shard_rows st)"

lemma pg_views_faults [simp]:
  "pg_rows (st\<lparr>pg_faults := fs\<rparr>) = pg_rows st" "pg_cps (st\<lparr>pg_faults := fs\<rparr>) = pg_cps st"
  by (simp_all add: pg_rows_def pg_cps_def)

lemma map_of_snoc: "map_of xs k = None \<Longrightarrow> map_of (xs @ [(k, v)]) = (map_of xs)(k \<mapsto> v)"
  by (auto simp: map_add_def fun_eq_iff split: option.splits)

lemma set_update_own: "(a, r) \<in> set (AList.update k v xs) \<Longrightarrow> (a = k \<and> r = v) \<or> (a, r) \<in> set xs"
  by (induction xs) (auto split: if_splits)

lemma map_of_None_fst: "map_of xs k = None \<longleftrightarrow> k \<notin> fst ` set xs"
  by (simp add: map_of_eq_None_iff)

lemma pg_ok_agent: "pg_ok st \<Longrightarrow> map_of (agent_rows st) a = Some r \<Longrightarrow> ar_aic r = a"
  by (auto simp: pg_ok_def dest: map_of_SomeD)

lemma pg_ok_shard: "pg_ok st \<Longrightarrow> map_of (shard_rows st) k = Some c \<Longrightarrow> cp_shard c = k"
  by (auto simp: pg_ok_def dest: map_of_SomeD)

lemma pg_ok_set_agent:
  "pg_ok st \<Longrightarrow> ar_aic r = a \<Longrightarrow> pg_ok (st\<lparr>agent_rows := AList.update a r (agent_rows st)\<rparr>)"
  "pg_ok st \<Longrightarrow> map_of (agent_rows st) (ar_aic r) = None \<Longrightarrow> pg_ok (st\<lparr>agent_rows := agent_rows st @ [(ar_aic r, r)]\<rparr>)"
  by (auto simp: pg_ok_def distinct_update map_of_None_fst dest!: set_update_own)

lemma pg_ok_set_shard:
  "pg_ok st \<Longrightarrow> cp_shard c = k \<Longrightarrow> pg_ok (st\<lparr>shard_rows := AList.update k c (shard_rows st)\<rparr>)"
  "pg_ok st \<Longrightarrow> map_of (shard_rows st) (cp_shard c) = None \<Longrightarrow> pg_ok (st\<lparr>shard_rows := shard_rows st @ [(cp_shard c, c)]\<rparr>)"
  by (auto simp: pg_ok_def distinct_update map_of_None_fst dest!: set_update_own)

lemma upsert_checkpoint_spec:
  assumes "pg_ok st"
  shows "pg_ok (upsert_checkpoint shard s off st) \<and> pg_rows (upsert_checkpoint shard s off st) = pg_rows st
    \<and> pg_cps (upsert_checkpoint shard s off st) = advance shard s off (pg_cps st)"
proof (cases "map_of (shard_rows st) shard")
  case None
  then show ?thesis
    using pg_ok_set_shard(2) [OF assms, of "\<lparr>cp_shard = shard, cp_last_seen_seq = s, cp_cutover_seq = 0,
        cp_next_offset = off, cp_generated_at = None\<rparr>"]
    by (simp add: upsert_checkpoint_def advance_def pg_rows_def pg_cps_def map_of_snoc del: map_of_append)
next
  case (Some row)
  then have own: "cp_shard row = shard" by (rule pg_ok_shard [OF assms])
  have put: "pg_ok (st\<lparr>shard_rows := AList.update shard c (shard_rows st)\<rparr>)" if "cp_shard c = shard" for c
    using pg_ok_set_shard(1) [OF assms that] .
  from Some own put show ?thesis
    by (cases off) (simp_all add: upsert_checkpoint_def advance_def pg_rows_def pg_cps_def Let_def)
qed

lemma pg_upsert_spec:
  assumes "pg_ok st" and "pg_apply_upsert r shard s off st = (y, st')"
  shows "pg_ok st' \<and> (case y of
      Inl _ \<Rightarrow> pg_rows st' = pg_rows st \<and> pg_cps st' = pg_cps st
    | Inr _ \<Rightarrow> pg_rows st' = (pg_rows st)(ar_aic r \<mapsto> r) \<and> pg_cps st' = advance shard s off (pg_cps st))"
proof -
  let ?put = "\<lambda>st. (case map_of (agent_rows st) (ar_aic r) of
      None \<Rightarrow> st\<lparr>agent_rows := agent_rows st @ [(ar_aic r, r)]\<rparr>
    | Some existing \<Rightarrow> st\<lparr>agent_rows := AList.update (ar_aic r) (existing\<lparr>ar_alive := ar_alive r,
        ar_last_seen := ar_last_seen r, ar_version := ar_version r, ar_shard := ar_shard r\<rparr>) (agent_rows st)\<rparr>)"
  have put: "pg_ok (?put st) \<and> pg_rows (?put st) = (pg_rows st)(ar_aic r \<mapsto> r) \<and> pg_cps (?put st) = pg_cps st"
    if "pg_ok st" for st
  proof (cases "map_of (agent_rows st) (ar_aic r)")
    case None
    with pg_ok_set_agent(2) [OF that None] show ?thesis by (simp add: pg_rows_def pg_cps_def map_of_snoc del: map_of_append)
  next
    case (Some e)
    then have "e\<lparr>ar_alive := ar_alive r, ar_last_seen := ar_last_seen r, ar_version := ar_version r,
        ar_shard := ar_shard r\<rparr> = r"
      using pg_ok_agent [OF that Some] by (cases e; cases r) simp
    with Some pg_ok_set_agent(1) [OF that, of r] show ?thesis by (simp add: pg_rows_def pg_cps_def)
  qed
  from assms(2) [unfolded pg_apply_upsert_def] show ?thesis
  proof (cases rule: transactionE)
    case (3 a fs)
    let ?st = "st\<lparr>pg_faults := fs\<rparr>"
    have okf: "pg_ok ?st" using assms(1) by simp
    have "st' = upsert_checkpoint shard s off (?put ?st)" using 3 by (simp add: Let_def)
    then show ?thesis
      using put [OF okf] upsert_checkpoint_spec [of "?put ?st" shard s off] 3 by simp
  qed (use assms(1) in simp_all)
qed

lemma pg_delete_spec:
  assumes "pg_ok st" and "pg_apply_delete a shard s off v st = (y, st')"
  shows "pg_ok st' \<and> (case y of
      Inl _ \<Rightarrow> pg_rows st' = pg_rows st \<and> pg_cps st' = pg_cps st
    | Inr _ \<Rightarrow> pg_rows st' = (pg_rows st)(a := map_option (\<lambda>r. r\<lparr>ar_alive := False, ar_version := v\<rparr>) (pg_rows st a))
        \<and> pg_cps st' = advance shard s off (pg_cps st))"
proof -
  let ?put = "\<lambda>st. (case map_of (agent_rows st) a of None \<Rightarrow> st
    | Some row \<Rightarrow> st\<lparr>agent_rows := AList.update a (row\<lparr>ar_alive := False, ar_version := v\<rparr>) (agent_rows st)\<rparr>)"
  have put: "pg_ok (?put st) \<and> pg_cps (?put st) = pg_cps st
      \<and> pg_rows (?put st) = (pg_rows st)(a := map_option (\<lambda>r. r\<lparr>ar_alive := False, ar_version := v\<rparr>) (pg_rows st a))"
    if "pg_ok st" for st
  proof (cases "map_of (agent_rows st) a")
    case None
    with that show ?thesis by (simp add: pg_rows_def fun_upd_idem)
  next
    case (Some e)
    with pg_ok_agent [OF that Some] pg_ok_set_agent(1) [OF that, of "e\<lparr>ar_alive := False, ar_version := v\<rparr>" a]
    show ?thesis by (simp add: pg_rows_def pg_cps_def)
  qed
  from assms(2) [unfolded pg_apply_delete_def] show ?thesis
  proof (cases rule: transactionE)
    case (3 u fs)
    let ?st = "st\<lparr>pg_faults := fs\<rparr>"
    have okf: "pg_ok ?st" using assms(1) by simp
    have "st' = upsert_checkpoint shard s off (?put ?st)" using 3 by (simp add: Let_def)
    then show ?thesis
      using put [OF okf] upsert_checkpoint_spec [of "?put ?st" shard s off] 3 by simp
  qed (use assms(1) in simp_all)
qed

lemma pg_replace_spec:
  assumes "pg_ok st" and "pg_replace_alive_set recs cs st = (y, st')"
  shows "pg_ok st' \<and> (case y of
      Inl _ \<Rightarrow> pg_rows st' = pg_rows st \<and> pg_cps st' = pg_cps st
    | Inr _ \<Rightarrow> snd recs = None \<and> distinct (map ar_aic (fst recs)) \<and> distinct (map cp_shard cs)
        \<and> pg_rows st' = map_of (map (\<lambda>r. (ar_aic r, r)) (fst recs))
        \<and> pg_cps st' = map_of (map (\<lambda>c. (cp_shard c, c)) cs))"
  using assms(2) [unfolded pg_replace_alive_set_def]
proof (cases rule: transactionE)
  case (3 u fs)
  then show ?thesis
    by (auto simp: Let_def write_batches_all pg_ok_def pg_rows_def pg_cps_def comp_def
        split: option.splits if_splits)
qed (use assms(1) in simp_all)

lemma pg_read_spec:
  assumes "pg_ok st" and "transaction (\<lambda>st. (Inr (f st), st)) st = (y, st')"
    and "\<And>fs. f (st\<lparr>pg_faults := fs\<rparr>) = f st"
  shows "pg_ok st'" "pg_rows st' = pg_rows st" "pg_cps st' = pg_cps st" "y = Inr a \<Longrightarrow> a = f st"
  using assms(2) by (cases rule: transactionE; use assms(1,3) in auto)+

lemma map_of_own_keys:
  "\<forall>(k, c)\<in>set xs. key c = k \<Longrightarrow> map (\<lambda>c. (key c, c)) (map snd xs) = xs"
  by (induction xs) auto

lemma map_of_map_snd: "map_of (map (\<lambda>(k, r). (k, f r)) xs) k = map_option f (map_of xs k)"
  by (induction xs) auto

lemma pg_checkpoints_spec:
  assumes "pg_ok st" and "pg_load_checkpoints st = (y, st')"
  shows "pg_ok st' \<and> pg_rows st' = pg_rows st \<and> pg_cps st' = pg_cps st
    \<and> (\<forall>cs. y = Inr cs \<longrightarrow> distinct (map cp_shard cs) \<and> pg_cps st = map_of (map (\<lambda>c. (cp_shard c, c)) cs))"
proof -
  note r = pg_read_spec [OF assms(1) assms(2) [unfolded pg_load_checkpoints_def], simplified]
  let ?cs = "map snd (shard_rows st)"
  have own: "map (\<lambda>c. (cp_shard c, c)) ?cs = shard_rows st"
    by (rule map_of_own_keys) (use assms(1) in \<open>simp add: pg_ok_def\<close>)
  have "map cp_shard ?cs = map fst (map (\<lambda>c. (cp_shard c, c)) ?cs)" by simp
  then have "map cp_shard ?cs = map fst (shard_rows st)" by (simp only: own)
  then have d: "distinct (map cp_shard ?cs)" using assms(1) by (simp only: pg_ok_def)
  have m: "pg_cps st = map_of (map (\<lambda>c. (cp_shard c, c)) ?cs)" by (simp only: own pg_cps_def)
  have "cs = ?cs" if "y = Inr cs" for cs using r(4) [OF that] by simp
  with d m r(1,2,3) show ?thesis by blast
qed

lemma pg_versions_spec:
  assumes "pg_ok st" and "pg_load_local_versions st = (y, st')"
  shows "pg_ok st' \<and> pg_rows st' = pg_rows st \<and> pg_cps st' = pg_cps st
    \<and> (\<forall>vs. y = Inr vs \<longrightarrow> distinct (map fst vs) \<and> map_of vs = (\<lambda>a. map_option ar_version (pg_rows st a)))"
proof -
  note r = pg_read_spec [OF assms(1) assms(2) [unfolded pg_load_local_versions_def], simplified]
  let ?vs = "map (\<lambda>(aic, row). (aic, ar_version row)) (agent_rows st)"
  have "map fst ?vs = map fst (agent_rows st)" by auto
  then have d: "distinct (map fst ?vs)" using assms(1) by (simp only: pg_ok_def)
  have m: "map_of ?vs = (\<lambda>a. map_option ar_version (pg_rows st a))"
    by (rule ext) (simp add: pg_rows_def map_of_map_snd)
  have "vs = ?vs" if "y = Inr vs" for vs using r(4) [OF that] by simp
  with d m r(1,2,3) show ?thesis by blast
qed

lemma pg_reset_spec:
  assumes "pg_ok st" and "pg_reset st = (Inr u, st')"
  shows "pg_ok st' \<and> pg_rows st' = (\<lambda>_. None) \<and> pg_cps st' = (\<lambda>_. None)"
  using assms(2) [unfolded pg_reset_def]
  by (cases rule: transactionE) (auto simp: pg_ok_def pg_rows_def pg_cps_def)

lemma pg_reset_failed:
  assumes "pg_ok st" and "pg_reset st = (Inl x, st')"
  shows "pg_ok st' \<and> pg_rows st' = pg_rows st \<and> pg_cps st' = pg_cps st"
  using assms(2) [unfolded pg_reset_def]
  by (cases rule: transactionE) (use assms(1) in \<open>auto simp: pg_rows_def pg_cps_def\<close>)

interpretation pg: alive_store pg_ops pg_ok pg_rows pg_cps
  by unfold_locales
     (auto simp: pg_ops_def dest: pg_upsert_spec pg_delete_spec pg_replace_spec pg_checkpoints_spec
        pg_versions_spec pg_reset_spec pg_reset_failed)

end
