(* ===== verification/AliveConverge.thy ===== *)
theory AliveConverge
  imports AliveStore
begin

text \<open>
  What the engine is for: after a snapshot, and whatever is delivered, repeated, lost, refused by the
  store or restarted in between, the stored set is the set the provider's log describes. The log of a
  shard is the list of its events; event number \<open>i\<close> (from 0) has sequence number and version \<open>i + 1\<close>.
  The lemmas are proved once for every store that keeps the contract.
\<close>

subsection \<open>What the log says\<close>

text \<open>The last event about an AIC among the first \<open>n\<close> of a shard: its sequence number and its operation.\<close>

fun latest :: "string \<Rightarrow> alive_delta list \<Rightarrow> nat \<Rightarrow> (int \<times> delta_op) option" where
  "latest a evs 0 = None"
| "latest a evs (Suc n) =
     (if aic_from_object_id (dv_id (evs ! n)) = Inr a then Some (int n + 1, dv_op (evs ! n)) else latest a evs n)"

definition alive_at :: "string \<Rightarrow> alive_delta list \<Rightarrow> nat \<Rightarrow> bool" where
  "alive_at a evs n = (case latest a evs n of None \<Rightarrow> False | Some (_, op) \<Rightarrow> op = Upsert)"

text \<open>Every event of a log is well formed, and all events of an AIC are in the log of its shard.\<close>

definition log_ok :: "(string \<Rightarrow> alive_delta list) \<Rightarrow> (string \<Rightarrow> string) \<Rightarrow> bool" where
  "log_ok lg home \<longleftrightarrow> (\<forall>k i. i < length (lg k) \<longrightarrow> (\<exists>a. event_of (lg k ! i) k a (int i + 1) \<and> home a = k))"

lemma latest_bound: "latest a evs n = Some (s, op) \<Longrightarrow> 1 \<le> s \<and> s \<le> int n"
  by (induction n) (auto split: if_splits)

lemma latest_at_least:
  "aic_from_object_id (dv_id (evs ! i)) = Inr a \<Longrightarrow> i < n \<Longrightarrow> \<exists>s op. latest a evs n = Some (s, op) \<and> int i + 1 \<le> s"
proof (induction n)
  case (Suc n)
  then show ?case by (cases "i = n") auto
qed simp

lemma latest_mono: "latest a evs m = Some (s, op) \<Longrightarrow> m \<le> n \<Longrightarrow> \<exists>s' op'. latest a evs n = Some (s', op') \<and> s \<le> s'"
proof (induction n)
  case (Suc n)
  then show ?case by (cases "m = Suc n") (auto dest: latest_bound)
qed simp

subsection \<open>What a snapshot says\<close>

definition cutover_of :: "(string \<times> int) list \<Rightarrow> string \<Rightarrow> int" where
  "cutover_of cuts k = (case map_of cuts k of None \<Rightarrow> 0 | Some c \<Rightarrow> c)"

text \<open>The rows show an AIC as it is after \<open>n\<close> events: one upsert row with the last version, or no row.\<close>

definition rows_show :: "alive_delta list \<Rightarrow> string \<Rightarrow> alive_delta list \<Rightarrow> nat \<Rightarrow> bool" where
  "rows_show envs a evs n \<longleftrightarrow>
     (let mine = filter (\<lambda>env. aic_from_object_id (dv_id env) = Inr a) envs in
      (mine \<noteq> []) = alive_at a evs n
      \<and> list_all (\<lambda>env. \<exists>v op. latest a evs n = Some (v, op) \<and> seq_from_str (dv_version env) = Inr v) mine)"

text \<open>
  The provider reads its positions first and the rows after: every row is as of some position between
  the cutover of its shard and \<open>last_read\<close>, the position of the shard when the last row was read; no two rows need
  agree on it. The agents in \<open>omitted\<close> may be left out although the log says they are alive (the provider does not
  export an agent that is silent but not yet marked as left).
\<close>

definition no_row :: "alive_delta list \<Rightarrow> string \<Rightarrow> bool" where
  "no_row envs a = list_all (\<lambda>env. aic_from_object_id (dv_id env) \<noteq> Inr a) envs"

definition snapshot_of ::
  "(string \<Rightarrow> alive_delta list) \<Rightarrow> (string \<Rightarrow> string) \<Rightarrow> (string \<Rightarrow> nat) \<Rightarrow> (string \<Rightarrow> bool)
     \<Rightarrow> snapshot_meta \<Rightarrow> alive_delta list \<Rightarrow> bool" where
  "snapshot_of lg home last_read omitted meta envs \<longleftrightarrow>
     (\<forall>k. last_read k \<le> length (lg k))
     \<and> (\<exists>cuts. decode_seqs (sm_cutover meta) = Inr cuts
         \<and> (\<forall>k. 0 \<le> cutover_of cuts k \<and> cutover_of cuts k \<le> int (last_read k))
         \<and> (\<forall>a. (\<exists>n. cutover_of cuts (home a) \<le> int n \<and> n \<le> last_read (home a) \<and> rows_show envs a (lg (home a)) n)
             \<or> omitted a \<and> no_row envs a))"

subsection \<open>The consumer's runs\<close>

text \<open>
  Any event of a log may be delivered, in any order and any number of times; a result that is an error
  leaves the engine to the next event. A restart is a new engine that reads its state from the store;
  when it cannot, the run ends (the service goes on with a new snapshot).
\<close>

datatype consumer_event = Deliver string nat "int option" | Restart

fun follow ::
  "'s alive_store_ops \<Rightarrow> (string \<Rightarrow> alive_delta list) \<Rightarrow> consumer_event list \<Rightarrow> engine \<Rightarrow> 's \<Rightarrow> (engine \<times> 's) option" where
  "follow ops lg [] e st = Some (e, st)"
| "follow ops lg (Deliver k i off # evs) e st =
     (if i < length (lg k) then (let (_, e', st') = apply_delta ops (lg k ! i) off e st in follow ops lg evs e' st')
      else None)"
| "follow ops lg (Restart # evs) e st =
     (case hydrate ops new_engine st of
        (Inl _, _) \<Rightarrow> None
      | (Inr _, e', st') \<Rightarrow> follow ops lg evs e' st')"

definition stored_alive :: "(string \<Rightarrow> alive_record option) \<Rightarrow> string \<Rightarrow> bool" where
  "stored_alive rs a = (case rs a of None \<Rightarrow> False | Some r \<Rightarrow> ar_alive r)"

definition persisted_seq :: "(string \<Rightarrow> shard_checkpoint option) \<Rightarrow> string \<Rightarrow> int" where
  "persisted_seq cs k = (case cs k of None \<Rightarrow> 0 | Some c \<Rightarrow> cp_last_seen_seq c)"

subsection \<open>The invariant of a run\<close>

text \<open>Store and engine show an AIC as it is after \<open>n\<close> events.\<close>

definition shows_at ::
  "(string \<Rightarrow> alive_record option) \<Rightarrow> engine \<Rightarrow> string \<Rightarrow> alive_delta list \<Rightarrow> nat \<Rightarrow> bool" where
  "shows_at rs e a evs n \<longleftrightarrow>
     stored_alive rs a = alive_at a evs n \<and> (\<forall>v. en_version e a = Some v \<longrightarrow> (\<exists>op. latest a evs n = Some (v, op)))"

definition row_versions_known :: "(string \<Rightarrow> alive_record option) \<Rightarrow> engine \<Rightarrow> bool" where
  "row_versions_known rs e \<longleftrightarrow> (\<forall>a r. rs a = Some r \<longrightarrow> en_version e a = Some (ar_version r))"

definition positions_ok ::
  "(string \<Rightarrow> alive_delta list) \<Rightarrow> (string \<Rightarrow> nat) \<Rightarrow> engine \<Rightarrow> (string \<Rightarrow> shard_checkpoint option) \<Rightarrow> bool" where
  "positions_ok lg last_read e cs \<longleftrightarrow>
     (\<forall>k. 0 \<le> persisted_seq cs k \<and> persisted_seq cs k \<le> seen_or_zero e k
        \<and> seen_or_zero e k \<le> max (persisted_seq cs k) (int (last_read k))
        \<and> seen_or_zero e k \<le> int (length (lg k)) \<and> last_read k \<le> length (lg k))"

definition agent_shown ::
  "(string \<Rightarrow> alive_delta list) \<Rightarrow> (string \<Rightarrow> string) \<Rightarrow> (string \<Rightarrow> nat) \<Rightarrow> engine
     \<Rightarrow> (string \<Rightarrow> alive_record option) \<Rightarrow> string \<Rightarrow> bool" where
  "agent_shown lg home last_read e rs a \<longleftrightarrow>
     (\<exists>n. seen_or_zero e (home a) \<le> int n \<and> int n \<le> max (seen_or_zero e (home a)) (int (last_read (home a)))
        \<and> shows_at rs e a (lg (home a)) n)"

text \<open>An omitted agent is not known before an event that is after the read of the snapshot.\<close>

definition unknown_yet ::
  "(string \<Rightarrow> alive_delta list) \<Rightarrow> (string \<Rightarrow> string) \<Rightarrow> (string \<Rightarrow> nat) \<Rightarrow> engine
     \<Rightarrow> (string \<Rightarrow> alive_record option) \<Rightarrow> string \<Rightarrow> bool" where
  "unknown_yet lg home last_read e rs a \<longleftrightarrow>
     rs a = None \<and> en_version e a = None
     \<and> (\<forall>s op. latest a (lg (home a)) (nat (seen_or_zero e (home a))) = Some (s, op) \<longrightarrow> s \<le> int (last_read (home a)))"

definition in_step ::
  "(string \<Rightarrow> alive_delta list) \<Rightarrow> (string \<Rightarrow> string) \<Rightarrow> (string \<Rightarrow> nat) \<Rightarrow> (string \<Rightarrow> bool) \<Rightarrow> engine
     \<Rightarrow> (string \<Rightarrow> alive_record option) \<Rightarrow> (string \<Rightarrow> shard_checkpoint option) \<Rightarrow> bool" where
  "in_step lg home last_read omitted e rs cs \<longleftrightarrow>
     row_versions_known rs e \<and> positions_ok lg last_read e cs
     \<and> (\<forall>a. agent_shown lg home last_read e rs a \<or> omitted a \<and> unknown_yet lg home last_read e rs a)"

lemma in_stepD:
  assumes "in_step lg home last_read omitted e rs cs"
  obtains "agent_shown lg home last_read e rs a" | "omitted a" "unknown_yet lg home last_read e rs a"
  using assms unfolding in_step_def by blast

lemma seen_or_zero_upd: "seen_or_zero (e\<lparr>en_seen := (en_seen e)(k \<mapsto> s)\<rparr>) k' = (if k' = k then s else seen_or_zero e k')"
  by (simp add: seen_or_zero_def)

lemma seen_or_zero_version [simp]: "seen_or_zero (e\<lparr>en_version := f\<rparr>) k = seen_or_zero e k"
  by (simp add: seen_or_zero_def)

lemma persisted_seq_advance: "persisted_seq (advance k s off cs) k' = (if k' = k then s else persisted_seq cs k')"
  by (simp add: persisted_seq_def advance_def split: option.splits)

text \<open>Events about other AICs do not move an AIC.\<close>

lemma shows_at_Suc:
  "shows_at rs e a evs n \<Longrightarrow> aic_from_object_id (dv_id (evs ! n)) \<noteq> Inr a \<Longrightarrow> shows_at rs e a evs (Suc n)"
  by (simp add: shows_at_def alive_at_def)

lemma shows_at_cong:
  "rs' a = rs a \<Longrightarrow> en_version e' a = en_version e a \<Longrightarrow> shows_at rs' e' a evs n = shows_at rs e a evs n"
  by (simp add: shows_at_def stored_alive_def)

text \<open>The position of a shard goes one event further, and the event is one the AIC's state already shows, or takes in.\<close>

lemma in_step_advance:
  assumes inv: "in_step lg home last_read omitted e rs cs" and home: "home a = k"
    and idx: "seen_or_zero e k = int i" "i < length (lg k)" and about: "aic_from_object_id (dv_id (lg k ! i)) = Inr a"
    and others: "\<And>b. b \<noteq> a \<Longrightarrow> rs' b = rs b \<and> en_version e' b = en_version e b"
    and seen: "\<And>j. seen_or_zero e' j = (if j = k then int i + 1 else seen_or_zero e j)"
    and self: "\<exists>n. int i + 1 \<le> int n \<and> int n \<le> max (int i + 1) (int (last_read k)) \<and> shows_at rs' e' a (lg k) n"
    and row: "\<And>r. rs' a = Some r \<Longrightarrow> en_version e' a = Some (ar_version r)"
    and cs': "\<And>j. persisted_seq cs' j = (if j = k \<and> moved then int i + 1 else persisted_seq cs j)"
    and known: "moved \<or> int i + 1 \<le> int (last_read k)"
  shows "in_step lg home last_read omitted e' rs' cs'"
proof -
  have rvk: "row_versions_known rs e" and pos: "positions_ok lg last_read e cs"
    using inv by (simp_all add: in_step_def)
  have "row_versions_known rs' e'"
    unfolding row_versions_known_def
  proof (intro allI impI)
    fix b r assume "rs' b = Some r"
    then show "en_version e' b = Some (ar_version r)"
      using row others [of b] rvk by (cases "b = a") (auto simp: row_versions_known_def)
  qed
  moreover have "positions_ok lg last_read e' cs'"
    unfolding positions_ok_def
  proof
    fix j
    have p: "0 \<le> persisted_seq cs j" "persisted_seq cs j \<le> seen_or_zero e j"
      "seen_or_zero e j \<le> max (persisted_seq cs j) (int (last_read j))"
      "seen_or_zero e j \<le> int (length (lg j))" "last_read j \<le> length (lg j)"
      using pos by (auto simp: positions_ok_def)
    show "0 \<le> persisted_seq cs' j \<and> persisted_seq cs' j \<le> seen_or_zero e' j
        \<and> seen_or_zero e' j \<le> max (persisted_seq cs' j) (int (last_read j))
        \<and> seen_or_zero e' j \<le> int (length (lg j)) \<and> last_read j \<le> length (lg j)"
    proof (cases "j = k")
      case True
      with p idx known show ?thesis by (cases moved) (simp_all add: seen cs')
    next
      case False
      with p show ?thesis by (simp add: seen cs')
    qed
  qed
  moreover have "agent_shown lg home last_read e' rs' b \<or> omitted b \<and> unknown_yet lg home last_read e' rs' b" for b
  proof (cases "b = a")
    case True
    with self home seen show ?thesis by (auto simp: agent_shown_def)
  next
    case other: False
    note same = others [OF other]
    from inv show ?thesis
    proof (cases rule: in_stepD [where a = b])
      case 1
      then obtain n where n: "seen_or_zero e (home b) \<le> int n"
          "int n \<le> max (seen_or_zero e (home b)) (int (last_read (home b)))" "shows_at rs e b (lg (home b)) n"
        unfolding agent_shown_def by blast
      from same have "shows_at rs' e' b (lg (home b)) n = shows_at rs e b (lg (home b)) n"
        by (intro shows_at_cong) simp_all
      with n(3) have n3: "shows_at rs' e' b (lg (home b)) n" by simp
      show ?thesis
      proof (cases "home b = k \<and> n = i")
        case True
        with n3 about other have "shows_at rs' e' b (lg (home b)) (Suc i)" by (auto intro: shows_at_Suc)
        with True seen show ?thesis unfolding agent_shown_def by (intro disjI1 exI [of _ "Suc i"]) auto
      next
        case False
        with n n3 seen idx show ?thesis unfolding agent_shown_def by (intro disjI1 exI [of _ n]) auto
      qed
    next
      case 2
      have "latest b (lg (home b)) (nat (seen_or_zero e' (home b))) = latest b (lg (home b)) (nat (seen_or_zero e (home b)))"
      proof (cases "home b = k")
        case True
        then have "nat (seen_or_zero e' (home b)) = Suc i" "nat (seen_or_zero e (home b)) = i"
          using seen idx by simp_all
        with True about other show ?thesis by auto
      qed (simp add: seen)
      with 2 same show ?thesis by (simp add: unknown_yet_def)
    qed
  qed
  ultimately show ?thesis by (simp add: in_step_def)
qed

subsection \<open>One delivery\<close>

lemma seen_idem: "in_step lg home last_read omitted (e\<lparr>en_seen := (en_seen e)(k \<mapsto> seen_or_zero e k)\<rparr>) rs cs
    = in_step lg home last_read omitted e rs cs"
proof -
  have "seen_or_zero (e\<lparr>en_seen := (en_seen e)(k \<mapsto> seen_or_zero e k)\<rparr>) j = seen_or_zero e j" for j
    by (simp add: seen_or_zero_upd)
  then show ?thesis
    by (simp add: in_step_def row_versions_known_def positions_ok_def shows_at_def agent_shown_def unknown_yet_def)
qed

text \<open>The next event is skipped because of its version: the snapshot was read after it.\<close>

lemma in_step_skip_version:
  assumes inv: "in_step lg home last_read omitted e rs cs" and ev: "event_of (lg k ! i) k a (int i + 1)" "home a = k"
    and idx: "seen_or_zero e k = int i" "i < length (lg k)" and v: "en_version e a = Some v" "int i + 1 \<le> v"
  shows "in_step lg home last_read omitted (e\<lparr>en_seen := (en_seen e)(k \<mapsto> int i + 1)\<rparr>) rs cs"
proof -
  have "agent_shown lg home last_read e rs a"
    using inv v(1) by (cases rule: in_stepD [where a = a]) (simp_all add: unknown_yet_def)
  with ev(2) idx obtain n where n: "int i \<le> int n" "int n \<le> max (int i) (int (last_read k))"
      "shows_at rs e a (lg k) n"
    unfolding agent_shown_def by metis
  from n(3) v(1) obtain op where "latest a (lg k) n = Some (v, op)" by (auto simp: shows_at_def)
  then have "v \<le> int n" by (auto dest: latest_bound)
  with v(2) n(2) have pos: "int i + 1 \<le> int n" "int n \<le> int (last_read k)" by auto
  show ?thesis
  proof (rule in_step_advance [OF inv ev(2) idx, where moved = False])
    show "aic_from_object_id (dv_id (lg k ! i)) = Inr a" using ev(1) by (simp add: event_of_def)
    show "\<exists>n. int i + 1 \<le> int n \<and> int n \<le> max (int i + 1) (int (last_read k))
        \<and> shows_at rs (e\<lparr>en_seen := (en_seen e)(k \<mapsto> int i + 1)\<rparr>) a (lg k) n"
      using pos n(3) by (intro exI [of _ n]) (simp add: shows_at_def)
    show "\<And>r. rs a = Some r \<Longrightarrow> en_version (e\<lparr>en_seen := (en_seen e)(k \<mapsto> int i + 1)\<rparr>) a = Some (ar_version r)"
      using inv by (simp add: in_step_def row_versions_known_def)
  qed (use pos in \<open>simp_all add: seen_or_zero_upd\<close>)
qed

text \<open>The next event is new and the store takes it.\<close>

lemma in_step_applied:
  assumes inv: "in_step lg home last_read omitted e rs cs" and ev: "event_of (lg k ! i) k a (int i + 1)" "home a = k"
    and idx: "seen_or_zero e k = int i" "i < length (lg k)"
    and rs': "rs' = (if dv_op (lg k ! i) = Upsert then rs(a \<mapsto> record_of (lg k ! i) a (int i + 1))
        else rs(a := map_option (\<lambda>r. r\<lparr>ar_alive := False, ar_version := int i + 1\<rparr>) (rs a)))"
  shows "in_step lg home last_read omitted
    (e\<lparr>en_seen := (en_seen e)(k \<mapsto> int i + 1), en_version := (en_version e)(a \<mapsto> int i + 1)\<rparr>)
    rs' (advance k (int i + 1) off cs)"
proof (rule in_step_advance [OF inv ev(2) idx, where moved = True])
  show about: "aic_from_object_id (dv_id (lg k ! i)) = Inr a" using ev(1) by (simp add: event_of_def)
  let ?e = "e\<lparr>en_seen := (en_seen e)(k \<mapsto> int i + 1), en_version := (en_version e)(a \<mapsto> int i + 1)\<rparr>"
  have "latest a (lg k) (Suc i) = Some (int i + 1, dv_op (lg k ! i))" using about by simp
  moreover have "stored_alive rs' a = (dv_op (lg k ! i) = Upsert)"
    by (simp add: rs' stored_alive_def record_of_def split: option.splits)
  ultimately have "shows_at rs' ?e a (lg k) (Suc i)" by (simp add: shows_at_def alive_at_def)
  then show "\<exists>n. int i + 1 \<le> int n \<and> int n \<le> max (int i + 1) (int (last_read k)) \<and> shows_at rs' ?e a (lg k) n"
    by (intro exI [of _ "Suc i"]) simp
  show "\<And>r. rs' a = Some r \<Longrightarrow> en_version ?e a = Some (ar_version r)"
    by (auto simp: rs' record_of_def split: if_splits)
  show "\<And>b. b \<noteq> a \<Longrightarrow> rs' b = rs b \<and> en_version ?e b = en_version e b" by (simp add: rs')
qed (simp_all add: seen_or_zero_upd persisted_seq_advance)

text \<open>A version that passes: the AIC's state was that at the position of the shard.\<close>

context alive_store
begin

definition synced ::
  "(string \<Rightarrow> alive_delta list) \<Rightarrow> (string \<Rightarrow> string) \<Rightarrow> (string \<Rightarrow> nat) \<Rightarrow> (string \<Rightarrow> bool) \<Rightarrow> engine \<Rightarrow> 's \<Rightarrow> bool" where
  "synced lg home last_read omitted e st \<longleftrightarrow> ok st \<and> in_step lg home last_read omitted e (rows st) (cps st)"

lemma deliver_keeps:
  assumes lgok: "log_ok lg home" and inv: "synced lg home last_read omitted e st" and i: "i < length (lg k)"
    and run: "apply_delta ops (lg k ! i) off e st = (y, e', st')"
  shows "synced lg home last_read omitted e' st'"
proof -
  from lgok i obtain a where ev: "event_of (lg k ! i) k a (int i + 1)" "home a = k"
    unfolding log_ok_def by blast
  have stok: "ok st" and ins: "in_step lg home last_read omitted e (rows st) (cps st)" using inv by (simp_all add: synced_def)
  consider (old) "int i + 1 \<le> seen_or_zero e k" | (gap) "int i + 1 > seen_or_zero e k + 1"
    | (nxt) "seen_or_zero e k = int i" by linarith
  then show ?thesis
  proof cases
    case old
    then have "e' = e\<lparr>en_seen := (en_seen e)(k \<mapsto> seen_or_zero e k)\<rparr> \<and> st' = st"
      using apply_delta_skip [OF ev(1) old, of ops off st] run by simp
    with inv show ?thesis by (simp add: synced_def seen_idem)
  next
    case gap
    then have "e' = e \<and> st' = st" using apply_delta_gap [OF ev(1) gap, of ops off st] run by simp
    with inv show ?thesis by simp
  next
    case nxt
    show ?thesis
    proof (cases "\<exists>v. en_version e a = Some v \<and> int i + 1 \<le> v")
      case True
      then obtain v where v: "en_version e a = Some v" "int i + 1 \<le> v" by blast
      have "e' = e\<lparr>en_seen := (en_seen e)(k \<mapsto> int i + 1)\<rparr> \<and> st' = st"
        using apply_delta_old_version [OF ev(1) _ v, of ops off st] nxt run by simp
      with in_step_skip_version [OF ins ev nxt i v] stok show ?thesis by (simp add: synced_def)
    next
      case False
      then have fresh: "\<And>v. en_version e a = Some v \<Longrightarrow> v < int i + 1" by force
      let ?env = "lg k ! i" and ?s = "int i + 1"
      let ?put = "if dv_op ?env = Upsert then store_upsert ops (record_of ?env a ?s) k ?s off st
                  else store_delete ops a k ?s off ?s st"
      obtain r st2 where put: "?put = (r, st2)" by (cases ?put)
      from run nxt put have res: "(case r of Inl x \<Rightarrow> (Inl x, e, st2)
        | Inr _ \<Rightarrow> (Inr (if dv_op ?env = Upsert then APPLY_UPSERT else APPLY_DELETE),
            e\<lparr>en_seen := (en_seen e)(k \<mapsto> ?s), en_version := (en_version e)(a \<mapsto> ?s)\<rparr>, st2)) = (y, e', st')"
        by (simp add: apply_delta_new [OF ev(1) _ fresh])
      show ?thesis
      proof (cases r)
        case (Inl x)
        with put stok have "ok st2 \<and> rows st2 = rows st \<and> cps st2 = cps st"
          by (auto split: if_splits dest: upsert_failed delete_failed)
        with res Inl ins show ?thesis by (simp add: synced_def)
      next
        case (Inr u)
        have aic: "ar_aic (record_of ?env a ?s) = a" by (simp add: record_of_def)
        have st2: "ok st2 \<and> rows st2 = (if dv_op ?env = Upsert then (rows st)(a \<mapsto> record_of ?env a ?s)
            else (rows st)(a := map_option (\<lambda>r. r\<lparr>ar_alive := False, ar_version := ?s\<rparr>) (rows st a)))
          \<and> cps st2 = advance k ?s off (cps st)"
        proof (cases "dv_op ?env = Upsert")
          case True
          with put Inr have "store_upsert ops (record_of ?env a ?s) k ?s off st = (Inr u, st2)" by simp
          from upsert_done [OF stok this] True aic show ?thesis by simp
        next
          case False
          with put Inr have "store_delete ops a k ?s off ?s st = (Inr u, st2)" by simp
          from delete_done [OF stok this] False show ?thesis by simp
        qed
        from in_step_applied [OF ins ev nxt i, of "rows st2" off] st2 res Inr show ?thesis
          by (simp add: synced_def)
      qed
    qed
  qed
qed

end

subsection \<open>The start of a run\<close>

lemma record_gen_complete:
  "record_gen envs stop = (recs, None) \<Longrightarrow> stop = None \<and> list_all2 (\<lambda>env r. row_to_record env = Inr r) envs recs"
  by (induction envs arbitrary: recs) (auto split: sum.splits prod.splits)

lemma row_to_recordD:
  "row_to_record env = Inr r \<Longrightarrow> aic_from_object_id (dv_id env) = Inr (ar_aic r) \<and> ar_alive r
     \<and> seq_from_str (dv_version env) = Inr (ar_version r)"
  by (auto simp: row_to_record_def codec_def split: sum.splits)

lemma map_of_rev_distinct: "distinct (map fst xs) \<Longrightarrow> map_of (rev xs) = map_of xs"
  by (simp add: map_of_inject_set rev_map [symmetric])

lemma map_of_keyed: "map_of (map (\<lambda>r. (key r, f r)) xs) a = map_option f (map_of (map (\<lambda>r. (key r, r)) xs) a)"
  by (induction xs) auto

lemma map_of_own_Some: "map_of (map (\<lambda>r. (key r, r)) xs) a = Some r \<Longrightarrow> r \<in> set xs \<and> key r = a"
  by (induction xs) (auto split: if_splits)

lemma map_of_own_None: "map_of (map (\<lambda>r. (key r, r)) xs) a = None \<longleftrightarrow> a \<notin> key ` set xs"
  by (induction xs) auto

lemma list_all2_left: "list_all2 P xs ys \<Longrightarrow> x \<in> set xs \<Longrightarrow> \<exists>y\<in>set ys. P x y"
  by (induction xs ys rule: list_all2_induct) auto

lemma list_all2_right: "list_all2 P xs ys \<Longrightarrow> y \<in> set ys \<Longrightarrow> \<exists>x\<in>set xs. P x y"
  by (induction xs ys rule: list_all2_induct) auto

text \<open>The rows of the store are the rows of the snapshot.\<close>

lemma snapshot_row_shown:
  assumes recs: "list_all2 (\<lambda>env r. row_to_record env = Inr r) envs recs"
    and shown: "rows_show envs a evs n" and rs: "rs = map_of (map (\<lambda>r. (ar_aic r, r)) recs)"
    and ver: "en_version e a = map_option ar_version (rs a)"
  shows "shows_at rs e a evs n"
proof (cases "rs a")
  case None
  have "filter (\<lambda>env. aic_from_object_id (dv_id env) = Inr a) envs = []"
  proof (rule ccontr)
    assume "filter (\<lambda>env. aic_from_object_id (dv_id env) = Inr a) envs \<noteq> []"
    then obtain env where "env \<in> set envs" "aic_from_object_id (dv_id env) = Inr a"
      by (auto simp: filter_empty_conv)
    with list_all2_left [OF recs] obtain r where "r \<in> set recs" "row_to_record env = Inr r" by blast
    with \<open>aic_from_object_id (dv_id env) = Inr a\<close> None rs show False
      by (auto simp: map_of_own_None dest!: row_to_recordD)
  qed
  with shown None ver show ?thesis by (simp add: rows_show_def shows_at_def stored_alive_def Let_def)
next
  case (Some r)
  with rs have r: "r \<in> set recs" "ar_aic r = a" by (auto dest: map_of_own_Some)
  with list_all2_right [OF recs] obtain env where env: "env \<in> set envs" "row_to_record env = Inr r" by blast
  have mine: "env \<in> set (filter (\<lambda>env. aic_from_object_id (dv_id env) = Inr a) envs)"
    using env r(2) by (auto dest: row_to_recordD)
  with shown have "alive_at a evs n" by (auto simp: rows_show_def Let_def filter_empty_conv)
  moreover from shown mine obtain v op where "latest a evs n = Some (v, op)" "seq_from_str (dv_version env) = Inr v"
    by (auto simp: rows_show_def Let_def list_all_iff)
  ultimately show ?thesis
    using Some ver row_to_recordD [OF env(2)] by (auto simp: shows_at_def stored_alive_def)
qed

lemma snapshot_no_row:
  assumes recs: "list_all2 (\<lambda>env r. row_to_record env = Inr r) envs recs"
    and rs: "rs = map_of (map (\<lambda>r. (ar_aic r, r)) recs)" and none: "no_row envs a"
  shows "rs a = None"
proof (rule ccontr)
  assume "rs a \<noteq> None"
  with rs obtain r where r: "r \<in> set recs" "ar_aic r = a" by (auto dest: map_of_own_Some)
  with list_all2_right [OF recs] obtain env where "env \<in> set envs" "row_to_record env = Inr r" by blast
  with r(2) none show False by (auto simp: no_row_def list_all_iff dest: row_to_recordD)
qed

lemma persisted_cutover:
  "persisted_seq (map_of (map (\<lambda>c. (cp_shard c, c)) (map (\<lambda>(shard, cutover). \<lparr>cp_shard = shard, cp_last_seen_seq = cutover,
      cp_cutover_seq = cutover, cp_next_offset = None, cp_generated_at = g\<rparr>) cuts))) k = cutover_of cuts k"
  by (induction cuts) (auto simp: persisted_seq_def cutover_of_def)

context alive_store
begin

lemma snapshot_synced:
  assumes stok: "ok st" and snap: "snapshot_of lg home last_read omitted meta envs"
    and run: "apply_snapshot ops meta (envs, stop) e st = (Inr e', st')"
  shows "synced lg home last_read omitted e' st'"
proof -
  from snap obtain cuts where cuts: "decode_seqs (sm_cutover meta) = Inr cuts"
      "\<And>k. 0 \<le> cutover_of cuts k \<and> cutover_of cuts k \<le> int (last_read k)"
      "\<And>a. (\<exists>n. cutover_of cuts (home a) \<le> int n \<and> n \<le> last_read (home a) \<and> rows_show envs a (lg (home a)) n)
        \<or> omitted a \<and> no_row envs a"
      and len: "\<And>k. last_read k \<le> length (lg k)"
    unfolding snapshot_of_def by blast
  let ?cs = "map (\<lambda>(shard, cutover). \<lparr>cp_shard = shard, cp_last_seen_seq = cutover,
      cp_cutover_seq = cutover, cp_next_offset = None, cp_generated_at = Some (sm_generated_at meta)\<rparr>) cuts"
  obtain recs where rep: "replace_alive_set ops (record_gen envs stop) ?cs st = (Inr (), st')"
    and recs: "recs = fst (record_gen envs stop)"
    and e': "e' = \<lparr>en_seen = map_of (rev cuts), en_version = map_of (rev (map (\<lambda>r. (ar_aic r, ar_version r)) recs)),
        en_cutover = cuts\<rparr>"
    using run cuts(1) by (auto simp: apply_snapshot_def Let_def split: prod.splits sum.splits)
  from replace_done [OF stok rep] recs have fin: "ok st'" "snd (record_gen envs stop) = None"
      "distinct (map ar_aic recs)" "distinct (map cp_shard ?cs)"
      "rows st' = map_of (map (\<lambda>r. (ar_aic r, r)) recs)" "cps st' = map_of (map (\<lambda>c. (cp_shard c, c)) ?cs)"
    by auto
  have gen: "list_all2 (\<lambda>env r. row_to_record env = Inr r) envs recs"
    using record_gen_complete [of envs stop recs] recs fin(2) by (metis prod.collapse)
  have "map fst cuts = map cp_shard ?cs" by (induction cuts) auto
  with fin(4) have dcuts: "distinct (map fst cuts)" by (simp only:)
  have seen: "seen_or_zero e' k = cutover_of cuts k" for k
    by (simp add: seen_or_zero_def cutover_of_def e' map_of_rev_distinct [OF dcuts])
  have persisted: "persisted_seq (cps st') k = cutover_of cuts k" for k
    unfolding fin(6) by (rule persisted_cutover)
  have "distinct (map fst (map (\<lambda>r. (ar_aic r, ar_version r)) recs))" using fin(3) by (simp add: comp_def)
  then have ver: "en_version e' a = map_option ar_version (rows st' a)" for a
    by (simp add: e' fin(5) map_of_rev_distinct map_of_keyed [where f = ar_version])
  have "row_versions_known (rows st') e'" by (simp add: row_versions_known_def ver)
  moreover have "positions_ok lg last_read e' (cps st')"
    unfolding positions_ok_def
  proof
    fix k
    have "0 \<le> cutover_of cuts k" "cutover_of cuts k \<le> int (last_read k)" "last_read k \<le> length (lg k)"
      using cuts(2) [of k] len [of k] by simp_all
    then show "0 \<le> persisted_seq (cps st') k \<and> persisted_seq (cps st') k \<le> seen_or_zero e' k
        \<and> seen_or_zero e' k \<le> max (persisted_seq (cps st') k) (int (last_read k))
        \<and> seen_or_zero e' k \<le> int (length (lg k)) \<and> last_read k \<le> length (lg k)"
      by (simp add: seen persisted)
  qed
  moreover have "agent_shown lg home last_read e' (rows st') a \<or> omitted a \<and> unknown_yet lg home last_read e' (rows st') a" for a
    using cuts(3) [of a]
  proof
    assume "\<exists>n. cutover_of cuts (home a) \<le> int n \<and> n \<le> last_read (home a) \<and> rows_show envs a (lg (home a)) n"
    then show ?thesis
      using snapshot_row_shown [OF gen _ fin(5) ver] seen by (fastforce simp: agent_shown_def)
  next
    assume om: "omitted a \<and> no_row envs a"
    then have "rows st' a = None" using snapshot_no_row [OF gen fin(5)] by simp
    moreover have "s \<le> int (last_read (home a))"
      if "latest a (lg (home a)) (nat (seen_or_zero e' (home a))) = Some (s, op)" for s op
      using latest_bound [OF that] cuts(2) [of "home a"] by (simp add: seen)
    ultimately show ?thesis using om ver by (auto simp: unknown_yet_def)
  qed
  ultimately show ?thesis using fin(1) by (simp add: synced_def in_step_def)
qed

lemma restart_keeps:
  assumes inv: "synced lg home last_read omitted e st" and run: "hydrate ops e0 st = (Inr u, e', st')"
  shows "synced lg home last_read omitted e' st'"
proof -
  have stok: "ok st" and ins: "in_step lg home last_read omitted e (rows st) (cps st)" using inv by (simp_all add: synced_def)
  from run obtain cs st1 vs where c: "load_checkpoints ops st = (Inr cs, st1)"
    and v: "load_local_versions ops st1 = (Inr vs, st')"
    and e': "en_seen e' = map_of (rev (map (\<lambda>cp. (cp_shard cp, cp_last_seen_seq cp)) cs))" "en_version e' = map_of (rev vs)"
    by (auto simp: hydrate_def Let_def split: prod.splits sum.splits if_splits)
  note c1 = checkpoints_reply [OF stok c] and c2 = checkpoints_keep [OF stok c]
  then have ok1: "ok st1" by simp
  note v1 = versions_reply [OF ok1 v] and v2 = versions_keep [OF ok1 v]
  have same: "rows st' = rows st" "cps st' = cps st" "ok st'" using c2 v2 by auto
  have "distinct (map fst (map (\<lambda>cp. (cp_shard cp, cp_last_seen_seq cp)) cs))" using c1 by (simp add: comp_def)
  then have seen: "seen_or_zero e' k = persisted_seq (cps st) k" for k
    using c1 by (simp add: seen_or_zero_def persisted_seq_def e' map_of_rev_distinct map_of_keyed [where f = cp_last_seen_seq]
        split: option.splits)
  have ver: "en_version e' a = map_option ar_version (rows st a)" for a
    using v1 c2 by (simp add: e' map_of_rev_distinct)
  have rvk: "row_versions_known (rows st) e" and pos: "positions_ok lg last_read e (cps st)"
    using ins by (simp_all add: in_step_def)
  have p: "0 \<le> persisted_seq (cps st) j" "persisted_seq (cps st) j \<le> seen_or_zero e j"
      "seen_or_zero e j \<le> max (persisted_seq (cps st) j) (int (last_read j))"
      "seen_or_zero e j \<le> int (length (lg j))" "last_read j \<le> length (lg j)" for j
    using pos by (auto simp: positions_ok_def)
  have "row_versions_known (rows st) e'" by (simp add: row_versions_known_def ver)
  moreover have "positions_ok lg last_read e' (cps st)"
    unfolding positions_ok_def seen using p by (meson max.cobounded1 order.refl order.trans)
  moreover have "agent_shown lg home last_read e' (rows st) a \<or> omitted a \<and> unknown_yet lg home last_read e' (rows st) a" for a
    using ins
  proof (cases rule: in_stepD [where a = a])
    case 1
    then obtain n where n: "seen_or_zero e (home a) \<le> int n"
        "int n \<le> max (seen_or_zero e (home a)) (int (last_read (home a)))" "shows_at (rows st) e a (lg (home a)) n"
      unfolding agent_shown_def by blast
    have "shows_at (rows st) e' a (lg (home a)) n"
      using n(3) rvk by (auto simp: shows_at_def ver row_versions_known_def)
    with n(1,2) p [of "home a"] show ?thesis unfolding agent_shown_def seen by (intro disjI1 exI [of _ n]) auto
  next
    case 2
    have "s \<le> int (last_read (home a))"
      if l: "latest a (lg (home a)) (nat (seen_or_zero e' (home a))) = Some (s, op)" for s op
    proof -
      have "nat (seen_or_zero e' (home a)) \<le> nat (seen_or_zero e (home a))" using p [of "home a"] by (simp add: seen)
      with latest_mono [OF l] obtain s' op' where "latest a (lg (home a)) (nat (seen_or_zero e (home a))) = Some (s', op')" "s \<le> s'"
        by blast
      with 2 show ?thesis by (fastforce simp: unknown_yet_def)
    qed
    with 2 show ?thesis by (auto simp: unknown_yet_def ver)
  qed
  ultimately show ?thesis using same by (simp add: synced_def in_step_def)
qed

lemma follow_keeps:
  "log_ok lg home \<Longrightarrow> synced lg home last_read omitted e st \<Longrightarrow> follow ops lg evs e st = Some (e', st')
    \<Longrightarrow> synced lg home last_read omitted e' st'"
proof (induction evs arbitrary: e st)
  case (Cons ev evs)
  show ?case
  proof (cases ev)
    case (Deliver k i off)
    obtain y e1 st1 where d: "apply_delta ops (lg k ! i) off e st = (y, e1, st1)"
      by (cases "apply_delta ops (lg k ! i) off e st")
    with Cons.prems Deliver have "i < length (lg k)" "follow ops lg evs e1 st1 = Some (e', st')"
      by (simp_all split: if_splits)
    with Cons.IH Cons.prems(1,2) deliver_keeps d show ?thesis by blast
  next
    case Restart
    with Cons.prems(3) obtain u e1 st1 where "hydrate ops new_engine st = (Inr u, e1, st1)"
        "follow ops lg evs e1 st1 = Some (e', st')"
      by (auto split: prod.splits sum.splits)
    with Cons.IH Cons.prems(1,2) restart_keeps show ?thesis by blast
  qed
qed simp

end

text \<open>
  Where the position of a shard has passed the snapshot, its AICs are as the log says; an omitted one,
  from the first event after the snapshot on.
\<close>

definition caught_up ::
  "(string \<Rightarrow> alive_delta list) \<Rightarrow> (string \<Rightarrow> string) \<Rightarrow> (string \<Rightarrow> nat) \<Rightarrow> (string \<Rightarrow> bool) \<Rightarrow> engine \<Rightarrow> string \<Rightarrow> bool" where
  "caught_up lg home last_read omitted e a \<longleftrightarrow>
     int (last_read (home a)) \<le> seen_or_zero e (home a)
     \<and> (omitted a \<longrightarrow> (case latest a (lg (home a)) (nat (seen_or_zero e (home a))) of
          None \<Rightarrow> False | Some (s, _) \<Rightarrow> s > int (last_read (home a))))"

context alive_store
begin

lemma synced_alive:
  assumes "synced lg home last_read omitted e st" and up: "caught_up lg home last_read omitted e a"
  shows "stored_alive (rows st) a = alive_at a (lg (home a)) (nat (seen_or_zero e (home a)))"
proof -
  have "in_step lg home last_read omitted e (rows st) (cps st)" using assms(1) by (simp add: synced_def)
  then have "agent_shown lg home last_read e (rows st) a"
    using up by (cases rule: in_stepD [where a = a]) (auto simp: unknown_yet_def caught_up_def split: option.splits)
  then obtain n where "seen_or_zero e (home a) \<le> int n"
      "int n \<le> max (seen_or_zero e (home a)) (int (last_read (home a)))" "shows_at (rows st) e a (lg (home a)) n"
    unfolding agent_shown_def by blast
  moreover with up have "n = nat (seen_or_zero e (home a))" by (simp add: caught_up_def)
  ultimately show ?thesis by (simp add: shows_at_def)
qed

lemma synced_positions:
  "synced lg home last_read omitted e st
    \<Longrightarrow> persisted_seq (cps st) k \<le> seen_or_zero e k \<and> seen_or_zero e k \<le> int (length (lg k))"
  by (simp add: synced_def in_step_def positions_ok_def)

lemma converges:
  assumes "log_ok lg home" and "ok st" and "snapshot_of lg home last_read omitted meta envs"
    and "apply_snapshot ops meta (envs, stop) e st = (Inr e1, st1)" and "follow ops lg evs e1 st1 = Some (e2, st2)"
  shows "(caught_up lg home last_read omitted e2 a \<longrightarrow>
      stored_alive (rows st2) a = alive_at a (lg (home a)) (nat (seen_or_zero e2 (home a))))
    \<and> persisted_seq (cps st2) k \<le> seen_or_zero e2 k \<and> seen_or_zero e2 k \<le> int (length (lg k))"
  using synced_alive synced_positions follow_keeps [OF assms(1) snapshot_synced [OF assms(2,3,4)] assms(5)] by blast

end

end
