(* ===== verification/HbProvider.thy ===== *)
theory HbProvider
  imports HbRedis AliveConverge
begin

text \<open>
  What the heartbeat state of the monitor is a state of: a log. The history of a shard is every entry its outbox
  ever got; the envelopes the relay builds from it are the log of the shard. After any calls of the three
  writing functions, in any order and by any process, the hash of every agent shows exactly what the log says.
\<close>

subsection \<open>Envelopes\<close>

datatype relay_exn = RelayKeyError string | RelayCallFailed

definition build_envelope :: "(int \<Rightarrow> string) \<Rightarrow> string \<Rightarrow> outbox_fields \<Rightarrow> (relay_exn, alive_delta) result" where
  "build_envelope ms_to_iso shard fs =
     (let envelope = (\<lambda>payload. \<lparr>dv_shard = shard, dv_seq = seq_to_str (of_seq fs), dv_id = alive_object_id (of_aic fs),
            dv_version = seq_to_str (of_seq fs), dv_op = of_op fs, dv_kind = of_kind fs, dv_payload = payload\<rparr>)
      in if of_op fs = Upsert then
           (case of_seen_ms fs of
              None \<Rightarrow> Inl (RelayKeyError ''last_seen_at_ms'')
            | Some ms \<Rightarrow> Inr (envelope (Some \<lparr>en_aic = of_aic fs, en_last_seen_at = ms_to_iso ms,
                en_source_timestamp = map_option ms_to_iso (of_source_ms fs)\<rparr>)))
         else Inr (envelope None))"

definition log_of :: "(int \<Rightarrow> string) \<Rightarrow> string \<Rightarrow> outbox_fields list \<Rightarrow> alive_delta list" where
  "log_of ms_to_iso shard history =
     concat (map (\<lambda>fs. case build_envelope ms_to_iso shard fs of Inl _ \<Rightarrow> [] | Inr e \<Rightarrow> [e]) history)"

text \<open>What a call adds to the history: a call adds an entry exactly when it draws a sequence number.\<close>

definition emitted :: "hb_shard \<Rightarrow> hb_shard \<Rightarrow> outbox_fields list" where
  "emitted sh sh' = (if hs_seq sh' = hs_seq sh then [] else [snd (last (hs_outbox sh'))])"

subsection \<open>The invariant of a shard\<close>

text \<open>The sorted set has the agents that are marked alive, by the time they were last seen.\<close>

definition zset_ok :: "(string \<Rightarrow> latest_hash option) \<Rightarrow> (string \<times> int) list \<Rightarrow> bool" where
  "zset_ok latest_of z \<longleftrightarrow> sorted (map snd z) \<and> distinct (map fst z)
     \<and> (\<forall>a s. (a, s) \<in> set z \<longleftrightarrow> (\<exists>h. latest_of a = Some h \<and> lh_membership h = MAlive \<and> lh_seen_ms h = s))"

definition hash_shows :: "alive_delta list \<Rightarrow> string \<Rightarrow> latest_hash option \<Rightarrow> bool" where
  "hash_shows evs a hash \<longleftrightarrow>
     (case hash of
        None \<Rightarrow> \<not> alive_at a evs (length evs)
      | Some h \<Rightarrow> (lh_membership h = MAlive) = alive_at a evs (length evs)
          \<and> (\<exists>s op. latest a evs (length evs) = Some (s, op) \<and> lh_delta_seq h = Some s))"

definition log_events_ok :: "(string \<Rightarrow> string) \<Rightarrow> string \<Rightarrow> alive_delta list \<Rightarrow> bool" where
  "log_events_ok home k evs \<longleftrightarrow> (\<forall>i<length evs. \<exists>a. event_of (evs ! i) k a (int i + 1) \<and> home a = k)"

definition published_ok :: "hb_shard \<Rightarrow> bool" where
  "published_ok sh \<longleftrightarrow> (case hs_published sh of None \<Rightarrow> True | Some p \<Rightarrow> 0 \<le> p \<and> p \<le> hs_seq sh)"

definition shard_inv :: "(string \<Rightarrow> string) \<Rightarrow> string \<Rightarrow> alive_delta list \<Rightarrow> hb_shard \<Rightarrow> bool" where
  "shard_inv home k evs sh \<longleftrightarrow>
     hs_seq sh = int (length evs) \<and> log_events_ok home k evs \<and> published_ok sh
     \<and> zset_ok (hs_latest sh) (hs_zset sh)
     \<and> (\<forall>a. hash_shows evs a (hs_latest sh a)) \<and> (\<forall>a. hs_latest sh a \<noteq> None \<longrightarrow> home a = k)"

subsection \<open>The sorted set\<close>

lemma set_z_insert [simp]: "set (z_insert x z) = insert x (set z)"
  by (induction z) auto

lemma sorted_z_insert: "sorted (map snd z) \<Longrightarrow> sorted (map snd (z_insert x z))"
  by (induction z) (auto simp: z_before_def)

lemma distinct_z_insert: "distinct (map fst (z_insert x z)) = distinct (fst x # map fst z)"
  by (induction z) auto

lemma sorted_zrem: "sorted (map snd z) \<Longrightarrow> sorted (map snd (zrem m z))"
  by (induction z) (auto simp: zrem_def)

lemma zset_ok_rem:
  assumes "zset_ok l z" and "\<And>h. h0 = Some h \<Longrightarrow> lh_membership h = MLeft"
  shows "zset_ok (l(a := h0)) (zrem a z)"
proof -
  have "distinct (map fst (zrem a z))"
    using assms(1) by (auto simp: zset_ok_def zrem_def distinct_map inj_on_def)
  moreover have "(b, s) \<in> set (zrem a z) \<longleftrightarrow> (\<exists>h. (l(a := h0)) b = Some h \<and> lh_membership h = MAlive \<and> lh_seen_ms h = s)" for b s
    using assms by (auto simp: zset_ok_def zrem_def)
  ultimately show ?thesis using assms(1) by (simp add: zset_ok_def sorted_zrem)
qed

lemma zset_ok_add:
  assumes "zset_ok l z" and "lh_membership h = MAlive" and "lh_seen_ms h = s"
  shows "zset_ok (l(a \<mapsto> h)) (zadd a s z)"
proof -
  have "a \<notin> fst ` set (zrem a z)" by (auto simp: zrem_def)
  moreover have "distinct (map fst (zrem a z))"
    using assms(1) by (auto simp: zset_ok_def zrem_def distinct_map inj_on_def)
  moreover have "(b, t) \<in> set (zadd a s z) \<longleftrightarrow> (\<exists>h'. (l(a \<mapsto> h)) b = Some h' \<and> lh_membership h' = MAlive \<and> lh_seen_ms h' = t)" for b t
    using assms by (auto simp: zset_ok_def zadd_def zrem_def)
  ultimately show ?thesis
    using assms(1) by (simp add: zset_ok_def zadd_def sorted_z_insert sorted_zrem distinct_z_insert)
qed

text \<open>A change of a hash that keeps what the sorted set depends on.\<close>

lemma zset_ok_same:
  assumes "zset_ok l z" and "l a = Some h" and "lh_membership h' = lh_membership h" and "lh_seen_ms h' = lh_seen_ms h"
  shows "zset_ok (l(a \<mapsto> h')) z"
  using assms by (auto simp: zset_ok_def)

subsection \<open>The log grows\<close>

lemma latest_append: "n \<le> length xs \<Longrightarrow> latest a (xs @ ys) n = latest a xs n"
  by (induction n) (auto simp: nth_append)

lemma latest_snoc:
  "latest a (evs @ [e]) (Suc (length evs))
    = (if aic_from_object_id (dv_id e) = Inr a then Some (int (length evs) + 1, dv_op e) else latest a evs (length evs))"
  by (simp add: latest_append)

lemma log_events_snoc:
  "log_events_ok home k evs \<Longrightarrow> event_of e k a (int (length evs) + 1) \<Longrightarrow> home a = k \<Longrightarrow> log_events_ok home k (evs @ [e])"
  by (auto simp: log_events_ok_def nth_append less_Suc_eq)

lemma shard_inv_emit:
  assumes inv: "shard_inv home k evs sh" and ev: "event_of e k a (int (length evs) + 1)" and home: "home a = k"
    and sh': "hs_seq sh' = hs_seq sh + 1" "hs_latest sh' = (hs_latest sh)(a := hash)" "hs_published sh' = hs_published sh"
    and z: "zset_ok (hs_latest sh') (hs_zset sh')"
    and hash: "case hash of None \<Rightarrow> dv_op e = Delete
      | Some h \<Rightarrow> (lh_membership h = MAlive) = (dv_op e = Upsert) \<and> lh_delta_seq h = Some (int (length evs) + 1)"
  shows "shard_inv home k (evs @ [e]) sh'"
proof -
  have about: "aic_from_object_id (dv_id e) = Inr a" using ev by (simp add: event_of_def)
  have "hash_shows (evs @ [e]) b (hs_latest sh' b)" for b
  proof (cases "b = a")
    case True
    with hash about sh'(2) show ?thesis
      by (auto simp: hash_shows_def alive_at_def latest_append split: option.splits)
  next
    case False
    then have "latest b (evs @ [e]) (length (evs @ [e])) = latest b evs (length evs)"
      using about by (simp add: latest_append)
    then have "hash_shows (evs @ [e]) b (hs_latest sh b) = hash_shows evs b (hs_latest sh b)"
      by (simp only: hash_shows_def alive_at_def)
    with inv False sh'(2) show ?thesis by (simp add: shard_inv_def)
  qed
  moreover have "log_events_ok home k (evs @ [e])"
    using inv ev home by (auto simp: shard_inv_def intro: log_events_snoc)
  moreover have "published_ok sh'"
    using inv sh'(1,3) by (auto simp: shard_inv_def published_ok_def split: option.splits)
  ultimately show ?thesis
    using inv sh' z home by (auto simp: shard_inv_def)
qed

lemma shard_inv_quiet:
  assumes inv: "shard_inv home k evs sh"
    and sh': "hs_seq sh' = hs_seq sh" "hs_latest sh' = (hs_latest sh)(a := hash)" "hs_published sh' = hs_published sh"
    and z: "zset_ok (hs_latest sh') (hs_zset sh')"
    and hash: "hash_shows evs a hash" "hash \<noteq> None \<longrightarrow> home a = k"
  shows "shard_inv home k evs sh'"
proof -
  have "published_ok sh'"
    using inv unfolding shard_inv_def published_ok_def sh'(1) sh'(3) by simp
  moreover have "hash_shows evs b (hs_latest sh' b)" "hs_latest sh' b \<noteq> None \<longrightarrow> home b = k" for b
    using inv sh'(2) hash by (auto simp: shard_inv_def)
  ultimately show ?thesis using inv sh'(1) z by (simp add: shard_inv_def)
qed

subsection \<open>The functions keep the invariant\<close>

lemma xadd_keeps [simp]:
  "hs_seq (xadd_outbox mo m f sh) = hs_seq sh" "hs_latest (xadd_outbox mo m f sh) = hs_latest sh"
  "hs_zset (xadd_outbox mo m f sh) = hs_zset sh" "hs_published (xadd_outbox mo m f sh) = hs_published sh"
  "hs_group (xadd_outbox mo m f sh) = hs_group sh" "hs_epoch (xadd_outbox mo m f sh) = hs_epoch sh"
  by (simp_all add: xadd_outbox_def Let_def)

lemma xadd_last: "snd (last (hs_outbox (xadd_outbox mo m f sh))) = f"
  by (simp add: xadd_outbox_def Let_def drop_append)

lemma log_of_append: "log_of fmt k (xs @ ys) = log_of fmt k xs @ log_of fmt k ys"
  by (simp add: log_of_def)

lemma log_of_Nil [simp]: "log_of fmt k [] = []"
  by (simp add: log_of_def)

definition writable :: "outbox_fields \<Rightarrow> bool" where
  "writable fs \<longleftrightarrow> (of_op fs = Upsert \<longrightarrow> of_seen_ms fs \<noteq> None) \<and> 0 \<le> of_seq fs"

lemma envelope_of:
  assumes "writable fs"
  obtains e where "log_of fmt k [fs] = [e]" "event_of e k (of_aic fs) (of_seq fs)" "dv_op e = of_op fs"
proof -
  from assms obtain e where e: "build_envelope fmt k fs = Inr e" "dv_shard e = k" "dv_id e = alive_object_id (of_aic fs)"
      "dv_seq e = seq_to_str (of_seq fs)" "dv_version e = seq_to_str (of_seq fs)" "dv_op e = of_op fs"
    by (cases "of_op fs = Upsert"; cases "of_seen_ms fs") (auto simp: writable_def build_envelope_def Let_def)
  have "seq_from_str (seq_to_str (of_seq fs)) = Inr (of_seq fs)"
    using assms by (simp add: writable_def seq_to_str_def int_to_str_def)
  with e that [of e] show thesis by (simp add: log_of_def event_of_def)
qed

text \<open>A call that draws a number and adds one entry about an agent.\<close>

lemma emitted_inv:
  assumes inv: "shard_inv home k (log_of fmt k hist) sh" and home: "home (of_aic fs) = k"
    and fs: "writable fs" "of_seq fs = hs_seq sh + 1"
    and out: "snd (last (hs_outbox sh')) = fs"
    and sh': "hs_seq sh' = hs_seq sh + 1" "hs_latest sh' = (hs_latest sh)(of_aic fs := hash)" "hs_published sh' = hs_published sh"
    and z: "zset_ok (hs_latest sh') (hs_zset sh')"
    and hash: "case hash of None \<Rightarrow> of_op fs = Delete
      | Some h \<Rightarrow> (lh_membership h = MAlive) = (of_op fs = Upsert) \<and> lh_delta_seq h = Some (of_seq fs)"
  shows "shard_inv home k (log_of fmt k (hist @ emitted sh sh')) sh'"
proof -
  obtain e where e: "log_of fmt k [fs] = [e]" "event_of e k (of_aic fs) (of_seq fs)" "dv_op e = of_op fs"
    by (rule envelope_of [OF fs(1)])
  have len: "hs_seq sh = int (length (log_of fmt k hist))" using inv by (simp add: shard_inv_def)
  have "shard_inv home k (log_of fmt k hist @ [e]) sh'"
    by (rule shard_inv_emit [OF inv _ home sh' z]) (use e fs(2) len hash in \<open>simp_all cong: option.case_cong\<close>)
  then show ?thesis using sh'(1) out e(1) by (simp add: emitted_def log_of_append)
qed

lemma quiet_inv:
  assumes inv: "shard_inv home k (log_of fmt k hist) sh"
    and sh': "hs_seq sh' = hs_seq sh" "hs_latest sh' = (hs_latest sh)(a := hash)" "hs_published sh' = hs_published sh"
    and z: "zset_ok (hs_latest sh') (hs_zset sh')"
    and hash: "hash_shows (log_of fmt k hist) a hash" "hash \<noteq> None \<longrightarrow> home a = k"
  shows "shard_inv home k (log_of fmt k (hist @ emitted sh sh')) sh'"
  using shard_inv_quiet [OF assms] sh'(1) by (simp add: emitted_def)

lemma apply_inv:
  assumes inv: "shard_inv home k (log_of fmt k hist) sh" and home: "home aic = k"
    and run: "hb_apply_heartbeat mo refresh m aic t tiso src sh = (res, sh')"
  shows "shard_inv home k (log_of fmt k (hist @ emitted sh sh')) sh'"
proof -
  let ?prev = "hs_latest sh aic"
  have zok: "zset_ok (hs_latest sh) (hs_zset sh)" and shown: "hash_shows (log_of fmt k hist) aic ?prev"
    and pos: "0 \<le> hs_seq sh" using inv by (simp_all add: shard_inv_def)
  show ?thesis
  proof (cases "case ?prev of None \<Rightarrow> False | Some h \<Rightarrow> t \<le> lh_seen_ms h")
    case True
    with run have "sh' = sh" by (simp add: hb_apply_heartbeat_def Let_def)
    with inv show ?thesis by (simp add: emitted_def)
  next
    case False
    obtain h1 where h1: "h1 = (case ?prev of
          None \<Rightarrow> \<lparr>lh_seen_ms = t, lh_seen = tiso, lh_membership = MAlive, lh_source_ms = src, lh_delta_seen_ms = None, lh_delta_seq = None\<rparr>
        | Some h \<Rightarrow> h\<lparr>lh_seen_ms := t, lh_seen := tiso, lh_membership := MAlive,
            lh_source_ms := (if src \<noteq> None then src else lh_source_ms h)\<rparr>)" by blast
    have al: "lh_membership h1 = MAlive" "lh_seen_ms h1 = t" by (simp_all add: h1 split: option.splits)
    show ?thesis
    proof (cases "delta_kind_of ?prev t refresh")
      case None
      with False run h1 have sh': "hs_seq sh' = hs_seq sh" "hs_latest sh' = (hs_latest sh)(aic \<mapsto> h1)"
          "hs_published sh' = hs_published sh" "hs_zset sh' = zadd aic t (hs_zset sh)"
        by (auto simp: hb_apply_heartbeat_def Let_def)
      from None obtain h where h: "?prev = Some h" "lh_membership h = MAlive"
        by (auto simp: delta_kind_of_def split: option.splits membership.splits)
      have "hash_shows (log_of fmt k hist) aic (Some h1)"
        using shown al h by (auto simp: hash_shows_def h1)
      then show ?thesis
        by (intro quiet_inv [OF inv sh'(1-3)]) (simp_all add: sh' zset_ok_add [OF zok al] home)
    next
      case (Some kind)
      obtain fs where fs: "fs = \<lparr>of_seq = hs_seq sh + 1, of_kind = kind, of_op = Upsert, of_aic = aic,
          of_seen_ms = Some t, of_source_ms = src, of_reason = None\<rparr>" by blast
      obtain h2 where h2: "h2 = h1\<lparr>lh_delta_seen_ms := Some t, lh_delta_seq := Some (hs_seq sh + 1)\<rparr>" by blast
      have al2: "lh_membership h2 = MAlive" "lh_seen_ms h2 = t" using al by (simp_all add: h2)
      from Some False run h1 have sh': "hs_seq sh' = hs_seq sh + 1" "hs_latest sh' = (hs_latest sh)(aic \<mapsto> h2)"
          "hs_published sh' = hs_published sh" "hs_zset sh' = zadd aic t (hs_zset sh)" "snd (last (hs_outbox sh')) = fs"
        by (auto simp: hb_apply_heartbeat_def Let_def h2 fs xadd_last)
      show ?thesis
        by (rule emitted_inv [OF inv _ _ _ sh'(5) sh'(1) _ sh'(3), where hash = "Some h2"])
           (use pos home sh' al2 zset_ok_add [OF zok al2] in \<open>simp_all add: fs writable_def h2\<close>)
    qed
  qed
qed

lemma leave_fields_simps [simp]:
  "of_seq (leave_fields s aic why) = s" "of_op (leave_fields s aic why) = Delete" "of_aic (leave_fields s aic why) = aic"
  by (simp_all add: leave_fields_def)

lemma silent_inv:
  assumes inv: "shard_inv home k (log_of fmt k hist) sh" and run: "hb_mark_silent_one mo thr m aic sh = (res, sh')"
  shows "shard_inv home k (log_of fmt k (hist @ emitted sh sh')) sh'"
proof -
  have zok: "zset_ok (hs_latest sh) (hs_zset sh)" and shown: "hash_shows (log_of fmt k hist) aic (hs_latest sh aic)"
    and pos: "0 \<le> hs_seq sh" and home: "hs_latest sh aic \<noteq> None \<longrightarrow> home aic = k"
    using inv by (simp_all add: shard_inv_def)
  show ?thesis
  proof (cases "hs_latest sh aic")
    case None
    then have upd: "(hs_latest sh)(aic := None) = hs_latest sh" by (simp add: fun_upd_idem)
    from None run have sh': "sh' = sh\<lparr>hs_zset := zrem aic (hs_zset sh)\<rparr>" by (auto simp: hb_mark_silent_one_def)
    show ?thesis
      by (rule quiet_inv [OF inv, where hash = None and a = aic])
         (use shown None zset_ok_rem [OF zok, of None aic] in \<open>simp_all add: sh' upd\<close>)
  next
    case (Some h)
    show ?thesis
    proof (cases "lh_membership h = MLeft \<or> rm_now mo - lh_seen_ms h \<le> thr")
      case True
      with Some run have "sh' = sh" by (auto simp: hb_mark_silent_one_def Let_def split: if_splits)
      with inv show ?thesis by (simp add: emitted_def)
    next
      case False
      obtain h2 where h2: "h2 = h\<lparr>lh_membership := MLeft, lh_delta_seq := Some (hs_seq sh + 1)\<rparr>" by blast
      from Some False run have sh': "hs_seq sh' = hs_seq sh + 1" "hs_latest sh' = (hs_latest sh)(aic \<mapsto> h2)"
          "hs_published sh' = hs_published sh" "hs_zset sh' = zrem aic (hs_zset sh)"
          "snd (last (hs_outbox sh')) = leave_fields (hs_seq sh + 1) aic ''silent''"
        by (auto simp: hb_mark_silent_one_def Let_def h2 xadd_last)
      have z: "zset_ok (hs_latest sh') (hs_zset sh')"
        unfolding sh' by (rule zset_ok_rem [OF zok]) (simp add: h2)
      show ?thesis
        by (rule emitted_inv [OF inv _ _ _ sh'(5) sh'(1) _ sh'(3) z, where hash = "Some h2"])
           (use pos home Some sh' in \<open>simp_all add: writable_def h2\<close>)
    qed
  qed
qed

lemma evict_inv:
  assumes inv: "shard_inv home k (log_of fmt k hist) sh" and run: "hb_evict_one mo after m aic sh = (res, sh')"
  shows "shard_inv home k (log_of fmt k (hist @ emitted sh sh')) sh'"
proof -
  have zok: "zset_ok (hs_latest sh) (hs_zset sh)" and shown: "hash_shows (log_of fmt k hist) aic (hs_latest sh aic)"
    and pos: "0 \<le> hs_seq sh" and home: "hs_latest sh aic \<noteq> None \<longrightarrow> home aic = k"
    using inv by (simp_all add: shard_inv_def)
  have zrem: "zset_ok ((hs_latest sh)(aic := None)) (zrem aic (hs_zset sh))"
    by (rule zset_ok_rem [OF zok]) simp
  show ?thesis
  proof (cases "case hs_latest sh aic of None \<Rightarrow> True | Some h \<Rightarrow> rm_now mo - lh_seen_ms h \<le> after")
    case True
    with run have "sh' = sh" by (auto simp: hb_evict_one_def split: option.splits)
    with inv show ?thesis by (simp add: emitted_def)
  next
    case False
    then obtain h where h: "hs_latest sh aic = Some h" "\<not> rm_now mo - lh_seen_ms h \<le> after"
      by (auto split: option.splits)
    show ?thesis
    proof (cases "lh_membership h")
      case MLeft
      with h run have sh': "sh' = sh\<lparr>hs_latest := (hs_latest sh)(aic := None), hs_zset := zrem aic (hs_zset sh)\<rparr>"
        by (auto simp: hb_evict_one_def Let_def)
      show ?thesis
        by (rule quiet_inv [OF inv, where hash = None and a = aic])
           (use shown h MLeft zrem in \<open>simp_all add: sh' hash_shows_def\<close>)
    next
      case MAlive
      with h run have sh': "hs_seq sh' = hs_seq sh + 1" "hs_latest sh' = (hs_latest sh)(aic := None)"
          "hs_published sh' = hs_published sh" "hs_zset sh' = zrem aic (hs_zset sh)"
          "snd (last (hs_outbox sh')) = leave_fields (hs_seq sh + 1) aic ''evict_repair''"
        by (auto simp: hb_evict_one_def Let_def xadd_last)
      show ?thesis
        by (rule emitted_inv [OF inv _ _ _ sh'(5) sh'(1) _ sh'(3), where hash = None])
           (use pos home h sh' zrem in \<open>simp_all add: writable_def\<close>)
    qed
  qed
qed

subsection \<open>Runs\<close>

text \<open>
  One step is one atomic call: by a writer, by a reconciler for any agent of any shard, or by a relay,
  which leaves the agents and the counter alone and publishes a position it has reached.
\<close>

record hb_env =
  env_sha256 :: "8 word list \<Rightarrow> 8 word list"
  env_iso :: "int \<Rightarrow> string"
  env_settings :: hb_settings

abbreviation home_of :: "hb_env \<Rightarrow> string \<Rightarrow> string" where
  "home_of E \<equiv> shard_id_for_aic (env_sha256 E) (set_shard_count (env_settings E))"

datatype hb_event =
    HbApply redis_moment string int "int option"
  | HbSilent redis_moment string string
  | HbEvict redis_moment string string
  | HbRelay string hb_shard

definition relay_change :: "hb_shard \<Rightarrow> hb_shard \<Rightarrow> bool" where
  "relay_change sh sh' \<longleftrightarrow> hs_latest sh' = hs_latest sh \<and> hs_zset sh' = hs_zset sh \<and> hs_seq sh' = hs_seq sh
     \<and> hs_last_id sh' = hs_last_id sh \<and> published_ok sh'"

fun hb_exec :: "hb_env \<Rightarrow> hb_event \<Rightarrow> hb_redis \<Rightarrow> hb_redis" where
  "hb_exec E (HbApply mo aic t src) r = snd (apply_heartbeat (env_sha256 E) (env_iso E) (env_settings E) mo aic t src r)"
| "hb_exec E (HbSilent mo shard aic) r = snd (mark_silent_one (env_settings E) mo shard aic r)"
| "hb_exec E (HbEvict mo shard aic) r = snd (evict_one (env_settings E) mo shard aic r)"
| "hb_exec E (HbRelay shard sh) r = r(shard := sh)"

fun hb_allowed :: "hb_event \<Rightarrow> hb_redis \<Rightarrow> bool" where
  "hb_allowed (HbRelay shard sh) r = relay_change (r shard) sh"
| "hb_allowed _ r = True"

type_synonym hb_histories = "string \<Rightarrow> outbox_fields list"

inductive hb_step :: "hb_env \<Rightarrow> hb_redis \<times> hb_histories \<Rightarrow> hb_redis \<times> hb_histories \<Rightarrow> bool" for E where
  hb_stepI: "hb_allowed ev r \<Longrightarrow> hb_step E (r, h) (hb_exec E ev r, \<lambda>k. h k @ emitted (r k) (hb_exec E ev r k))"

inductive_cases hb_stepE: "hb_step E (r, h) (r', h')"

definition hb_start :: "hb_redis \<times> hb_histories" where
  "hb_start = ((\<lambda>_. empty_shard), (\<lambda>_. []))"

definition provider_inv :: "hb_env \<Rightarrow> (int \<Rightarrow> string) \<Rightarrow> hb_redis \<Rightarrow> hb_histories \<Rightarrow> bool" where
  "provider_inv E fmt r h \<longleftrightarrow> (\<forall>k. shard_inv (home_of E) k (log_of fmt k (h k)) (r k))"

lemma provider_inv_start: "provider_inv E fmt (fst hb_start) (snd hb_start)"
  by (simp add: provider_inv_def hb_start_def shard_inv_def empty_shard_def log_events_ok_def published_ok_def zset_ok_def
      hash_shows_def alive_at_def)

lemma hb_exec_other:
  "\<exists>shard. \<forall>k. k \<noteq> shard \<longrightarrow> hb_exec E ev r k = r k"
  by (cases ev) (auto simp: apply_heartbeat_def mark_silent_one_def evict_one_def on_shard_def Let_def split: prod.splits)

lemma hb_step_inv:
  assumes inv: "provider_inv E fmt r h" and ok: "hb_allowed ev r"
  shows "shard_inv (home_of E) k (log_of fmt k (h k @ emitted (r k) (hb_exec E ev r k))) (hb_exec E ev r k)"
proof -
  have here: "shard_inv (home_of E) k (log_of fmt k (h k)) (r k)" using inv by (simp add: provider_inv_def)
  have same: "shard_inv (home_of E) k (log_of fmt k (h k @ emitted (r k) (r k))) (r k)"
    using here by (simp add: emitted_def)
  show ?thesis
  proof (cases ev)
    case (HbApply mo aic t src)
    obtain res sh' where f: "hb_apply_heartbeat mo (set_refresh_s (env_settings E) * 1000)
        (set_outbox_max_len (env_settings E)) aic t (env_iso E t) src (r (home_of E aic)) = (res, sh')"
      by (cases "hb_apply_heartbeat mo (set_refresh_s (env_settings E) * 1000)
        (set_outbox_max_len (env_settings E)) aic t (env_iso E t) src (r (home_of E aic))")
    then have ex: "hb_exec E ev r = r(home_of E aic := sh')"
      by (auto simp: HbApply apply_heartbeat_def on_shard_def Let_def split: prod.splits)
    show ?thesis
    proof (cases "k = home_of E aic")
      case True
      then show ?thesis using apply_inv [OF here True [symmetric] f [folded True]] by (simp add: ex)
    qed (use ex same in simp)
  next
    case (HbSilent mo shard aic)
    obtain res sh' where f: "hb_mark_silent_one mo (set_silence_s (env_settings E) * 1000)
        (set_outbox_max_len (env_settings E)) aic (r shard) = (res, sh')"
      by (cases "hb_mark_silent_one mo (set_silence_s (env_settings E) * 1000)
        (set_outbox_max_len (env_settings E)) aic (r shard)")
    then have ex: "hb_exec E ev r = r(shard := sh')"
      by (auto simp: HbSilent mark_silent_one_def on_shard_def Let_def split: prod.splits)
    show ?thesis
    proof (cases "k = shard")
      case True
      then show ?thesis using silent_inv [OF here f [folded True]] by (simp add: ex)
    qed (use ex same in simp)
  next
    case (HbEvict mo shard aic)
    obtain res sh' where f: "hb_evict_one mo (set_evict_s (env_settings E) * 1000)
        (set_outbox_max_len (env_settings E)) aic (r shard) = (res, sh')"
      by (cases "hb_evict_one mo (set_evict_s (env_settings E) * 1000)
        (set_outbox_max_len (env_settings E)) aic (r shard)")
    then have ex: "hb_exec E ev r = r(shard := sh')"
      by (auto simp: HbEvict evict_one_def on_shard_def Let_def split: prod.splits)
    show ?thesis
    proof (cases "k = shard")
      case True
      then show ?thesis using evict_inv [OF here f [folded True]] by (simp add: ex)
    qed (use ex same in simp)
  next
    case (HbRelay shard sh)
    show ?thesis
    proof (cases "k = shard")
      case True
      with ok HbRelay have c: "relay_change (r k) sh" by simp
      then have "shard_inv (home_of E) k (log_of fmt k (h k)) sh"
        using here by (simp add: shard_inv_def relay_change_def)
      with True HbRelay c show ?thesis by (simp add: emitted_def relay_change_def)
    qed (use HbRelay same in simp)
  qed
qed

lemma hb_steps_inv:
  "(hb_step E)\<^sup>*\<^sup>* s s' \<Longrightarrow> provider_inv E fmt (fst s) (snd s) \<Longrightarrow> provider_inv E fmt (fst s') (snd s')"
proof (induction rule: rtranclp_induct)
  case (step y z)
  then have inv: "provider_inv E fmt (fst y) (snd y)" by blast
  obtain r h r' h' where [simp]: "y = (r, h)" "z = (r', h')" by (cases y; cases z)
  from step.hyps(2) inv show ?case
    by (auto elim!: hb_stepE simp: provider_inv_def intro: hb_step_inv [unfolded provider_inv_def])
qed simp

lemma hb_steps_grow: "(hb_step E)\<^sup>*\<^sup>* s s' \<Longrightarrow> \<exists>more. snd s' k = snd s k @ more"
proof (induction rule: rtranclp_induct)
  case (step y z)
  obtain r h r' h' where [simp]: "y = (r, h)" "z = (r', h')" by (cases y; cases z)
  from step.hyps(2) step.IH show ?case by (auto elim!: hb_stepE)
qed simp

subsection \<open>What the state shows\<close>

text \<open>
  C7: The state the monitor keeps is what its log says. After any interleaving of heartbeats, silence marks,
  evictions and relay steps, the counter of a shard is the length of its log, event number \<open>i\<close> has sequence number
  and version \<open>i + 1\<close> and is about an agent of the shard; an agent is marked alive exactly if the last event
  about it is an upsert, and then the hash has the number of that event; and the sorted set has exactly the agents
  marked alive, each once and in the order of the time they were last seen.
\<close>
theorem heartbeat_state_is_log:
  assumes "(hb_step E)\<^sup>*\<^sup>* hb_start (r, h)"
  shows "hs_seq (r k) = int (length (log_of fmt k (h k)))
    \<and> log_ok (\<lambda>k. log_of fmt k (h k)) (home_of E)
    \<and> ((\<exists>l. hs_latest (r k) a = Some l \<and> lh_membership l = MAlive)
        \<longleftrightarrow> alive_at a (log_of fmt k (h k)) (length (log_of fmt k (h k))))
    \<and> (\<forall>l. hs_latest (r k) a = Some l
        \<longrightarrow> lh_delta_seq l = map_option fst (latest a (log_of fmt k (h k)) (length (log_of fmt k (h k)))))
    \<and> sorted (map snd (hs_zset (r k))) \<and> distinct (map fst (hs_zset (r k)))
    \<and> ((a, s) \<in> set (hs_zset (r k)) \<longleftrightarrow> (\<exists>l. hs_latest (r k) a = Some l \<and> lh_membership l = MAlive \<and> lh_seen_ms l = s))"
proof -
  have inv: "shard_inv (home_of E) j (log_of fmt j (h j)) (r j)" for j
    using hb_steps_inv [OF assms provider_inv_start, of fmt] by (simp add: provider_inv_def)
  have "log_ok (\<lambda>k. log_of fmt k (h k)) (home_of E)"
    using inv by (simp add: log_ok_def shard_inv_def log_events_ok_def)
  moreover have "zset_ok (hs_latest (r k)) (hs_zset (r k))" using inv [of k] by (simp add: shard_inv_def)
  moreover have "hash_shows (log_of fmt k (h k)) a (hs_latest (r k) a)" using inv [of k] by (simp add: shard_inv_def)
  then have "((\<exists>l. hs_latest (r k) a = Some l \<and> lh_membership l = MAlive)
        \<longleftrightarrow> alive_at a (log_of fmt k (h k)) (length (log_of fmt k (h k))))
    \<and> (\<forall>l. hs_latest (r k) a = Some l
        \<longrightarrow> lh_delta_seq l = map_option fst (latest a (log_of fmt k (h k)) (length (log_of fmt k (h k)))))"
    by (auto simp: hash_shows_def split: option.splits)
  ultimately show ?thesis using inv [of k] by (auto simp: zset_ok_def shard_inv_def)
qed

text \<open>A deployment with one shard.\<close>

definition one_shard_env :: hb_env where
  "one_shard_env = \<lparr>env_sha256 = (\<lambda>_. []), env_iso = (\<lambda>_. ''t''),
     env_settings = \<lparr>set_shard_count = 1, set_silence_s = 90, set_evict_s = 3600, set_refresh_s = 30, set_outbox_max_len = 0\<rparr>\<rparr>"

definition at_ms :: "int \<Rightarrow> redis_moment" where
  "at_ms t = \<lparr>rm_now = t, rm_drop = 0\<rparr>"

fun run_events :: "hb_env \<Rightarrow> hb_event list \<Rightarrow> hb_redis \<times> hb_histories \<Rightarrow> hb_redis \<times> hb_histories" where
  "run_events E [] s = s"
| "run_events E (ev # evs) s =
     run_events E evs (hb_exec E ev (fst s), \<lambda>k. snd s k @ emitted (fst s k) (hb_exec E ev (fst s) k))"

lemma run_events_steps:
  assumes "list_all (\<lambda>ev. \<forall>r. hb_allowed ev r) evs"
  shows "(hb_step E)\<^sup>*\<^sup>* s (run_events E evs s)"
  using assms
proof (induction evs arbitrary: s)
  case (Cons ev evs)
  have "hb_step E s (hb_exec E ev (fst s), \<lambda>k. snd s k @ emitted (fst s k) (hb_exec E ev (fst s) k))"
    using Cons.prems hb_stepI [of ev "fst s" E "snd s"] by simp
  then show ?case
    using Cons.IH Cons.prems by (auto intro: converse_rtranclp_into_rtranclp)
qed simp

theorem heartbeat_state_is_log_witness:
  "\<not> alive_at ''a'' (log_of (\<lambda>_. ''t'') ''hb-000''
      (snd (run_events one_shard_env [HbApply (at_ms 5) ''a'' 5 None, HbSilent (at_ms 200000) ''hb-000'' ''a''] hb_start) ''hb-000''))
    (length (log_of (\<lambda>_. ''t'') ''hb-000''
      (snd (run_events one_shard_env [HbApply (at_ms 5) ''a'' 5 None, HbSilent (at_ms 200000) ''hb-000'' ''a''] hb_start) ''hb-000'')))"
proof -
  let ?s = "run_events one_shard_env [HbApply (at_ms 5) ''a'' 5 None, HbSilent (at_ms 200000) ''hb-000'' ''a''] hb_start"
  have "list_all (\<lambda>ev. \<forall>r. hb_allowed ev r) [HbApply (at_ms 5) ''a'' 5 None, HbSilent (at_ms 200000) ''hb-000'' ''a'']"
    by (simp, intro conjI allI) simp_all
  then have "(hb_step one_shard_env)\<^sup>*\<^sup>* hb_start (fst ?s, snd ?s)"
    unfolding prod.collapse by (rule run_events_steps)
  note state = heartbeat_state_is_log [OF this, of "''hb-000''" "\<lambda>_. ''t''" "''a''"]
  have "(case hs_latest (fst ?s ''hb-000'') ''a'' of None \<Rightarrow> False | Some l \<Rightarrow> lh_membership l = MLeft)" by code_simp
  then show ?thesis using state by (auto split: option.splits)
qed

end
