(* ===== verification/HbSnapshot.thy ===== *)
theory HbSnapshot
  imports HbProvider
begin

text \<open>
  The export of the alive set: \<open>monitor-server/app/heartbeat/snapshot.py\<close> and the reads of \<open>store.py\<close> it makes. The
  export is a sequence of Redis commands, and writers run between them: \<open>obs j\<close> is the state that command
  number \<open>j\<close> of the export sees. A clock that has run past the limit of the enumeration is a budget of pages.
\<close>

subsection \<open>Reads\<close>

datatype score_bound = NegInf | PosInf | Incl int | Excl int

fun above :: "score_bound \<Rightarrow> int \<Rightarrow> bool" where
  "above NegInf s = True"
| "above PosInf s = False"
| "above (Incl b) s = (b \<le> s)"
| "above (Excl b) s = (b < s)"

fun below :: "score_bound \<Rightarrow> int \<Rightarrow> bool" where
  "below NegInf s = False"
| "below PosInf s = True"
| "below (Incl b) s = (s \<le> b)"
| "below (Excl b) s = (s < b)"

definition zrange_by_score :: "hb_shard \<Rightarrow> score_bound \<Rightarrow> score_bound \<Rightarrow> nat \<Rightarrow> (string \<times> int) list" where
  "zrange_by_score sh lower_bound upper_bound limit =
     take limit (filter (\<lambda>(_, s). above lower_bound s \<and> below upper_bound s) (hs_zset sh))"

definition zrevrange_by_score :: "hb_shard \<Rightarrow> score_bound \<Rightarrow> score_bound \<Rightarrow> nat \<Rightarrow> (string \<times> int) list" where
  "zrevrange_by_score sh lower_bound upper_bound limit =
     take limit (rev (filter (\<lambda>(_, s). above lower_bound s \<and> below upper_bound s) (hs_zset sh)))"

definition zrange_score_group :: "hb_shard \<Rightarrow> int \<Rightarrow> (string \<times> int) list" where
  "zrange_score_group sh score = filter (\<lambda>(_, s). s = score) (hs_zset sh)"

definition read_published_seq :: "hb_shard \<Rightarrow> int" where
  "read_published_seq sh = (case hs_published sh of None \<Rightarrow> 0 | Some p \<Rightarrow> p)"

record snapshot_row =
  sr_aic :: string
  sr_delta_seq :: "int option"
  sr_seen :: "string option"
  sr_source_ms :: "int option"
  sr_membership :: membership

definition snapshot_fields :: "hb_shard \<Rightarrow> string \<Rightarrow> snapshot_row option" where
  "snapshot_fields sh aic = map_option (\<lambda>h. \<lparr>sr_aic = aic, sr_delta_seq = lh_delta_seq h, sr_seen = Some (lh_seen h),
     sr_source_ms = lh_source_ms h, sr_membership = lh_membership h\<rparr>) (hs_latest sh aic)"

text \<open>A pipeline that is no transaction: command by command.\<close>

fun mget_snapshot_fields :: "(nat \<Rightarrow> hb_redis) \<Rightarrow> string \<Rightarrow> nat \<Rightarrow> string list \<Rightarrow> snapshot_row option list" where
  "mget_snapshot_fields obs shard t [] = []"
| "mget_snapshot_fields obs shard t (aic # aics) =
     snapshot_fields (obs t shard) aic # mget_snapshot_fields obs shard (Suc t) aics"

fun read_all_published_seq :: "(nat \<Rightarrow> hb_redis) \<Rightarrow> nat \<Rightarrow> string list \<Rightarrow> (string \<times> int) list" where
  "read_all_published_seq obs t [] = []"
| "read_all_published_seq obs t (shard # shards) =
     (shard, read_published_seq (obs t shard)) # read_all_published_seq obs (Suc t) shards"

subsection \<open>The export\<close>

record snapshot_settings =
  ss_chunk_size :: nat
  ss_silence_ms :: int
  ss_share_window_ms :: int

text \<open>
  The pages of one shard. The result is the tuples, the number of the next command, and whether the pages
  ended by themselves rather than by the time limit.
\<close>

fun enum_pages ::
  "nat \<Rightarrow> nat \<Rightarrow> (nat \<Rightarrow> hb_redis) \<Rightarrow> string \<Rightarrow> int \<Rightarrow> nat \<Rightarrow> (string \<times> int) list \<Rightarrow> (string \<times> int) list \<times> nat \<times> bool" where
  "enum_pages chunk_size 0 obs shard cursor_ms t all_tuples = (all_tuples, t, False)"
| "enum_pages chunk_size (Suc budget) obs shard cursor_ms t all_tuples =
     (let chunk = zrange_by_score (obs t shard) (Incl cursor_ms) PosInf chunk_size in
      if chunk = [] then (all_tuples, Suc t, True)
      else
        let is_last_page = length chunk < chunk_size;
            last_score = snd (last chunk);
            tie_group = zrange_score_group (obs (Suc t) shard) last_score;
            merged = chunk @ filter (\<lambda>(aic, _). aic \<notin> fst ` set chunk) tie_group;
            tuples = all_tuples @ merged
        in if is_last_page then (tuples, Suc (Suc t), True)
           else enum_pages chunk_size budget obs shard (last_score + 1) (Suc (Suc t)) tuples)"

definition row_envelope :: "(int \<Rightarrow> string) \<Rightarrow> string \<Rightarrow> int \<Rightarrow> snapshot_row \<Rightarrow> alive_delta" where
  "row_envelope isoformat shard cutover_seq row =
     (let seq_val = (case sr_delta_seq row of Some s \<Rightarrow> s | None \<Rightarrow> cutover_seq); seq_str = seq_to_str seq_val in
      \<lparr>dv_shard = shard, dv_seq = seq_str, dv_id = alive_object_id (sr_aic row), dv_version = seq_str,
       dv_op = Upsert, dv_kind = KindSnapshot,
       dv_payload = Some \<lparr>en_aic = sr_aic row, en_last_seen_at = (case sr_seen row of None \<Rightarrow> [] | Some s \<Rightarrow> s),
         en_source_timestamp = map_option isoformat (sr_source_ms row)\<rparr>\<rparr>)"

fun row_envelopes :: "(int \<Rightarrow> string) \<Rightarrow> string \<Rightarrow> int \<Rightarrow> snapshot_row option list \<Rightarrow> alive_delta list" where
  "row_envelopes isoformat shard cutover_seq [] = []"
| "row_envelopes isoformat shard cutover_seq (None # rows) = row_envelopes isoformat shard cutover_seq rows"
| "row_envelopes isoformat shard cutover_seq (Some row # rows) =
     (if sr_membership row = MLeft then row_envelopes isoformat shard cutover_seq rows
      else row_envelope isoformat shard cutover_seq row # row_envelopes isoformat shard cutover_seq rows)"

definition enumerate_shard_alive ::
  "(int \<Rightarrow> string) \<Rightarrow> snapshot_settings \<Rightarrow> nat \<Rightarrow> (nat \<Rightarrow> hb_redis) \<Rightarrow> string \<Rightarrow> int \<Rightarrow> int \<Rightarrow> nat \<Rightarrow> alive_delta list \<times> nat \<times> bool" where
  "enumerate_shard_alive isoformat settings budget obs shard now_ms cutover_seq t =
     (let (all_tuples, t1, complete) =
            enum_pages (ss_chunk_size settings) budget obs shard (now_ms - ss_silence_ms settings) t [];
          aics = map fst all_tuples
      in (row_envelopes isoformat shard cutover_seq (mget_snapshot_fields obs shard t1 aics), t1 + length aics, complete))"

fun enumerate_shards ::
  "(int \<Rightarrow> string) \<Rightarrow> snapshot_settings \<Rightarrow> nat \<Rightarrow> (nat \<Rightarrow> hb_redis) \<Rightarrow> int \<Rightarrow> (string \<times> int) list \<Rightarrow> string list \<Rightarrow> nat
     \<Rightarrow> alive_delta list \<times> nat \<times> bool" where
  "enumerate_shards isoformat settings budget obs now_ms cutover [] t = ([], t, True)"
| "enumerate_shards isoformat settings budget obs now_ms cutover (shard # shards) t =
     (let shard_cutover_seq = (case map_of cutover shard of Some c \<Rightarrow> c | None \<Rightarrow> 0);
          (envs, t1, complete1) = enumerate_shard_alive isoformat settings budget obs shard now_ms shard_cutover_seq t;
          (more, t2, complete2) = enumerate_shards isoformat settings budget obs now_ms cutover shards t1
      in (envs @ more, t2, complete1 \<and> complete2))"

record materialized =
  mz_meta :: snapshot_meta
  mz_envelopes :: "alive_delta list"
  mz_at :: int

definition materialize ::
  "(int \<Rightarrow> string) \<Rightarrow> snapshot_settings \<Rightarrow> nat \<Rightarrow> (nat \<Rightarrow> hb_redis) \<Rightarrow> string list \<Rightarrow> int \<Rightarrow> materialized \<times> nat \<times> bool" where
  "materialize isoformat settings budget obs shards now_ms =
     (let cutover = read_all_published_seq obs 0 shards;
          (envelopes, t, complete) = enumerate_shards isoformat settings budget obs now_ms cutover shards (length shards);
          meta = \<lparr>sm_cutover = map (\<lambda>(s, v). (s, seq_to_str v)) cutover, sm_generated_at = isoformat now_ms\<rparr>
      in (\<lparr>mz_meta = meta, mz_envelopes = envelopes, mz_at = now_ms\<rparr>, t, complete))"

text \<open>One exporter shares a snapshot for a short window; its lock is held over the whole call.\<close>

definition get_or_materialize ::
  "(int \<Rightarrow> string) \<Rightarrow> snapshot_settings \<Rightarrow> nat \<Rightarrow> (nat \<Rightarrow> hb_redis) \<Rightarrow> string list \<Rightarrow> int \<Rightarrow> materialized option
     \<Rightarrow> materialized \<times> materialized option" where
  "get_or_materialize isoformat settings budget obs shards now_ms cached =
     (case cached of
        Some snap \<Rightarrow>
          if now_ms - mz_at snap < ss_share_window_ms settings then (snap, cached)
          else (let (snap', _, _) = materialize isoformat settings budget obs shards now_ms in (snap', Some snap'))
      | None \<Rightarrow> (let (snap', _, _) = materialize isoformat settings budget obs shards now_ms in (snap', Some snap')))"

subsection \<open>An agent that moves while the pages are read\<close>

text \<open>
  Pages of two rows; the agent \<open>a\<close> of the first page sends a heartbeat before the second page is read.
\<close>

definition three_agents :: hb_redis where
  "three_agents = fst (run_events one_shard_env
     [HbApply (at_ms 10) ''a'' 10 None, HbApply (at_ms 20) ''b'' 20 None, HbApply (at_ms 30) ''c'' 30 None] hb_start)"

definition refreshed :: "nat \<Rightarrow> hb_redis" where
  "refreshed j = (if j < 3 then three_agents else hb_exec one_shard_env (HbApply (at_ms 40) ''a'' 40 None) three_agents)"

definition pages_of_two :: snapshot_settings where
  "pages_of_two = \<lparr>ss_chunk_size = 2, ss_silence_ms = 90000, ss_share_window_ms = 5000\<rparr>"

definition double_export :: materialized where
  "double_export = fst (materialize (\<lambda>_. ''t'') pages_of_two 9 refreshed [''hb-000''] 50)"

text \<open>
  An agent whose heartbeat arrives while a snapshot of more than one page is read is exported twice: its
  score moves to a page that is still to come, and the rows of the pages are put together without a check. The store
  of the discovery server has one row per agent, so the transaction that applies such a snapshot fails.
\<close>
theorem refreshed_agent_exported_twice:
  "map dv_id (mz_envelopes double_export) = map alive_object_id [''a'', ''b'', ''c'', ''a'']
   \<and> (case apply_snapshot pg_ops (mz_meta double_export) (mz_envelopes double_export, None) new_engine
        \<lparr>agent_rows = [], shard_rows = [], pg_faults = []\<rparr> of (Inl StoreFailed, _) \<Rightarrow> True | _ \<Rightarrow> False)"
  by code_simp

end
