(* ===== verification/AliveSafety.thy ===== *)
theory AliveSafety
  imports AliveConverge
begin

text \<open>
  The convergence of the consumer over its Postgres store, and what a position that moves in memory
  only means for a restart.
\<close>

text \<open>A shard whose log is one agent entering and leaving, and a snapshot read between the two events.\<close>

definition sample_agent :: string where "sample_agent = ''1.2.156.3088.1.AB.12.34.9A.0001''"

definition sample_delta :: "string \<Rightarrow> delta_op \<Rightarrow> alive_delta" where
  "sample_delta s op = \<lparr>dv_shard = ''hb-000'', dv_seq = s, dv_id = ''urn:amp:alive:'' @ sample_agent, dv_version = s,
     dv_op = op, dv_kind = EnterAlive, dv_payload = None\<rparr>"

definition sample_log :: "string \<Rightarrow> alive_delta list" where
  "sample_log k = (if k = ''hb-000'' then [sample_delta ''1'' Upsert, sample_delta ''2'' Delete] else [])"

definition sample_meta :: snapshot_meta where
  "sample_meta = \<lparr>sm_cutover = [(''hb-000'', ''0'')], sm_generated_at = ''2026-06-13T01:20:00Z''\<rparr>"

definition empty_pg :: pg_store where
  "empty_pg = \<lparr>agent_rows = [], shard_rows = [], pg_faults = []\<rparr>"

definition started :: "engine \<times> pg_store" where
  "started = (case apply_snapshot pg_ops sample_meta ([sample_delta ''1'' Upsert], None) new_engine empty_pg of
      (Inr e, st) \<Rightarrow> (e, st) | (Inl _, st) \<Rightarrow> (new_engine, st))"

lemma sample_agent_id: "aic_from_object_id (dv_id (sample_delta s op)) = Inr sample_agent"
proof -
  have "dv_id (sample_delta s op) = alive_object_id sample_agent"
    by (simp add: sample_delta_def alive_object_id_def ALIVE_OBJECT_ID_PREFIX_def)
  then show ?thesis by simp
qed

lemma sample_seqs: "seq_from_str ''1'' = Inr 1" "seq_from_str ''2'' = Inr 2" "seq_from_str ''0'' = Inr 0"
  by code_simp+

lemma sample_log_ok: "log_ok sample_log (\<lambda>_. ''hb-000'')"
proof -
  have "\<exists>a. event_of (sample_log k ! i) k a (int i + 1) \<and> ''hb-000'' = k" if "i < length (sample_log k)" for k i
  proof -
    from that have "k = ''hb-000''" "i = 0 \<or> i = 1" by (auto simp: sample_log_def split: if_splits)
    then show ?thesis
      using sample_agent_id sample_seqs by (auto simp: sample_log_def event_of_def sample_delta_def)
  qed
  then show ?thesis by (simp add: log_ok_def)
qed

lemma sample_snapshot:
  "snapshot_of sample_log (\<lambda>_. ''hb-000'') (\<lambda>k. if k = ''hb-000'' then 1 else 0) (\<lambda>_. False) sample_meta [sample_delta ''1'' Upsert]"
proof -
  have cuts: "decode_seqs (sm_cutover sample_meta) = Inr [(''hb-000'', 0)]"
    by (simp add: sample_meta_def sample_seqs)
  have ver: "dv_version (sample_delta ''1'' Upsert) = ''1''" by (simp add: sample_delta_def)
  have op: "dv_op (sample_delta ''1'' Upsert) = Upsert" by (simp add: sample_delta_def)
  have log: "sample_log ''hb-000'' ! 0 = sample_delta ''1'' Upsert" by (simp add: sample_log_def)
  have "rows_show [sample_delta ''1'' Upsert] a (sample_log ''hb-000'') 1" for a
    using sample_agent_id by (auto simp: rows_show_def alive_at_def Let_def log ver op sample_seqs)
  then show ?thesis
    unfolding snapshot_of_def cuts by (auto simp: sample_log_def cutover_of_def intro!: exI [of _ 1])
qed

text \<open>
  The consumer converges. Let a log be well formed and a snapshot show every agent as it was at some
  moment between the cutover of its shard and the end of the read (the rows need not be of one moment; some
  agents may be omitted). After the snapshot is applied, let events be delivered in any order, again and again,
  with gaps, with transactions that fail, and with restarts from the store. Wherever the position of a shard has
  passed the snapshot, every agent of the shard is stored alive exactly if the last event about it, up to that
  position, is an upsert; an agent the snapshot omitted, from the first later event about it on. The position
  kept in the store is never ahead of the one in memory, nor that of the log.
\<close>
theorem alive_set_converges:
  assumes "log_ok lg home" and "pg_ok st" and "snapshot_of lg home last_read omitted meta envs"
    and "apply_snapshot pg_ops meta (envs, stop) e st = (Inr e1, st1)"
    and "follow pg_ops lg evs e1 st1 = Some (e2, st2)"
  shows "(caught_up lg home last_read omitted e2 a \<longrightarrow>
      stored_alive (pg_rows st2) a = alive_at a (lg (home a)) (nat (seen_or_zero e2 (home a))))
    \<and> persisted_seq (pg_cps st2) k \<le> seen_or_zero e2 k \<and> seen_or_zero e2 k \<le> int (length (lg k))"
  using assms by (rule pg.converges)

theorem alive_set_converges_witness:
  "\<exists>e2 st2. follow pg_ops sample_log [Deliver ''hb-000'' 0 None, Restart, Deliver ''hb-000'' 0 None, Deliver ''hb-000'' 1 (Some 7)]
       (fst started) (snd started) = Some (e2, st2)
     \<and> seen_or_zero e2 ''hb-000'' = 2 \<and> \<not> stored_alive (pg_rows st2) sample_agent"
proof -
  let ?evs = "[Deliver ''hb-000'' 0 None, Restart, Deliver ''hb-000'' 0 None, Deliver ''hb-000'' 1 (Some 7)]"
  obtain res where res_def: "res = apply_snapshot pg_ops sample_meta ([sample_delta ''1'' Upsert], None) new_engine empty_pg" by blast
  have "is_ok (fst (apply_snapshot pg_ops sample_meta ([sample_delta ''1'' Upsert], None) new_engine empty_pg))"
    by code_simp
  then obtain e st where r: "res = (Inr e, st)"
    unfolding res_def [symmetric] by (cases res) (auto simp: is_ok_iff)
  have run: "apply_snapshot pg_ops sample_meta ([sample_delta ''1'' Upsert], None) new_engine empty_pg
      = (Inr (fst started), snd started)"
    unfolding started_def res_def [symmetric] by (simp add: r)
  have "case follow pg_ops sample_log ?evs (fst started) (snd started) of
      None \<Rightarrow> False | Some (e2, st2) \<Rightarrow> seen_or_zero e2 ''hb-000'' = 2"
    by code_simp
  then obtain e2 st2 where f: "follow pg_ops sample_log ?evs (fst started) (snd started) = Some (e2, st2)"
    and seen: "seen_or_zero e2 ''hb-000'' = 2"
    by (auto split: option.splits)
  have ok: "pg_ok empty_pg" by (simp add: pg_ok_def empty_pg_def)
  have "alive_at sample_agent (sample_log ''hb-000'') (Suc (Suc 0)) = False" by code_simp
  then have "\<not> stored_alive (pg_rows st2) sample_agent"
    using alive_set_converges [OF sample_log_ok ok sample_snapshot run f, where a = sample_agent] seen
    by (simp add: numeral_2_eq_2 caught_up_def)
  with f seen show ?thesis by blast
qed

end
