(* ===== verification/HbExport.thy ===== *)
theory HbExport
  imports HbSnapshot AliveSafety
begin

text \<open>
  An export runs while the writers run. A timeline is the sequence of the states of Redis; command \<open>j\<close> of the
  export happens at time \<open>tm j\<close>. The theorem: whatever happens in between, the exported rows are a snapshot in
  the sense the consumer's convergence needs.
\<close>

subsection \<open>Timelines\<close>

definition hb_timeline :: "hb_env \<Rightarrow> (nat \<Rightarrow> hb_redis \<times> hb_histories) \<Rightarrow> bool" where
  "hb_timeline E run \<longleftrightarrow> (hb_step E)\<^sup>*\<^sup>* hb_start (run 0) \<and> (\<forall>i. run (Suc i) = run i \<or> hb_step E (run i) (run (Suc i)))"

definition log_at :: "(int \<Rightarrow> string) \<Rightarrow> (nat \<Rightarrow> hb_redis \<times> hb_histories) \<Rightarrow> nat \<Rightarrow> string \<Rightarrow> alive_delta list" where
  "log_at fmt run i k = log_of fmt k (snd (run i) k)"

definition alive_score :: "hb_redis \<Rightarrow> string \<Rightarrow> string \<Rightarrow> int option" where
  "alive_score r k a =
     (case hs_latest (r k) a of None \<Rightarrow> None | Some h \<Rightarrow> if lh_membership h = MAlive then Some (lh_seen_ms h) else None)"

lemma timeline_steps:
  assumes "hb_timeline E run" and "i \<le> j"
  shows "(hb_step E)\<^sup>*\<^sup>* (run i) (run j)"
  using assms(2)
proof (induction j)
  case (Suc j)
  show ?case
  proof (cases "i = Suc j")
    case False
    with Suc have "(hb_step E)\<^sup>*\<^sup>* (run i) (run j)" by simp
    then show ?thesis
      using assms(1) unfolding hb_timeline_def by (metis rtranclp.rtrancl_into_rtrancl)
  qed simp
qed simp

lemma timeline_inv: "hb_timeline E run \<Longrightarrow> provider_inv E fmt (fst (run i)) (snd (run i))"
  using timeline_steps [of E run 0 i] provider_inv_start hb_steps_inv
  by (metis hb_timeline_def le0 rtranclp_trans)

lemma timeline_shard: "hb_timeline E run \<Longrightarrow> shard_inv (home_of E) k (log_at fmt run i k) (fst (run i) k)"
  using timeline_inv [of E run fmt i] by (simp add: provider_inv_def log_at_def)

lemma log_at_prefix:
  assumes "hb_timeline E run" and "i \<le> j"
  shows "\<exists>more. log_at fmt run j k = log_at fmt run i k @ more"
  using hb_steps_grow [OF timeline_steps [OF assms], of k] by (auto simp: log_at_def log_of_append)

lemma log_at_mono: "hb_timeline E run \<Longrightarrow> i \<le> j \<Longrightarrow> length (log_at fmt run i k) \<le> length (log_at fmt run j k)"
  using log_at_prefix [of E run i j fmt k] by (metis le_add1 length_append)

lemma latest_prefix:
  "hb_timeline E run \<Longrightarrow> i \<le> j \<Longrightarrow> n \<le> length (log_at fmt run i k)
    \<Longrightarrow> latest a (log_at fmt run j k) n = latest a (log_at fmt run i k) n"
  using log_at_prefix [of E run i j fmt k] latest_append by metis

subsection \<open>The score of an agent that stays alive\<close>

lemma zset_alive_score:
  "zset_ok (hs_latest (r k)) (hs_zset (r k)) \<Longrightarrow> (a, s) \<in> set (hs_zset (r k)) \<longleftrightarrow> alive_score r k a = Some s"
  by (auto simp: zset_ok_def alive_score_def split: option.splits)

lemma step_score:
  assumes "hb_step E (r, h) (r', h')" and "alive_score r k a = Some s"
  shows "case alive_score r' k a of None \<Rightarrow> True | Some s' \<Rightarrow> s \<le> s'"
proof -
  from assms(1) obtain ev where ev: "r' = hb_exec E ev r" "hb_allowed ev r" by (auto elim: hb_stepE)
  show ?thesis
  proof (cases ev)
    case (HbApply mo aic t src)
    with assms(2) ev show ?thesis
      by (auto simp: alive_score_def apply_heartbeat_def on_shard_def hb_apply_heartbeat_def Let_def
          split: option.splits if_splits prod.splits)
  next
    case (HbSilent mo shard aic)
    with assms(2) ev show ?thesis
      by (auto simp: alive_score_def mark_silent_one_def on_shard_def hb_mark_silent_one_def Let_def
          split: option.splits if_splits prod.splits)
  next
    case (HbEvict mo shard aic)
    with assms(2) ev show ?thesis
      by (auto simp: alive_score_def evict_one_def on_shard_def hb_evict_one_def Let_def
          split: option.splits if_splits prod.splits)
  next
    case (HbRelay shard sh)
    with assms(2) ev show ?thesis
      by (auto simp: alive_score_def relay_change_def split: option.splits if_splits)
  qed
qed

definition dead_between :: "(nat \<Rightarrow> hb_redis \<times> hb_histories) \<Rightarrow> string \<Rightarrow> string \<Rightarrow> nat \<Rightarrow> nat \<Rightarrow> bool" where
  "dead_between run k a i j \<longleftrightarrow> (\<exists>u. i \<le> u \<and> u \<le> j \<and> alive_score (fst (run u)) k a = None)"

lemma dead_betweenI: "alive_score (fst (run u)) k a = None \<Longrightarrow> i \<le> u \<Longrightarrow> u \<le> j \<Longrightarrow> dead_between run k a i j"
  by (auto simp: dead_between_def)

lemma dead_between_mono: "dead_between run k a i j \<Longrightarrow> i' \<le> i \<Longrightarrow> j \<le> j' \<Longrightarrow> dead_between run k a i' j'"
  by (auto simp: dead_between_def intro: order_trans)

lemma score_grows:
  assumes tl: "hb_timeline E run" and "i \<le> j" and "alive_score (fst (run i)) k a = Some s"
  shows "dead_between run k a i j \<or> (\<exists>s'. alive_score (fst (run j)) k a = Some s' \<and> s \<le> s')"
  using assms(2)
proof (induction j)
  case (Suc j)
  show ?case
  proof (cases "i = Suc j")
    case True
    with assms(3) show ?thesis by auto
  next
    case False
    with Suc consider "dead_between run k a i j"
      | s' where "alive_score (fst (run j)) k a = Some s'" "s \<le> s'" by auto
    then show ?thesis
    proof cases
      case 1
      then show ?thesis by (auto intro: dead_between_mono)
    next
      case 2
      have "run (Suc j) = run j \<or> hb_step E (run j) (run (Suc j))" using tl by (simp add: hb_timeline_def)
      then show ?thesis
      proof
        assume "hb_step E (run j) (run (Suc j))"
        then have "case alive_score (fst (run (Suc j))) k a of None \<Rightarrow> True | Some s'' \<Rightarrow> s' \<le> s''"
          using step_score [of E "fst (run j)" "snd (run j)" "fst (run (Suc j))" "snd (run (Suc j))" k a s'] 2(1) by simp
        with 2 Suc.prems show ?thesis
          by (auto split: option.splits intro: dead_betweenI [of run "Suc j"])
      qed (use 2 in auto)
    qed
  qed
qed (use assms(3) in auto)

lemma score_shows_log:
  assumes "hb_timeline E run"
  shows "(alive_score (fst (run i)) k a \<noteq> None) = alive_at a (log_at fmt run i k) (length (log_at fmt run i k))"
proof -
  have "hash_shows (log_at fmt run i k) a (hs_latest (fst (run i) k) a)"
    using timeline_shard [OF assms, of k fmt i] by (simp add: shard_inv_def)
  then show ?thesis by (auto simp: hash_shows_def alive_score_def split: option.splits)
qed

subsection \<open>The pages\<close>

abbreviation seen_by :: "(nat \<Rightarrow> hb_redis \<times> hb_histories) \<Rightarrow> (nat \<Rightarrow> nat) \<Rightarrow> nat \<Rightarrow> hb_redis" where
  "seen_by run tm j \<equiv> fst (run (tm j))"

lemma page_score:
  assumes z: "sorted (map snd z)" and chunk: "chunk = take c (filter (\<lambda>(_, s). cur \<le> s) z)"
    and full: "\<not> length chunk < c" "0 < c" and a: "(a, s) \<in> set z" "cur \<le> s" "a \<notin> fst ` set chunk"
  shows "snd (last chunk) \<le> s"
proof -
  let ?f = "filter (\<lambda>(_, s). cur \<le> s) z"
  have "chunk \<noteq> []" using full by auto
  have "(a, s) \<in> set ?f" using a by auto
  then have "(a, s) \<in> set chunk \<or> (a, s) \<in> set (drop c ?f)"
    unfolding chunk by (metis UnE append_take_drop_id set_append)
  moreover have "(a, s) \<notin> set chunk" using a(3) by force
  ultimately have dropped: "(a, s) \<in> set (drop c ?f)" by blast
  have "sorted (map snd ?f)" using z by (induction z) auto
  then have "sorted (map snd (take c ?f @ drop c ?f))" by simp
  then have "\<forall>x\<in>set (take c ?f). \<forall>y\<in>set (drop c ?f). snd x \<le> snd y"
    unfolding map_append sorted_append by auto
  with dropped \<open>chunk \<noteq> []\<close> show ?thesis unfolding chunk by fastforce
qed

text \<open>
  An agent that is alive with a score that the pages still have to reach is collected, unless it is marked as
  left in the meantime: its score can only grow, and the pages end where there is nothing above.
\<close>

lemma enum_pages_complete:
  assumes tl: "hb_timeline E run" and tm: "mono tm" and c: "0 < c"
  shows "enum_pages c b (seen_by run tm) k cur t acc = (all, t', True)
    \<Longrightarrow> t \<le> t' \<and> set acc \<subseteq> set all
      \<and> (\<forall>s. alive_score (seen_by run tm t) k a = Some s \<longrightarrow> cur \<le> s
           \<longrightarrow> a \<in> fst ` set all \<or> dead_between run k a (tm t) (tm t'))"
proof (induction b arbitrary: cur t acc)
  case (Suc b)
  let ?obs = "seen_by run tm"
  have zok: "zset_ok (hs_latest (?obs u k)) (hs_zset (?obs u k))" for u
    using timeline_shard [OF tl, of k "\<lambda>_. []" "tm u"] by (simp add: shard_inv_def)
  have zset: "(x, s) \<in> set (hs_zset (?obs u k)) \<longleftrightarrow> alive_score (?obs u) k x = Some s" for x s u
    by (rule zset_alive_score) (rule zok)
  obtain chunk where chunk: "chunk = take c (filter (\<lambda>(_, s). cur \<le> s) (hs_zset (?obs t k)))" by blast
  have page: "zrange_by_score (?obs t k) (Incl cur) PosInf c = chunk" by (simp add: zrange_by_score_def chunk)
  obtain tuples where tuples: "tuples = acc @ chunk @ filter (\<lambda>(aic, _). aic \<notin> fst ` set chunk)
      (zrange_score_group (?obs (Suc t) k) (snd (last chunk)))" by blast
  have unf: "enum_pages c (Suc b) ?obs k cur t acc =
      (if chunk = [] then (acc, Suc t, True)
       else if length chunk < c then (tuples, Suc (Suc t), True)
       else enum_pages c b ?obs k (snd (last chunk) + 1) (Suc (Suc t)) tuples)"
    by (simp only: enum_pages.simps page Let_def tuples append_assoc)
  have times: "tm t \<le> tm (Suc t)" "tm (Suc t) \<le> tm (Suc (Suc t))" using tm by (simp_all add: mono_def)
  have here: "a \<in> fst ` set chunk" if "length chunk < c" "alive_score (?obs t) k a = Some s" "cur \<le> s" for s
  proof -
    have "(a, s) \<in> set (filter (\<lambda>(_, s). cur \<le> s) (hs_zset (?obs t k)))"
      using that zset by auto
    moreover have "chunk = filter (\<lambda>(_, s). cur \<le> s) (hs_zset (?obs t k))" using that(1) unfolding chunk by auto
    ultimately show ?thesis by force
  qed
  show ?case
  proof (cases "chunk = [] \<or> length chunk < c")
    case True
    then have short: "length chunk < c" using c by auto
    from True Suc.prems unf consider "all = acc" "t' = Suc t" "chunk = []" | "all = tuples" "t' = Suc (Suc t)"
      by (metis prod.inject)
    then show ?thesis
      using here [OF short] by cases (auto simp: tuples)
  next
    case False
    then have rec: "enum_pages c b ?obs k (snd (last chunk) + 1) (Suc (Suc t)) tuples = (all, t', True)"
      using Suc.prems unf by simp
    note ih = Suc.IH [OF rec]
    have sub: "set chunk \<subseteq> set all" using ih by (auto simp: tuples)
    have tt: "tm (Suc (Suc t)) \<le> tm t'" using ih tm by (simp add: mono_def)
    have "a \<in> fst ` set all \<or> dead_between run k a (tm t) (tm t')"
      if s: "alive_score (?obs t) k a = Some s" "cur \<le> s" for s
    proof (cases "a \<in> fst ` set chunk")
      case True
      with sub show ?thesis by auto
    next
      case notin: False
      have "(a, s) \<in> set (hs_zset (?obs t k))" using s(1) zset by simp
      with page_score [of "hs_zset (?obs t k)" chunk c cur a s] chunk False c s(2) notin zok
      have low: "snd (last chunk) \<le> s" by (simp add: zset_ok_def)
      from score_grows [OF tl times(1) s(1)] consider "dead_between run k a (tm t) (tm (Suc t))"
        | s1 where "alive_score (?obs (Suc t)) k a = Some s1" "s \<le> s1" by blast
      then show ?thesis
      proof cases
        case 1
        with times tt show ?thesis by (auto intro: dead_between_mono)
      next
        case s1: 2
        show ?thesis
        proof (cases "s1 = snd (last chunk)")
          case True
          then have "(a, s1) \<in> set (zrange_score_group (?obs (Suc t) k) (snd (last chunk)))"
            using s1(1) zset by (simp add: zrange_score_group_def)
          with notin have "(a, s1) \<in> set tuples" by (auto simp: tuples)
          with ih show ?thesis by force
        next
          case False
          from score_grows [OF tl times(2) s1(1)] consider "dead_between run k a (tm (Suc t)) (tm (Suc (Suc t)))"
            | s2 where "alive_score (?obs (Suc (Suc t))) k a = Some s2" "s1 \<le> s2" by blast
          then show ?thesis
          proof cases
            case 1
            with times tt show ?thesis by (auto intro: dead_between_mono)
          next
            case 2
            with False low s1(2) have "snd (last chunk) + 1 \<le> s2" by simp
            with ih 2(1) have "a \<in> fst ` set all \<or> dead_between run k a (tm (Suc (Suc t))) (tm t')" by blast
            with times show ?thesis by (auto intro: dead_between_mono)
          qed
        qed
      qed
    qed
    with ih show ?thesis by (auto simp: tuples)
  qed
qed simp

subsection \<open>The rows\<close>

lemma mget_length [simp]: "length (mget_snapshot_fields obs k t aics) = length aics"
  by (induction aics arbitrary: t) simp_all

lemma mget_nth: "i < length aics \<Longrightarrow> mget_snapshot_fields obs k t aics ! i = snapshot_fields (obs (t + i) k) (aics ! i)"
proof (induction aics arbitrary: t i)
  case (Cons a aics)
  then show ?case by (cases i) simp_all
qed simp

lemma set_row_envelopes:
  "env \<in> set (row_envelopes f k c rows)
    \<longleftrightarrow> (\<exists>row. Some row \<in> set rows \<and> sr_membership row = MAlive \<and> env = row_envelope f k c row)"
proof (induction f k c rows rule: row_envelopes.induct)
  case (3 f k c row rows)
  then show ?case by (cases "sr_membership row") auto
qed auto

lemma row_envelope_aic: "aic_from_object_id (dv_id (row_envelope f k c row)) = Inr (sr_aic row)"
  by (simp add: row_envelope_def Let_def)

text \<open>A row is as the log was at some time of the read.\<close>

definition row_justified ::
  "hb_env \<Rightarrow> (int \<Rightarrow> string) \<Rightarrow> (nat \<Rightarrow> hb_redis \<times> hb_histories) \<Rightarrow> nat \<Rightarrow> nat \<Rightarrow> alive_delta \<Rightarrow> bool" where
  "row_justified E fmt run lo hi env \<longleftrightarrow>
     (\<exists>a v s op. lo \<le> v \<and> v \<le> hi \<and> aic_from_object_id (dv_id env) = Inr a \<and> seq_from_str (dv_version env) = Inr s
        \<and> alive_at a (log_at fmt run v (home_of E a)) (length (log_at fmt run v (home_of E a)))
        \<and> latest a (log_at fmt run v (home_of E a)) (length (log_at fmt run v (home_of E a))) = Some (s, op))"

lemma row_justified_mono: "row_justified E fmt run lo hi env \<Longrightarrow> lo' \<le> lo \<Longrightarrow> hi \<le> hi' \<Longrightarrow> row_justified E fmt run lo' hi' env"
  unfolding row_justified_def by (meson order_trans)

text \<open>An agent without a row was marked as left at some time of the read, or it was silent when its shard was read.\<close>

definition gap_justified ::
  "(nat \<Rightarrow> hb_redis \<times> hb_histories) \<Rightarrow> int \<Rightarrow> string \<Rightarrow> nat \<Rightarrow> nat \<Rightarrow> string \<Rightarrow> bool" where
  "gap_justified run start_score k lo hi a \<longleftrightarrow> dead_between run k a lo hi
     \<or> (\<exists>u s. lo \<le> u \<and> u \<le> hi \<and> alive_score (fst (run u)) k a = Some s \<and> s < start_score)"

lemma gap_justified_mono: "gap_justified run st k lo hi a \<Longrightarrow> lo' \<le> lo \<Longrightarrow> hi \<le> hi' \<Longrightarrow> gap_justified run st k lo' hi' a"
  unfolding gap_justified_def by (meson dead_between_mono order_trans)

lemma row_of_time:
  assumes tl: "hb_timeline E run" and row: "snapshot_fields (fst (run v) k) a = Some row" and al: "sr_membership row = MAlive"
    and v: "lo \<le> v" "v \<le> hi"
  shows "row_justified E fmt run lo hi (row_envelope iso_fmt k c row)"
proof -
  from row obtain h where h: "hs_latest (fst (run v) k) a = Some h" "lh_membership h = MAlive"
      "sr_aic row = a" "sr_delta_seq row = lh_delta_seq h"
    using al by (auto simp: snapshot_fields_def)
  note inv = timeline_shard [OF tl, of k fmt v]
  from inv h have home: "home_of E a = k" by (auto simp: shard_inv_def)
  from inv have "hash_shows (log_at fmt run v k) a (hs_latest (fst (run v) k) a)" by (simp add: shard_inv_def)
  then have "hash_shows (log_at fmt run v k) a (Some h)" by (simp only: h(1))
  with h(2) obtain s op where l: "alive_at a (log_at fmt run v k) (length (log_at fmt run v k))"
      "latest a (log_at fmt run v k) (length (log_at fmt run v k)) = Some (s, op)" "lh_delta_seq h = Some s"
    by (auto simp: hash_shows_def)
  have "0 \<le> s" using latest_bound [OF l(2)] by simp
  then have "seq_from_str (dv_version (row_envelope iso_fmt k c row)) = Inr s"
    using h(4) l(3) by (simp add: row_envelope_def Let_def seq_to_str_def int_to_str_def)
  with l home v h(3) show ?thesis unfolding row_justified_def by (metis row_envelope_aic)
qed

lemma shard_rows:
  assumes tl: "hb_timeline E run" and tm: "mono tm" and c: "0 < ss_chunk_size settings"
    and en: "enumerate_shard_alive iso_fmt settings b (seen_by run tm) k now ctv t = (envs, t', True)"
  shows "t \<le> t' \<and> (\<forall>env\<in>set envs. row_justified E fmt run (tm t) (tm t') env)
    \<and> (\<forall>a. no_row envs a \<longrightarrow> gap_justified run (now - ss_silence_ms settings) k (tm t) (tm t') a)"
proof -
  let ?start = "now - ss_silence_ms settings"
  obtain all t1 where pages: "enum_pages (ss_chunk_size settings) b (seen_by run tm) k ?start t [] = (all, t1, True)"
    and envs: "envs = row_envelopes iso_fmt k ctv (mget_snapshot_fields (seen_by run tm) k t1 (map fst all))"
    and t': "t' = t1 + length all"
    using en by (auto simp: enumerate_shard_alive_def Let_def split: prod.splits)
  note pc = enum_pages_complete [OF tl tm c pages]
  have t1: "t \<le> t1" using pc by blast
  have mono: "tm t \<le> tm (t1 + i) \<and> tm (t1 + i) \<le> tm t'" if "i < length all" for i
    using tm t1 that t' by (simp add: mono_def)
  have just: "row_justified E fmt run (tm t) (tm t') env" if "env \<in> set envs" for env
  proof -
    from that obtain row where row: "Some row \<in> set (mget_snapshot_fields (seen_by run tm) k t1 (map fst all))"
        "sr_membership row = MAlive" "env = row_envelope iso_fmt k ctv row"
      unfolding envs set_row_envelopes by blast
    then obtain i where i: "i < length all" "snapshot_fields (seen_by run tm (t1 + i) k) (map fst all ! i) = Some row"
      by (auto simp: in_set_conv_nth mget_nth)
    show ?thesis unfolding row(3) by (rule row_of_time [OF tl i(2) row(2)]) (use mono [OF i(1)] in simp_all)
  qed
  have gap: "gap_justified run ?start k (tm t) (tm t') a" if none: "no_row envs a" for a
  proof (cases "a \<in> fst ` set all")
    case True
    then obtain i where i: "i < length all" "map fst all ! i = a" by (auto simp: in_set_conv_nth)
    have "alive_score (seen_by run tm (t1 + i)) k a = None"
    proof (rule ccontr)
      assume "alive_score (seen_by run tm (t1 + i)) k a \<noteq> None"
      then obtain row where row: "snapshot_fields (seen_by run tm (t1 + i) k) a = Some row" "sr_membership row = MAlive" "sr_aic row = a"
        by (auto simp: alive_score_def snapshot_fields_def split: option.splits if_splits)
      have "Some row \<in> set (mget_snapshot_fields (seen_by run tm) k t1 (map fst all))"
        using i row(1) mget_nth [of i "map fst all" "seen_by run tm" k t1]
        by (metis length_map mget_length nth_mem)
      then have "row_envelope iso_fmt k ctv row \<in> set envs" using row(2) unfolding envs set_row_envelopes by blast
      with none row(3) row_envelope_aic show False by (auto simp: no_row_def list_all_iff)
    qed
    then show ?thesis using mono [OF i(1)] by (auto simp: gap_justified_def intro: dead_betweenI)
  next
    case False
    have t1': "tm t \<le> tm t1" "tm t1 \<le> tm t'" "tm t \<le> tm t'" using tm t1 t' by (simp_all add: mono_def)
    show ?thesis
    proof (cases "alive_score (seen_by run tm t) k a")
      case None
      with t1' show ?thesis by (auto simp: gap_justified_def intro: dead_betweenI)
    next
      case (Some s)
      show ?thesis
      proof (cases "?start \<le> s")
        case True
        with pc Some False have "dead_between run k a (tm t) (tm t1)" by blast
        with t1' show ?thesis by (auto simp: gap_justified_def intro: dead_between_mono)
      next
        case low: False
        with Some t1' show ?thesis unfolding gap_justified_def by (intro disjI2 exI [of _ "tm t"] exI [of _ s]) simp
      qed
    qed
  qed
  show ?thesis using just gap t1 t' by simp
qed

lemma no_row_append [simp]: "no_row (xs @ ys) a \<longleftrightarrow> no_row xs a \<and> no_row ys a"
  by (simp add: no_row_def)

lemma all_shard_rows:
  assumes tl: "hb_timeline E run" and tm: "mono tm" and c: "0 < ss_chunk_size settings"
  shows "enumerate_shards iso_fmt settings b (seen_by run tm) now ctv shards t = (envs, t', True)
    \<Longrightarrow> t \<le> t' \<and> (\<forall>env\<in>set envs. row_justified E fmt run (tm t) (tm t') env)
      \<and> (\<forall>a k. k \<in> set shards \<longrightarrow> no_row envs a \<longrightarrow> gap_justified run (now - ss_silence_ms settings) k (tm t) (tm t') a)"
proof (induction shards arbitrary: t envs)
  case (Cons k shards)
  obtain envs1 t1 envs2 where one: "enumerate_shard_alive iso_fmt settings b (seen_by run tm) k now
        (case map_of ctv k of Some c \<Rightarrow> c | None \<Rightarrow> 0) t = (envs1, t1, True)"
    and rest: "enumerate_shards iso_fmt settings b (seen_by run tm) now ctv shards t1 = (envs2, t', True)"
    and envs: "envs = envs1 @ envs2"
    using Cons.prems by (auto simp: Let_def split: prod.splits)
  note s1 = shard_rows [OF tl tm c one, of fmt] and s2 = Cons.IH [OF rest]
  have le: "tm t \<le> tm t1" "tm t1 \<le> tm t'" using s1 s2 tm by (simp_all add: mono_def)
  have "row_justified E fmt run (tm t) (tm t') env" if "env \<in> set envs" for env
    using that s1 s2 le unfolding envs by (auto intro: row_justified_mono)
  moreover have "gap_justified run (now - ss_silence_ms settings) j (tm t) (tm t') a"
    if "j \<in> set (k # shards)" "no_row envs a" for a j
    using that s1 s2 unfolding envs
    by (auto intro: gap_justified_mono [OF _ order_refl le(2)] gap_justified_mono [OF _ le(1) order_refl])
  ultimately show ?case using s1 s2 by simp
qed simp

subsection \<open>The export is a snapshot\<close>

lemma published_length: "map fst (read_all_published_seq obs t shards) = shards"
  by (induction shards arbitrary: t) simp_all

lemma decode_cutover:
  "\<forall>(k, v)\<in>set cuts. 0 \<le> v \<Longrightarrow> decode_seqs (map (\<lambda>(s, v). (s, seq_to_str v)) cuts) = Inr cuts"
  by (induction cuts) (auto simp: seq_to_str_def int_to_str_def)

lemma published_bound:
  assumes tl: "hb_timeline E run" and tm: "mono tm"
  shows "(k, v) \<in> set (read_all_published_seq (seen_by run tm) t shards)
    \<Longrightarrow> t + length shards \<le> t' \<Longrightarrow> 0 \<le> v \<and> v \<le> int (length (log_at fmt run (tm t') k))"
proof (induction shards arbitrary: t)
  case (Cons shard shards)
  show ?case
  proof (cases "(k, v) = (shard, read_published_seq (seen_by run tm t shard))")
    case True
    have inv: "shard_inv (home_of E) shard (log_at fmt run (tm t) shard) (seen_by run tm t shard)"
      by (rule timeline_shard [OF tl])
    have "length (log_at fmt run (tm t) shard) \<le> length (log_at fmt run (tm t') shard)"
      using log_at_mono [OF tl, of "tm t" "tm t'" fmt shard] tm Cons.prems(2) by (simp add: mono_def)
    with inv True show ?thesis
      by (auto simp: shard_inv_def published_ok_def read_published_seq_def split: option.splits)
  next
    case False
    then show ?thesis using Cons.prems Cons.IH [of "Suc t"] by auto
  qed
qed simp

lemma single_row:
  assumes "distinct (map dv_id envs)"
  shows "no_row envs a \<or> (\<exists>env\<in>set envs. filter (\<lambda>e. aic_from_object_id (dv_id e) = Inr a) envs = [env])"
proof -
  have inj: "dv_id e = dv_id e'" if "aic_from_object_id (dv_id e) = Inr a" "aic_from_object_id (dv_id e') = Inr a" for e e'
    using that by (auto simp: aic_from_object_id_def startswith_def split: if_splits) (metis append_take_drop_id)
  show ?thesis
    using assms
  proof (induction envs)
    case (Cons e envs)
    show ?case
    proof (cases "aic_from_object_id (dv_id e) = Inr a")
      case True
      have "filter (\<lambda>e. aic_from_object_id (dv_id e) = Inr a) envs = []"
        using Cons.prems inj [OF True] by (auto simp: filter_empty_conv image_iff)
      with True show ?thesis by simp
    qed (use Cons in \<open>auto simp: no_row_def\<close>)
  qed (simp add: no_row_def)
qed

definition silent_while :: "(nat \<Rightarrow> hb_redis \<times> hb_histories) \<Rightarrow> int \<Rightarrow> string \<Rightarrow> nat \<Rightarrow> string \<Rightarrow> bool" where
  "silent_while run start_score k hi a \<longleftrightarrow> (\<exists>u s. u \<le> hi \<and> alive_score (fst (run u)) k a = Some s \<and> s < start_score)"

lemma export_is_snapshot:
  assumes tl: "hb_timeline E run" and tm: "mono tm" and c: "0 < ss_chunk_size settings"
    and count: "0 < set_shard_count (env_settings E)"
    and ex: "materialize iso_fmt settings b (seen_by run tm) (all_shard_ids (set_shard_count (env_settings E))) now = (snap, t', True)"
    and dist: "distinct (map dv_id (mz_envelopes snap))" and late: "tm t' \<le> fin"
  shows "snapshot_of (log_at fmt run fin) (home_of E) (\<lambda>k. length (log_at fmt run (tm t') k))
    (\<lambda>a. silent_while run (now - ss_silence_ms settings) (home_of E a) (tm t') a) (mz_meta snap) (mz_envelopes snap)"
proof -
  let ?shards = "all_shard_ids (set_shard_count (env_settings E))"
  let ?cuts = "read_all_published_seq (seen_by run tm) 0 ?shards"
  obtain envs where en: "enumerate_shards iso_fmt settings b (seen_by run tm) now ?cuts ?shards (length ?shards) = (envs, t', True)"
    and snap: "mz_envelopes snap = envs" "sm_cutover (mz_meta snap) = map (\<lambda>(s, v). (s, seq_to_str v)) ?cuts"
    using ex by (auto simp: materialize_def Let_def split: prod.splits)
  note rows = all_shard_rows [OF tl tm c en, of fmt]
  have bound: "0 \<le> v \<and> v \<le> int (length (log_at fmt run (tm u) k))" if "(k, v) \<in> set ?cuts" "length ?shards \<le> u" for k v u
    by (rule published_bound [OF tl tm that(1)]) (use that(2) in simp)
  have dec: "decode_seqs (sm_cutover (mz_meta snap)) = Inr ?cuts"
    unfolding snap(2) by (rule decode_cutover) (use bound rows in blast)
  have cutb: "0 \<le> cutover_of ?cuts k \<and> cutover_of ?cuts k \<le> int (length (log_at fmt run (tm u) k))"
    if "length ?shards \<le> u" for k u
    using bound [OF _ that] by (auto simp: cutover_of_def split: option.splits dest: map_of_SomeD)
  have here: "tm (length ?shards) \<le> tm t'" using rows tm by (simp add: mono_def)
  have pos: "cutover_of ?cuts k \<le> int (length (log_at fmt run v k))
      \<and> length (log_at fmt run v k) \<le> length (log_at fmt run (tm t') k)
      \<and> latest a (log_at fmt run fin k) (length (log_at fmt run v k)) = latest a (log_at fmt run v k) (length (log_at fmt run v k))"
    if v: "tm (length ?shards) \<le> v" "v \<le> tm t'" for v k a
  proof -
    have "cutover_of ?cuts k \<le> int (length (log_at fmt run (tm (length ?shards)) k))" using cutb by blast
    with log_at_mono [OF tl v(1), of fmt k] log_at_mono [OF tl v(2), of fmt k] late v
      latest_prefix [OF tl, of v fin "length (log_at fmt run v k)" fmt k a]
    show ?thesis by simp
  qed
  have agent: "(\<exists>n. cutover_of ?cuts (home_of E a) \<le> int n \<and> n \<le> length (log_at fmt run (tm t') (home_of E a))
        \<and> rows_show envs a (log_at fmt run fin (home_of E a)) n)
      \<or> silent_while run (now - ss_silence_ms settings) (home_of E a) (tm t') a \<and> no_row envs a" for a
  proof (cases "no_row envs a")
    case True
    have mine: "filter (\<lambda>e. aic_from_object_id (dv_id e) = Inr a) envs = []"
      using True by (auto simp: no_row_def list_all_iff filter_empty_conv)
    have "gap_justified run (now - ss_silence_ms settings) (home_of E a) (tm (length ?shards)) (tm t') a"
      using rows True home_shard_listed [OF count] by blast
    then consider u where "tm (length ?shards) \<le> u" "u \<le> tm t'" "alive_score (fst (run u)) (home_of E a) a = None"
      | "silent_while run (now - ss_silence_ms settings) (home_of E a) (tm t') a"
      by (auto simp: gap_justified_def dead_between_def silent_while_def)
    then show ?thesis
    proof cases
      case 1
      then have "\<not> alive_at a (log_at fmt run u (home_of E a)) (length (log_at fmt run u (home_of E a)))"
        using score_shows_log [OF tl] by blast
      with pos [OF 1(1,2)] mine show ?thesis
        by (intro disjI1 exI [of _ "length (log_at fmt run u (home_of E a))"]) (simp add: rows_show_def alive_at_def)
    qed (use True in simp)
  next
    case False
    with single_row [of envs a] dist snap(1) obtain env where env: "env \<in> set envs"
        "filter (\<lambda>e. aic_from_object_id (dv_id e) = Inr a) envs = [env]" by auto
    have "env \<in> set (filter (\<lambda>e. aic_from_object_id (dv_id e) = Inr a) envs)" unfolding env(2) by simp
    then have aic: "aic_from_object_id (dv_id env) = Inr a" by simp
    from rows env(1) have "row_justified E fmt run (tm (length ?shards)) (tm t') env" by blast
    with aic obtain v s op where v: "tm (length ?shards) \<le> v" "v \<le> tm t'" "seq_from_str (dv_version env) = Inr s"
        "alive_at a (log_at fmt run v (home_of E a)) (length (log_at fmt run v (home_of E a)))"
        "latest a (log_at fmt run v (home_of E a)) (length (log_at fmt run v (home_of E a))) = Some (s, op)"
      unfolding row_justified_def by auto
    with pos [OF v(1,2)] env(2) show ?thesis
      by (intro disjI1 exI [of _ "length (log_at fmt run v (home_of E a))"]) (simp add: rows_show_def alive_at_def)
  qed
  show ?thesis
    unfolding snapshot_of_def snap(1)
    using dec cutb agent rows log_at_mono [OF tl late, of fmt] by blast
qed

subsection \<open>The export feeds the consumer\<close>

lemma distinct_ids:
  assumes "list_all2 (\<lambda>env r. row_to_record env = Inr r) envs recs" and "distinct (map ar_aic recs)"
  shows "distinct (map dv_id envs)"
  using assms
proof (induction envs recs rule: list_all2_induct)
  case (Cons env envs r recs)
  have "dv_id env \<notin> dv_id ` set envs"
  proof
    assume "dv_id env \<in> dv_id ` set envs"
    then obtain env' where env': "env' \<in> set envs" "dv_id env' = dv_id env" by auto
    with list_all2_left [OF Cons.hyps(2)] obtain r' where r': "r' \<in> set recs" "row_to_record env' = Inr r'" by blast
    have "ar_aic r' = ar_aic r" using row_to_recordD [OF Cons.hyps(1)] row_to_recordD [OF r'(2)] env'(2) by simp
    with r'(1) have "ar_aic r \<in> ar_aic ` set recs" by (metis image_eqI)
    with Cons.prems show False by simp
  qed
  with Cons show ?case by simp
qed simp

lemma applied_snapshot_distinct:
  assumes "pg_ok st" and "apply_snapshot pg_ops meta (envs, stop) e st = (Inr e1, st1)"
  shows "distinct (map dv_id envs)"
proof -
  from assms(2) obtain cs where "replace_alive_set pg_ops (record_gen envs stop) cs st = (Inr (), st1)"
    by (auto simp: apply_snapshot_def Let_def split: prod.splits sum.splits)
  from pg.replace_done [OF assms(1) this] have "snd (record_gen envs stop) = None" "distinct (map ar_aic (fst (record_gen envs stop)))"
    by auto
  with distinct_ids record_gen_complete show ?thesis by (metis prod.collapse)
qed

lemma timeline_log_ok: "hb_timeline E run \<Longrightarrow> log_ok (log_at fmt run i) (home_of E)"
  using timeline_shard [of E run _ fmt i] unfolding log_ok_def shard_inv_def log_events_ok_def by blast

end
