(* ===== verification/HbCalls.thy ===== *)
theory HbCalls
  imports HbProvider
begin

text \<open>
  The background tasks of the monitor (relay, reconciler) are sequences of calls to Redis and Kafka. Each call is
  atomic, may fail, and comes after any number of calls of other processes. A task is a function of its own
  state, the shared state and the number of the next call; the others and the faults are a record that is its
  argument. A rule for each way to put calls together shows what a task keeps (its guarantee), if the
  others keep the same (its rely).
\<close>

subsection \<open>Calls\<close>

record monitor_shared =
  ms_redis :: hb_redis
  ms_relay_lock :: "string \<Rightarrow> string option"
  ms_scan_lock :: "string \<Rightarrow> string option"
  ms_kafka :: "int \<Rightarrow> alive_delta list"

record 's task_run =
  tk_self :: 's
  tk_shared :: monitor_shared
  tk_tick :: nat

text \<open>What the others do before call \<open>n\<close>, whether call \<open>n\<close> fails, and the time of Redis at it.\<close>

record task_net =
  tn_others :: "nat \<Rightarrow> monitor_shared \<Rightarrow> monitor_shared"
  tn_fails :: "nat \<Rightarrow> bool"
  tn_now :: "nat \<Rightarrow> int"

type_synonym ('s, 'a) task_op = "'s task_run \<Rightarrow> (relay_exn, 'a) result \<times> 's task_run"

text \<open>A call that answers with an error (\<open>None\<close>) raises in the client, as a lost connection does.\<close>

definition call :: "task_net \<Rightarrow> (int \<Rightarrow> monitor_shared \<Rightarrow> ('a \<times> monitor_shared) option) \<Rightarrow> ('s, 'a) task_op" where
  "call net f w =
     (let sh = tn_others net (tk_tick w) (tk_shared w);
          w1 = w\<lparr>tk_shared := sh, tk_tick := Suc (tk_tick w)\<rparr>
      in if tn_fails net (tk_tick w) then (Inl RelayCallFailed, w1)
         else case f (tn_now net (tk_tick w)) sh of
                None \<Rightarrow> (Inl RelayCallFailed, w1)
              | Some (a, sh') \<Rightarrow> (Inr a, w1\<lparr>tk_shared := sh'\<rparr>))"

definition return_op :: "'a \<Rightarrow> ('s, 'a) task_op" where
  "return_op a w = (Inr a, w)"

definition raise_op :: "relay_exn \<Rightarrow> ('s, 'a) task_op" where
  "raise_op e w = (Inl e, w)"

definition and_then :: "('s, 'a) task_op \<Rightarrow> ('a \<Rightarrow> ('s, 'b) task_op) \<Rightarrow> ('s, 'b) task_op" where
  "and_then m k w = (case m w of (Inl e, w') \<Rightarrow> (Inl e, w') | (Inr a, w') \<Rightarrow> k a w')"

text \<open>\<open>try: m except Exception: handler\<close>.\<close>

definition or_else :: "('s, 'a) task_op \<Rightarrow> ('s, 'a) task_op \<Rightarrow> ('s, 'a) task_op" where
  "or_else m handler w = (case m w of (Inl e, w') \<Rightarrow> handler w' | (Inr a, w') \<Rightarrow> (Inr a, w'))"

definition with_self :: "('s \<Rightarrow> ('s, 'a) task_op) \<Rightarrow> ('s, 'a) task_op" where
  "with_self k w = k (tk_self w) w"

definition set_self :: "('s \<Rightarrow> 's) \<Rightarrow> ('s, unit) task_op" where
  "set_self g w = (Inr (), w\<lparr>tk_self := g (tk_self w)\<rparr>)"

text \<open>A call that only touches the keys of Redis.\<close>

definition redis_call :: "task_net \<Rightarrow> (int \<Rightarrow> hb_redis \<Rightarrow> ('a \<times> hb_redis) option) \<Rightarrow> ('s, 'a) task_op" where
  "redis_call net f = call net (\<lambda>now sh. map_option (\<lambda>(a, r). (a, sh\<lparr>ms_redis := r\<rparr>)) (f now (ms_redis sh)))"

definition redis_read :: "task_net \<Rightarrow> (int \<Rightarrow> hb_redis \<Rightarrow> 'a option) \<Rightarrow> ('s, 'a) task_op" where
  "redis_read net f = redis_call net (\<lambda>now r. map_option (\<lambda>a. (a, r)) (f now r))"

definition redis_now_ms :: "task_net \<Rightarrow> ('s, int) task_op" where
  "redis_now_ms net = redis_read net (\<lambda>now _. Some now)"

subsection \<open>Rely and guarantee\<close>

definition stable :: "(monitor_shared \<Rightarrow> bool) \<Rightarrow> (monitor_shared \<Rightarrow> monitor_shared \<Rightarrow> bool) \<Rightarrow> (monitor_shared \<Rightarrow> bool) \<Rightarrow> bool" where
  "stable I G P \<longleftrightarrow> (\<forall>s s'. I s \<longrightarrow> P s \<longrightarrow> I s' \<longrightarrow> G s s' \<longrightarrow> P s')"

definition relies :: "(monitor_shared \<Rightarrow> bool) \<Rightarrow> (monitor_shared \<Rightarrow> monitor_shared \<Rightarrow> bool) \<Rightarrow> task_net \<Rightarrow> bool" where
  "relies I G net \<longleftrightarrow> (\<forall>t s. I s \<longrightarrow> I (tn_others net t s) \<and> G s (tn_others net t s))"

text \<open>\<open>J\<close> is what the task keeps of its own state.\<close>

definition triple ::
  "('s \<Rightarrow> bool) \<Rightarrow> (monitor_shared \<Rightarrow> bool) \<Rightarrow> (monitor_shared \<Rightarrow> monitor_shared \<Rightarrow> bool) \<Rightarrow> (monitor_shared \<Rightarrow> bool) \<Rightarrow> ('s, 'a) task_op
     \<Rightarrow> ('a \<Rightarrow> monitor_shared \<Rightarrow> bool) \<Rightarrow> bool" where
  "triple J I G P m Q \<longleftrightarrow> (\<forall>w. J (tk_self w) \<longrightarrow> I (tk_shared w) \<longrightarrow> P (tk_shared w) \<longrightarrow>
     J (tk_self (snd (m w))) \<and> I (tk_shared (snd (m w))) \<and> G (tk_shared w) (tk_shared (snd (m w)))
     \<and> (\<forall>a. fst (m w) = Inr a \<longrightarrow> Q a (tk_shared (snd (m w)))))"

text \<open>\<open>R\<close> is what the others do, \<open>G\<close> what the task and the others do together.\<close>

locale rely_guarantee =
  fixes I :: "monitor_shared \<Rightarrow> bool"
    and R G :: "monitor_shared \<Rightarrow> monitor_shared \<Rightarrow> bool"
  assumes R_G: "I s \<Longrightarrow> R s s' \<Longrightarrow> I s' \<Longrightarrow> G s s'"
    and G_refl: "I s \<Longrightarrow> G s s"
    and G_trans: "I s \<Longrightarrow> G s s' \<Longrightarrow> I s' \<Longrightarrow> G s' s'' \<Longrightarrow> I s'' \<Longrightarrow> G s s''"
begin

lemma return_rule: "(\<And>s. I s \<Longrightarrow> P s \<Longrightarrow> Q a s) \<Longrightarrow> triple J I G P (return_op a) Q"
  by (simp add: triple_def return_op_def G_refl)

lemma raise_rule: "triple J I G P (raise_op e) Q"
  by (simp add: triple_def raise_op_def G_refl)

lemma if_rule: "(b \<Longrightarrow> triple J I G P m Q) \<Longrightarrow> (\<not> b \<Longrightarrow> triple J I G P k Q) \<Longrightarrow> triple J I G P (if b then m else k) Q"
  by simp

lemma set_self_rule: "(\<And>x. J x \<Longrightarrow> J (g x)) \<Longrightarrow> (\<And>s. I s \<Longrightarrow> P s \<Longrightarrow> Q () s) \<Longrightarrow> triple J I G P (set_self g) Q"
  by (simp add: triple_def set_self_def G_refl)

lemma with_self_rule: "(\<And>x. J x \<Longrightarrow> triple J I G P (k x) Q) \<Longrightarrow> triple J I G P (with_self k) Q"
  by (simp add: triple_def with_self_def)

lemma consequence:
  assumes "triple J I G P m Q" and "\<And>s. I s \<Longrightarrow> P' s \<Longrightarrow> P s" and "\<And>a s. I s \<Longrightarrow> Q a s \<Longrightarrow> Q' a s"
  shows "triple J I G P' m Q'"
  using assms unfolding triple_def by blast

text \<open>What the others keep as well is known after.\<close>

lemma frame:
  assumes "triple J I G P (m :: ('s, 'a) task_op) Q" and "stable I G F"
    and "\<And>s. I s \<Longrightarrow> P' s \<Longrightarrow> P s \<and> F s" and "\<And>a s. I s \<Longrightarrow> Q a s \<Longrightarrow> F s \<Longrightarrow> Q' a s"
  shows "triple J I G P' m Q'"
  unfolding triple_def
proof (intro allI impI)
  fix w :: "'s task_run" assume J: "J (tk_self w)" and I: "I (tk_shared w)" and P: "P' (tk_shared w)"
  then have "P (tk_shared w)" and F: "F (tk_shared w)" using assms(3) by blast+
  then have m: "J (tk_self (snd (m w)))" "I (tk_shared (snd (m w)))" "G (tk_shared w) (tk_shared (snd (m w)))"
    "\<And>a. fst (m w) = Inr a \<Longrightarrow> Q a (tk_shared (snd (m w)))"
    using assms(1) J I unfolding triple_def by blast+
  then have "F (tk_shared (snd (m w)))" using assms(2) I F unfolding stable_def by blast
  then show "J (tk_self (snd (m w))) \<and> I (tk_shared (snd (m w))) \<and> G (tk_shared w) (tk_shared (snd (m w)))
      \<and> (\<forall>a. fst (m w) = Inr a \<longrightarrow> Q' a (tk_shared (snd (m w))))"
    using m assms(4) by blast
qed

lemma and_then_rule:
  assumes m: "triple J I G P (m :: ('s, 'a) task_op) M" and k: "\<And>a. triple J I G (M a) (k a) Q"
  shows "triple J I G P (and_then m k) Q"
  unfolding triple_def
proof (intro allI impI)
  fix w :: "'s task_run" assume J: "J (tk_self w)" and I: "I (tk_shared w)" and P: "P (tk_shared w)"
  obtain r w' where mw: "m w = (r, w')" by (cases "m w")
  have 1: "J (tk_self w')" "I (tk_shared w')" "G (tk_shared w) (tk_shared w')" "\<And>a. r = Inr a \<Longrightarrow> M a (tk_shared w')"
    using m J I P mw unfolding triple_def by (metis fst_conv snd_conv)+
  show "J (tk_self (snd (and_then m k w))) \<and> I (tk_shared (snd (and_then m k w))) \<and> G (tk_shared w) (tk_shared (snd (and_then m k w)))
      \<and> (\<forall>a. fst (and_then m k w) = Inr a \<longrightarrow> Q a (tk_shared (snd (and_then m k w))))"
  proof (cases r)
    case (Inl e)
    then show ?thesis using 1 mw by (simp add: and_then_def)
  next
    case (Inr a)
    have 2: "J (tk_self (snd (k a w')))" "I (tk_shared (snd (k a w')))" "G (tk_shared w') (tk_shared (snd (k a w')))"
      "\<And>b. fst (k a w') = Inr b \<Longrightarrow> Q b (tk_shared (snd (k a w')))"
      using k [of a] 1(1,2) 1(4) [OF Inr] unfolding triple_def by blast+
    then show ?thesis using 1 Inr mw G_trans [OF I 1(3,2) 2(3,2)] by (simp add: and_then_def)
  qed
qed

text \<open>What holds before is still known in the handler if the others keep it.\<close>

lemma or_else_rule:
  assumes m: "triple J I G P (m :: ('s, 'a) task_op) Q" and h: "triple J I G P h Q" and st: "stable I G P"
  shows "triple J I G P (or_else m h) Q"
  unfolding triple_def
proof (intro allI impI)
  fix w :: "'s task_run" assume J: "J (tk_self w)" and I: "I (tk_shared w)" and P: "P (tk_shared w)"
  obtain r w' where mw: "m w = (r, w')" by (cases "m w")
  have 1: "J (tk_self w')" "I (tk_shared w')" "G (tk_shared w) (tk_shared w')" "\<And>a. r = Inr a \<Longrightarrow> Q a (tk_shared w')"
    using m J I P mw unfolding triple_def by (metis fst_conv snd_conv)+
  show "J (tk_self (snd (or_else m h w))) \<and> I (tk_shared (snd (or_else m h w))) \<and> G (tk_shared w) (tk_shared (snd (or_else m h w)))
      \<and> (\<forall>a. fst (or_else m h w) = Inr a \<longrightarrow> Q a (tk_shared (snd (or_else m h w))))"
  proof (cases r)
    case (Inr a)
    then show ?thesis using 1 mw by (simp add: or_else_def)
  next
    case (Inl e)
    have "P (tk_shared w')" using st I P 1(2,3) unfolding stable_def by blast
    then have 2: "J (tk_self (snd (h w')))" "I (tk_shared (snd (h w')))" "G (tk_shared w') (tk_shared (snd (h w')))"
      "\<And>b. fst (h w') = Inr b \<Longrightarrow> Q b (tk_shared (snd (h w')))"
      using h 1(1,2) unfolding triple_def by blast+
    then show ?thesis using Inl mw G_trans [OF I 1(3,2) 2(3,2)] by (simp add: or_else_def)
  qed
qed

lemma call_rule:
  assumes rely: "relies I R net" and st: "stable I R P"
    and f: "\<And>now s a s'. I s \<Longrightarrow> P s \<Longrightarrow> f now s = Some (a, s') \<Longrightarrow> I s' \<and> G s s' \<and> Q a s'"
  shows "triple J I G P (call net f :: ('s, 'a) task_op) Q"
  unfolding triple_def
proof (intro allI impI)
  fix w :: "'s task_run" assume J: "J (tk_self w)" and I: "I (tk_shared w)" and P: "P (tk_shared w)"
  obtain sh where sh: "sh = tn_others net (tk_tick w) (tk_shared w)" by blast
  have 0: "I sh" "R (tk_shared w) sh" using rely I unfolding relies_def sh by blast+
  then have 1: "I sh" "G (tk_shared w) sh" using R_G I by blast+
  have "P sh" using st I P 0 unfolding stable_def by blast
  then show "J (tk_self (snd (call net f w))) \<and> I (tk_shared (snd (call net f w))) \<and> G (tk_shared w) (tk_shared (snd (call net f w)))
      \<and> (\<forall>a. fst (call net f w) = Inr a \<longrightarrow> Q a (tk_shared (snd (call net f w))))"
    using J 1 f [OF 1(1)] G_trans [OF I 1(2,1)]
    by (auto simp: call_def Let_def sh [symmetric] split: option.splits)
qed

lemma redis_call_rule:
  assumes "relies I R net" and "stable I R P"
    and "\<And>now s a r'. I s \<Longrightarrow> P s \<Longrightarrow> f now (ms_redis s) = Some (a, r')
      \<Longrightarrow> I (s\<lparr>ms_redis := r'\<rparr>) \<and> G s (s\<lparr>ms_redis := r'\<rparr>) \<and> Q a (s\<lparr>ms_redis := r'\<rparr>)"
  shows "triple J I G P (redis_call net f) Q"
  unfolding redis_call_def by (rule call_rule [OF assms(1,2)]) (use assms(3) in \<open>auto\<close>)

lemma redis_read_rule:
  assumes "relies I R net" and "stable I R P"
    and "\<And>now s a. I s \<Longrightarrow> P s \<Longrightarrow> f now (ms_redis s) = Some a \<Longrightarrow> Q a s"
  shows "triple J I G P (redis_read net f) Q"
  unfolding redis_read_def by (rule redis_call_rule [OF assms(1,2)]) (use assms(3) G_refl in \<open>auto\<close>)

lemma stable_True: "stable I R (\<lambda>_. True)"
  by (simp add: stable_def)

lemma keeps_invariant:
  assumes "triple J I G (\<lambda>_. True) m Q" and "J (tk_self w)" and "I (tk_shared w)"
  shows "J (tk_self (snd (m w))) \<and> I (tk_shared (snd (m w))) \<and> G (tk_shared w) (tk_shared (snd (m w)))"
  using assms by (simp add: triple_def)

end

subsection \<open>Runs without faults\<close>

text \<open>No one else acts, no call fails, and the clock does not go back.\<close>

definition quiet_net :: "task_net \<Rightarrow> bool" where
  "quiet_net net \<longleftrightarrow> (\<forall>t s. tn_others net t s = s) \<and> (\<forall>t. \<not> tn_fails net t) \<and> mono (tn_now net)"

lemma redis_call_quiet:
  "quiet_net net \<Longrightarrow> f (tn_now net (tk_tick w)) (ms_redis (tk_shared w)) = Some (a, r) \<Longrightarrow>
     redis_call net f w = (Inr a, w\<lparr>tk_shared := (tk_shared w)\<lparr>ms_redis := r\<rparr>, tk_tick := Suc (tk_tick w)\<rparr>)"
  by (simp add: quiet_net_def redis_call_def call_def)

lemma redis_read_quiet:
  "quiet_net net \<Longrightarrow> f (tn_now net (tk_tick w)) (ms_redis (tk_shared w)) = Some a \<Longrightarrow>
     redis_read net f w = (Inr a, w\<lparr>tk_tick := Suc (tk_tick w)\<rparr>)"
  unfolding redis_read_def by (simp add: redis_call_quiet)

lemma and_then_Inr_op: "m w = (Inr a, w') \<Longrightarrow> and_then m k w = k a w'"
  by (simp add: and_then_def)

lemma set_self_run: "and_then (set_self g) k w = k () (w\<lparr>tk_self := g (tk_self w)\<rparr>)"
  by (simp add: and_then_def set_self_def)

end
