(* ===== verification/HbRelay.thy ===== *)
theory HbRelay
  imports HbCalls
begin

text \<open>
  The relay, \<open>monitor-server/app/heartbeat/relay.py\<close> with \<open>outbox_publish_lag_ms\<close> of \<open>store.py\<close>: it reads the outbox
  of a shard through a consumer group, publishes each entry to the partition of the shard, and records how far
  it has come. One process at a time has the shard; a counter (the epoch) fences one that has lost it.
\<close>

subsection \<open>Streams with a consumer group\<close>

text \<open>A command on a group that does not exist is an error reply, \<open>None\<close>.\<close>

definition on_group :: "(relay_group \<Rightarrow> hb_shard \<Rightarrow> 'a \<times> hb_shard) \<Rightarrow> hb_shard \<Rightarrow> ('a \<times> hb_shard) option" where
  "on_group f sh = (case hs_group sh of None \<Rightarrow> None | Some g \<Rightarrow> Some (f g sh))"

definition at_shard :: "string \<Rightarrow> (hb_shard \<Rightarrow> ('a \<times> hb_shard) option) \<Rightarrow> hb_redis \<Rightarrow> ('a \<times> hb_redis) option" where
  "at_shard shard f r = map_option (\<lambda>(a, sh). (a, r(shard := sh))) (f (r shard))"

definition xgroup_create :: "hb_shard \<Rightarrow> (unit \<times> hb_shard) option" where
  "xgroup_create sh = (case hs_group sh of
     None \<Rightarrow> Some ((), sh\<lparr>hs_group := Some \<lparr>rg_last = (0, 0), rg_pel = [], rg_consumers = []\<rparr>\<rparr>)
   | Some _ \<Rightarrow> None)"

definition xgroup_destroy :: "hb_shard \<Rightarrow> (unit \<times> hb_shard) option" where
  "xgroup_destroy sh = Some ((), sh\<lparr>hs_group := None\<rparr>)"

text \<open>Deleting a consumer drops what it has pending.\<close>

definition xgroup_delconsumer :: "string \<Rightarrow> hb_shard \<Rightarrow> (unit \<times> hb_shard) option" where
  "xgroup_delconsumer consumer = on_group (\<lambda>g sh. ((), sh\<lparr>hs_group := Some (g\<lparr>
     rg_pel := filter (\<lambda>(_, c). c \<noteq> consumer) (rg_pel g),
     rg_consumers := filter (\<lambda>(c, _). c \<noteq> consumer) (rg_consumers g)\<rparr>)\<rparr>))"

definition xinfo_consumers :: "int \<Rightarrow> hb_shard \<Rightarrow> (string \<times> int) list option" where
  "xinfo_consumers now sh = map_option (\<lambda>g. map (\<lambda>(c, seen). (c, now - seen)) (rg_consumers g)) (hs_group sh)"

text \<open>\<open>XREADGROUP\<close> with \<open>>\<close>: the entries after the last one delivered become pending at the consumer.\<close>

definition xreadgroup :: "int \<Rightarrow> string \<Rightarrow> nat \<Rightarrow> hb_shard \<Rightarrow> ((stream_id \<times> outbox_fields) list \<times> hb_shard) option" where
  "xreadgroup now consumer count = on_group (\<lambda>g sh.
     let entries = take count (filter (\<lambda>(i, _). id_before (rg_last g) i) (hs_outbox sh))
     in (entries, sh\<lparr>hs_group := Some (g\<lparr>
          rg_last := (if entries = [] then rg_last g else fst (last entries)),
          rg_pel := rg_pel g @ map (\<lambda>(i, _). (i, consumer)) entries,
          rg_consumers := AList.update consumer now (rg_consumers g)\<rparr>)\<rparr>))"

text \<open>
  \<open>XAUTOCLAIM\<close> from the start with no minimal idle time: the first \<open>count\<close> pending entries go to the consumer;
  those that are no longer in the stream are dropped. The answer has where to go on, \<open>0-0\<close> at the end.
\<close>

definition xautoclaim ::
  "int \<Rightarrow> string \<Rightarrow> nat \<Rightarrow> hb_shard \<Rightarrow> ((stream_id \<times> (stream_id \<times> outbox_fields) list) \<times> hb_shard) option" where
  "xautoclaim now consumer count = on_group (\<lambda>g sh.
     let kept = filter (\<lambda>(i, _). map_of (hs_outbox sh) i \<noteq> None) (take count (rg_pel g));
         rest = drop count (rg_pel g);
         next_start = (case rest of [] \<Rightarrow> (0, 0) | (i, _) # _ \<Rightarrow> i)
     in ((next_start, map (\<lambda>(i, _). (i, the (map_of (hs_outbox sh) i))) kept),
         sh\<lparr>hs_group := Some (g\<lparr>rg_pel := map (\<lambda>(i, _). (i, consumer)) kept @ rest,
           rg_consumers := AList.update consumer now (rg_consumers g)\<rparr>)\<rparr>))"

definition xpending_first :: "hb_shard \<Rightarrow> stream_id option option" where
  "xpending_first sh = map_option (\<lambda>g. case rg_pel g of [] \<Rightarrow> None | (i, _) # _ \<Rightarrow> Some i) (hs_group sh)"

definition xrange_one :: "stream_id \<Rightarrow> hb_shard \<Rightarrow> outbox_fields option" where
  "xrange_one i sh = map_of (hs_outbox sh) i"

definition first_after :: "stream_id \<Rightarrow> hb_shard \<Rightarrow> stream_id option" where
  "first_after i sh = (case filter (\<lambda>(j, _). id_before i j) (hs_outbox sh) of [] \<Rightarrow> None | (j, _) # _ \<Rightarrow> Some j)"

definition first_entry :: "hb_shard \<Rightarrow> stream_id option" where
  "first_entry sh = (case hs_outbox sh of [] \<Rightarrow> None | (j, _) # _ \<Rightarrow> Some j)"

subsection \<open>State of a relay\<close>

text \<open>What one process keeps for one shard. (The batch size of the settings is positive; with zero the code divides by zero.)\<close>

record relay_state =
  rl_node :: string
  rl_producer :: bool
  rl_last_acked :: "stream_id option"
  rl_since_trim :: int
  rl_expected :: "int option"
  rl_lag_polls :: int
  rl_published_total :: int
  rl_truncated_total :: int

record relay_settings =
  rs_iso :: "int \<Rightarrow> string"
  rs_batch_size :: nat
  rs_max_lag_s :: int

definition consumer_name :: "relay_state \<Rightarrow> string" where
  "consumer_name self = ''relay-'' @ rl_node self"

definition XREADGROUP_COUNT :: nat where "XREADGROUP_COUNT = 100"
definition XAUTOCLAIM_COUNT :: nat where "XAUTOCLAIM_COUNT = 100"
definition TRIM_INTERVAL :: int where "TRIM_INTERVAL = 500"
definition HEAL_EMPTY_POLLS :: int where "HEAL_EMPTY_POLLS = 10"
definition IDLE_CONSUMER_MS :: int where "IDLE_CONSUMER_MS = 60000"

subsection \<open>Owning a shard\<close>

definition acquire_shard :: "task_net \<Rightarrow> string \<Rightarrow> (relay_state, int option) task_op" where
  "acquire_shard net shard = with_self (\<lambda>self.
     and_then
       (call net (\<lambda>_ sh. case ms_relay_lock sh shard of
          None \<Rightarrow> Some (True, sh\<lparr>ms_relay_lock := (ms_relay_lock sh)(shard \<mapsto> rl_node self)\<rparr>)
        | Some _ \<Rightarrow> Some (False, sh)))
       (\<lambda>got. if \<not> got then return_op None
          else and_then
            (redis_call net (\<lambda>_. at_shard shard (\<lambda>s.
               let epoch = (case hs_epoch s of None \<Rightarrow> 1 | Some e \<Rightarrow> e + 1) in Some (epoch, s\<lparr>hs_epoch := Some epoch\<rparr>))))
            (\<lambda>epoch. return_op (Some epoch))))"

definition renew_lock :: "task_net \<Rightarrow> string \<Rightarrow> (relay_state, bool) task_op" where
  "renew_lock net shard = with_self (\<lambda>self.
     call net (\<lambda>_ sh. Some (ms_relay_lock sh shard = Some (rl_node self), sh)))"

definition release_lock :: "task_net \<Rightarrow> string \<Rightarrow> (relay_state, unit) task_op" where
  "release_lock net shard = with_self (\<lambda>self. or_else
     (and_then (call net (\<lambda>_ sh. Some (ms_relay_lock sh shard, sh)))
       (\<lambda>val. if val = Some (rl_node self)
          then call net (\<lambda>_ sh. Some ((), sh\<lparr>ms_relay_lock := (ms_relay_lock sh)(shard := None)\<rparr>))
          else return_op ()))
     (return_op ()))"

subsection \<open>Sending\<close>

definition send_and_wait :: "task_net \<Rightarrow> int \<Rightarrow> alive_delta \<Rightarrow> ('s, unit) task_op" where
  "send_and_wait net part envelope =
     call net (\<lambda>_ sh. Some ((), sh\<lparr>ms_kafka := (ms_kafka sh)(part := ms_kafka sh part @ [envelope])\<rparr>))"

text \<open>The answer says whether there was a producer to send with.\<close>

definition send_if_producer :: "task_net \<Rightarrow> int \<Rightarrow> alive_delta \<Rightarrow> (relay_state, bool) task_op" where
  "send_if_producer net part envelope = with_self (\<lambda>self.
     if rl_producer self then
       and_then (send_and_wait net part envelope)
         (\<lambda>_. and_then (set_self (\<lambda>x. x\<lparr>rl_published_total := rl_published_total x + 1\<rparr>)) (\<lambda>_. return_op True))
     else return_op False)"

definition from_result :: "('e, 'b) result \<Rightarrow> ('b \<Rightarrow> ('s, 'a) task_op) \<Rightarrow> ('s, 'a) task_op" where
  "from_result r k = (case r of Inl _ \<Rightarrow> raise_op RelayCallFailed | Inr b \<Rightarrow> k b)"

definition ack :: "task_net \<Rightarrow> string \<Rightarrow> int \<Rightarrow> stream_id \<Rightarrow> ('s, bool) task_op" where
  "ack net shard epoch entry_id = redis_call net (\<lambda>_ r. Some (relay_ack shard epoch entry_id r))"

definition commit :: "task_net \<Rightarrow> string \<Rightarrow> int \<Rightarrow> int \<Rightarrow> ('s, bool) task_op" where
  "commit net shard epoch s = redis_call net (\<lambda>_ r. Some (relay_commit_published_seq shard epoch s r))"

subsection \<open>Taking over what is pending\<close>

definition recover_entry ::
  "task_net \<Rightarrow> relay_settings \<Rightarrow> string \<Rightarrow> int \<Rightarrow> stream_id \<times> outbox_fields \<Rightarrow> (relay_state, bool) task_op" where
  "recover_entry net settings shard epoch = (\<lambda>(entry_id, fs).
     and_then
       (or_else
         (from_result (build_envelope (rs_iso settings) shard fs) (\<lambda>envelope.
            from_result (shard_index_from_id shard) (\<lambda>part. send_if_producer net part envelope)))
         (return_op False))
       (\<lambda>published. if \<not> published then return_op True else ack net shard epoch entry_id))"

fun recover_entries ::
  "task_net \<Rightarrow> relay_settings \<Rightarrow> string \<Rightarrow> int \<Rightarrow> (stream_id \<times> outbox_fields) list \<Rightarrow> (relay_state, bool) task_op" where
  "recover_entries net settings shard epoch [] = return_op True"
| "recover_entries net settings shard epoch (e # es) =
     and_then (recover_entry net settings shard epoch e)
       (\<lambda>go. if \<not> go then return_op False else recover_entries net settings shard epoch es)"

text \<open>
  The loop always claims from the start and need not end while entries cannot be sent; a run that is still in
  it after \<open>n\<close> rounds is \<open>StillRecovering\<close>.
\<close>

datatype recovery = Recovered | Fenced | StillRecovering

fun recover_pel :: "nat \<Rightarrow> task_net \<Rightarrow> relay_settings \<Rightarrow> string \<Rightarrow> int \<Rightarrow> (relay_state, recovery) task_op" where
  "recover_pel 0 net settings shard epoch = return_op StillRecovering"
| "recover_pel (Suc n) net settings shard epoch = with_self (\<lambda>self.
     and_then (redis_call net (\<lambda>now. at_shard shard (xautoclaim now (consumer_name self) XAUTOCLAIM_COUNT)))
       (\<lambda>(next_start, entries). and_then (recover_entries net settings shard epoch entries)
         (\<lambda>go. if \<not> go then return_op Fenced
            else if next_start = (0, 0) then return_op Recovered
            else recover_pel n net settings shard epoch)))"

subsection \<open>The published position after a restart\<close>

text \<open>The answer says whether the branch applies; an exception in it falls through to the next one.\<close>

definition reset_from_pending :: "task_net \<Rightarrow> string \<Rightarrow> int \<Rightarrow> (relay_state, bool) task_op" where
  "reset_from_pending net shard epoch =
     and_then (redis_read net (\<lambda>_ r. xpending_first (r shard)))
       (\<lambda>pending. case pending of
          None \<Rightarrow> return_op False
        | Some min_pending_id \<Rightarrow>
            and_then (redis_read net (\<lambda>_ r. Some (xrange_one min_pending_id (r shard))))
              (\<lambda>entry. case entry of
                 None \<Rightarrow> return_op True
               | Some fs \<Rightarrow> and_then (commit net shard epoch (max 0 (of_seq fs - 1))) (\<lambda>_. return_op True)))"

definition reset_from_delivered :: "task_net \<Rightarrow> string \<Rightarrow> int \<Rightarrow> (relay_state, bool) task_op" where
  "reset_from_delivered net shard epoch =
     and_then (redis_read net (\<lambda>_ r. map_option rg_last (hs_group (r shard))))
       (\<lambda>last_delivered. if last_delivered = (0, 0) then return_op True
          else and_then (redis_read net (\<lambda>_ r. Some (xrange_one last_delivered (r shard))))
            (\<lambda>entry. case entry of
               None \<Rightarrow> return_op True
             | Some fs \<Rightarrow> and_then (commit net shard epoch (of_seq fs)) (\<lambda>_. return_op True)))"

definition reset_published_seq :: "task_net \<Rightarrow> string \<Rightarrow> int \<Rightarrow> (relay_state, unit) task_op" where
  "reset_published_seq net shard epoch =
     and_then (or_else (reset_from_pending net shard epoch) (return_op False))
       (\<lambda>handled. if handled then return_op ()
          else and_then (or_else (reset_from_delivered net shard epoch) (return_op False)) (\<lambda>_. return_op ()))"

subsection \<open>Publishing\<close>

definition detect_truncation :: "int \<Rightarrow> relay_state \<Rightarrow> relay_state" where
  "detect_truncation s self =
     (let self1 = (case rl_expected self of
            None \<Rightarrow> self
          | Some e \<Rightarrow> if s \<noteq> e then self\<lparr>rl_truncated_total := rl_truncated_total self + 1\<rparr> else self)
      in self1\<lparr>rl_expected := Some (s + 1)\<rparr>)"

text \<open>
  The loop over a batch with its two counters. \<open>None\<close> is the early return of a relay that is fenced; otherwise the
  last position sent, if any, and how many entries the loop has sent.
\<close>

fun publish_entries ::
  "task_net \<Rightarrow> relay_settings \<Rightarrow> string \<Rightarrow> int \<Rightarrow> int \<Rightarrow> (stream_id \<times> outbox_fields) list \<Rightarrow> int option \<Rightarrow> nat
     \<Rightarrow> (relay_state, (int option \<times> nat) option) task_op" where
  "publish_entries net settings shard part epoch [] last_seq n = return_op (Some (last_seq, n))"
| "publish_entries net settings shard part epoch ((entry_id, fs) # es) last_seq n =
     and_then (set_self (detect_truncation (of_seq fs))) (\<lambda>_.
     from_result (build_envelope (rs_iso settings) shard fs) (\<lambda>envelope.
     and_then (send_if_producer net part envelope) (\<lambda>_.
     and_then (ack net shard epoch entry_id) (\<lambda>acked.
     if \<not> acked then return_op None
     else and_then (set_self (\<lambda>x. x\<lparr>rl_last_acked := Some entry_id, rl_since_trim := rl_since_trim x + 1\<rparr>)) (\<lambda>_.
       if Suc n mod rs_batch_size settings = 0 then
         and_then (commit net shard epoch (of_seq fs)) (\<lambda>committed.
         if \<not> committed then return_op None
         else publish_entries net settings shard part epoch es (Some (of_seq fs)) (Suc n))
       else publish_entries net settings shard part epoch es (Some (of_seq fs)) (Suc n))))))"

definition trim_when_due :: "task_net \<Rightarrow> string \<Rightarrow> int \<Rightarrow> (relay_state, bool) task_op" where
  "trim_when_due net shard epoch = with_self (\<lambda>self.
     case rl_last_acked self of
       None \<Rightarrow> return_op True
     | Some last_acked \<Rightarrow>
         if rl_since_trim self \<ge> TRIM_INTERVAL then
           and_then (redis_call net (\<lambda>_ r. Some (relay_trim shard epoch last_acked r)))
             (\<lambda>trimmed. if \<not> trimmed then return_op False
                else and_then (set_self (\<lambda>x. x\<lparr>rl_since_trim := 0\<rparr>)) (\<lambda>_. return_op True))
         else return_op True)"

subsection \<open>Lag and repair\<close>

definition probe :: "('s, 'a option) task_op \<Rightarrow> ('s, 'a option) task_op" where
  "probe m = or_else m (return_op None)"

definition lag_from_pel :: "task_net \<Rightarrow> string \<Rightarrow> int \<Rightarrow> ('s, int option) task_op" where
  "lag_from_pel net shard now_ms = probe
     (and_then (redis_read net (\<lambda>_ r. xpending_first (r shard)))
       (\<lambda>oldest. return_op (map_option (\<lambda>i. now_ms - fst i) oldest)))"

text \<open>
  The second probe: whether the group was found, and the lag of the first entry not delivered. The flag is set before
  the read that can fail.
\<close>

definition lag_from_undelivered :: "task_net \<Rightarrow> string \<Rightarrow> int \<Rightarrow> ('s, bool \<times> int option) task_op" where
  "lag_from_undelivered net shard now_ms =
     and_then (probe (redis_read net (\<lambda>_ r. Some (map_option rg_last (hs_group (r shard))))))
       (\<lambda>found. case found of
          None \<Rightarrow> return_op (False, None)
        | Some last_delivered \<Rightarrow>
            and_then (probe (redis_read net (\<lambda>_ r. Some (first_after last_delivered (r shard)))))
              (\<lambda>next_id. return_op (True, map_option (\<lambda>i. now_ms - fst i) next_id)))"

definition outbox_publish_lag_ms :: "task_net \<Rightarrow> string \<Rightarrow> ('s, int option) task_op" where
  "outbox_publish_lag_ms net shard =
     and_then (redis_now_ms net) (\<lambda>now_ms.
     and_then (lag_from_pel net shard now_ms) (\<lambda>from_pel.
     and_then (lag_from_undelivered net shard now_ms) (\<lambda>(group_found, from_undelivered).
     case (from_pel, from_undelivered) of
       (Some a, Some b) \<Rightarrow> return_op (Some (max a b))
     | (Some a, None) \<Rightarrow> return_op (Some a)
     | (None, Some b) \<Rightarrow> return_op (Some b)
     | (None, None) \<Rightarrow>
         if group_found then return_op None
         else probe (and_then (redis_read net (\<lambda>_ r. Some (first_entry (r shard))))
                (\<lambda>oldest. return_op (map_option (\<lambda>i. max 0 (now_ms - fst i)) oldest))))))"

definition reset_consumer_group :: "task_net \<Rightarrow> string \<Rightarrow> (relay_state, unit) task_op" where
  "reset_consumer_group net shard =
     and_then (or_else (redis_call net (\<lambda>_. at_shard shard xgroup_destroy)) (return_op ()))
       (\<lambda>_. redis_call net (\<lambda>_. at_shard shard xgroup_create))"

definition maybe_heal_undelivered_lag :: "task_net \<Rightarrow> relay_settings \<Rightarrow> string \<Rightarrow> (relay_state, unit) task_op" where
  "maybe_heal_undelivered_lag net settings shard =
     and_then (outbox_publish_lag_ms net shard) (\<lambda>lag.
     if (case lag of None \<Rightarrow> True | Some l \<Rightarrow> l \<le> rs_max_lag_s settings * 1000) then set_self (\<lambda>x. x\<lparr>rl_lag_polls := 0\<rparr>)
     else and_then (set_self (\<lambda>x. x\<lparr>rl_lag_polls := rl_lag_polls x + 1\<rparr>)) (\<lambda>_. with_self (\<lambda>self.
       if rl_lag_polls self < HEAL_EMPTY_POLLS then return_op ()
       else and_then (reset_consumer_group net shard) (\<lambda>_. set_self (\<lambda>x. x\<lparr>rl_lag_polls := 0\<rparr>)))))"

definition publish_batch :: "task_net \<Rightarrow> relay_settings \<Rightarrow> string \<Rightarrow> int \<Rightarrow> (relay_state, bool) task_op" where
  "publish_batch net settings shard epoch = from_result (shard_index_from_id shard) (\<lambda>part. with_self (\<lambda>self.
     and_then (redis_call net (\<lambda>now. at_shard shard (xreadgroup now (consumer_name self) XREADGROUP_COUNT))) (\<lambda>entries.
     if entries = [] then and_then (maybe_heal_undelivered_lag net settings shard) (\<lambda>_. return_op True)
     else
       and_then (set_self (\<lambda>x. x\<lparr>rl_lag_polls := 0\<rparr>)) (\<lambda>_.
       and_then (publish_entries net settings shard part epoch entries None 0) (\<lambda>sent.
       case sent of
         None \<Rightarrow> return_op False
       | Some (last_published_seq, published_in_batch) \<Rightarrow>
           and_then
             (case last_published_seq of
                Some s \<Rightarrow> if published_in_batch mod rs_batch_size settings \<noteq> 0 then commit net shard epoch s else return_op True
              | None \<Rightarrow> return_op True)
             (\<lambda>committed. if \<not> committed then return_op False else trim_when_due net shard epoch))))))"

subsection \<open>The loop of a shard\<close>

fun prune_each :: "task_net \<Rightarrow> string \<Rightarrow> (string \<times> int) list \<Rightarrow> (relay_state, unit) task_op" where
  "prune_each net shard [] = return_op ()"
| "prune_each net shard ((name, idle_ms) # cs) = with_self (\<lambda>self.
     if name = [] \<or> name = consumer_name self \<or> idle_ms < IDLE_CONSUMER_MS then prune_each net shard cs
     else and_then (or_else (redis_call net (\<lambda>_. at_shard shard (xgroup_delconsumer name))) (return_op ()))
       (\<lambda>_. prune_each net shard cs))"

definition prune_idle_consumers :: "task_net \<Rightarrow> string \<Rightarrow> (relay_state, unit) task_op" where
  "prune_idle_consumers net shard =
     and_then (probe (redis_read net (\<lambda>now r. map_option Some (xinfo_consumers now (r shard)))))
       (\<lambda>consumers. case consumers of None \<Rightarrow> return_op () | Some cs \<Rightarrow> prune_each net shard cs)"

text \<open>\<open>n\<close> rounds of the inner loop; a run that is stopped has made fewer.\<close>

fun publish_loop :: "nat \<Rightarrow> task_net \<Rightarrow> relay_settings \<Rightarrow> string \<Rightarrow> int \<Rightarrow> (relay_state, unit) task_op" where
  "publish_loop 0 net settings shard epoch = return_op ()"
| "publish_loop (Suc n) net settings shard epoch =
     and_then (publish_batch net settings shard epoch) (\<lambda>ok.
     if \<not> ok then return_op ()
     else and_then (renew_lock net shard) (\<lambda>renewed.
       if \<not> renewed then return_op () else publish_loop n net settings shard epoch))"

definition relay_work :: "nat \<Rightarrow> nat \<Rightarrow> task_net \<Rightarrow> relay_settings \<Rightarrow> string \<Rightarrow> int \<Rightarrow> (relay_state, unit) task_op" where
  "relay_work rounds batches net settings shard epoch =
     and_then (recover_pel rounds net settings shard epoch) (\<lambda>outcome.
     if outcome = StillRecovering then return_op ()
     else and_then (reset_published_seq net shard epoch) (\<lambda>_. publish_loop batches net settings shard epoch))"

definition shard_term :: "nat \<Rightarrow> nat \<Rightarrow> task_net \<Rightarrow> relay_settings \<Rightarrow> string \<Rightarrow> (relay_state, unit) task_op" where
  "shard_term rounds batches net settings shard =
     and_then (acquire_shard net shard) (\<lambda>epoch. case epoch of
       None \<Rightarrow> return_op ()
     | Some e \<Rightarrow> and_then
         (or_else (and_then (prune_idle_consumers net shard) (\<lambda>_. relay_work rounds batches net settings shard e)) (return_op ()))
         (\<lambda>_. release_lock net shard))"

subsection \<open>Reading the lag\<close>

text \<open>The lag is found by reads alone, so any protocol allows it.\<close>

context rely_guarantee
begin

lemma probe_rule: "triple J I G (\<lambda>_. True) m (\<lambda>_ _. True) \<Longrightarrow> triple J I G (\<lambda>_. True) (probe m) (\<lambda>_ _. True)"
  unfolding probe_def by (rule or_else_rule) (simp_all add: return_rule stable_def)

lemma lag_rule:
  assumes rely: "relies I R net"
  shows "triple J I G (\<lambda>_. True) (outbox_publish_lag_ms net shard) (\<lambda>_ _. True)"
proof -
  note ops = redis_read_rule [OF rely stable_True] return_rule probe_rule
  have "triple J I G (\<lambda>_. True) (lag_from_pel net shard t) (\<lambda>_ _. True)" for t
    unfolding lag_from_pel_def by (intro probe_rule and_then_rule [where M = "\<lambda>_ _. True"] ops; simp)
  moreover have "triple J I G (\<lambda>_. True) (lag_from_undelivered net shard t) (\<lambda>_ _. True)" for t
    unfolding lag_from_undelivered_def
    by (rule and_then_rule [where M = "\<lambda>_ _. True"], intro ops TrueI)
      (auto split: option.splits intro!: and_then_rule [where M = "\<lambda>_ _. True"] ops)
  ultimately show ?thesis
    unfolding outbox_publish_lag_ms_def redis_now_ms_def split_beta
    by (intro and_then_rule [where M = "\<lambda>_ _. True"] ops TrueI)
      (auto split: option.splits prod.splits intro!: and_then_rule [where M = "\<lambda>_ _. True"] ops)
qed

end

end
