(* ===== verification/HbRelaySafety.thy ===== *)
theory HbRelaySafety
  imports HbRelay
begin

text \<open>
  What a relay guarantees and what it relies on. Every entry of the outbox that the group has delivered is
  pending or has been sent, whatever fails and whoever else works on the shard, as long as they keep the same; and
  writers do. Deleting a consumer is the step that does not keep it.
\<close>

subsection \<open>What every process keeps\<close>

definition entry_sent :: "(int \<Rightarrow> string) \<Rightarrow> string \<Rightarrow> monitor_shared \<Rightarrow> outbox_fields \<Rightarrow> bool" where
  "entry_sent fmt shard s fs \<longleftrightarrow>
     (\<exists>envelope part. build_envelope fmt shard fs = Inr envelope \<and> shard_index_from_id shard = Inr part
        \<and> envelope \<in> set (ms_kafka s part))"

definition stream_ok :: "hb_shard \<Rightarrow> bool" where
  "stream_ok sh \<longleftrightarrow> sorted_wrt id_before (map fst (hs_outbox sh)) \<and> \<not> id_before (hs_last_id sh) (0, 0)
     \<and> (\<forall>i\<in>fst ` set (hs_outbox sh). id_before (0, 0) i \<and> \<not> id_before (hs_last_id sh) i)
     \<and> (case hs_group sh of None \<Rightarrow> True | Some g \<Rightarrow> \<not> id_before (hs_last_id sh) (rg_last g))"

definition delivered_sent :: "(int \<Rightarrow> string) \<Rightarrow> string \<Rightarrow> monitor_shared \<Rightarrow> hb_shard \<Rightarrow> bool" where
  "delivered_sent fmt shard s sh \<longleftrightarrow> (\<forall>g. hs_group sh = Some g \<longrightarrow>
     (\<forall>i fs. (i, fs) \<in> set (hs_outbox sh) \<longrightarrow> \<not> id_before (rg_last g) i \<longrightarrow> i \<notin> fst ` set (rg_pel g) \<longrightarrow> entry_sent fmt shard s fs))"

definition relay_inv :: "(int \<Rightarrow> string) \<Rightarrow> string \<Rightarrow> monitor_shared \<Rightarrow> bool" where
  "relay_inv fmt shard s \<longleftrightarrow> stream_ok (ms_redis s shard) \<and> delivered_sent fmt shard s (ms_redis s shard)"

text \<open>Nothing sent is taken back, and ids are not used again.\<close>

definition relay_step :: "string \<Rightarrow> monitor_shared \<Rightarrow> monitor_shared \<Rightarrow> bool" where
  "relay_step shard s s' \<longleftrightarrow> (\<forall>part. set (ms_kafka s part) \<subseteq> set (ms_kafka s' part))
     \<and> \<not> id_before (hs_last_id (ms_redis s' shard)) (hs_last_id (ms_redis s shard))
     \<and> (\<forall>i fs. (i, fs) \<in> set (hs_outbox (ms_redis s' shard)) \<longrightarrow>
          id_before (hs_last_id (ms_redis s shard)) i \<or> (i, fs) \<in> set (hs_outbox (ms_redis s shard)))"

lemma id_before_trans: "id_before x y \<Longrightarrow> id_before y z \<Longrightarrow> id_before x z"
  by (auto simp: id_before_def)

lemma id_before_irrefl [simp]: "\<not> id_before x x"
  by (simp add: id_before_def)

lemma id_before_le: "\<not> id_before y x \<Longrightarrow> id_before y z \<Longrightarrow> id_before x z"
  by (auto simp: id_before_def)

lemma id_le_trans: "\<not> id_before y x \<Longrightarrow> \<not> id_before z y \<Longrightarrow> \<not> id_before z x"
  by (auto simp: id_before_def)

interpretation relay: rely_guarantee "relay_inv fmt shard" "relay_step shard" "relay_step shard"
proof unfold_locales
  fix s s' assume "relay_step shard s s'"
  then show "relay_step shard s s'" .
next
  fix s assume "relay_inv fmt shard s"
  show "relay_step shard s s" by (auto simp: relay_step_def)
next
  fix s s' s'' assume 1: "relay_step shard s s'" and 2: "relay_step shard s' s''"
  let ?last = "\<lambda>s. hs_last_id (ms_redis s shard)"
  have le: "\<not> id_before (?last s') (?last s)" and le': "\<not> id_before (?last s'') (?last s')"
    using 1 2 by (simp_all add: relay_step_def)
  have "id_before (?last s) i \<or> (i, fs) \<in> set (hs_outbox (ms_redis s shard))"
    if "(i, fs) \<in> set (hs_outbox (ms_redis s'' shard))" for i fs
    using 1 2 that id_before_le [OF le] unfolding relay_step_def by blast
  moreover have "set (ms_kafka s part) \<subseteq> set (ms_kafka s'' part)" for part
    using 1 2 unfolding relay_step_def by blast
  ultimately show "relay_step shard s s''" using id_le_trans [OF le le'] by (simp add: relay_step_def)
qed

lemma entry_sent_mono: "relay_step shard s s' \<Longrightarrow> entry_sent fmt shard s fs \<Longrightarrow> entry_sent fmt shard s' fs"
  unfolding relay_step_def entry_sent_def by blast

lemma sorted_ids_distinct: "sorted_wrt id_before (map fst xs) \<Longrightarrow> distinct (map fst xs)"
  by (induction xs) (force simp: image_iff)+

text \<open>A change of one shard's keys.\<close>

lemma relay_inv_upd:
  assumes "relay_inv fmt shard s"
    and "hs_outbox sh' = hs_outbox (ms_redis s shard)" and "hs_last_id sh' = hs_last_id (ms_redis s shard)"
    and "case hs_group sh' of None \<Rightarrow> True | Some g \<Rightarrow> \<not> id_before (hs_last_id sh') (rg_last g)"
    and "delivered_sent fmt shard s sh'"
  shows "relay_inv fmt shard (s\<lparr>ms_redis := (ms_redis s)(shard := sh')\<rparr>)
    \<and> relay_step shard s (s\<lparr>ms_redis := (ms_redis s)(shard := sh')\<rparr>)"
  using assms by (auto simp: relay_inv_def relay_step_def stream_ok_def delivered_sent_def entry_sent_def)

lemma relay_inv_same_group:
  assumes "relay_inv fmt shard s"
    and "hs_outbox sh' = hs_outbox (ms_redis s shard)" and "hs_last_id sh' = hs_last_id (ms_redis s shard)"
    and "hs_group sh' = hs_group (ms_redis s shard)"
  shows "relay_inv fmt shard (s\<lparr>ms_redis := (ms_redis s)(shard := sh')\<rparr>)
    \<and> relay_step shard s (s\<lparr>ms_redis := (ms_redis s)(shard := sh')\<rparr>)"
  by (rule relay_inv_upd [OF assms(1-3)]) (use assms in \<open>simp_all add: relay_inv_def stream_ok_def delivered_sent_def split: option.splits\<close>)

subsection \<open>The stream commands\<close>

lemma at_shard_SomeD:
  assumes "at_shard shard f r = Some (a, r')"
  obtains sh' where "f (r shard) = Some (a, sh')" and "r' = r(shard := sh')"
  using assms by (auto simp: at_shard_def)

lemma on_group_SomeD:
  assumes "on_group f sh = Some (a, sh')"
  obtains g where "hs_group sh = Some g" and "f g sh = (a, sh')"
  using assms by (auto simp: on_group_def split: option.splits)

text \<open>What is known of an entry that was read.\<close>

definition entry_known :: "string \<Rightarrow> stream_id \<times> outbox_fields \<Rightarrow> monitor_shared \<Rightarrow> bool" where
  "entry_known shard e s \<longleftrightarrow> \<not> id_before (hs_last_id (ms_redis s shard)) (fst e)
     \<and> (\<forall>fs. (fst e, fs) \<in> set (hs_outbox (ms_redis s shard)) \<longrightarrow> fs = snd e)"

lemma entry_known_stable: "entry_known shard e s \<Longrightarrow> relay_step shard s s' \<Longrightarrow> entry_known shard e s'"
  unfolding entry_known_def relay_step_def by (metis id_le_trans)

lemma entry_known_of_outbox:
  assumes "stream_ok (ms_redis s shard)" and "(i, fs) \<in> set (hs_outbox (ms_redis s shard))"
  shows "entry_known shard (i, fs) s"
  unfolding entry_known_def
proof (intro conjI allI impI)
  show "\<not> id_before (hs_last_id (ms_redis s shard)) (fst (i, fs))"
    using assms unfolding stream_ok_def by (metis fst_conv image_eqI)
  fix fs' assume "(fst (i, fs), fs') \<in> set (hs_outbox (ms_redis s shard))"
  moreover have "distinct (map fst (hs_outbox (ms_redis s shard)))"
    using assms(1) sorted_ids_distinct unfolding stream_ok_def by blast
  ultimately show "fs' = snd (i, fs)" using assms(2) by (metis eq_key_imp_eq_value fst_conv snd_conv)
qed

lemma xreadgroup_keeps:
  assumes inv: "relay_inv fmt shard s" and ex: "at_shard shard (xreadgroup now c n) (ms_redis s) = Some (entries, r')"
  shows "(relay_inv fmt shard (s\<lparr>ms_redis := r'\<rparr>) \<and> relay_step shard s (s\<lparr>ms_redis := r'\<rparr>))
    \<and> list_all (\<lambda>e. entry_known shard e (s\<lparr>ms_redis := r'\<rparr>)) entries"
proof -
  let ?sh = "ms_redis s shard"
  obtain sh' where f: "xreadgroup now c n ?sh = Some (entries, sh')" and r': "r' = (ms_redis s)(shard := sh')"
    using ex by (rule at_shard_SomeD)
  obtain g where g: "hs_group ?sh = Some g"
    and "(let es = take n (filter (\<lambda>(i, _). id_before (rg_last g) i) (hs_outbox ?sh))
     in (es, ?sh\<lparr>hs_group := Some (g\<lparr>
          rg_last := (if es = [] then rg_last g else fst (last es)),
          rg_pel := rg_pel g @ map (\<lambda>(i, _). (i, c)) es,
          rg_consumers := AList.update c now (rg_consumers g)\<rparr>)\<rparr>)) = (entries, sh')"
    using f unfolding xreadgroup_def by (rule on_group_SomeD)
  then have es: "entries = take n (filter (\<lambda>(i, _). id_before (rg_last g) i) (hs_outbox ?sh))"
    and sh': "sh' = ?sh\<lparr>hs_group := Some (g\<lparr>
          rg_last := (if entries = [] then rg_last g else fst (last entries)),
          rg_pel := rg_pel g @ map (\<lambda>(i, _). (i, c)) entries,
          rg_consumers := AList.update c now (rg_consumers g)\<rparr>)\<rparr>"
    unfolding Let_def by (metis prod.inject)+
  have ok: "stream_ok ?sh" and del: "delivered_sent fmt shard s ?sh" using inv by (simp_all add: relay_inv_def)
  have sub: "set entries \<subseteq> set (hs_outbox ?sh)" unfolding es by (auto dest: in_set_takeD)
  have "relay_inv fmt shard (s\<lparr>ms_redis := r'\<rparr>) \<and> relay_step shard s (s\<lparr>ms_redis := r'\<rparr>)"
    unfolding r'
  proof (rule relay_inv_upd [OF inv])
    show "case hs_group sh' of None \<Rightarrow> True | Some g \<Rightarrow> \<not> id_before (hs_last_id sh') (rg_last g)"
      using ok g sub unfolding sh' stream_ok_def by (auto simp: last_in_set subset_iff)
        (metis fst_conv image_eqI last_in_set prod.collapse)
    show "delivered_sent fmt shard s sh'"
      unfolding delivered_sent_def
    proof (intro allI impI ballI, clarify)
      fix g' i fs assume g': "hs_group sh' = Some g'" and e: "(i, fs) \<in> set (hs_outbox sh')"
        and le: "\<not> id_before (rg_last g') i" and np: "i \<notin> fst ` set (rg_pel g')"
      have pel: "rg_pel g' = rg_pel g @ map (\<lambda>(i, _). (i, c)) entries" and e': "(i, fs) \<in> set (hs_outbox ?sh)"
        and lst: "rg_last g' = (if entries = [] then rg_last g else fst (last entries))"
        using g' e by (auto simp: sh')
      have "\<not> id_before (rg_last g) i"
      proof
        assume new: "id_before (rg_last g) i"
        let ?new = "filter (\<lambda>(i, _). id_before (rg_last g) i) (hs_outbox ?sh)"
        have "(i, fs) \<in> set ?new" using e' new by simp
        moreover have "(i, fs) \<notin> set entries" using np by (force simp: pel)
        ultimately have later: "(i, fs) \<in> set (drop n ?new)"
          unfolding es by (metis Un_iff append_take_drop_id set_append)
        have srt: "sorted_wrt id_before (map fst ?new)"
          using ok unfolding stream_ok_def sorted_wrt_map by (auto intro: sorted_wrt_filter)
        show False
        proof (cases "entries = []")
          case True
          then show ?thesis using le new lst by simp
        next
          case False
          then have "id_before (fst (last entries)) i"
            using srt later sorted_wrt_append [of id_before "map fst (take n ?new)" "map fst (drop n ?new)"]
            unfolding es map_append [symmetric] append_take_drop_id
            by (metis (no_types, lifting) fst_conv image_eqI last_in_set set_map)
          then show ?thesis using le lst False by simp
        qed
      qed
      moreover have "i \<notin> fst ` set (rg_pel g)" using np by (auto simp: pel)
      ultimately show "entry_sent fmt shard s fs" using del g e' unfolding delivered_sent_def by blast
    qed
  qed (simp_all add: sh')
  moreover have "entry_known shard e (s\<lparr>ms_redis := r'\<rparr>)" if "e \<in> set entries" for e
  proof -
    have "entry_known shard e s" using entry_known_of_outbox [OF ok] sub that by (cases e) blast
    then show ?thesis using calculation entry_known_stable by blast
  qed
  ultimately show ?thesis by (simp add: list_all_iff)
qed

text \<open>The other commands leave the stream and the last id alone; a lemma for a change of the group.\<close>

lemma group_change_keeps:
  assumes inv: "relay_inv fmt shard s" and g: "hs_group (ms_redis s shard) = Some g"
    and last: "rg_last g' = rg_last g"
    and pel: "\<And>i fs. (i, fs) \<in> set (hs_outbox (ms_redis s shard)) \<Longrightarrow> i \<in> fst ` set (rg_pel g) \<Longrightarrow> i \<notin> fst ` set (rg_pel g')
      \<Longrightarrow> entry_sent fmt shard s fs"
  shows "relay_inv fmt shard (s\<lparr>ms_redis := (ms_redis s)(shard := (ms_redis s shard)\<lparr>hs_group := Some g'\<rparr>)\<rparr>)
    \<and> relay_step shard s (s\<lparr>ms_redis := (ms_redis s)(shard := (ms_redis s shard)\<lparr>hs_group := Some g'\<rparr>)\<rparr>)"
proof (rule relay_inv_upd [OF inv])
  show "delivered_sent fmt shard s ((ms_redis s shard)\<lparr>hs_group := Some g'\<rparr>)"
    using inv g pel last unfolding relay_inv_def delivered_sent_def by (simp, blast)
  show "case hs_group ((ms_redis s shard)\<lparr>hs_group := Some g'\<rparr>) of None \<Rightarrow> True
      | Some g'' \<Rightarrow> \<not> id_before (hs_last_id ((ms_redis s shard)\<lparr>hs_group := Some g'\<rparr>)) (rg_last g'')"
    using inv g last by (simp add: relay_inv_def stream_ok_def)
qed simp_all

lemma xautoclaim_keeps:
  assumes inv: "relay_inv fmt shard s" and ex: "at_shard shard (xautoclaim now c n) (ms_redis s) = Some ((nxt, entries), r')"
  shows "(relay_inv fmt shard (s\<lparr>ms_redis := r'\<rparr>) \<and> relay_step shard s (s\<lparr>ms_redis := r'\<rparr>))
    \<and> list_all (\<lambda>e. entry_known shard e (s\<lparr>ms_redis := r'\<rparr>)) entries"
proof -
  let ?sh = "ms_redis s shard"
  obtain sh' where f: "xautoclaim now c n ?sh = Some ((nxt, entries), sh')" and r': "r' = (ms_redis s)(shard := sh')"
    using ex by (rule at_shard_SomeD)
  then obtain g where g: "hs_group ?sh = Some g" by (auto simp: xautoclaim_def on_group_def split: option.splits)
  obtain kept where kept: "kept = filter (\<lambda>(i, _). map_of (hs_outbox ?sh) i \<noteq> None) (take n (rg_pel g))" by blast
  have en: "entries = map (\<lambda>(i, _). (i, the (map_of (hs_outbox ?sh) i))) kept"
    and sh': "sh' = ?sh\<lparr>hs_group := Some (g\<lparr>rg_pel := map (\<lambda>(i, _). (i, c)) kept @ drop n (rg_pel g),
           rg_consumers := AList.update c now (rg_consumers g)\<rparr>)\<rparr>"
    using f g by (auto simp: xautoclaim_def on_group_def Let_def kept)
  have "relay_inv fmt shard (s\<lparr>ms_redis := r'\<rparr>) \<and> relay_step shard s (s\<lparr>ms_redis := r'\<rparr>)"
    unfolding r' sh'
  proof (rule group_change_keeps [OF inv g], simp)
    fix i fs assume e: "(i, fs) \<in> set (hs_outbox ?sh)" and p: "i \<in> fst ` set (rg_pel g)"
      and np: "i \<notin> fst ` set (rg_pel (g\<lparr>rg_pel := map (\<lambda>(i, _). (i, c)) kept @ drop n (rg_pel g),
           rg_consumers := AList.update c now (rg_consumers g)\<rparr>))"
    obtain d where "(i, d) \<in> set (take n (rg_pel g)) \<or> (i, d) \<in> set (drop n (rg_pel g))"
      using p by (metis Un_iff append_take_drop_id imageE prod.collapse set_append)
    moreover have "map_of (hs_outbox ?sh) i \<noteq> None" using e by (metis map_of_eq_None_iff fst_conv image_eqI)
    ultimately have "(i, d) \<in> set kept \<or> (i, d) \<in> set (drop n (rg_pel g))" by (auto simp: kept)
    then have False using np by force
    then show "entry_sent fmt shard s fs" ..
  qed
  moreover have "entry_known shard e (s\<lparr>ms_redis := r'\<rparr>)" if "e \<in> set entries" for e
  proof -
    have "e \<in> set (hs_outbox ?sh)" using that by (auto simp: en kept dest: map_of_SomeD)
    then have "entry_known shard e s" using entry_known_of_outbox inv unfolding relay_inv_def by (metis prod.collapse)
    then show ?thesis using calculation entry_known_stable by blast
  qed
  ultimately show ?thesis by (simp add: list_all_iff)
qed

lemma ack_keeps:
  assumes inv: "relay_inv fmt shard s" and e: "entry_known shard (i, fs) s" "entry_sent fmt shard s fs"
    and ex: "relay_ack shard epoch i (ms_redis s) = (ok, r')"
  shows "relay_inv fmt shard (s\<lparr>ms_redis := r'\<rparr>) \<and> relay_step shard s (s\<lparr>ms_redis := r'\<rparr>)"
proof -
  let ?sh = "ms_redis s shard"
  consider (same) "r' = (ms_redis s)(shard := ?sh)" | (none) "hs_group ?sh = None" "r' = (ms_redis s)(shard := ?sh\<lparr>hs_group := None\<rparr>)"
    | (del) g where "hs_group ?sh = Some g"
        "r' = (ms_redis s)(shard := ?sh\<lparr>hs_group := Some (g\<lparr>rg_pel := filter (\<lambda>(j, _). j \<noteq> i) (rg_pel g)\<rparr>)\<rparr>)"
    using ex by (cases "hs_group ?sh") (auto simp: relay_ack_def on_shard_def hb_relay_ack_def Let_def split: if_splits)
  then show ?thesis
  proof cases
    case same
    show ?thesis unfolding same by (rule relay_inv_same_group [OF inv]) simp_all
  next
    case none
    show ?thesis unfolding none(2) by (rule relay_inv_same_group [OF inv]) (simp_all add: none(1))
  next
    case del
    show ?thesis unfolding del(2)
    proof (rule group_change_keeps [OF inv del(1)])
      fix j fs' assume "(j, fs') \<in> set (hs_outbox ?sh)" and "j \<in> fst ` set (rg_pel g)"
        and "j \<notin> fst ` set (rg_pel (g\<lparr>rg_pel := filter (\<lambda>(j, _). j \<noteq> i) (rg_pel g)\<rparr>))"
      then have "j = i" by force
      then show "entry_sent fmt shard s fs'" using e \<open>(j, fs') \<in> _\<close> by (simp add: entry_known_def)
    qed simp
  qed
qed

lemma commit_keeps:
  assumes inv: "relay_inv fmt shard s" and ex: "relay_commit_published_seq shard epoch n (ms_redis s) = (ok, r')"
  shows "relay_inv fmt shard (s\<lparr>ms_redis := r'\<rparr>) \<and> relay_step shard s (s\<lparr>ms_redis := r'\<rparr>)"
proof -
  obtain sh' where "r' = (ms_redis s)(shard := sh')" "hs_outbox sh' = hs_outbox (ms_redis s shard)"
    "hs_last_id sh' = hs_last_id (ms_redis s shard)" "hs_group sh' = hs_group (ms_redis s shard)"
    using ex by (cases "hs_epoch (ms_redis s shard) = Some epoch")
      (auto simp: relay_commit_published_seq_def on_shard_def hb_relay_commit_def Let_def intro: that [of "ms_redis s shard"])
  then show ?thesis using relay_inv_same_group [OF inv] by simp
qed

lemma fewer_entries_keep:
  assumes inv: "relay_inv fmt shard s"
    and "set (hs_outbox sh') \<subseteq> set (hs_outbox (ms_redis s shard))" and "sorted_wrt id_before (map fst (hs_outbox sh'))"
    and "hs_last_id sh' = hs_last_id (ms_redis s shard)" and "hs_group sh' = hs_group (ms_redis s shard)"
  shows "relay_inv fmt shard (s\<lparr>ms_redis := (ms_redis s)(shard := sh')\<rparr>)
    \<and> relay_step shard s (s\<lparr>ms_redis := (ms_redis s)(shard := sh')\<rparr>)"
proof
  have ok: "stream_ok (ms_redis s shard)" and del: "delivered_sent fmt shard s (ms_redis s shard)"
    using inv by (simp_all add: relay_inv_def)
  have "stream_ok sh'" using ok assms(2-) unfolding stream_ok_def by (auto split: option.splits)
  moreover have "delivered_sent fmt shard s sh'" using del assms(2,5) unfolding delivered_sent_def by auto
  ultimately show "relay_inv fmt shard (s\<lparr>ms_redis := (ms_redis s)(shard := sh')\<rparr>)"
    by (simp add: relay_inv_def delivered_sent_def entry_sent_def)
  show "relay_step shard s (s\<lparr>ms_redis := (ms_redis s)(shard := sh')\<rparr>)"
    using assms(2,4) by (auto simp: relay_step_def)
qed

lemma trim_keeps:
  assumes inv: "relay_inv fmt shard s" and ex: "relay_trim shard epoch i (ms_redis s) = (ok, r')"
  shows "relay_inv fmt shard (s\<lparr>ms_redis := r'\<rparr>) \<and> relay_step shard s (s\<lparr>ms_redis := r'\<rparr>)"
proof -
  have srt: "sorted_wrt id_before (map fst (hs_outbox (ms_redis s shard)))"
    using inv by (simp add: relay_inv_def stream_ok_def)
  obtain P where P: "r' = (ms_redis s)(shard := (ms_redis s shard)\<lparr>hs_outbox := filter P (hs_outbox (ms_redis s shard))\<rparr>)"
    using ex by (cases "hs_epoch (ms_redis s shard) = Some epoch")
      (auto simp: relay_trim_def on_shard_def hb_relay_trim_def Let_def intro: that [of "\<lambda>_. True"])
  have "sorted_wrt id_before (map fst (filter P (hs_outbox (ms_redis s shard))))"
    using srt unfolding sorted_wrt_map by (rule sorted_wrt_filter)
  then show ?thesis unfolding P by (intro fewer_entries_keep [OF inv]) auto
qed

lemma new_entry_keeps:
  assumes inv: "relay_inv fmt shard s" and sh: "hs_outbox sh = hs_outbox (ms_redis s shard)"
    "hs_last_id sh = hs_last_id (ms_redis s shard)" "hs_group sh = hs_group (ms_redis s shard)"
  shows "relay_inv fmt shard (s\<lparr>ms_redis := (ms_redis s)(shard := xadd_outbox mo m fs sh)\<rparr>)
    \<and> relay_step shard s (s\<lparr>ms_redis := (ms_redis s)(shard := xadd_outbox mo m fs sh)\<rparr>)"
proof -
  let ?sh = "ms_redis s shard" and ?id = "next_stream_id (rm_now mo) (hs_last_id (ms_redis s shard))"
  obtain s1 where s1: "s1 = s\<lparr>ms_redis := (ms_redis s)(shard := sh\<lparr>hs_last_id := ?id, hs_outbox := hs_outbox ?sh @ [(?id, fs)]\<rparr>)\<rparr>" by blast
  have ok: "stream_ok ?sh" and del: "delivered_sent fmt shard s ?sh" using inv by (simp_all add: relay_inv_def)
  have new: "id_before (hs_last_id ?sh) ?id" by (auto simp: next_stream_id_def id_before_def)
  have old: "\<not> id_before (hs_last_id ?sh) i" if "(i, f) \<in> set (hs_outbox ?sh)" for i f
    using ok that unfolding stream_ok_def by (metis fst_conv image_eqI)
  have gl: "\<not> id_before (hs_last_id ?sh) (rg_last g)" if "hs_group ?sh = Some g" for g using ok that by (simp add: stream_ok_def)
  have srt: "sorted_wrt id_before (map fst (hs_outbox ?sh @ [(?id, fs)]))"
    using ok old new unfolding stream_ok_def by (auto simp: sorted_wrt_append intro: id_before_le)
  have inv1: "relay_inv fmt shard s1"
    unfolding relay_inv_def
  proof
    have "\<not> id_before (hs_last_id ?sh) (0, 0)" using ok by (simp add: stream_ok_def)
    then have "id_before (0, 0) ?id" and "\<not> id_before ?id (0, 0)" using new by (auto simp: id_before_def)
    then show "stream_ok (ms_redis s1 shard)"
      using ok srt sh new gl unfolding stream_ok_def s1 by (auto simp: image_iff dest: id_before_trans split: option.splits)
    show "delivered_sent fmt shard s1 (ms_redis s1 shard)"
      unfolding delivered_sent_def
    proof (intro allI impI)
      fix g i f assume g: "hs_group (ms_redis s1 shard) = Some g" and e: "(i, f) \<in> set (hs_outbox (ms_redis s1 shard))"
        and le: "\<not> id_before (rg_last g) i" and np: "i \<notin> fst ` set (rg_pel g)"
      have g0: "hs_group ?sh = Some g" using g sh by (simp add: s1)
      have "id_before (rg_last g) ?id" using gl [OF g0] new by (rule id_before_le)
      then have "(i, f) \<in> set (hs_outbox ?sh)" using e le by (auto simp: s1)
      then have "entry_sent fmt shard s f" using del g0 le np unfolding delivered_sent_def by blast
      then show "entry_sent fmt shard s1 f" by (simp add: entry_sent_def s1)
    qed
  qed
  have step1: "relay_step shard s s1" using new by (auto simp: relay_step_def s1 dest: id_before_trans)
  obtain n where "n = (if m > 0 then min (rm_drop mo) (length (hs_outbox ?sh @ [(?id, fs)]) - m) else 0)" by blast
  then have n: "xadd_outbox mo m fs sh = (ms_redis s1 shard)\<lparr>hs_outbox := drop n (hs_outbox (ms_redis s1 shard))\<rparr>"
    using sh by (cases "m > 0") (simp_all add: xadd_outbox_def Let_def s1)
  have "hs_outbox (ms_redis s1 shard) = hs_outbox ?sh @ [(?id, fs)]" by (simp add: s1)
  then have "sorted_wrt id_before (map fst (drop n (hs_outbox (ms_redis s1 shard))))"
    using sorted_wrt_drop [OF srt, of n] by (simp only: drop_map)
  then have "relay_inv fmt shard (s1\<lparr>ms_redis := (ms_redis s1)(shard := xadd_outbox mo m fs sh)\<rparr>)
      \<and> relay_step shard s1 (s1\<lparr>ms_redis := (ms_redis s1)(shard := xadd_outbox mo m fs sh)\<rparr>)"
    unfolding n by (intro fewer_entries_keep [OF inv1]) (auto dest: in_set_dropD)
  moreover have "s1\<lparr>ms_redis := (ms_redis s1)(shard := xadd_outbox mo m fs sh)\<rparr>
      = s\<lparr>ms_redis := (ms_redis s)(shard := xadd_outbox mo m fs sh)\<rparr>" by (simp add: s1)
  ultimately show ?thesis using relay.G_trans [OF inv step1 inv1] by metis
qed

subsection \<open>The operations of the relay\<close>

text \<open>The producer is there from the start of the tasks until they have ended.\<close>

abbreviation keeps :: "relay_settings \<Rightarrow> string \<Rightarrow> (monitor_shared \<Rightarrow> bool) \<Rightarrow> (relay_state, 'a) task_op \<Rightarrow> ('a \<Rightarrow> monitor_shared \<Rightarrow> bool) \<Rightarrow> bool" where
  "keeps settings shard \<equiv> triple rl_producer (relay_inv (rs_iso settings) shard) (relay_step shard)"

abbreviation relay_rely :: "relay_settings \<Rightarrow> string \<Rightarrow> task_net \<Rightarrow> bool" where
  "relay_rely settings shard \<equiv> relies (relay_inv (rs_iso settings) shard) (relay_step shard)"

abbreviation any :: "monitor_shared \<Rightarrow> bool" where "any \<equiv> \<lambda>_. True"
abbreviation anything :: "'a \<Rightarrow> monitor_shared \<Rightarrow> bool" where "anything \<equiv> \<lambda>_ _. True"

lemma stable_known: "stable (relay_inv fmt shard) (relay_step shard) (entry_known shard e)"
  by (auto simp: stable_def intro: entry_known_stable)

lemma stable_known_all: "stable (relay_inv fmt shard) (relay_step shard) (\<lambda>s. list_all (\<lambda>e. entry_known shard e s) es)"
  by (auto simp: stable_def list_all_iff intro: entry_known_stable)

lemma stable_sent: "stable (relay_inv fmt shard) (relay_step shard) (\<lambda>s. entry_sent fmt shard s fs)"
  by (auto simp: stable_def intro: entry_sent_mono)

lemma stable_and: "stable I G P \<Longrightarrow> stable I G Q \<Longrightarrow> stable I G (\<lambda>s. P s \<and> Q s)"
  by (auto simp: stable_def)

lemma at_shard_call:
  assumes "relay_rely settings shard net"
    and "\<And>now s a r'. relay_inv (rs_iso settings) shard s \<Longrightarrow> at_shard shard (f now) (ms_redis s) = Some (a, r')
      \<Longrightarrow> (relay_inv (rs_iso settings) shard (s\<lparr>ms_redis := r'\<rparr>) \<and> relay_step shard s (s\<lparr>ms_redis := r'\<rparr>)) \<and> Q a (s\<lparr>ms_redis := r'\<rparr>)"
  shows "keeps settings shard any (redis_call net (\<lambda>now. at_shard shard (f now))) Q"
  by (rule relay.redis_call_rule [OF assms(1) relay.stable_True]) (use assms(2) in blast)

lemma read_any: "relay_rely settings shard net \<Longrightarrow> keeps settings shard any (redis_read net f) anything"
  by (rule relay.redis_read_rule) (simp_all add: relay.stable_True)

lemma return_any: "keeps settings shard P (return_op a) anything"
  by (rule relay.return_rule) simp

lemma set_self_any: "(\<And>x. rl_producer (g x) = rl_producer x) \<Longrightarrow> keeps settings shard P (set_self g) anything"
  by (rule relay.set_self_rule) simp_all

lemma detect_truncation_producer [simp]: "rl_producer (detect_truncation n x) = rl_producer x"
  by (simp add: detect_truncation_def Let_def split: option.splits)

lemma and_then_any:
  "keeps settings shard any m anything \<Longrightarrow> (\<And>a. keeps settings shard any (k a) anything) \<Longrightarrow> keeps settings shard any (and_then m k) anything"
  by (rule relay.and_then_rule)

lemma or_else_any:
  "keeps settings shard any m anything \<Longrightarrow> keeps settings shard any h anything \<Longrightarrow> keeps settings shard any (or_else m h) anything"
  by (rule relay.or_else_rule) (simp_all add: relay.stable_True)

lemmas any_rules = and_then_any or_else_any read_any return_any set_self_any relay.with_self_rule

text \<open>Calls that leave the stream and its group alone.\<close>

lemma commit_any: "relay_rely settings shard net \<Longrightarrow> keeps settings shard any (commit net shard epoch n) anything"
  unfolding commit_def
  by (rule relay.redis_call_rule [OF _ relay.stable_True]) (auto dest: commit_keeps)

lemma trim_any:
  "relay_rely settings shard net \<Longrightarrow> keeps settings shard any (redis_call net (\<lambda>_ r. Some (relay_trim shard epoch i r))) anything"
  by (rule relay.redis_call_rule [OF _ relay.stable_True]) (auto dest: trim_keeps)

lemma lock_any:
  assumes "relay_rely settings shard net" and "\<And>s a s'. f s = Some (a, s') \<Longrightarrow> ms_redis s' = ms_redis s \<and> ms_kafka s' = ms_kafka s"
  shows "keeps settings shard any (call net (\<lambda>_. f)) anything"
proof (rule relay.call_rule [OF assms(1) relay.stable_True])
  fix now s a s' assume "relay_inv (rs_iso settings) shard s" and "f s = Some (a, s')"
  then show "relay_inv (rs_iso settings) shard s' \<and> relay_step shard s s' \<and> True"
    using assms(2) [of s a s'] by (auto simp: relay_inv_def delivered_sent_def entry_sent_def relay_step_def)
qed

lemma ack_known:
  "relay_rely settings shard net \<Longrightarrow> keeps settings shard
     (\<lambda>s. entry_known shard (i, fs) s \<and> entry_sent (rs_iso settings) shard s fs) (ack net shard epoch i) anything"
  unfolding ack_def
  by (rule relay.redis_call_rule [OF _ stable_and [OF stable_known stable_sent]]) (auto dest: ack_keeps)

lemma send_known:
  assumes rely: "relay_rely settings shard net" and P: "stable (relay_inv (rs_iso settings) shard) (relay_step shard) P"
    and env: "build_envelope (rs_iso settings) shard fs = Inr envelope" "shard_index_from_id shard = Inr part"
  shows "keeps settings shard P (send_and_wait net part envelope) (\<lambda>_ s. P s \<and> entry_sent (rs_iso settings) shard s fs)"
  unfolding send_and_wait_def
proof (rule relay.call_rule [OF rely P])
  fix now s a s' assume inv: "relay_inv (rs_iso settings) shard s" and "P s"
    and "Some ((), s\<lparr>ms_kafka := (ms_kafka s)(part := ms_kafka s part @ [envelope])\<rparr>) = Some (a, s')"
  then have s': "s' = s\<lparr>ms_kafka := (ms_kafka s)(part := ms_kafka s part @ [envelope])\<rparr>" by simp
  have step: "relay_step shard s s'" by (auto simp: s' relay_step_def)
  have "relay_inv (rs_iso settings) shard s'"
    using inv entry_sent_mono [OF step] unfolding relay_inv_def delivered_sent_def by (simp add: s')
  moreover have "entry_sent (rs_iso settings) shard s' fs" using env by (simp add: entry_sent_def s')
  moreover have "P s'" using P inv \<open>P s\<close> calculation(1) step unfolding stable_def by blast
  ultimately show "relay_inv (rs_iso settings) shard s' \<and> relay_step shard s s' \<and> P s' \<and> entry_sent (rs_iso settings) shard s' fs"
    using step by blast
qed

lemma from_result_keeps:
  "(\<And>b. r = Inr b \<Longrightarrow> keeps settings shard P (k b) Q) \<Longrightarrow> keeps settings shard P (from_result r k) Q"
  by (cases r) (simp_all add: from_result_def relay.raise_rule)

lemma send_if_producer_known:
  assumes "relay_rely settings shard net" and "stable (relay_inv (rs_iso settings) shard) (relay_step shard) P"
    and "build_envelope (rs_iso settings) shard fs = Inr envelope" "shard_index_from_id shard = Inr part"
  shows "keeps settings shard P (send_if_producer net part envelope) (\<lambda>_ s. P s \<and> entry_sent (rs_iso settings) shard s fs)"
  unfolding send_if_producer_def
proof (rule relay.with_self_rule)
  fix self :: relay_state assume self: "rl_producer self"
  have "keeps settings shard (\<lambda>s. P s \<and> entry_sent (rs_iso settings) shard s fs)
      (and_then (set_self (\<lambda>x. x\<lparr>rl_published_total := rl_published_total x + 1\<rparr>)) (\<lambda>_. return_op True))
      (\<lambda>_ s. P s \<and> entry_sent (rs_iso settings) shard s fs)"
    by (rule relay.and_then_rule [where M = "\<lambda>_ s. P s \<and> entry_sent (rs_iso settings) shard s fs"];
        (rule relay.set_self_rule relay.return_rule; simp))
  then show "keeps settings shard P (if rl_producer self then
       and_then (send_and_wait net part envelope)
         (\<lambda>_. and_then (set_self (\<lambda>x. x\<lparr>rl_published_total := rl_published_total x + 1\<rparr>)) (\<lambda>_. return_op True))
     else return_op False) (\<lambda>_ s. P s \<and> entry_sent (rs_iso settings) shard s fs)"
    using self by (simp add: relay.and_then_rule [OF send_known [OF assms]])
qed

lemma recover_entry_keeps:
  assumes rely: "relay_rely settings shard net"
  shows "keeps settings shard (entry_known shard e) (recover_entry net settings shard epoch e) anything"
proof (cases e)
  case (Pair entry_id fs)
  let ?Q = "\<lambda>sent s. sent \<longrightarrow> entry_known shard (entry_id, fs) s \<and> entry_sent (rs_iso settings) shard s fs"
  have "keeps settings shard (entry_known shard (entry_id, fs)) (send_if_producer net part envelope) ?Q"
    if "build_envelope (rs_iso settings) shard fs = Inr envelope" "shard_index_from_id shard = Inr part" for envelope part
    by (rule relay.consequence [OF send_if_producer_known [OF rely stable_known that]]) blast+
  then have send: "keeps settings shard (entry_known shard (entry_id, fs))
      (from_result (build_envelope (rs_iso settings) shard fs) (\<lambda>envelope.
         from_result (shard_index_from_id shard) (\<lambda>part. send_if_producer net part envelope))) ?Q"
    by (auto simp: from_result_def relay.raise_rule split: sum.splits)
  have acks: "keeps settings shard (?Q published) (if \<not> published then return_op True else ack net shard epoch entry_id) anything"
    for published
    by (simp add: ack_known [OF rely] return_any)
  have "keeps settings shard (entry_known shard (entry_id, fs)) (return_op False) ?Q" by (rule relay.return_rule) simp
  then show ?thesis
    unfolding recover_entry_def Pair prod.case
    by (rule relay.and_then_rule [OF relay.or_else_rule [OF send _ stable_known] acks])
qed

lemma recover_entries_keeps:
  assumes rely: "relay_rely settings shard net"
  shows "keeps settings shard (\<lambda>s. list_all (\<lambda>e. entry_known shard e s) es) (recover_entries net settings shard epoch es) anything"
proof (induction es)
  case (Cons e es)
  let ?known = "\<lambda>s. list_all (\<lambda>e. entry_known shard e s) es"
  have "keeps settings shard (\<lambda>s. list_all (\<lambda>e. entry_known shard e s) (e # es)) (recover_entry net settings shard epoch e) (\<lambda>_. ?known)"
    by (rule relay.frame [OF recover_entry_keeps [OF rely] stable_known_all]) simp_all
  moreover have "keeps settings shard ?known (if \<not> go then return_op False else recover_entries net settings shard epoch es) anything" for go
    using Cons by (simp add: return_any)
  ultimately show ?case unfolding recover_entries.simps by (rule relay.and_then_rule)
qed (simp add: return_any)

lemma recover_pel_keeps:
  assumes rely: "relay_rely settings shard net"
  shows "keeps settings shard any (recover_pel n net settings shard epoch) anything"
proof (induction n)
  case (Suc n)
  have claim: "keeps settings shard any
      (redis_call net (\<lambda>now. at_shard shard (xautoclaim now c XAUTOCLAIM_COUNT)))
      (\<lambda>x s. list_all (\<lambda>e. entry_known shard e s) (snd x))" for c
    by (rule at_shard_call [OF rely]) (metis xautoclaim_keeps prod.collapse)
  have "keeps settings shard any (if \<not> go then return_op Fenced
       else if nxt = (0, 0) then return_op Recovered else recover_pel n net settings shard epoch) anything" for go nxt
    using Suc by (simp add: return_any)
  then have "keeps settings shard (\<lambda>s. list_all (\<lambda>e. entry_known shard e s) (snd x))
      (case x of (nxt, entries) \<Rightarrow> and_then (recover_entries net settings shard epoch entries) (\<lambda>go. if \<not> go then return_op Fenced
       else if nxt = (0, 0) then return_op Recovered else recover_pel n net settings shard epoch)) anything" for x
    unfolding split_beta by (rule relay.and_then_rule [OF recover_entries_keeps [OF rely]])
  then show ?case unfolding recover_pel.simps
    by (intro relay.with_self_rule relay.and_then_rule [OF claim])
qed (simp add: return_any)

lemma publish_entries_keeps:
  assumes rely: "relay_rely settings shard net" and part: "shard_index_from_id shard = Inr part"
  shows "keeps settings shard (\<lambda>s. list_all (\<lambda>e. entry_known shard e s) es)
    (publish_entries net settings shard part epoch es last_seq n) anything"
proof (induction es arbitrary: last_seq n)
  case (Cons e es)
  obtain i fs where e: "e = (i, fs)" by (cases e)
  let ?known = "\<lambda>s. list_all (\<lambda>e. entry_known shard e s) es"
  let ?all = "\<lambda>s. list_all (\<lambda>e. entry_known shard e s) ((i, fs) # es)"
  have rest: "keeps settings shard ?known (publish_entries net settings shard part epoch es (Some (of_seq fs)) (Suc n)) anything"
    by (rule Cons.IH)
  have "keeps settings shard ?known (commit net shard epoch (of_seq fs)) (\<lambda>_. ?known)"
    by (rule relay.frame [OF commit_any [OF rely] stable_known_all]) simp_all
  then have commits: "keeps settings shard ?known (and_then (commit net shard epoch (of_seq fs)) (\<lambda>committed.
       if \<not> committed then return_op None
       else publish_entries net settings shard part epoch es (Some (of_seq fs)) (Suc n))) anything"
    by (rule relay.and_then_rule) (simp add: rest return_any)
  have marks: "keeps settings shard R (set_self g) (\<lambda>_. R)" if "\<And>x. rl_producer (g x) = rl_producer x" for R g
    by (rule relay.set_self_rule) (simp_all add: that)
  have after_ack: "keeps settings shard ?known (if \<not> acked then return_op None
     else and_then (set_self (\<lambda>x. x\<lparr>rl_last_acked := Some i, rl_since_trim := rl_since_trim x + 1\<rparr>)) (\<lambda>_.
       if Suc n mod rs_batch_size settings = 0 then
         and_then (commit net shard epoch (of_seq fs)) (\<lambda>committed.
         if \<not> committed then return_op None
         else publish_entries net settings shard part epoch es (Some (of_seq fs)) (Suc n))
       else publish_entries net settings shard part epoch es (Some (of_seq fs)) (Suc n))) anything" for acked
    by (simp add: relay.and_then_rule [OF marks] commits rest return_any)
  have acks: "keeps settings shard (\<lambda>s. ?all s \<and> entry_sent (rs_iso settings) shard s fs) (ack net shard epoch i) (\<lambda>_. ?known)"
    by (rule relay.frame [OF ack_known [OF rely, where fs = fs] stable_known_all]) simp_all
  have "keeps settings shard ?all (from_result (build_envelope (rs_iso settings) shard fs) (\<lambda>envelope.
     and_then (send_if_producer net part envelope) (\<lambda>_.
     and_then (ack net shard epoch i) (\<lambda>acked. if \<not> acked then return_op None
     else and_then (set_self (\<lambda>x. x\<lparr>rl_last_acked := Some i, rl_since_trim := rl_since_trim x + 1\<rparr>)) (\<lambda>_.
       if Suc n mod rs_batch_size settings = 0 then
         and_then (commit net shard epoch (of_seq fs)) (\<lambda>committed.
         if \<not> committed then return_op None
         else publish_entries net settings shard part epoch es (Some (of_seq fs)) (Suc n))
       else publish_entries net settings shard part epoch es (Some (of_seq fs)) (Suc n)))))) anything"
  proof (rule from_result_keeps)
    fix envelope assume env: "build_envelope (rs_iso settings) shard fs = Inr envelope"
    show "keeps settings shard ?all (and_then (send_if_producer net part envelope) (\<lambda>_.
     and_then (ack net shard epoch i) (\<lambda>acked. if \<not> acked then return_op None
     else and_then (set_self (\<lambda>x. x\<lparr>rl_last_acked := Some i, rl_since_trim := rl_since_trim x + 1\<rparr>)) (\<lambda>_.
       if Suc n mod rs_batch_size settings = 0 then
         and_then (commit net shard epoch (of_seq fs)) (\<lambda>committed.
         if \<not> committed then return_op None
         else publish_entries net settings shard part epoch es (Some (of_seq fs)) (Suc n))
       else publish_entries net settings shard part epoch es (Some (of_seq fs)) (Suc n))))) anything"
      by (rule relay.and_then_rule [OF send_if_producer_known [OF rely stable_known_all env part]
          relay.and_then_rule [OF acks after_ack]])
  qed
  then show ?case unfolding e publish_entries.simps
    by (intro relay.and_then_rule [OF marks]) simp_all
qed (simp add: return_any)

lemma destroy_keeps:
  "relay_inv fmt shard s \<Longrightarrow>
     relay_inv fmt shard (s\<lparr>ms_redis := (ms_redis s)(shard := (ms_redis s shard)\<lparr>hs_group := None\<rparr>)\<rparr>)
     \<and> relay_step shard s (s\<lparr>ms_redis := (ms_redis s)(shard := (ms_redis s shard)\<lparr>hs_group := None\<rparr>)\<rparr>)"
  by (rule relay_inv_upd) (simp_all add: delivered_sent_def)

lemma create_keeps:
  assumes inv: "relay_inv fmt shard s"
  shows "relay_inv fmt shard (s\<lparr>ms_redis := (ms_redis s)(shard := (ms_redis s shard)\<lparr>hs_group := Some \<lparr>rg_last = (0, 0), rg_pel = [], rg_consumers = []\<rparr>\<rparr>)\<rparr>)
    \<and> relay_step shard s (s\<lparr>ms_redis := (ms_redis s)(shard := (ms_redis s shard)\<lparr>hs_group := Some \<lparr>rg_last = (0, 0), rg_pel = [], rg_consumers = []\<rparr>\<rparr>)\<rparr>)"
proof (rule relay_inv_upd [OF inv])
  have ok: "stream_ok (ms_redis s shard)" using inv by (simp add: relay_inv_def)
  then show "delivered_sent fmt shard s
      ((ms_redis s shard)\<lparr>hs_group := Some \<lparr>rg_last = (0, 0), rg_pel = [], rg_consumers = []\<rparr>\<rparr>)"
    unfolding delivered_sent_def stream_ok_def by force
  show "case hs_group ((ms_redis s shard)\<lparr>hs_group := Some \<lparr>rg_last = (0, 0), rg_pel = [], rg_consumers = []\<rparr>\<rparr>) of None \<Rightarrow> True
      | Some g \<Rightarrow> \<not> id_before (hs_last_id ((ms_redis s shard)\<lparr>hs_group := Some \<lparr>rg_last = (0, 0), rg_pel = [], rg_consumers = []\<rparr>\<rparr>)) (rg_last g)"
    using ok by (simp add: stream_ok_def)
qed simp_all

lemma group_commands_keep:
  assumes rely: "relay_rely settings shard net"
  shows "keeps settings shard any (redis_call net (\<lambda>_. at_shard shard xgroup_destroy)) anything"
    and "keeps settings shard any (redis_call net (\<lambda>_. at_shard shard xgroup_create)) anything"
  by (rule at_shard_call [OF rely], use destroy_keeps in \<open>auto simp: at_shard_def xgroup_destroy_def\<close>)
    (rule at_shard_call [OF rely], use create_keeps in \<open>auto simp: at_shard_def xgroup_create_def split: option.splits\<close>)

lemma reset_published_seq_keeps:
  assumes rely: "relay_rely settings shard net"
  shows "keeps settings shard any (reset_published_seq net shard epoch) anything"
proof -
  note ops = commit_any [OF rely] read_any [OF rely] return_any
  have "keeps settings shard any (reset_from_pending net shard epoch) anything"
    unfolding reset_from_pending_def by (intro and_then_any ops) (auto split: option.splits intro!: and_then_any ops)
  moreover have "keeps settings shard any (reset_from_delivered net shard epoch) anything"
    unfolding reset_from_delivered_def by (intro and_then_any ops) (auto split: option.splits intro!: and_then_any ops)
  ultimately show ?thesis
    unfolding reset_published_seq_def by (intro and_then_any or_else_any return_any) (auto intro!: and_then_any or_else_any return_any)
qed

lemma heal_keeps:
  assumes rely: "relay_rely settings shard net"
  shows "keeps settings shard any (maybe_heal_undelivered_lag net settings shard) anything"
proof -
  have "keeps settings shard any (reset_consumer_group net shard) anything"
    unfolding reset_consumer_group_def by (intro and_then_any or_else_any return_any group_commands_keep [OF rely])
  then have "keeps settings shard any (if rl_lag_polls self < HEAL_EMPTY_POLLS then return_op ()
       else and_then (reset_consumer_group net shard) (\<lambda>_. set_self (\<lambda>x. x\<lparr>rl_lag_polls := 0\<rparr>))) anything" for self
    by (auto intro!: and_then_any return_any set_self_any)
  then have poll: "keeps settings shard any (with_self (\<lambda>self. if rl_lag_polls self < HEAL_EMPTY_POLLS then return_op ()
       else and_then (reset_consumer_group net shard) (\<lambda>_. set_self (\<lambda>x. x\<lparr>rl_lag_polls := 0\<rparr>)))) anything"
    by (rule relay.with_self_rule)
  have "keeps settings shard any (and_then (set_self (\<lambda>x. x\<lparr>rl_lag_polls := rl_lag_polls x + 1\<rparr>)) (\<lambda>_. with_self (\<lambda>self.
       if rl_lag_polls self < HEAL_EMPTY_POLLS then return_op ()
       else and_then (reset_consumer_group net shard) (\<lambda>_. set_self (\<lambda>x. x\<lparr>rl_lag_polls := 0\<rparr>))))) anything"
    by (rule and_then_any [OF set_self_any poll]) simp
  moreover have "keeps settings shard any (set_self (\<lambda>x. x\<lparr>rl_lag_polls := 0\<rparr>)) anything" by (rule set_self_any) simp
  ultimately have "keeps settings shard any (if b then set_self (\<lambda>x. x\<lparr>rl_lag_polls := 0\<rparr>)
     else and_then (set_self (\<lambda>x. x\<lparr>rl_lag_polls := rl_lag_polls x + 1\<rparr>)) (\<lambda>_. with_self (\<lambda>self.
       if rl_lag_polls self < HEAL_EMPTY_POLLS then return_op ()
       else and_then (reset_consumer_group net shard) (\<lambda>_. set_self (\<lambda>x. x\<lparr>rl_lag_polls := 0\<rparr>))))) anything" for b
    by (simp split: if_split)
  then show ?thesis unfolding maybe_heal_undelivered_lag_def by (intro and_then_any relay.lag_rule [OF rely])
qed

lemma trim_when_due_keeps:
  assumes rely: "relay_rely settings shard net"
  shows "keeps settings shard any (trim_when_due net shard epoch) anything"
  unfolding trim_when_due_def
  by (rule relay.with_self_rule) (auto split: option.splits intro!: and_then_any return_any set_self_any trim_any [OF rely])

lemma publish_batch_keeps:
  assumes rely: "relay_rely settings shard net"
  shows "keeps settings shard any (publish_batch net settings shard epoch) anything"
  unfolding publish_batch_def
proof (intro from_result_keeps relay.with_self_rule)
  fix part and self :: relay_state assume part: "shard_index_from_id shard = Inr part"
  have read: "keeps settings shard any
      (redis_call net (\<lambda>now. at_shard shard (xreadgroup now (consumer_name self) XREADGROUP_COUNT)))
      (\<lambda>entries s. list_all (\<lambda>e. entry_known shard e s) entries)"
    by (rule at_shard_call [OF rely]) (rule xreadgroup_keeps)
  have finish: "keeps settings shard any (case sent of
         None \<Rightarrow> return_op False
       | Some (last_published_seq, published_in_batch) \<Rightarrow>
           and_then
             (case last_published_seq of
                Some s \<Rightarrow> if published_in_batch mod rs_batch_size settings \<noteq> 0 then commit net shard epoch s else return_op True
              | None \<Rightarrow> return_op True)
             (\<lambda>committed. if \<not> committed then return_op False else trim_when_due net shard epoch)) anything" for sent
    using trim_when_due_keeps [OF rely]
    by (auto split: option.splits prod.splits intro!: and_then_any return_any commit_any [OF rely])
  have publish: "keeps settings shard (\<lambda>s. list_all (\<lambda>e. entry_known shard e s) entries)
      (and_then (set_self (\<lambda>x. x\<lparr>rl_lag_polls := 0\<rparr>)) (\<lambda>_.
       and_then (publish_entries net settings shard part epoch entries None 0) (\<lambda>sent.
       case sent of
         None \<Rightarrow> return_op False
       | Some (last_published_seq, published_in_batch) \<Rightarrow>
           and_then
             (case last_published_seq of
                Some s \<Rightarrow> if published_in_batch mod rs_batch_size settings \<noteq> 0 then commit net shard epoch s else return_op True
              | None \<Rightarrow> return_op True)
             (\<lambda>committed. if \<not> committed then return_op False else trim_when_due net shard epoch)))) anything" for entries
    by (rule relay.and_then_rule [where M = "\<lambda>_ s. list_all (\<lambda>e. entry_known shard e s) entries"], rule relay.set_self_rule)
      (simp_all add: relay.and_then_rule [OF publish_entries_keeps [OF rely part] finish])
  have idle: "keeps settings shard (\<lambda>s. list_all (\<lambda>e. entry_known shard e s) entries)
      (and_then (maybe_heal_undelivered_lag net settings shard) (\<lambda>_. return_op True)) anything" for entries
    by (rule relay.consequence [OF and_then_any [OF heal_keeps [OF rely] return_any]]) simp_all
  show "keeps settings shard any
    (and_then (redis_call net (\<lambda>now. at_shard shard (xreadgroup now (consumer_name self) XREADGROUP_COUNT))) (\<lambda>entries.
     if entries = [] then and_then (maybe_heal_undelivered_lag net settings shard) (\<lambda>_. return_op True)
     else
       and_then (set_self (\<lambda>x. x\<lparr>rl_lag_polls := 0\<rparr>)) (\<lambda>_.
       and_then (publish_entries net settings shard part epoch entries None 0) (\<lambda>sent.
       case sent of
         None \<Rightarrow> return_op False
       | Some (last_published_seq, published_in_batch) \<Rightarrow>
           and_then
             (case last_published_seq of
                Some s \<Rightarrow> if published_in_batch mod rs_batch_size settings \<noteq> 0 then commit net shard epoch s else return_op True
              | None \<Rightarrow> return_op True)
             (\<lambda>committed. if \<not> committed then return_op False else trim_when_due net shard epoch))))) anything"
    by (rule relay.and_then_rule [OF read]) (simp only: split: if_split, intro conjI impI idle publish)
qed

lemma publish_loop_keeps:
  assumes rely: "relay_rely settings shard net"
  shows "keeps settings shard any (publish_loop n net settings shard epoch) anything"
proof (induction n)
  case (Suc n)
  have "keeps settings shard any (renew_lock net shard) anything"
    unfolding renew_lock_def by (intro relay.with_self_rule lock_any [OF rely]) auto
  then show ?case unfolding publish_loop.simps
    by (intro and_then_any publish_batch_keeps [OF rely]) (simp add: and_then_any return_any Suc)
qed (simp add: return_any)

lemma relay_work_keeps:
  assumes rely: "relay_rely settings shard net"
  shows "keeps settings shard any (relay_work rounds batches net settings shard epoch) anything"
  unfolding relay_work_def
  by (intro and_then_any recover_pel_keeps [OF rely])
    (simp add: and_then_any return_any reset_published_seq_keeps [OF rely] publish_loop_keeps [OF rely])

subsection \<open>Writers and reconcilers keep it\<close>

fun is_relay_event :: "hb_event \<Rightarrow> bool" where
  "is_relay_event (HbRelay _ _) = True"
| "is_relay_event _ = False"

text \<open>A call of the three writing functions adds at most one entry to one outbox.\<close>

lemma writer_change:
  assumes "\<not> is_relay_event ev"
  obtains (quiet) k sh' where "hb_exec E ev r = r(k := sh')" "hs_outbox sh' = hs_outbox (r k)" "hs_last_id sh' = hs_last_id (r k)"
      "hs_group sh' = hs_group (r k)" "hs_published sh' = hs_published (r k)" "hs_seq sh' = hs_seq (r k)"
  | (emit) k sh mo m fs sh' where "hb_exec E ev r = r(k := sh')" "hs_outbox sh = hs_outbox (r k)" "hs_last_id sh = hs_last_id (r k)"
      "hs_group sh = hs_group (r k)" "hs_published sh = hs_published (r k)" "hs_seq sh = hs_seq (r k) + 1" "of_seq fs = hs_seq sh"
      "hs_outbox sh' = hs_outbox (xadd_outbox mo m fs sh)" "hs_last_id sh' = hs_last_id (xadd_outbox mo m fs sh)"
      "hs_group sh' = hs_group sh" "hs_published sh' = hs_published sh" "hs_seq sh' = hs_seq sh"
proof (cases ev)
  case (HbApply mo aic t src)
  let ?k = "shard_id_for_aic (env_sha256 E) (set_shard_count (env_settings E)) aic"
  let ?f = "hb_apply_heartbeat mo (set_refresh_s (env_settings E) * 1000) (set_outbox_max_len (env_settings E)) aic t (env_iso E t) src"
  have ex: "hb_exec E ev r = r(?k := snd (?f (r ?k)))"
    by (simp add: HbApply apply_heartbeat_def on_shard_def Let_def split_beta)
  show thesis
  proof (cases "case hs_latest (r ?k) aic of None \<Rightarrow> False | Some h \<Rightarrow> t \<le> lh_seen_ms h")
    case True
    then show thesis by (intro quiet [OF ex]) (simp_all add: hb_apply_heartbeat_def Let_def)
  next
    case False
    show thesis
    proof (cases "delta_kind_of (hs_latest (r ?k) aic) t (set_refresh_s (env_settings E) * 1000)")
      case None
      then show thesis using False by (intro quiet [OF ex]) (simp_all add: hb_apply_heartbeat_def Let_def)
    next
      case (Some kind)
      have "\<exists>sh fs. snd (?f (r ?k)) = xadd_outbox mo (set_outbox_max_len (env_settings E)) fs sh \<and> hs_outbox sh = hs_outbox (r ?k)
          \<and> hs_last_id sh = hs_last_id (r ?k) \<and> hs_group sh = hs_group (r ?k) \<and> hs_published sh = hs_published (r ?k)
          \<and> hs_seq sh = hs_seq (r ?k) + 1 \<and> of_seq fs = hs_seq sh"
        unfolding hb_apply_heartbeat_def Let_def
        by (simp only: False Some if_False option.case snd_conv, intro exI conjI, rule refl) simp_all
      then obtain sh fs where "snd (?f (r ?k)) = xadd_outbox mo (set_outbox_max_len (env_settings E)) fs sh"
        "hs_outbox sh = hs_outbox (r ?k)" "hs_last_id sh = hs_last_id (r ?k)" "hs_group sh = hs_group (r ?k)"
        "hs_published sh = hs_published (r ?k)" "hs_seq sh = hs_seq (r ?k) + 1" "of_seq fs = hs_seq sh"
        by blast
      then show thesis by (intro emit [OF ex, of sh fs mo "set_outbox_max_len (env_settings E)"]) simp_all
    qed
  qed
next
  case (HbSilent mo k aic)
  let ?f = "hb_mark_silent_one mo (set_silence_s (env_settings E) * 1000) (set_outbox_max_len (env_settings E)) aic"
  have ex: "hb_exec E ev r = r(k := snd (?f (r k)))"
    by (simp add: HbSilent mark_silent_one_def on_shard_def Let_def split_beta)
  show thesis
  proof (cases "hs_latest (r k) aic")
    case None
    then show thesis by (intro quiet [OF ex]) (simp_all add: hb_mark_silent_one_def)
  next
    case (Some h)
    show thesis
    proof (cases "lh_membership h = MLeft \<or> rm_now mo - lh_seen_ms h \<le> set_silence_s (env_settings E) * 1000")
      case True
      then show thesis using Some by (intro quiet [OF ex]) (auto simp: hb_mark_silent_one_def)
    next
      case False
      then have no: "(lh_membership h = MLeft) = False" "(rm_now mo - lh_seen_ms h \<le> set_silence_s (env_settings E) * 1000) = False"
        by simp_all
      have "\<exists>sh fs. snd (?f (r k)) = xadd_outbox mo (set_outbox_max_len (env_settings E)) fs sh \<and> hs_outbox sh = hs_outbox (r k)
          \<and> hs_last_id sh = hs_last_id (r k) \<and> hs_group sh = hs_group (r k) \<and> hs_published sh = hs_published (r k)
          \<and> hs_seq sh = hs_seq (r k) + 1 \<and> of_seq fs = hs_seq sh"
        unfolding hb_mark_silent_one_def Let_def
        by (simp only: no Some if_False option.case snd_conv, intro exI conjI, rule refl) simp_all
      then obtain sh fs where "snd (?f (r k)) = xadd_outbox mo (set_outbox_max_len (env_settings E)) fs sh"
        "hs_outbox sh = hs_outbox (r k)" "hs_last_id sh = hs_last_id (r k)" "hs_group sh = hs_group (r k)"
        "hs_published sh = hs_published (r k)" "hs_seq sh = hs_seq (r k) + 1" "of_seq fs = hs_seq sh"
        by blast
      then show thesis by (intro emit [OF ex, of sh fs mo "set_outbox_max_len (env_settings E)"]) simp_all
    qed
  qed
next
  case (HbEvict mo k aic)
  let ?f = "hb_evict_one mo (set_evict_s (env_settings E) * 1000) (set_outbox_max_len (env_settings E)) aic"
  have ex: "hb_exec E ev r = r(k := snd (?f (r k)))"
    by (simp add: HbEvict evict_one_def on_shard_def Let_def split_beta)
  show thesis
  proof (cases "hs_latest (r k) aic")
    case None
    then show thesis by (intro quiet [OF ex]) (simp_all add: hb_evict_one_def)
  next
    case (Some h)
    show thesis
    proof (cases "lh_membership h = MLeft \<or> rm_now mo - lh_seen_ms h \<le> set_evict_s (env_settings E) * 1000")
      case True
      then show thesis using Some by (intro quiet [OF ex]) (auto simp: hb_evict_one_def Let_def)
    next
      case False
      let ?sh = "(r k)\<lparr>hs_seq := hs_seq (r k) + 1\<rparr>" and ?fs = "leave_fields (hs_seq (r k) + 1) aic ''evict_repair''"
      have "snd (?f (r k)) = (xadd_outbox mo (set_outbox_max_len (env_settings E)) ?fs ?sh)
          \<lparr>hs_latest := (hs_latest (xadd_outbox mo (set_outbox_max_len (env_settings E)) ?fs ?sh))(aic := None),
           hs_zset := zrem aic (hs_zset (xadd_outbox mo (set_outbox_max_len (env_settings E)) ?fs ?sh))\<rparr>"
        using Some False by (simp add: hb_evict_one_def Let_def)
      then show thesis by (intro emit [OF ex, where sh = ?sh and mo = mo and m = "set_outbox_max_len (env_settings E)" and fs = ?fs]) simp_all
    qed
  qed
next
  case (HbRelay k sh)
  then show thesis using assms by simp
qed

lemma relay_inv_cong:
  assumes "relay_inv fmt shard s" and "ms_redis s' shard = ms_redis s shard" and "ms_kafka s' = ms_kafka s"
  shows "relay_inv fmt shard s' \<and> relay_step shard s s'"
  using assms by (auto simp: relay_inv_def delivered_sent_def entry_sent_def relay_step_def)

lemma relay_inv_stream:
  assumes inv: "relay_inv fmt shard (s\<lparr>ms_redis := (ms_redis s)(shard := sh)\<rparr>) \<and> relay_step shard s (s\<lparr>ms_redis := (ms_redis s)(shard := sh)\<rparr>)"
    and "hs_outbox sh' = hs_outbox sh" "hs_last_id sh' = hs_last_id sh" "hs_group sh' = hs_group sh"
  shows "relay_inv fmt shard (s\<lparr>ms_redis := (ms_redis s)(shard := sh')\<rparr>) \<and> relay_step shard s (s\<lparr>ms_redis := (ms_redis s)(shard := sh')\<rparr>)"
  using assms unfolding relay_inv_def stream_ok_def delivered_sent_def entry_sent_def relay_step_def
  by (simp split: option.splits)

lemma writer_keeps:
  assumes inv: "relay_inv fmt shard s" and ev: "\<not> is_relay_event ev"
  shows "relay_inv fmt shard (s\<lparr>ms_redis := hb_exec E ev (ms_redis s)\<rparr>) \<and> relay_step shard s (s\<lparr>ms_redis := hb_exec E ev (ms_redis s)\<rparr>)"
  using ev
proof (cases rule: writer_change [of ev E "ms_redis s"])
  case (quiet k sh')
  show ?thesis
  proof (cases "k = shard")
    case True
    then show ?thesis unfolding quiet(1) using relay_inv_same_group [OF inv] quiet by simp
  next
    case False
    then show ?thesis unfolding quiet(1) by (intro relay_inv_cong [OF inv]) simp_all
  qed
next
  case (emit k sh mo m fs sh')
  show ?thesis
  proof (cases "k = shard")
    case True
    have "hs_group sh' = hs_group (xadd_outbox mo m fs sh)" using emit by simp
    then show ?thesis unfolding emit(1) True
      by (intro relay_inv_stream [OF new_entry_keeps [OF inv, of sh mo m fs]]) (use emit True in simp_all)
  next
    case False
    then show ?thesis unfolding emit(1) by (intro relay_inv_cong [OF inv]) simp_all
  qed
qed

subsection \<open>No event is lost while the relay works\<close>


subsection \<open>Relays on one shard with two events\<close>

definition relay_node :: "string \<Rightarrow> relay_state" where
  "relay_node n = \<lparr>rl_node = n, rl_producer = True, rl_last_acked = None, rl_since_trim = 0, rl_expected = None,
     rl_lag_polls = 0, rl_published_total = 0, rl_truncated_total = 0\<rparr>"

definition sample_relay :: relay_settings where
  "sample_relay = \<lparr>rs_iso = (\<lambda>_. ''t''), rs_batch_size = 100, rs_max_lag_s = 30\<rparr>"

definition two_beats :: hb_shard where
  "two_beats = fst (run_events one_shard_env [HbApply (at_ms 1000) ''a'' 1000 None, HbApply (at_ms 1001) ''b'' 1001 None] hb_start) ''hb-000''"

definition fresh_group :: relay_group where
  "fresh_group = \<lparr>rg_last = (0, 0), rg_pel = [], rg_consumers = []\<rparr>"

definition two_shared :: monitor_shared where
  "two_shared = \<lparr>ms_redis = (\<lambda>_. empty_shard)(''hb-000'' := two_beats\<lparr>hs_group := Some fresh_group\<rparr>),
     ms_relay_lock = (\<lambda>_. None), ms_scan_lock = (\<lambda>_. None), ms_kafka = (\<lambda>_. [])\<rparr>"

definition start_relay :: "string \<Rightarrow> monitor_shared \<Rightarrow> relay_state task_run" where
  "start_relay n sh = \<lparr>tk_self = relay_node n, tk_shared = sh, tk_tick = 0\<rparr>"

definition beat_fields :: "int \<Rightarrow> string \<Rightarrow> int \<Rightarrow> outbox_fields" where
  "beat_fields n aic t = \<lparr>of_seq = n, of_kind = EnterAlive, of_op = Upsert, of_aic = aic, of_seen_ms = Some t,
     of_source_ms = None, of_reason = None\<rparr>"

text \<open>A heartbeat of the agent \<open>c\<close>.\<close>

definition beat_c :: "monitor_shared \<Rightarrow> monitor_shared" where
  "beat_c s = s\<lparr>ms_redis := hb_exec one_shard_env (HbApply (at_ms 30000) ''c'' 30000 None) (ms_redis s)\<rparr>"

lemma two_beats_simps:
  "hs_outbox two_beats = [((1000, 0), beat_fields 1 ''a'' 1000), ((1001, 0), beat_fields 2 ''b'' 1001)]"
  "hs_epoch two_beats = None" "hs_published two_beats = None" "hs_seq two_beats = 2" "hs_last_id two_beats = (1001, 0)"
  "hs_latest two_beats ''c'' = None" "shard_id_for_aic (\<lambda>_. []) 1 ''c'' = ''hb-000''" "shard_index_from_id ''hb-000'' = Inr 0"
  by code_simp+

text \<open>
  To evaluate a run, each call is evaluated before what follows it.
\<close>

lemma and_then_run: "m = m' \<Longrightarrow> w = w' \<Longrightarrow> and_then m k w = and_then m' k w'" by simp
lemma or_else_run: "m = m' \<Longrightarrow> w = w' \<Longrightarrow> or_else m h w = or_else m' h w'" by simp
lemma call_run: "w = w' \<Longrightarrow> call net f w = call net f w'" by simp
lemma redis_call_run: "w = w' \<Longrightarrow> redis_call net f w = redis_call net f w'" by simp
lemma redis_read_run: "w = w' \<Longrightarrow> redis_read net f w = redis_read net f w'" by simp
lemma with_self_run: "w = w' \<Longrightarrow> with_self f w = with_self f w'" by simp
lemma Let_run: "a = b \<Longrightarrow> Let a f = Let b f" by simp

lemmas run_congs = and_then_run or_else_run call_run redis_call_run redis_read_run with_self_run Let_run
  prod.case_cong_weak option.case_cong_weak sum.case_cong_weak if_weak_cong

lemmas run_defs = shard_term_def acquire_shard_def release_lock_def prune_idle_consumers_def relay_work_def recover_pel.simps
  recover_entries.simps recover_entry_def reset_published_seq_def reset_from_pending_def reset_from_delivered_def publish_batch_def
  publish_entries.simps trim_when_due_def publish_loop.simps renew_lock_def prune_each.simps send_if_producer_def send_and_wait_def
  ack_def commit_def probe_def from_result_def maybe_heal_undelivered_lag_def outbox_publish_lag_ms_def lag_from_pel_def
  lag_from_undelivered_def redis_now_ms_def call_def redis_call_def redis_read_def return_op_def raise_op_def and_then_def
  or_else_def with_self_def set_self_def detect_truncation_def start_relay_def at_shard_def on_group_def sample_relay_def
  relay_node_def two_shared_def fresh_group_def xinfo_consumers_def xautoclaim_def xreadgroup_def xpending_first_def
  xrange_one_def first_after_def first_entry_def reset_consumer_group_def xgroup_delconsumer_def consumer_name_def XREADGROUP_COUNT_def XAUTOCLAIM_COUNT_def IDLE_CONSUMER_MS_def
  TRIM_INTERVAL_def beat_fields_def build_envelope_def id_before_def relay_ack_def relay_commit_published_seq_def on_shard_def
  hb_relay_ack_def hb_relay_commit_def Let_def two_beats_simps beat_c_def apply_heartbeat_def hb_apply_heartbeat_def
  one_shard_env_def at_ms_def delta_kind_of_def xadd_outbox_def next_stream_id_def

definition sample_net :: task_net where
  "sample_net = \<lparr>tn_others = (\<lambda>t s. if t = 1 then beat_c s else s), tn_fails = (\<lambda>t. t \<ge> 5), tn_now = (\<lambda>_. 2000)\<rparr>"

lemma beat_c_keeps: "relay_inv fmt shard s \<Longrightarrow> relay_inv fmt shard (beat_c s) \<and> relay_step shard s (beat_c s)"
  unfolding beat_c_def by (rule writer_keeps) simp_all

lemma two_shared_inv: "relay_inv fmt ''hb-000'' two_shared"
  by (simp add: relay_inv_def stream_ok_def delivered_sent_def two_shared_def fresh_group_def two_beats_simps id_before_def)

definition sample_end_run :: "relay_state task_run" where
  "sample_end_run = snd (relay_work 1 1 sample_net sample_relay ''hb-000'' 1 (start_relay ''n1'' two_shared))"


subsection \<open>Where events are lost\<close>

text \<open>A relay that crashes after it has read a batch: every call from the first send on fails.\<close>

definition crash_net :: task_net where
  "crash_net = \<lparr>tn_others = (\<lambda>_ s. s), tn_fails = (\<lambda>t. t \<ge> 7), tn_now = (\<lambda>_. 2000)\<rparr>"

definition crashed :: monitor_shared where
  "crashed = tk_shared (snd (shard_term 1 1 crash_net sample_relay ''hb-000'' (start_relay ''n1'' two_shared)))"

lemma crashed_eq: "crashed = two_shared\<lparr>
    ms_redis := (\<lambda>_. empty_shard)(''hb-000'' := two_beats\<lparr>hs_epoch := Some 1, hs_group := Some
      \<lparr>rg_last = (1001, 0), rg_pel = [((1000, 0), ''relay-n1''), ((1001, 0), ''relay-n1'')], rg_consumers = [(''relay-n1'', 2000)]\<rparr>\<rparr>),
    ms_relay_lock := [''hb-000'' \<mapsto> ''n1'']\<rparr>"
  unfolding crashed_def by (simp add: crash_net_def run_defs cong: run_congs)

text \<open>The lock of the crashed relay has expired; another one takes over, at a given time.\<close>

definition takeover_net :: "int \<Rightarrow> (nat \<Rightarrow> bool) \<Rightarrow> nat \<Rightarrow> task_net" where
  "takeover_net now fails beat = \<lparr>tn_others = (\<lambda>t s. if t = 0 then s\<lparr>ms_relay_lock := Map.empty\<rparr> else if t = beat then beat_c s else s),
     tn_fails = fails, tn_now = (\<lambda>_. now)\<rparr>"

definition taken_over :: "int \<Rightarrow> (nat \<Rightarrow> bool) \<Rightarrow> nat \<Rightarrow> monitor_shared" where
  "taken_over now fails beat =
     tk_shared (snd (shard_term 1 1 (takeover_net now fails beat) sample_relay ''hb-000'' (start_relay ''n2'' crashed)))"



end
