(* ===== verification/HbRelayPosition.thy ===== *)
theory HbRelayPosition
  imports HbRelaySafety
begin

text \<open>
  The published position of a shard, which consumers take as the point a snapshot is good for: while one relay
  works on the shard and nothing was left pending at its start, every event up to the position has been sent.
\<close>

subsection \<open>What is kept\<close>

definition sent_upto :: "(int \<Rightarrow> string) \<Rightarrow> string \<Rightarrow> monitor_shared \<Rightarrow> int \<Rightarrow> bool" where
  "sent_upto fmt shard s p \<longleftrightarrow> p \<le> hs_seq (ms_redis s shard) \<and>
     (\<forall>i fs. (i, fs) \<in> set (hs_outbox (ms_redis s shard)) \<longrightarrow> of_seq fs \<le> p \<longrightarrow> entry_sent fmt shard s fs)"

definition numbered :: "hb_shard \<Rightarrow> bool" where
  "numbered sh \<longleftrightarrow> sorted_wrt (\<lambda>x y. id_before (fst x) (fst y) \<and> of_seq (snd x) < of_seq (snd y)) (hs_outbox sh)
     \<and> (\<forall>i fs. (i, fs) \<in> set (hs_outbox sh) \<longrightarrow> of_seq fs \<le> hs_seq sh)"

definition position_inv :: "(int \<Rightarrow> string) \<Rightarrow> string \<Rightarrow> monitor_shared \<Rightarrow> bool" where
  "position_inv fmt shard s \<longleftrightarrow> relay_inv fmt shard s \<and> numbered (ms_redis s shard)
     \<and> (\<forall>p. hs_published (ms_redis s shard) = Some p \<longrightarrow> sent_upto fmt shard s p)"

definition grow_step :: "string \<Rightarrow> monitor_shared \<Rightarrow> monitor_shared \<Rightarrow> bool" where
  "grow_step shard s s' \<longleftrightarrow> relay_step shard s s' \<and> hs_seq (ms_redis s shard) \<le> hs_seq (ms_redis s' shard)
     \<and> (\<forall>i fs. (i, fs) \<in> set (hs_outbox (ms_redis s' shard)) \<longrightarrow>
          (i, fs) \<in> set (hs_outbox (ms_redis s shard)) \<or> hs_seq (ms_redis s shard) < of_seq fs)"

definition same_group :: "string \<Rightarrow> monitor_shared \<Rightarrow> monitor_shared \<Rightarrow> bool" where
  "same_group shard s s' \<longleftrightarrow> grow_step shard s s' \<and> hs_group (ms_redis s' shard) = hs_group (ms_redis s shard)"

text \<open>The others write: they leave the group and the position alone.\<close>

definition writer_step :: "string \<Rightarrow> monitor_shared \<Rightarrow> monitor_shared \<Rightarrow> bool" where
  "writer_step shard s s' \<longleftrightarrow> same_group shard s s' \<and> hs_published (ms_redis s' shard) = hs_published (ms_redis s shard)"

lemma grow_refl: "grow_step shard s s"
  by (auto simp: grow_step_def relay_step_def)

lemma relay_step_trans: "relay_step shard s s' \<Longrightarrow> relay_step shard s' s'' \<Longrightarrow> relay_step shard s s''"
  unfolding relay_step_def by (smt (verit, best) id_before_le id_le_trans subset_trans)

lemma grow_trans: "grow_step shard s s' \<Longrightarrow> grow_step shard s' s'' \<Longrightarrow> grow_step shard s s''"
  unfolding grow_step_def by (meson relay_step_trans order_trans order_le_less_trans)

interpretation position: rely_guarantee "position_inv fmt shard" "writer_step shard" "grow_step shard"
  by unfold_locales (auto simp: writer_step_def same_group_def grow_refl intro: grow_trans)

interpretation reading: rely_guarantee "position_inv fmt shard" "writer_step shard" "same_group shard"
  by unfold_locales (auto simp: writer_step_def same_group_def grow_refl intro: grow_trans)

lemma sent_upto_grow: "sent_upto fmt shard s p \<Longrightarrow> grow_step shard s s' \<Longrightarrow> sent_upto fmt shard s' p"
  unfolding sent_upto_def grow_step_def by (meson entry_sent_mono linorder_not_le order_trans)

lemma stable_sent_upto: "stable (position_inv fmt shard) (grow_step shard) (\<lambda>s. sent_upto fmt shard s p)"
  by (auto simp: stable_def intro: sent_upto_grow)

lemma stable_writer: "stable I (grow_step shard) P \<Longrightarrow> stable I (writer_step shard) P"
  by (auto simp: stable_def writer_step_def same_group_def)

text \<open>A change that leaves the stream alone.\<close>

lemma position_upd:
  assumes inv: "position_inv fmt shard s"
    and relay: "relay_inv fmt shard (s\<lparr>ms_redis := (ms_redis s)(shard := sh')\<rparr>) \<and> relay_step shard s (s\<lparr>ms_redis := (ms_redis s)(shard := sh')\<rparr>)"
    and out: "hs_outbox sh' = hs_outbox (ms_redis s shard)" and seq: "hs_seq sh' = hs_seq (ms_redis s shard)"
    and pub: "hs_published sh' = hs_published (ms_redis s shard) \<or> (\<exists>p. hs_published sh' = Some p \<and> sent_upto fmt shard s p)"
  shows "position_inv fmt shard (s\<lparr>ms_redis := (ms_redis s)(shard := sh')\<rparr>) \<and> grow_step shard s (s\<lparr>ms_redis := (ms_redis s)(shard := sh')\<rparr>)"
proof -
  have "numbered sh'" using inv out seq by (simp add: position_inv_def numbered_def)
  moreover have grow: "grow_step shard s (s\<lparr>ms_redis := (ms_redis s)(shard := sh')\<rparr>)"
    using relay out seq by (simp add: grow_step_def)
  moreover have "sent_upto fmt shard (s\<lparr>ms_redis := (ms_redis s)(shard := sh')\<rparr>) p" if "hs_published sh' = Some p" for p
  proof -
    have "sent_upto fmt shard s p" using pub that inv by (auto simp: position_inv_def)
    then show ?thesis using grow by (rule sent_upto_grow)
  qed
  ultimately show ?thesis using relay by (simp add: position_inv_def)
qed

subsection \<open>What is known while a batch is published\<close>

definition idle :: "string \<Rightarrow> monitor_shared \<Rightarrow> bool" where
  "idle shard s \<longleftrightarrow> (\<forall>g. hs_group (ms_redis s shard) = Some g \<longrightarrow> rg_pel g = [])"

text \<open>At most the entries that are left are pending, and every event up to one of them has been delivered.\<close>

definition batch_left :: "string \<Rightarrow> (stream_id \<times> outbox_fields) list \<Rightarrow> monitor_shared \<Rightarrow> bool" where
  "batch_left shard es s \<longleftrightarrow> (\<exists>g. hs_group (ms_redis s shard) = Some g \<and> fst ` set (rg_pel g) \<subseteq> fst ` set es
      \<and> (\<forall>e\<in>set es. \<forall>j fs'. (j, fs') \<in> set (hs_outbox (ms_redis s shard)) \<longrightarrow> of_seq fs' \<le> of_seq (snd e) \<longrightarrow> \<not> id_before (rg_last g) j))
    \<and> (\<forall>e\<in>set es. of_seq (snd e) \<le> hs_seq (ms_redis s shard) \<and> entry_known shard e s)"

lemma stable_idle: "stable I (same_group shard) (idle shard)"
  by (simp add: stable_def same_group_def idle_def)

lemma batch_left_same_group: "batch_left shard es s \<Longrightarrow> same_group shard s s' \<Longrightarrow> batch_left shard es s'"
  unfolding batch_left_def
proof (elim conjE exE, intro conjI exI ballI allI impI)
  fix g assume step: "same_group shard s s'" and g: "hs_group (ms_redis s shard) = Some g" "fst ` set (rg_pel g) \<subseteq> fst ` set es"
    and deliv: "\<forall>e\<in>set es. \<forall>j fs'. (j, fs') \<in> set (hs_outbox (ms_redis s shard)) \<longrightarrow> of_seq fs' \<le> of_seq (snd e) \<longrightarrow> \<not> id_before (rg_last g) j"
    and es: "\<forall>e\<in>set es. of_seq (snd e) \<le> hs_seq (ms_redis s shard) \<and> entry_known shard e s"
  have grow: "grow_step shard s s'" using step by (simp add: same_group_def)
  show "hs_group (ms_redis s' shard) = Some g" using step g by (simp add: same_group_def)
  show "fst ` set (rg_pel g) \<subseteq> fst ` set es" by (rule g(2))
  fix e assume e: "e \<in> set es"
  show "of_seq (snd e) \<le> hs_seq (ms_redis s' shard)" using grow es e unfolding grow_step_def by fastforce
  show "entry_known shard e s'" using grow es e unfolding grow_step_def by (blast intro: entry_known_stable)
  fix j fs' assume j: "(j, fs') \<in> set (hs_outbox (ms_redis s' shard))" and le: "of_seq fs' \<le> of_seq (snd e)"
  then have "(j, fs') \<in> set (hs_outbox (ms_redis s shard))" using grow es e unfolding grow_step_def by fastforce
  then show "\<not> id_before (rg_last g) j" using deliv e le by blast
qed

lemma stable_batch_left: "stable I (same_group shard) (batch_left shard es)"
  by (auto simp: stable_def intro: batch_left_same_group)

lemma stable_same_writer: "stable I (same_group shard) P \<Longrightarrow> stable I (writer_step shard) P"
  by (auto simp: stable_def writer_step_def)

lemma stable_grow_same: "stable I (grow_step shard) P \<Longrightarrow> stable I (same_group shard) P"
  by (auto simp: stable_def same_group_def)

lemma batch_left_Nil: "batch_left shard [] s \<Longrightarrow> idle shard s"
  by (auto simp: batch_left_def idle_def)

lemma numbered_compare:
  assumes "numbered sh" and "(i, fs) \<in> set (hs_outbox sh)" and "(j, fs') \<in> set (hs_outbox sh)" and "of_seq fs' \<le> of_seq fs"
  shows "\<not> id_before i j"
proof -
  have "sorted_wrt R xs \<Longrightarrow> x \<in> set xs \<Longrightarrow> y \<in> set xs \<Longrightarrow> x = y \<or> R x y \<or> R y x" for R and xs :: "'a list" and x y
    by (induction xs) auto
  from this [OF _ assms(2,3)] have "(i, fs) = (j, fs') \<or> (id_before i j \<and> of_seq fs < of_seq fs') \<or> (id_before j i \<and> of_seq fs' < of_seq fs)"
    using assms(1) by (fastforce simp: numbered_def)
  then show ?thesis using assms(4) by (auto simp: id_before_def)
qed

text \<open>What is delivered and not pending has been sent, so the position can move to the end of what is not left.\<close>

lemma sent_upto_current:
  assumes inv: "position_inv fmt shard s" and left: "batch_left shard es s"
    and later: "\<forall>e\<in>set es. of_seq fs < of_seq (snd e)" and seq: "of_seq fs \<le> hs_seq (ms_redis s shard)"
    and deliv: "\<exists>g. hs_group (ms_redis s shard) = Some g \<and> (\<forall>j fs'. (j, fs') \<in> set (hs_outbox (ms_redis s shard)) \<longrightarrow>
      of_seq fs' \<le> of_seq fs \<longrightarrow> \<not> id_before (rg_last g) j)"
  shows "sent_upto fmt shard s (of_seq fs)"
  unfolding sent_upto_def
proof (intro conjI allI impI)
  fix j fs' assume j: "(j, fs') \<in> set (hs_outbox (ms_redis s shard))" and le: "of_seq fs' \<le> of_seq fs"
  obtain g where g: "hs_group (ms_redis s shard) = Some g" and pel: "fst ` set (rg_pel g) \<subseteq> fst ` set es"
    using left unfolding batch_left_def by blast
  moreover have "\<not> id_before (rg_last g) j" using deliv j le unfolding g option.inject by blast
  moreover have "j \<notin> fst ` set (rg_pel g)"
  proof
    assume "j \<in> fst ` set (rg_pel g)"
    then have "j \<in> fst ` set es" using pel by (rule subsetD [rotated])
    then obtain e where e: "e \<in> set es" "j = fst e" by (rule imageE)
    have "entry_known shard e s" using left e(1) by (simp add: batch_left_def)
    then have "fs' = snd e" using j e(2) by (simp add: entry_known_def)
    then show False using later e(1) le by fastforce
  qed
  ultimately show "entry_sent fmt shard s fs'"
    using inv j unfolding position_inv_def relay_inv_def delivered_sent_def by blast
qed (rule seq)

lemma xreadgroup_position:
  assumes inv: "position_inv fmt shard s" and idle: "idle shard s"
    and ex: "at_shard shard (xreadgroup now c n) (ms_redis s) = Some (entries, r')"
  shows "(position_inv fmt shard (s\<lparr>ms_redis := r'\<rparr>) \<and> grow_step shard s (s\<lparr>ms_redis := r'\<rparr>))
    \<and> batch_left shard entries (s\<lparr>ms_redis := r'\<rparr>) \<and> sorted_wrt (\<lambda>x y. of_seq (snd x) < of_seq (snd y)) entries"
proof -
  let ?sh = "ms_redis s shard"
  have rinv: "relay_inv fmt shard s" and num: "numbered ?sh" using inv by (simp_all add: position_inv_def)
  note keeps = xreadgroup_keeps [OF rinv ex]
  obtain sh' where f: "xreadgroup now c n ?sh = Some (entries, sh')" and r': "r' = (ms_redis s)(shard := sh')"
    using ex by (rule at_shard_SomeD)
  then obtain g where g: "hs_group ?sh = Some g" by (auto simp: xreadgroup_def on_group_def split: option.splits)
  have es: "entries = take n (filter (\<lambda>(i, _). id_before (rg_last g) i) (hs_outbox ?sh))"
    and sh': "sh' = ?sh\<lparr>hs_group := Some (g\<lparr>
          rg_last := (if entries = [] then rg_last g else fst (last entries)),
          rg_pel := map (\<lambda>(i, _). (i, c)) entries,
          rg_consumers := AList.update c now (rg_consumers g)\<rparr>)\<rparr>"
    using f g idle by (auto simp: xreadgroup_def on_group_def Let_def idle_def)
  have upd: "position_inv fmt shard (s\<lparr>ms_redis := r'\<rparr>) \<and> grow_step shard s (s\<lparr>ms_redis := r'\<rparr>)"
    using keeps unfolding r' by (intro position_upd [OF inv]) (auto simp: sh')
  have sub: "set entries \<subseteq> set (hs_outbox ?sh)" unfolding es by (auto dest: in_set_takeD)
  have srt: "sorted_wrt (\<lambda>x y. id_before (fst x) (fst y) \<and> of_seq (snd x) < of_seq (snd y)) entries"
    using num unfolding numbered_def es by (intro sorted_wrt_take sorted_wrt_filter) simp
  then have seqs: "sorted_wrt (\<lambda>x y. of_seq (snd x) < of_seq (snd y)) entries"
    by (rule sorted_wrt_mono_rel [rotated]) simp
  have "\<not> id_before (fst (last entries)) j"
    if e: "e \<in> set entries" and j: "(j, fs') \<in> set (hs_outbox ?sh)" and le: "of_seq fs' \<le> of_seq (snd e)" for e j fs'
  proof -
    have "\<not> id_before (fst e) j" using numbered_compare [OF num, of "fst e" "snd e" j fs'] sub e j le by auto
    moreover have "\<not> id_before (fst (last entries)) (fst e)"
    proof -
      have "entries = butlast entries @ [last entries]" using e by (cases entries rule: rev_cases) simp_all
      then have "e = last entries \<or> id_before (fst e) (fst (last entries))"
        using srt e by (metis (no_types, lifting) Un_iff empty_iff empty_set set_ConsD set_append sorted_wrt_append list.set_intros(1))
      then show ?thesis by (auto simp: id_before_def)
    qed
    ultimately show ?thesis using id_le_trans by blast
  qed
  moreover have "entry_known shard e (s\<lparr>ms_redis := r'\<rparr>)" if "e \<in> set entries" for e
    using keeps that by (simp add: list_all_iff)
  moreover have "of_seq (snd e) \<le> hs_seq ?sh" if "e \<in> set entries" for e
    using num sub that unfolding numbered_def by (metis prod.collapse subset_iff)
  ultimately have "batch_left shard entries (s\<lparr>ms_redis := r'\<rparr>)"
    unfolding batch_left_def by (auto simp: r' sh' image_image split_beta simp del: split_paired_All)
  then show ?thesis using upd seqs by blast
qed

lemma ack_position:
  assumes inv: "position_inv fmt shard s" and left: "batch_left shard ((i, fs) # es) s" and sent: "entry_sent fmt shard s fs"
    and later: "\<forall>e\<in>set es. of_seq fs < of_seq (snd e)"
    and ex: "relay_ack shard epoch i (ms_redis s) = (ok, r')"
  shows "(position_inv fmt shard (s\<lparr>ms_redis := r'\<rparr>) \<and> grow_step shard s (s\<lparr>ms_redis := r'\<rparr>))
    \<and> (ok \<longrightarrow> batch_left shard es (s\<lparr>ms_redis := r'\<rparr>) \<and> sent_upto fmt shard (s\<lparr>ms_redis := r'\<rparr>) (of_seq fs))"
proof -
  let ?sh = "ms_redis s shard"
  have rinv: "relay_inv fmt shard s" using inv by (simp add: position_inv_def)
  have "entry_known shard (i, fs) s" using left by (simp add: batch_left_def)
  note keeps = ack_keeps [OF rinv this sent ex]
  obtain g where g: "hs_group ?sh = Some g" using left by (auto simp: batch_left_def)
  show ?thesis
  proof (cases ok)
    case False
    then have r': "r' = (ms_redis s)(shard := ?sh)"
      using ex by (auto simp: relay_ack_def on_shard_def hb_relay_ack_def Let_def split: if_splits)
    show ?thesis using False keeps unfolding r' by (intro conjI position_upd [OF inv]) simp_all
  next
    case True
    then have r': "r' = (ms_redis s)(shard := ?sh\<lparr>hs_group := Some (g\<lparr>rg_pel := filter (\<lambda>(j, _). j \<noteq> i) (rg_pel g)\<rparr>)\<rparr>)"
      using ex g by (auto simp: relay_ack_def on_shard_def hb_relay_ack_def Let_def split: if_splits)
    have upd: "position_inv fmt shard (s\<lparr>ms_redis := r'\<rparr>) \<and> grow_step shard s (s\<lparr>ms_redis := r'\<rparr>)"
      using keeps unfolding r' by (intro position_upd [OF inv]) simp_all
    have left': "batch_left shard es (s\<lparr>ms_redis := r'\<rparr>)"
      using left g unfolding batch_left_def entry_known_def r' by (auto simp del: split_paired_All)
    have "\<exists>g. hs_group (ms_redis (s\<lparr>ms_redis := r'\<rparr>) shard) = Some g
        \<and> (\<forall>j fs'. (j, fs') \<in> set (hs_outbox (ms_redis (s\<lparr>ms_redis := r'\<rparr>) shard)) \<longrightarrow> of_seq fs' \<le> of_seq fs \<longrightarrow> \<not> id_before (rg_last g) j)"
      using left g unfolding batch_left_def r' by (auto simp del: split_paired_All)
    moreover have "of_seq fs \<le> hs_seq (ms_redis (s\<lparr>ms_redis := r'\<rparr>) shard)" using left by (simp add: batch_left_def r')
    ultimately have "sent_upto fmt shard (s\<lparr>ms_redis := r'\<rparr>) (of_seq fs)"
      using sent_upto_current [OF conjunct1 [OF upd] left' later] by blast
    then show ?thesis using upd left' by blast
  qed
qed

subsection \<open>The operations of a relay that is alone\<close>

abbreviation moves :: "relay_settings \<Rightarrow> string \<Rightarrow> (monitor_shared \<Rightarrow> bool) \<Rightarrow> (relay_state, 'a) task_op \<Rightarrow> ('a \<Rightarrow> monitor_shared \<Rightarrow> bool) \<Rightarrow> bool" where
  "moves settings shard \<equiv> triple rl_producer (position_inv (rs_iso settings) shard) (grow_step shard)"

abbreviation reads :: "relay_settings \<Rightarrow> string \<Rightarrow> (monitor_shared \<Rightarrow> bool) \<Rightarrow> (relay_state, 'a) task_op \<Rightarrow> ('a \<Rightarrow> monitor_shared \<Rightarrow> bool) \<Rightarrow> bool" where
  "reads settings shard \<equiv> triple rl_producer (position_inv (rs_iso settings) shard) (same_group shard)"

abbreviation alone :: "relay_settings \<Rightarrow> string \<Rightarrow> task_net \<Rightarrow> bool" where
  "alone settings shard \<equiv> relies (position_inv (rs_iso settings) shard) (writer_step shard)"

lemma moves_of_reads: "reads settings shard P m Q \<Longrightarrow> moves settings shard P m Q"
  by (auto simp: triple_def same_group_def)

lemma stable_any: "stable I R any"
  by (simp add: stable_def)

text \<open>An operation that leaves the group alone keeps what is known of the batch.\<close>

lemma reads_frame:
  assumes "reads settings shard P m Q" and "stable (position_inv (rs_iso settings) shard) (same_group shard) F"
  shows "reads settings shard (\<lambda>s. P s \<and> F s) m (\<lambda>a s. Q a s \<and> F s)"
  by (rule reading.frame [OF assms]) simp_all

lemma stream_same_reads:
  assumes inv: "position_inv fmt shard s" and "ms_kafka s' = ms_kafka s"
    and "ms_redis s' = (ms_redis s)(shard := sh')" and sh: "hs_outbox sh' = hs_outbox (ms_redis s shard)"
    "hs_last_id sh' = hs_last_id (ms_redis s shard)" "hs_group sh' = hs_group (ms_redis s shard)" "hs_seq sh' = hs_seq (ms_redis s shard)"
    and pub: "hs_published sh' = hs_published (ms_redis s shard) \<or> (\<exists>p. hs_published sh' = Some p \<and> sent_upto fmt shard s p)"
  shows "position_inv fmt shard s' \<and> same_group shard s s'"
proof -
  have relay: "relay_inv fmt shard (s\<lparr>ms_redis := (ms_redis s)(shard := sh')\<rparr>) \<and> relay_step shard s (s\<lparr>ms_redis := (ms_redis s)(shard := sh')\<rparr>)"
    using inv sh by (intro relay_inv_same_group) (simp_all add: position_inv_def)
  have "position_inv fmt shard (s\<lparr>ms_redis := (ms_redis s)(shard := sh')\<rparr>) \<and> grow_step shard s (s\<lparr>ms_redis := (ms_redis s)(shard := sh')\<rparr>)"
    by (rule position_upd [OF inv relay sh(1,4) pub])
  then show ?thesis using assms(2,3) sh(3)
    unfolding position_inv_def relay_inv_def delivered_sent_def entry_sent_def sent_upto_def grow_step_def same_group_def relay_step_def
    by simp
qed

lemma commit_reads:
  assumes "alone settings shard net"
  shows "reads settings shard (\<lambda>s. sent_upto (rs_iso settings) shard s p) (commit net shard epoch p) anything"
  unfolding commit_def
proof (rule reading.redis_call_rule [OF assms stable_writer [OF stable_sent_upto]])
  fix now :: int and s a r' assume inv: "position_inv (rs_iso settings) shard s" and upto: "sent_upto (rs_iso settings) shard s p"
    and "Some (relay_commit_published_seq shard epoch p (ms_redis s)) = Some (a, r')"
  then have "r' = (ms_redis s)(shard := ms_redis s shard) \<or> r' = (ms_redis s)(shard := (ms_redis s shard)\<lparr>hs_published := Some p\<rparr>)"
    by (auto simp: relay_commit_published_seq_def on_shard_def hb_relay_commit_def Let_def split: if_splits)
  then have "position_inv (rs_iso settings) shard (s\<lparr>ms_redis := r'\<rparr>) \<and> same_group shard s (s\<lparr>ms_redis := r'\<rparr>)"
  proof
    assume "r' = (ms_redis s)(shard := ms_redis s shard)"
    then show ?thesis by (intro stream_same_reads [OF inv, where sh' = "ms_redis s shard"]) simp_all
  next
    assume "r' = (ms_redis s)(shard := (ms_redis s shard)\<lparr>hs_published := Some p\<rparr>)"
    then show ?thesis using upto
      by (intro stream_same_reads [OF inv, where sh' = "(ms_redis s shard)\<lparr>hs_published := Some p\<rparr>"]) simp_all
  qed
  then show "position_inv (rs_iso settings) shard (s\<lparr>ms_redis := r'\<rparr>) \<and> same_group shard s (s\<lparr>ms_redis := r'\<rparr>) \<and> True" by blast
qed

lemma send_reads:
  assumes rely: "alone settings shard net" and env: "build_envelope (rs_iso settings) shard fs = Inr envelope" "shard_index_from_id shard = Inr part"
  shows "reads settings shard any (send_and_wait net part envelope) (\<lambda>_ s. entry_sent (rs_iso settings) shard s fs)"
  unfolding send_and_wait_def
proof (rule reading.call_rule [OF rely stable_any])
  fix now :: int and s a s' assume inv: "position_inv (rs_iso settings) shard s"
    and "Some ((), s\<lparr>ms_kafka := (ms_kafka s)(part := ms_kafka s part @ [envelope])\<rparr>) = Some (a, s')"
  then have s': "s' = s\<lparr>ms_kafka := (ms_kafka s)(part := ms_kafka s part @ [envelope])\<rparr>" by simp
  have grow: "grow_step shard s s'" by (auto simp: s' grow_step_def relay_step_def)
  then have step: "relay_step shard s s'" by (simp add: grow_step_def)
  have "relay_inv (rs_iso settings) shard s'"
    using inv entry_sent_mono [OF step] unfolding position_inv_def relay_inv_def delivered_sent_def by (simp add: s')
  then have "position_inv (rs_iso settings) shard s'"
    using inv sent_upto_grow [OF _ grow] unfolding position_inv_def by (simp add: s')
  moreover have "same_group shard s s'" using grow by (simp add: same_group_def s')
  moreover have "entry_sent (rs_iso settings) shard s' fs" using env by (simp add: entry_sent_def s')
  ultimately show "position_inv (rs_iso settings) shard s' \<and> same_group shard s s' \<and> entry_sent (rs_iso settings) shard s' fs"
    by blast
qed

lemma send_if_producer_reads:
  assumes "alone settings shard net" and "build_envelope (rs_iso settings) shard fs = Inr envelope" "shard_index_from_id shard = Inr part"
  shows "reads settings shard any (send_if_producer net part envelope) (\<lambda>_ s. entry_sent (rs_iso settings) shard s fs)"
  unfolding send_if_producer_def
proof (rule reading.with_self_rule)
  fix self :: relay_state assume self: "rl_producer self"
  have "reads settings shard (\<lambda>s. entry_sent (rs_iso settings) shard s fs)
      (and_then (set_self (\<lambda>x. x\<lparr>rl_published_total := rl_published_total x + 1\<rparr>)) (\<lambda>_. return_op True))
      (\<lambda>_ s. entry_sent (rs_iso settings) shard s fs)"
    by (rule reading.and_then_rule [where M = "\<lambda>_ s. entry_sent (rs_iso settings) shard s fs"];
        (rule reading.set_self_rule reading.return_rule; simp))
  then show "reads settings shard any (if rl_producer self then
       and_then (send_and_wait net part envelope)
         (\<lambda>_. and_then (set_self (\<lambda>x. x\<lparr>rl_published_total := rl_published_total x + 1\<rparr>)) (\<lambda>_. return_op True))
     else return_op False) (\<lambda>_ s. entry_sent (rs_iso settings) shard s fs)"
    using self by (simp add: reading.and_then_rule [OF send_reads [OF assms]])
qed

lemma ack_moves:
  assumes rely: "alone settings shard net" and later: "\<forall>e\<in>set es. of_seq fs < of_seq (snd e)"
  shows "moves settings shard (\<lambda>s. entry_sent (rs_iso settings) shard s fs \<and> batch_left shard ((i, fs) # es) s) (ack net shard epoch i)
    (\<lambda>ok s. ok \<longrightarrow> batch_left shard es s \<and> sent_upto (rs_iso settings) shard s (of_seq fs))"
  unfolding ack_def
proof (rule position.redis_call_rule [OF rely])
  show "stable (position_inv (rs_iso settings) shard) (writer_step shard)
      (\<lambda>s. entry_sent (rs_iso settings) shard s fs \<and> batch_left shard ((i, fs) # es) s)"
    by (intro stable_and stable_same_writer stable_batch_left)
      (auto simp: stable_def same_group_def grow_step_def intro: entry_sent_mono)
qed (use ack_position later in \<open>simp, blast\<close>)

abbreviation last_sent :: "relay_settings \<Rightarrow> string \<Rightarrow> int option \<Rightarrow> monitor_shared \<Rightarrow> bool" where
  "last_sent settings shard last_seq s \<equiv> \<forall>v. last_seq = Some v \<longrightarrow> sent_upto (rs_iso settings) shard s v"

lemma publish_entries_moves:
  assumes rely: "alone settings shard net" and part: "shard_index_from_id shard = Inr part"
  shows "sorted_wrt (\<lambda>x y. of_seq (snd x) < of_seq (snd y)) es \<Longrightarrow>
    moves settings shard (\<lambda>s. batch_left shard es s \<and> last_sent settings shard last_seq s)
      (publish_entries net settings shard part epoch es last_seq n)
      (\<lambda>r s. \<forall>l m. r = Some (l, m) \<longrightarrow> idle shard s \<and> last_sent settings shard l s)"
proof (induction es arbitrary: last_seq n)
  case Nil
  show ?case unfolding publish_entries.simps by (rule position.return_rule) (auto dest: batch_left_Nil)
next
  case (Cons e es)
  obtain i fs where e: "e = (i, fs)" by (cases e)
  let ?post = "\<lambda>r s. \<forall>l m. r = Some (l, m :: nat) \<longrightarrow> idle shard s \<and> last_sent settings shard l s"
  let ?here = "\<lambda>s. sent_upto (rs_iso settings) shard s (of_seq fs) \<and> batch_left shard es s"
  have later: "\<forall>e\<in>set es. of_seq fs < of_seq (snd e)" using Cons.prems by (simp add: e)
  have rest: "moves settings shard ?here (publish_entries net settings shard part epoch es (Some (of_seq fs)) (Suc n)) ?post"
    by (rule position.consequence [OF Cons.IH]) (use Cons.prems in simp_all)
  have here_stable: "stable (position_inv (rs_iso settings) shard) (same_group shard) ?here"
    by (rule stable_and [OF stable_grow_same [OF stable_sent_upto] stable_batch_left])
  have "moves settings shard ?here (commit net shard epoch (of_seq fs)) (\<lambda>_. ?here)"
    by (rule moves_of_reads, rule reading.frame [OF commit_reads [OF rely] here_stable]) simp_all
  then have commits: "moves settings shard ?here (and_then (commit net shard epoch (of_seq fs)) (\<lambda>committed.
       if \<not> committed then return_op None
       else publish_entries net settings shard part epoch es (Some (of_seq fs)) (Suc n))) ?post"
    by (rule position.and_then_rule) (intro position.if_rule rest position.return_rule; simp)
  have marks: "moves settings shard P (set_self g) (\<lambda>_. P)" if "\<And>x. rl_producer (g x) = rl_producer x" for P g
    by (rule position.set_self_rule) (simp_all add: that)
  have after_ack: "moves settings shard (\<lambda>s. acked \<longrightarrow> batch_left shard es s \<and> sent_upto (rs_iso settings) shard s (of_seq fs))
     (if \<not> acked then return_op None
     else and_then (set_self (\<lambda>x. x\<lparr>rl_last_acked := Some i, rl_since_trim := rl_since_trim x + 1\<rparr>)) (\<lambda>_.
       if Suc n mod rs_batch_size settings = 0 then
         and_then (commit net shard epoch (of_seq fs)) (\<lambda>committed.
         if \<not> committed then return_op None
         else publish_entries net settings shard part epoch es (Some (of_seq fs)) (Suc n))
       else publish_entries net settings shard part epoch es (Some (of_seq fs)) (Suc n))) ?post" for acked
  proof (cases acked)
    case True
    have "moves settings shard ?here (if b then x else y) ?post"
      if "moves settings shard ?here x ?post" "moves settings shard ?here y ?post" for b and x y :: "(relay_state, (int option \<times> nat) option) task_op"
      using that by simp
    note both = this [OF commits rest]
    show ?thesis
      by (simp only: True not_True_eq_False if_False, rule position.consequence [OF position.and_then_rule [OF marks both]]) auto
  qed (simp add: position.return_rule)
  have sends: "moves settings shard (\<lambda>s. batch_left shard ((i, fs) # es) s \<and> last_sent settings shard last_seq s)
      (send_if_producer net part envelope) (\<lambda>_ s. entry_sent (rs_iso settings) shard s fs \<and> batch_left shard ((i, fs) # es) s)"
    if "build_envelope (rs_iso settings) shard fs = Inr envelope" for envelope
    by (rule moves_of_reads, rule reading.frame [OF send_if_producer_reads [OF rely that part] stable_batch_left]) auto
  have from_env: "moves settings shard P (from_result (build_envelope (rs_iso settings) shard fs) k) ?post"
    if "\<And>b. build_envelope (rs_iso settings) shard fs = Inr b \<Longrightarrow> moves settings shard P (k b) ?post"
    for P and k :: "alive_delta \<Rightarrow> (relay_state, (int option \<times> nat) option) task_op"
    using that by (cases "build_envelope (rs_iso settings) shard fs") (simp_all add: from_result_def position.raise_rule)
  show ?case unfolding e publish_entries.simps
    by (rule position.and_then_rule [OF marks], simp, rule from_env)
      (rule position.and_then_rule [OF sends position.and_then_rule [OF ack_moves [OF rely later] after_ack]])
qed

lemma reset_published_seq_reads:
  assumes rely: "alone settings shard net"
  shows "reads settings shard (idle shard) (reset_published_seq net shard epoch) (\<lambda>_. idle shard)"
proof -
  have idle_w: "stable (position_inv (rs_iso settings) shard) (writer_step shard) (idle shard)"
    by (rule stable_same_writer [OF stable_idle])
  have pending: "reads settings shard (idle shard) (redis_read net (\<lambda>_ r. xpending_first (r shard))) (\<lambda>p s. p = None \<and> idle shard s)"
    by (rule reading.redis_read_rule [OF rely idle_w]) (auto simp: xpending_first_def idle_def)
  have "reads settings shard (\<lambda>s. p = None \<and> idle shard s) (case p of
          None \<Rightarrow> return_op False
        | Some i \<Rightarrow> and_then (redis_read net (\<lambda>_ r. Some (xrange_one i (r shard))))
              (\<lambda>entry. case entry of
                 None \<Rightarrow> return_op True
               | Some fs \<Rightarrow> and_then (commit net shard epoch (max 0 (of_seq fs - 1))) (\<lambda>_. return_op True))) (\<lambda>_. idle shard)" for p
    by (cases p) (auto simp: triple_def return_op_def same_group_def grow_refl)
  then have first: "reads settings shard (idle shard) (reset_from_pending net shard epoch) (\<lambda>_. idle shard)"
    unfolding reset_from_pending_def by (rule reading.and_then_rule [OF pending])
  let ?at = "\<lambda>l s. idle shard s \<and> (\<exists>g. hs_group (ms_redis s shard) = Some g \<and> rg_last g = l)"
  let ?found = "\<lambda>entry s. idle shard s \<and> (\<forall>fs. entry = Some fs \<longrightarrow> sent_upto (rs_iso settings) shard s (of_seq fs))"
  have last: "reads settings shard (idle shard) (redis_read net (\<lambda>_ r. map_option rg_last (hs_group (r shard)))) ?at"
    by (rule reading.redis_read_rule [OF rely idle_w]) auto
  have at_w: "stable (position_inv (rs_iso settings) shard) (writer_step shard) (?at l)" for l
    by (rule stable_same_writer) (simp add: stable_def same_group_def idle_def)
  have upto: "reads settings shard (?at l) (redis_read net (\<lambda>_ r. Some (xrange_one l (r shard)))) ?found" for l
  proof (rule reading.redis_read_rule [OF rely at_w])
    fix now :: int and s entry assume inv: "position_inv (rs_iso settings) shard s" and at: "?at l s"
      and "Some (xrange_one l (ms_redis s shard)) = Some entry"
    then have entry: "entry = map_of (hs_outbox (ms_redis s shard)) l" by (simp add: xrange_one_def)
    obtain g where g: "hs_group (ms_redis s shard) = Some g" "rg_last g = l" "rg_pel g = []" using at by (auto simp: idle_def)
    have num: "numbered (ms_redis s shard)" using inv by (simp add: position_inv_def)
    have "sent_upto (rs_iso settings) shard s (of_seq fs)" if "entry = Some fs" for fs
    proof (rule sent_upto_current [OF inv, of "[]"])
      have mem: "(l, fs) \<in> set (hs_outbox (ms_redis s shard))" using that entry by (auto dest: map_of_SomeD)
      then show "of_seq fs \<le> hs_seq (ms_redis s shard)" using num unfolding numbered_def by blast
      show "\<exists>g. hs_group (ms_redis s shard) = Some g \<and> (\<forall>j fs'. (j, fs') \<in> set (hs_outbox (ms_redis s shard)) \<longrightarrow>
          of_seq fs' \<le> of_seq fs \<longrightarrow> \<not> id_before (rg_last g) j)"
        using numbered_compare [OF num mem] g by blast
    qed (use g in \<open>simp_all add: batch_left_def\<close>)
    then show "?found entry s" using at by blast
  qed
  have finish: "reads settings shard (?found entry) (case entry of
               None \<Rightarrow> return_op True
             | Some fs \<Rightarrow> and_then (commit net shard epoch (of_seq fs)) (\<lambda>_. return_op True)) (\<lambda>_. idle shard)" for entry
  proof (cases entry)
    case (Some fs)
    have "reads settings shard (?found entry) (commit net shard epoch (of_seq fs)) (\<lambda>_. idle shard)"
      by (rule reading.frame [OF commit_reads [OF rely] stable_idle]) (auto simp: Some)
    then have "reads settings shard (?found entry) (and_then (commit net shard epoch (of_seq fs)) (\<lambda>_. return_op True)) (\<lambda>_. idle shard)"
      by (rule reading.and_then_rule) (simp add: reading.return_rule)
    then show ?thesis by (simp add: Some)
  qed (simp add: reading.return_rule)
  have "reads settings shard (?at l) (if l = (0, 0) then return_op True
      else and_then (redis_read net (\<lambda>_ r. Some (xrange_one l (r shard)))) (\<lambda>entry. case entry of
               None \<Rightarrow> return_op True
             | Some fs \<Rightarrow> and_then (commit net shard epoch (of_seq fs)) (\<lambda>_. return_op True))) (\<lambda>_. idle shard)" for l
    by (intro reading.if_rule reading.and_then_rule [OF upto finish]) (rule reading.return_rule, simp)
  then have second: "reads settings shard (idle shard) (reset_from_delivered net shard epoch) (\<lambda>_. idle shard)"
    unfolding reset_from_delivered_def by (rule reading.and_then_rule [OF last])
  have retb: "reads settings shard (idle shard) (return_op a) (\<lambda>_. idle shard)" for a :: bool by (rule reading.return_rule)
  have retu: "reads settings shard (idle shard) (return_op a) (\<lambda>_. idle shard)" for a :: unit by (rule reading.return_rule)
  have "reads settings shard (idle shard) (if handled then return_op ()
          else and_then (or_else (reset_from_delivered net shard epoch) (return_op False)) (\<lambda>_. return_op ())) (\<lambda>_. idle shard)" for handled
    using reading.and_then_rule [OF reading.or_else_rule [OF second retb stable_idle] retu] retu by simp
  then show ?thesis unfolding reset_published_seq_def
    by (rule reading.and_then_rule [OF reading.or_else_rule [OF first retb stable_idle]])
qed

lemma reset_consumer_group_moves:
  assumes rely: "alone settings shard net"
  shows "moves settings shard any (reset_consumer_group net shard) (\<lambda>_. idle shard)"
proof -
  have destroy: "moves settings shard any (redis_call net (\<lambda>_. at_shard shard xgroup_destroy)) anything"
  proof (rule position.redis_call_rule [OF rely stable_any])
    fix now :: int and s a r' assume inv: "position_inv (rs_iso settings) shard s" and "at_shard shard xgroup_destroy (ms_redis s) = Some (a, r')"
    then have r': "r' = (ms_redis s)(shard := (ms_redis s shard)\<lparr>hs_group := None\<rparr>)"
      by (auto simp: at_shard_def xgroup_destroy_def)
    have "relay_inv (rs_iso settings) shard s" using inv by (simp add: position_inv_def)
    then show "position_inv (rs_iso settings) shard (s\<lparr>ms_redis := r'\<rparr>) \<and> grow_step shard s (s\<lparr>ms_redis := r'\<rparr>) \<and> True"
      unfolding r' using position_upd [OF inv destroy_keeps] by simp
  qed
  have create: "moves settings shard any (redis_call net (\<lambda>_. at_shard shard xgroup_create)) (\<lambda>_. idle shard)"
  proof (rule position.redis_call_rule [OF rely stable_any])
    fix now :: int and s a r' assume inv: "position_inv (rs_iso settings) shard s" and "at_shard shard xgroup_create (ms_redis s) = Some (a, r')"
    then have r': "r' = (ms_redis s)(shard := (ms_redis s shard)\<lparr>hs_group := Some \<lparr>rg_last = (0, 0), rg_pel = [], rg_consumers = []\<rparr>\<rparr>)"
      by (auto simp: at_shard_def xgroup_create_def split: option.splits)
    have "relay_inv (rs_iso settings) shard s" using inv by (simp add: position_inv_def)
    then show "position_inv (rs_iso settings) shard (s\<lparr>ms_redis := r'\<rparr>) \<and> grow_step shard s (s\<lparr>ms_redis := r'\<rparr>) \<and> idle shard (s\<lparr>ms_redis := r'\<rparr>)"
      unfolding r' using position_upd [OF inv create_keeps] by (simp add: idle_def)
  qed
  have "moves settings shard any (return_op ()) anything" by (rule position.return_rule) simp
  then show ?thesis unfolding reset_consumer_group_def
    by (rule position.and_then_rule [OF position.or_else_rule [OF destroy _ stable_any] create])
qed

lemma heal_moves:
  assumes rely: "alone settings shard net"
  shows "moves settings shard (idle shard) (maybe_heal_undelivered_lag net settings shard) (\<lambda>_. idle shard)"
proof -
  let ?zero = "set_self (\<lambda>x. x\<lparr>rl_lag_polls := 0\<rparr>) :: (relay_state, unit) task_op"
  have marks: "moves settings shard P (set_self g) (\<lambda>_. P)" if "\<And>x. rl_producer (g x) = rl_producer x" for P g
    by (rule position.set_self_rule) (simp_all add: that)
  have ret: "moves settings shard (idle shard) (return_op ()) (\<lambda>_. idle shard)" by (rule position.return_rule)
  have zero: "moves settings shard (idle shard) ?zero (\<lambda>_. idle shard)" by (rule marks) simp
  have lag: "moves settings shard (idle shard) (outbox_publish_lag_ms net shard) (\<lambda>_. idle shard)"
    by (rule moves_of_reads, rule reading.frame [OF reading.lag_rule [OF rely] stable_idle]) simp_all
  have reset: "moves settings shard (idle shard) (and_then (reset_consumer_group net shard) (\<lambda>_. ?zero)) (\<lambda>_. idle shard)"
    by (rule position.and_then_rule [OF position.consequence [OF reset_consumer_group_moves [OF rely]] zero]) simp_all
  have "moves settings shard (idle shard) (and_then (set_self (\<lambda>x. x\<lparr>rl_lag_polls := rl_lag_polls x + 1\<rparr>)) (\<lambda>_. with_self (\<lambda>self.
       if rl_lag_polls self < HEAL_EMPTY_POLLS then return_op ()
       else and_then (reset_consumer_group net shard) (\<lambda>_. ?zero)))) (\<lambda>_. idle shard)"
    by (rule position.and_then_rule [OF marks]; (intro position.with_self_rule position.if_rule ret reset)?) simp
  then show ?thesis unfolding maybe_heal_undelivered_lag_def
    by (intro position.and_then_rule [OF lag] position.if_rule zero)
qed

lemma trim_when_due_reads:
  assumes rely: "alone settings shard net"
  shows "moves settings shard (idle shard) (trim_when_due net shard epoch) (\<lambda>_. idle shard)"
proof -
  have trim: "reads settings shard any (redis_call net (\<lambda>_ r. Some (relay_trim shard epoch i r))) anything" for i
  proof (rule reading.redis_call_rule [OF rely stable_any])
    fix now :: int and s a r' assume inv: "position_inv (rs_iso settings) shard s"
      and "Some (relay_trim shard epoch i (ms_redis s)) = Some (a, r')"
    then have ex: "relay_trim shard epoch i (ms_redis s) = (a, r')" by simp
    have keeps: "relay_inv (rs_iso settings) shard (s\<lparr>ms_redis := r'\<rparr>) \<and> relay_step shard s (s\<lparr>ms_redis := r'\<rparr>)"
      by (rule trim_keeps [OF _ ex]) (use inv in \<open>simp add: position_inv_def\<close>)
    obtain P where P: "r' = (ms_redis s)(shard := (ms_redis s shard)\<lparr>hs_outbox := filter P (hs_outbox (ms_redis s shard))\<rparr>)"
      using ex by (cases "hs_epoch (ms_redis s shard) = Some epoch")
        (auto simp: relay_trim_def on_shard_def hb_relay_trim_def Let_def intro: that [of "\<lambda>_. True"])
    have grow: "grow_step shard s (s\<lparr>ms_redis := r'\<rparr>)" using keeps by (auto simp: grow_step_def P)
    have "numbered (ms_redis (s\<lparr>ms_redis := r'\<rparr>) shard)"
      using inv unfolding position_inv_def numbered_def P by (auto intro: sorted_wrt_filter)
    then have "position_inv (rs_iso settings) shard (s\<lparr>ms_redis := r'\<rparr>)"
      using keeps inv sent_upto_grow [OF _ grow] unfolding position_inv_def by (simp add: P)
    then show "position_inv (rs_iso settings) shard (s\<lparr>ms_redis := r'\<rparr>) \<and> same_group shard s (s\<lparr>ms_redis := r'\<rparr>) \<and> True"
      using grow by (simp add: same_group_def P)
  qed
  have trims: "moves settings shard (idle shard) (redis_call net (\<lambda>_ r. Some (relay_trim shard epoch i r))) (\<lambda>_. idle shard)" for i
    by (rule moves_of_reads, rule reading.frame [OF trim stable_idle]) simp_all
  have ret: "moves settings shard (idle shard) (return_op b) (\<lambda>_. idle shard)" for b :: bool by (rule position.return_rule)
  have "moves settings shard (idle shard) (and_then (set_self (\<lambda>x. x\<lparr>rl_since_trim := 0\<rparr>)) (\<lambda>_. return_op True)) (\<lambda>_. idle shard)"
    by (rule position.and_then_rule [OF position.set_self_rule ret]) simp_all
  then have "moves settings shard (idle shard) (and_then (redis_call net (\<lambda>_ r. Some (relay_trim shard epoch i r)))
             (\<lambda>trimmed. if \<not> trimmed then return_op False
                else and_then (set_self (\<lambda>x. x\<lparr>rl_since_trim := 0\<rparr>)) (\<lambda>_. return_op True))) (\<lambda>_. idle shard)" for i
    by (intro position.and_then_rule [OF trims] position.if_rule ret)
  then show ?thesis unfolding trim_when_due_def
    by (intro position.with_self_rule) (auto split: option.splits intro: ret)
qed

lemma publish_batch_moves:
  assumes rely: "alone settings shard net"
  shows "moves settings shard (idle shard) (publish_batch net settings shard epoch) (\<lambda>ok s. ok \<longrightarrow> idle shard s)"
proof (cases "shard_index_from_id shard")
  case (Inl x)
  then show ?thesis by (simp add: publish_batch_def from_result_def position.raise_rule)
next
  case (Inr part)
  let ?ok = "\<lambda>ok s. ok \<longrightarrow> idle shard s"
  let ?read = "\<lambda>entries s. batch_left shard entries s \<and> sorted_wrt (\<lambda>x y. of_seq (snd x) < of_seq (snd y)) entries"
  have read: "moves settings shard (idle shard)
      (redis_call net (\<lambda>now. at_shard shard (xreadgroup now c XREADGROUP_COUNT))) ?read" for c
    by (rule position.redis_call_rule [OF rely stable_same_writer [OF stable_idle]]) (use xreadgroup_position in blast)
  have stop: "moves settings shard P (return_op False) ?ok" for P by (rule position.return_rule) simp
  have ret: "moves settings shard (idle shard) (return_op True) (\<lambda>_. idle shard)" by (rule position.return_rule)
  have commits: "moves settings shard (\<lambda>s. idle shard s \<and> sent_upto (rs_iso settings) shard s v) (commit net shard epoch v) (\<lambda>_. idle shard)" for v
    by (rule moves_of_reads, rule reading.frame [OF commit_reads [OF rely] stable_idle]) simp_all
  have last_commit: "moves settings shard (\<lambda>s. idle shard s \<and> last_sent settings shard l s)
      (case l of Some v \<Rightarrow> if m mod rs_batch_size settings \<noteq> 0 then commit net shard epoch v else return_op True
       | None \<Rightarrow> return_op True) (\<lambda>_. idle shard)" for l and m :: nat
  proof (cases l)
    case None
    have "moves settings shard (\<lambda>s. idle shard s \<and> last_sent settings shard l s) (return_op True) (\<lambda>_. idle shard)"
      by (rule position.return_rule) simp
    then show ?thesis by (simp add: None)
  next
    case (Some v)
    have "moves settings shard (\<lambda>s. idle shard s \<and> sent_upto (rs_iso settings) shard s v)
        (if m mod rs_batch_size settings \<noteq> 0 then commit net shard epoch v else return_op True) (\<lambda>_. idle shard)"
      by (intro position.if_rule commits) (rule position.return_rule, simp)
    then show ?thesis by (simp add: Some)
  qed
  have trim: "moves settings shard (idle shard) (trim_when_due net shard epoch) ?ok"
    by (rule position.consequence [OF trim_when_due_reads [OF rely]]) simp_all
  let ?finish = "\<lambda>sent. case sent of
         None \<Rightarrow> return_op False
       | Some (last_published_seq, published_in_batch) \<Rightarrow>
           and_then
             (case last_published_seq of
                Some s \<Rightarrow> if published_in_batch mod rs_batch_size settings \<noteq> 0 then commit net shard epoch s else return_op True
              | None \<Rightarrow> return_op True)
             (\<lambda>committed. if \<not> committed then return_op False else trim_when_due net shard epoch)"
  have finish: "moves settings shard (\<lambda>s. \<forall>l m. sent = Some (l, m) \<longrightarrow> idle shard s \<and> last_sent settings shard l s) (?finish sent) ?ok" for sent
  proof (cases sent)
    case None
    then show ?thesis by (simp add: stop)
  next
    case (Some x)
    obtain l m where x: "x = (l, m)" by (cases x)
    have "moves settings shard (\<lambda>s. idle shard s \<and> last_sent settings shard l s) (?finish sent) ?ok"
      unfolding Some x option.case prod.case by (intro position.and_then_rule [OF last_commit] position.if_rule stop trim)
    then show ?thesis by (simp add: Some x)
  qed
  have publish: "moves settings shard (?read entries)
      (and_then (set_self (\<lambda>x. x\<lparr>rl_lag_polls := 0\<rparr>)) (\<lambda>_.
       and_then (publish_entries net settings shard part epoch entries None 0) ?finish)) ?ok" for entries
  proof (cases "sorted_wrt (\<lambda>x y. of_seq (snd x) < of_seq (snd y)) entries")
    case True
    have "moves settings shard (\<lambda>s. batch_left shard entries s \<and> last_sent settings shard None s)
        (and_then (publish_entries net settings shard part epoch entries None 0) ?finish) ?ok"
      by (rule position.and_then_rule [OF publish_entries_moves [OF rely Inr True] finish])
    then show ?thesis
      by (intro position.and_then_rule [OF position.set_self_rule [where Q = "\<lambda>_ s. batch_left shard entries s \<and> last_sent settings shard None s"]])
        simp_all
  qed (simp add: triple_def)
  have heal: "moves settings shard (?read entries) (and_then (maybe_heal_undelivered_lag net settings shard) (\<lambda>_. return_op True)) ?ok"
    if "entries = []" for entries
  proof (rule position.consequence [OF position.and_then_rule [OF heal_moves [OF rely] ret]])
    fix s assume "?read entries s"
    then show "idle shard s" using that batch_left_Nil by blast
  qed simp
  have "moves settings shard (?read entries)
    (if entries = [] then and_then (maybe_heal_undelivered_lag net settings shard) (\<lambda>_. return_op True)
     else
       and_then (set_self (\<lambda>x. x\<lparr>rl_lag_polls := 0\<rparr>)) (\<lambda>_.
       and_then (publish_entries net settings shard part epoch entries None 0) ?finish)) ?ok" for entries
    by (intro position.if_rule heal publish)
  note batch = position.and_then_rule [OF read this]
  show ?thesis
    unfolding publish_batch_def from_result_def Inr sum.case by (rule position.with_self_rule) (rule batch)
qed

lemma publish_loop_moves:
  assumes rely: "alone settings shard net"
  shows "moves settings shard (idle shard) (publish_loop n net settings shard epoch) anything"
proof (induction n)
  case 0
  show ?case unfolding publish_loop.simps by (rule position.return_rule) simp
next
  case (Suc n)
  have stop: "moves settings shard P (return_op ()) anything" for P by (rule position.return_rule) simp
  have "reads settings shard any (renew_lock net shard) anything"
    unfolding renew_lock_def
    by (intro reading.with_self_rule reading.call_rule [OF rely stable_any]) (auto simp: same_group_def grow_refl)
  then have renew: "moves settings shard (idle shard) (renew_lock net shard) (\<lambda>_. idle shard)"
    by (intro moves_of_reads, rule reading.frame [OF _ stable_idle]) simp_all
  have "moves settings shard (\<lambda>s. ok \<longrightarrow> idle shard s) (if \<not> ok then return_op ()
     else and_then (renew_lock net shard) (\<lambda>renewed.
       if \<not> renewed then return_op () else publish_loop n net settings shard epoch)) anything" for ok
  proof (cases ok)
    case True
    have "moves settings shard (idle shard) (and_then (renew_lock net shard) (\<lambda>renewed.
       if \<not> renewed then return_op () else publish_loop n net settings shard epoch)) anything"
      by (intro position.and_then_rule [OF renew] position.if_rule stop Suc.IH)
    then show ?thesis by (simp add: True)
  qed (simp add: stop)
  then show ?case unfolding publish_loop.simps by (rule position.and_then_rule [OF publish_batch_moves [OF rely]])
qed


subsection \<open>Writers keep it\<close>

lemma writer_keeps_position:
  assumes inv: "position_inv fmt shard s" and ev: "\<not> is_relay_event ev"
  shows "position_inv fmt shard (s\<lparr>ms_redis := hb_exec E ev (ms_redis s)\<rparr>) \<and> writer_step shard s (s\<lparr>ms_redis := hb_exec E ev (ms_redis s)\<rparr>)"
proof -
  let ?s' = "s\<lparr>ms_redis := hb_exec E ev (ms_redis s)\<rparr>"
  have rinv: "relay_inv fmt shard s" and num: "numbered (ms_redis s shard)"
    using inv by (simp_all add: position_inv_def)
  have relay: "relay_inv fmt shard ?s'" and step: "relay_step shard s ?s'" using writer_keeps [OF rinv ev] by simp_all
  have "hs_group (ms_redis ?s' shard) = hs_group (ms_redis s shard) \<and> hs_published (ms_redis ?s' shard) = hs_published (ms_redis s shard)
      \<and> hs_seq (ms_redis s shard) \<le> hs_seq (ms_redis ?s' shard)
      \<and> (\<forall>i fs. (i, fs) \<in> set (hs_outbox (ms_redis ?s' shard)) \<longrightarrow>
            of_seq fs \<le> hs_seq (ms_redis ?s' shard) \<and> ((i, fs) \<in> set (hs_outbox (ms_redis s shard)) \<or> hs_seq (ms_redis s shard) < of_seq fs))
      \<and> sorted_wrt (\<lambda>x y. id_before (fst x) (fst y) \<and> of_seq (snd x) < of_seq (snd y)) (hs_outbox (ms_redis ?s' shard))"
    using ev
  proof (cases rule: writer_change [of ev E "ms_redis s"])
    case (quiet k sh')
    then show ?thesis using num by (cases "k = shard") (simp_all add: numbered_def)
  next
    case (emit k sh mo m fs sh')
    show ?thesis
    proof (cases "k = shard")
      case False
      then show ?thesis using emit num by (simp add: numbered_def)
    next
      case True
      let ?old = "ms_redis s shard"
      obtain n where "n = (if m > 0 then min (rm_drop mo) (length (hs_outbox ?old @ [(next_stream_id (rm_now mo) (hs_last_id ?old), fs)]) - m) else 0)"
        by blast
      then have out: "hs_outbox sh' = drop n (hs_outbox ?old @ [(next_stream_id (rm_now mo) (hs_last_id ?old), fs)])"
        using emit True by (cases "m > 0") (simp_all add: xadd_outbox_def Let_def)
      have before: "id_before i (next_stream_id (rm_now mo) (hs_last_id ?old)) \<and> of_seq f < of_seq fs"
        if mem: "(i, f) \<in> set (hs_outbox ?old)" for i f
      proof -
        have "\<not> id_before (hs_last_id ?old) i"
          using rinv mem unfolding relay_inv_def stream_ok_def by (metis fst_conv image_eqI)
        moreover have "id_before (hs_last_id ?old) (next_stream_id (rm_now mo) (hs_last_id ?old))"
          by (auto simp: next_stream_id_def id_before_def)
        moreover have "of_seq f \<le> hs_seq ?old" using num mem unfolding numbered_def by blast
        ultimately show ?thesis using emit True by (auto intro: id_before_le)
      qed
      then have "sorted_wrt (\<lambda>x y. id_before (fst x) (fst y) \<and> of_seq (snd x) < of_seq (snd y))
          (hs_outbox ?old @ [(next_stream_id (rm_now mo) (hs_last_id ?old), fs)])"
        using num by (auto simp: numbered_def sorted_wrt_append)
      then have srt: "sorted_wrt (\<lambda>x y. id_before (fst x) (fst y) \<and> of_seq (snd x) < of_seq (snd y)) (hs_outbox sh')"
        unfolding out by (rule sorted_wrt_drop)
      have mem: "(i, f) \<in> set (hs_outbox ?old) \<or> f = fs" if "(i, f) \<in> set (hs_outbox sh')" for i f
        using that unfolding out by (auto dest: in_set_dropD simp del: drop_append)
      have seqs: "hs_seq sh' = hs_seq ?old + 1" "of_seq fs = hs_seq ?old + 1" using emit True by simp_all
      have "of_seq f \<le> hs_seq sh' \<and> ((i, f) \<in> set (hs_outbox ?old) \<or> hs_seq ?old < of_seq f)" if "(i, f) \<in> set (hs_outbox sh')" for i f
        using mem [OF that] num seqs unfolding numbered_def by fastforce
      then show ?thesis using emit True srt seqs by simp
    qed
  qed
  then have facts: "hs_group (ms_redis ?s' shard) = hs_group (ms_redis s shard)"
      "hs_published (ms_redis ?s' shard) = hs_published (ms_redis s shard)"
      "grow_step shard s ?s'" "numbered (ms_redis ?s' shard)"
    using step unfolding grow_step_def numbered_def by blast+
  have "\<forall>p. hs_published (ms_redis ?s' shard) = Some p \<longrightarrow> sent_upto fmt shard ?s' p"
    using inv facts sent_upto_grow unfolding position_inv_def by metis
  then show ?thesis using relay facts unfolding position_inv_def writer_step_def same_group_def by blast
qed

text \<open>A relay with the shard of two events, while a third one is written.\<close>

definition loop_net :: task_net where
  "loop_net = \<lparr>tn_others = (\<lambda>t s. if t = 2 then beat_c s else s), tn_fails = (\<lambda>t. t \<ge> 8), tn_now = (\<lambda>_. 2000)\<rparr>"

definition owned_shared :: monitor_shared where
  "owned_shared = two_shared\<lparr>ms_redis := (\<lambda>_. empty_shard)(''hb-000'' := two_beats\<lparr>hs_group := Some fresh_group, hs_epoch := Some 1\<rparr>)\<rparr>"

definition loop_end :: "relay_state task_run" where
  "loop_end = snd (and_then (reset_published_seq loop_net ''hb-000'' 1)
     (\<lambda>_. publish_loop 1 loop_net (sample_relay\<lparr>rs_batch_size := 2\<rparr>) ''hb-000'' 1) (start_relay ''n1'' owned_shared))"

lemma beat_c_keeps_position: "position_inv fmt shard s \<Longrightarrow> position_inv fmt shard (beat_c s) \<and> writer_step shard s (beat_c s)"
  unfolding beat_c_def by (rule writer_keeps_position) simp_all

lemma writer_step_refl: "writer_step shard s s"
  by (simp add: writer_step_def same_group_def grow_refl)

lemma owned_shared_inv: "position_inv fmt ''hb-000'' owned_shared"
  by (simp add: position_inv_def numbered_def relay_inv_def stream_ok_def delivered_sent_def owned_shared_def two_shared_def
      fresh_group_def two_beats_simps id_before_def beat_fields_def)


end
