(* ===== verification/HbReconciler.thy ===== *)
theory HbReconciler
  imports HbRelay HbSnapshot
begin

text \<open>
  The reconciler, \<open>monitor-server/app/heartbeat/reconciler.py\<close>: for each shard it holds a lock, drops agents that
  were silent for very long, and marks agents silent that were silent for long.
\<close>

subsection \<open>State\<close>

record reconciler =
  rc_node :: string
  rc_last_evict :: "(string \<times> int) list"
  rc_silent_transition :: int
  rc_silent_candidates :: int
  rc_silent_skipped_race :: int
  rc_evict_gc :: int
  rc_evict_repair :: int
  rc_evict_candidates :: int
  rc_evict_skipped_race :: int

text \<open>What a phase logs.\<close>

record phase_stats =
  ps_candidates :: nat
  ps_silenced :: nat
  ps_evicted :: nat
  ps_repaired :: nat
  ps_skipped_race :: nat

text \<open>
  The clocks that are not Redis: the process clock, and how many entries Redis drops at a call, both by the
  number of the next call.
\<close>

record reconciler_env =
  re_settings :: hb_settings
  re_batch_size :: nat
  re_evict_interval :: int
  re_monotonic :: "nat \<Rightarrow> int"
  re_drops :: "nat \<Rightarrow> nat"

definition with_tick :: "(nat \<Rightarrow> ('s, 'a) task_op) \<Rightarrow> ('s, 'a) task_op" where
  "with_tick k w = k (tk_tick w) w"

subsection \<open>The lock\<close>

text \<open>\<open>SET NX\<close>, then \<open>GET\<close> and \<open>SET XX\<close>: three calls.\<close>

definition acquire_lock :: "task_net \<Rightarrow> string \<Rightarrow> (reconciler, bool) task_op" where
  "acquire_lock net shard = with_self (\<lambda>self.
     and_then
       (call net (\<lambda>_ sh. case ms_scan_lock sh shard of
          None \<Rightarrow> Some (True, sh\<lparr>ms_scan_lock := (ms_scan_lock sh)(shard \<mapsto> rc_node self)\<rparr>)
        | Some _ \<Rightarrow> Some (False, sh)))
       (\<lambda>result. if result then return_op True
          else and_then (call net (\<lambda>_ sh. Some (ms_scan_lock sh shard, sh)))
            (\<lambda>current_owner. if current_owner = Some (rc_node self) then
               call net (\<lambda>_ sh. case ms_scan_lock sh shard of
                 None \<Rightarrow> Some (False, sh)
               | Some _ \<Rightarrow> Some (True, sh\<lparr>ms_scan_lock := (ms_scan_lock sh)(shard \<mapsto> rc_node self)\<rparr>))
             else return_op False)))"

subsection \<open>Silent phase\<close>

definition mark_one :: "task_net \<Rightarrow> reconciler_env \<Rightarrow> string \<Rightarrow> string \<Rightarrow> (reconciler, silent_status \<times> int option) task_op" where
  "mark_one net env shard aic = with_tick (\<lambda>t.
     redis_call net (\<lambda>now r. Some (mark_silent_one (re_settings env) \<lparr>rm_now = now, rm_drop = re_drops env t\<rparr> shard aic r)))"

fun mark_each :: "task_net \<Rightarrow> reconciler_env \<Rightarrow> string \<Rightarrow> string list \<Rightarrow> phase_stats \<Rightarrow> (reconciler, phase_stats) task_op" where
  "mark_each net env shard [] stats = return_op stats"
| "mark_each net env shard (aic # aics) stats =
     and_then (mark_one net env shard aic) (\<lambda>(status, _).
     if status = LeftAlive then
       and_then (set_self (\<lambda>x. x\<lparr>rc_silent_transition := rc_silent_transition x + 1\<rparr>))
         (\<lambda>_. mark_each net env shard aics (stats\<lparr>ps_silenced := ps_silenced stats + 1\<rparr>))
     else
       and_then (set_self (\<lambda>x. x\<lparr>rc_silent_skipped_race := rc_silent_skipped_race x + 1\<rparr>))
         (\<lambda>_. mark_each net env shard aics (stats\<lparr>ps_skipped_race := ps_skipped_race stats + 1\<rparr>)))"

definition new_stats :: "nat \<Rightarrow> phase_stats" where
  "new_stats n = \<lparr>ps_candidates = n, ps_silenced = 0, ps_evicted = 0, ps_repaired = 0, ps_skipped_race = 0\<rparr>"

definition run_silent_phase :: "task_net \<Rightarrow> reconciler_env \<Rightarrow> string \<Rightarrow> (reconciler, phase_stats) task_op" where
  "run_silent_phase net env shard =
     and_then (redis_now_ms net) (\<lambda>now_ms.
     and_then (redis_read net (\<lambda>_ r. Some (zrange_by_score (r shard)
         (Excl (now_ms - set_evict_s (re_settings env) * 1000)) (Excl (now_ms - set_silence_s (re_settings env) * 1000))
         (re_batch_size env))))
       (\<lambda>results. let candidates = map fst results in
          and_then (set_self (\<lambda>x. x\<lparr>rc_silent_candidates := rc_silent_candidates x + int (length candidates)\<rparr>))
            (\<lambda>_. mark_each net env shard candidates (new_stats (length candidates)))))"

subsection \<open>Evict phase\<close>

definition evict_op :: "task_net \<Rightarrow> reconciler_env \<Rightarrow> string \<Rightarrow> string \<Rightarrow> (reconciler, evict_status \<times> int option) task_op" where
  "evict_op net env shard aic = with_tick (\<lambda>t.
     redis_call net (\<lambda>now r. Some (evict_one (re_settings env) \<lparr>rm_now = now, rm_drop = re_drops env t\<rparr> shard aic r)))"

definition count_evict :: "evict_status \<Rightarrow> reconciler \<Rightarrow> reconciler" where
  "count_evict status x =
     (let x1 = (if status \<in> {Evicted, EvictedWithRepair} then x\<lparr>rc_evict_gc := rc_evict_gc x + 1\<rparr> else x);
          x2 = (if status = EvictedWithRepair then x1\<lparr>rc_evict_repair := rc_evict_repair x1 + 1\<rparr> else x1)
      in if status \<notin> {Evicted, EvictedWithRepair} then x2\<lparr>rc_evict_skipped_race := rc_evict_skipped_race x2 + 1\<rparr> else x2)"

definition count_round :: "evict_status \<Rightarrow> phase_stats \<Rightarrow> phase_stats" where
  "count_round status stats =
     (if status \<in> {Evicted, EvictedWithRepair} then
        stats\<lparr>ps_evicted := ps_evicted stats + 1, ps_repaired := ps_repaired stats + (if status = EvictedWithRepair then 1 else 0)\<rparr>
      else stats\<lparr>ps_skipped_race := ps_skipped_race stats + 1\<rparr>)"

fun evict_each :: "task_net \<Rightarrow> reconciler_env \<Rightarrow> string \<Rightarrow> string list \<Rightarrow> phase_stats \<Rightarrow> (reconciler, phase_stats) task_op" where
  "evict_each net env shard [] stats = return_op stats"
| "evict_each net env shard (aic # aics) stats =
     and_then (evict_op net env shard aic) (\<lambda>(status, _).
     and_then (set_self (count_evict status)) (\<lambda>_. evict_each net env shard aics (count_round status stats)))"

definition run_evict_phase :: "task_net \<Rightarrow> reconciler_env \<Rightarrow> string \<Rightarrow> (reconciler, phase_stats) task_op" where
  "run_evict_phase net env shard =
     and_then (redis_now_ms net) (\<lambda>now_ms.
     and_then (redis_read net (\<lambda>_ r. Some (zrange_by_score (r shard) NegInf
         (Incl (now_ms - set_evict_s (re_settings env) * 1000)) (re_batch_size env))))
       (\<lambda>results. let candidates = map fst results in
          and_then (set_self (\<lambda>x. x\<lparr>rc_evict_candidates := rc_evict_candidates x + int (length candidates)\<rparr>))
            (\<lambda>_. evict_each net env shard candidates (new_stats (length candidates)))))"

subsection \<open>One shard\<close>

definition evict_due :: "reconciler_env \<Rightarrow> string \<Rightarrow> nat \<Rightarrow> reconciler \<Rightarrow> bool" where
  "evict_due env shard t self =
     (let last_at = (case map_of (rc_last_evict self) shard of None \<Rightarrow> 0 | Some x \<Rightarrow> x)
      in re_monotonic env t - last_at \<ge> re_evict_interval env)"

definition run_one_shard :: "task_net \<Rightarrow> reconciler_env \<Rightarrow> string \<Rightarrow> (reconciler, unit) task_op" where
  "run_one_shard net env shard =
     and_then (acquire_lock net shard) (\<lambda>locked.
     if \<not> locked then return_op ()
     else and_then
       (with_self (\<lambda>self. with_tick (\<lambda>t. if evict_due env shard t self then
            and_then (run_evict_phase net env shard) (\<lambda>_. with_tick (\<lambda>t1.
              set_self (\<lambda>x. x\<lparr>rc_last_evict := AList.update shard (re_monotonic env t1) (rc_last_evict x)\<rparr>)))
          else return_op ())))
       (\<lambda>_. and_then (run_silent_phase net env shard) (\<lambda>_. return_op ())))"

definition run_one_shard_safe :: "task_net \<Rightarrow> reconciler_env \<Rightarrow> string \<Rightarrow> (reconciler, unit) task_op" where
  "run_one_shard_safe net env shard = or_else (run_one_shard net env shard) (return_op ())"

text \<open>One pass of the main loop, without its pauses.\<close>

fun run_shards :: "task_net \<Rightarrow> reconciler_env \<Rightarrow> string list \<Rightarrow> (reconciler, unit) task_op" where
  "run_shards net env [] = return_op ()"
| "run_shards net env (shard # shards) = and_then (run_one_shard_safe net env shard) (\<lambda>_. run_shards net env shards)"

end
