(* ===== verification/HbReconcilerProps.thy ===== *)
theory HbReconcilerProps
  imports HbReconciler
begin

text \<open>
  What the phases of the reconciler do: the silent phase marks exactly the agents of its window, and nothing ever
  removes the hash of an agent that has left.
\<close>

subsection \<open>The silent phase\<close>

text \<open>What is marked so far: those agents, no other, and one event for each.\<close>

definition marks :: "string list \<Rightarrow> hb_shard \<Rightarrow> hb_shard \<Rightarrow> bool" where
  "marks aics sh sh' \<longleftrightarrow> (\<forall>a. a \<notin> set aics \<longrightarrow> hs_latest sh' a = hs_latest sh a)
     \<and> (\<forall>a\<in>set aics. \<exists>h. hs_latest sh' a = Some h \<and> lh_membership h = MLeft)
     \<and> hs_seq sh' = hs_seq sh + int (length aics)"

lemma mark_silent_hit:
  assumes "hs_latest (r shard) aic = Some h" and "lh_membership h = MAlive" and "set_silence_s settings * 1000 < rm_now mo - lh_seen_ms h"
  shows "\<exists>n sh'. mark_silent_one settings mo shard aic r = ((LeftAlive, n), r(shard := sh')) \<and> marks [aic] (r shard) sh'"
  using assms
  by (auto simp: mark_silent_one_def on_shard_def hb_mark_silent_one_def Let_def marks_def)

lemma mark_each_marks:
  assumes quiet: "quiet_net net"
  shows "distinct aics \<Longrightarrow>
    (\<forall>a\<in>set aics. \<exists>h. hs_latest (ms_redis (tk_shared w) shard) a = Some h \<and> lh_membership h = MAlive
       \<and> set_silence_s (re_settings env) * 1000 < tn_now net (tk_tick w) - lh_seen_ms h) \<Longrightarrow>
    \<exists>w' sh'. mark_each net env shard aics stats w = (Inr (stats\<lparr>ps_silenced := ps_silenced stats + length aics\<rparr>), w')
      \<and> ms_redis (tk_shared w') = (ms_redis (tk_shared w))(shard := sh') \<and> marks aics (ms_redis (tk_shared w) shard) sh'"
proof (induction aics arbitrary: stats w)
  case Nil
  show ?case by (rule exI [of _ w], rule exI [of _ "ms_redis (tk_shared w) shard"]) (simp add: return_op_def marks_def)
next
  case (Cons a aics)
  let ?r = "ms_redis (tk_shared w)" and ?mo = "\<lparr>rm_now = tn_now net (tk_tick w), rm_drop = re_drops env (tk_tick w)\<rparr>"
  obtain h where h: "hs_latest (?r shard) a = Some h" "lh_membership h = MAlive"
    "set_silence_s (re_settings env) * 1000 < rm_now ?mo - lh_seen_ms h" using Cons.prems(2) by auto
  obtain n sh1 where m: "mark_silent_one (re_settings env) ?mo shard a ?r = ((LeftAlive, n), ?r(shard := sh1))"
    and m1: "marks [a] (?r shard) sh1" using mark_silent_hit [of ?r shard a h "re_settings env" ?mo] h by blast
  obtain w1 where w1: "w1 = w\<lparr>tk_shared := (tk_shared w)\<lparr>ms_redis := ?r(shard := sh1)\<rparr>, tk_tick := Suc (tk_tick w),
      tk_self := (tk_self w)\<lparr>rc_silent_transition := rc_silent_transition (tk_self w) + 1\<rparr>\<rparr>" by blast
  have "mark_one net env shard a w = (Inr (LeftAlive, n), w\<lparr>tk_shared := (tk_shared w)\<lparr>ms_redis := ?r(shard := sh1)\<rparr>, tk_tick := Suc (tk_tick w)\<rparr>)"
    unfolding mark_one_def with_tick_def using quiet by (rule redis_call_quiet) (simp add: m)
  then have step: "mark_each net env shard (a # aics) stats w = mark_each net env shard aics (stats\<lparr>ps_silenced := ps_silenced stats + 1\<rparr>) w1"
    by (simp add: and_then_Inr_op set_self_run w1)
  have "\<exists>h. hs_latest (ms_redis (tk_shared w1) shard) b = Some h \<and> lh_membership h = MAlive
       \<and> set_silence_s (re_settings env) * 1000 < tn_now net (tk_tick w1) - lh_seen_ms h" if "b \<in> set aics" for b
  proof -
    have "b \<noteq> a" using that Cons.prems(1) by auto
    moreover have "tn_now net (tk_tick w) \<le> tn_now net (Suc (tk_tick w))" using quiet by (simp add: quiet_net_def mono_def)
    ultimately show ?thesis using Cons.prems(2) that m1 by (fastforce simp: w1 marks_def)
  qed
  moreover obtain stats1 where stats1: "stats1 = stats\<lparr>ps_silenced := ps_silenced stats + 1\<rparr>" by blast
  moreover have "distinct aics" using Cons.prems(1) by simp
  ultimately obtain w' sh' where w': "mark_each net env shard aics stats1 w1
      = (Inr (stats1\<lparr>ps_silenced := ps_silenced stats1 + length aics\<rparr>), w')"
    "ms_redis (tk_shared w') = (ms_redis (tk_shared w1))(shard := sh')" "marks aics (ms_redis (tk_shared w1) shard) sh'"
    using Cons.IH [of w1 stats1] by blast
  have "marks (a # aics) (?r shard) sh'"
    using w'(3) m1 Cons.prems(1) unfolding marks_def by (auto simp: w1)
  then show ?case using w' unfolding step by (intro exI [of _ w'] exI [of _ sh']) (simp add: w1 stats1)
qed

definition in_window :: "reconciler_env \<Rightarrow> int \<Rightarrow> hb_shard \<Rightarrow> string \<Rightarrow> bool" where
  "in_window env now_ms sh a \<longleftrightarrow> (\<exists>h. hs_latest sh a = Some h \<and> lh_membership h = MAlive
     \<and> now_ms - set_evict_s (re_settings env) * 1000 < lh_seen_ms h \<and> lh_seen_ms h < now_ms - set_silence_s (re_settings env) * 1000)"

text \<open>
  The silent phase is exact. When no one else acts on the shard and no call fails, and its window has no more
  agents than one scan reads, it marks as left exactly the agents marked alive that were last seen after the evict
  threshold and before the silence threshold, both strictly, and adds one event to the log for each; nothing
  about another agent changes, on this shard or another.
\<close>
theorem silent_phase_marks_window:
  assumes "quiet_net net" and "zset_ok (hs_latest (ms_redis (tk_shared w) shard)) (hs_zset (ms_redis (tk_shared w) shard))"
    and "length (filter (\<lambda>(_, s). tn_now net (tk_tick w) - set_evict_s (re_settings env) * 1000 < s
        \<and> s < tn_now net (tk_tick w) - set_silence_s (re_settings env) * 1000) (hs_zset (ms_redis (tk_shared w) shard))) \<le> re_batch_size env"
    and "run_silent_phase net env shard w = (r, w')"
  shows "(\<exists>stats. r = Inr stats \<and> ps_candidates stats = ps_silenced stats \<and> ps_skipped_race stats = 0
      \<and> hs_seq (ms_redis (tk_shared w') shard) = hs_seq (ms_redis (tk_shared w) shard) + int (ps_silenced stats))
    \<and> (\<forall>a. if in_window env (tn_now net (tk_tick w)) (ms_redis (tk_shared w) shard) a
         then (\<exists>h. hs_latest (ms_redis (tk_shared w') shard) a = Some h \<and> lh_membership h = MLeft)
         else hs_latest (ms_redis (tk_shared w') shard) a = hs_latest (ms_redis (tk_shared w) shard) a)
    \<and> (\<forall>k. k \<noteq> shard \<longrightarrow> ms_redis (tk_shared w') k = ms_redis (tk_shared w) k)"
proof -
  let ?r = "ms_redis (tk_shared w)" and ?now = "tn_now net (tk_tick w)"
  let ?lo = "?now - set_evict_s (re_settings env) * 1000" and ?hi = "?now - set_silence_s (re_settings env) * 1000"
  obtain found where found: "found = filter (\<lambda>(_, s). ?lo < s \<and> s < ?hi) (hs_zset (?r shard))" by blast
  obtain w2 where w2: "w2 = w\<lparr>tk_tick := Suc (Suc (tk_tick w)),
      tk_self := (tk_self w)\<lparr>rc_silent_candidates := rc_silent_candidates (tk_self w) + int (length found)\<rparr>\<rparr>" by blast
  have range: "zrange_by_score (?r shard) (Excl ?lo) (Excl ?hi) (re_batch_size env) = found"
    using assms(3) by (simp add: zrange_by_score_def found)
  have "redis_now_ms net w = (Inr ?now, w\<lparr>tk_tick := Suc (tk_tick w)\<rparr>)"
    unfolding redis_now_ms_def by (rule redis_read_quiet [OF assms(1)]) simp
  moreover have "redis_read net (\<lambda>_ r. Some (zrange_by_score (r shard) (Excl ?lo) (Excl ?hi) (re_batch_size env))) (w\<lparr>tk_tick := Suc (tk_tick w)\<rparr>)
      = (Inr found, w\<lparr>tk_tick := Suc (Suc (tk_tick w))\<rparr>)"
    using redis_read_quiet [OF assms(1), of "\<lambda>_ r. Some (zrange_by_score (r shard) (Excl ?lo) (Excl ?hi) (re_batch_size env))"
        "w\<lparr>tk_tick := Suc (tk_tick w)\<rparr>" found] by (simp add: range)
  ultimately have run: "run_silent_phase net env shard w = mark_each net env shard (map fst found) (new_stats (length found)) w2"
    unfolding run_silent_phase_def by (simp add: and_then_Inr_op set_self_run w2)
  have member: "(a, s) \<in> set (hs_zset (?r shard)) \<longleftrightarrow> (\<exists>h. hs_latest (?r shard) a = Some h \<and> lh_membership h = MAlive \<and> lh_seen_ms h = s)" for a s
    using assms(2) by (simp add: zset_ok_def)
  have window: "a \<in> fst ` set found \<longleftrightarrow> in_window env ?now (?r shard) a" for a
  proof -
    have "a \<in> fst ` set found \<longleftrightarrow> (\<exists>s. (a, s) \<in> set (hs_zset (?r shard)) \<and> ?lo < s \<and> s < ?hi)" by (force simp: found)
    then show ?thesis by (auto simp: member in_window_def)
  qed
  have mono: "?now \<le> tn_now net (Suc (Suc (tk_tick w)))" using assms(1) by (simp add: quiet_net_def mono_def)
  have "distinct (map fst found)" using assms(2) by (auto simp: zset_ok_def found distinct_map intro: inj_on_subset)
  moreover have "\<exists>h. hs_latest (ms_redis (tk_shared w2) shard) a = Some h \<and> lh_membership h = MAlive
       \<and> set_silence_s (re_settings env) * 1000 < tn_now net (tk_tick w2) - lh_seen_ms h" if "a \<in> set (map fst found)" for a
    using that window [of a] mono by (auto simp: w2 in_window_def)
  ultimately obtain w3 sh' where
    w3: "mark_each net env shard (map fst found) (new_stats (length found)) w2
        = (Inr ((new_stats (length found))\<lparr>ps_silenced := ps_silenced (new_stats (length found)) + length (map fst found)\<rparr>), w3)"
      "ms_redis (tk_shared w3) = (ms_redis (tk_shared w2))(shard := sh')" and marked: "marks (map fst found) (ms_redis (tk_shared w2) shard) sh'"
    using mark_each_marks [OF assms(1), of "map fst found" w2 shard env "new_stats (length found)"] by blast
  have r: "r = Inr (new_stats (length found)\<lparr>ps_silenced := length found\<rparr>)" and w': "w' = w3"
    using run w3(1) assms(4) by (simp_all add: new_stats_def)
  have sh': "ms_redis (tk_shared w') = ?r(shard := sh')" using w3(2) by (simp add: w' w2)
  have "if in_window env ?now (?r shard) a then (\<exists>h. hs_latest sh' a = Some h \<and> lh_membership h = MLeft)
      else hs_latest sh' a = hs_latest (?r shard) a" for a
    using marked window [of a] by (auto simp: marks_def w2)
  then show ?thesis using marked unfolding sh' r by (simp add: marks_def w2 new_stats_def)
qed

subsection \<open>Agents that have left\<close>

definition left_kept :: "string \<Rightarrow> string \<Rightarrow> latest_hash \<Rightarrow> monitor_shared \<Rightarrow> bool" where
  "left_kept k a h s \<longleftrightarrow> hs_latest (ms_redis s k) a = Some h \<and> lh_membership h = MLeft \<and> a \<notin> fst ` set (hs_zset (ms_redis s k))"

interpretation left: rely_guarantee "left_kept k a h" "\<lambda>_ _. True" "\<lambda>_ _. True"
  by unfold_locales simp_all

lemma mark_silent_other:
  "left_kept k a h s \<Longrightarrow> mark_silent_one settings mo shard b (ms_redis s) = (x, r') \<Longrightarrow> left_kept k a h (s\<lparr>ms_redis := r'\<rparr>)"
  by (cases "hs_latest (ms_redis s shard) b")
    (auto simp: left_kept_def mark_silent_one_def on_shard_def hb_mark_silent_one_def Let_def zrem_def split: if_splits)

lemma evict_other:
  "left_kept k a h s \<Longrightarrow> (shard, b) \<noteq> (k, a) \<Longrightarrow> evict_one settings mo shard b (ms_redis s) = (x, r') \<Longrightarrow> left_kept k a h (s\<lparr>ms_redis := r'\<rparr>)"
  by (cases "hs_latest (ms_redis s shard) b")
    (auto simp: left_kept_def evict_one_def on_shard_def hb_evict_one_def Let_def zrem_def split: if_splits)

abbreviation spares :: "string \<Rightarrow> string \<Rightarrow> latest_hash \<Rightarrow> (reconciler, 'a) task_op \<Rightarrow> ('a \<Rightarrow> bool) \<Rightarrow> bool" where
  "spares k a h m Q \<equiv> triple (\<lambda>_. True) (left_kept k a h) (\<lambda>_ _. True) (\<lambda>_. True) m (\<lambda>x _. Q x)"

abbreviation whatever :: "'a \<Rightarrow> bool" where "whatever \<equiv> \<lambda>_. True"

lemma spares_and_then: "spares k a h m whatever \<Longrightarrow> (\<And>x. spares k a h (n x) whatever) \<Longrightarrow> spares k a h (and_then m n) whatever"
  by (rule left.and_then_rule [where M = "\<lambda>_ _. True"])

lemma spares_return: "spares k a h (return_op x) whatever"
  by (rule left.return_rule) simp

lemma spares_set_self: "spares k a h (set_self g) whatever"
  by (rule left.set_self_rule) simp_all

lemma spares_with_tick: "(\<And>t. spares k a h (m t) whatever) \<Longrightarrow> spares k a h (with_tick m) whatever"
  by (simp add: triple_def with_tick_def)

lemma spares_with_self: "(\<And>x. spares k a h (m x) whatever) \<Longrightarrow> spares k a h (with_self m) whatever"
  by (rule left.with_self_rule) simp

lemmas spares_rules = spares_and_then spares_return spares_set_self spares_with_tick spares_with_self left.if_rule

lemma silent_phase_spares:
  assumes rely: "relies (left_kept k a h) (\<lambda>_ _. True) net"
  shows "spares k a h (run_silent_phase net env shard) whatever"
proof -
  have one: "spares k a h (mark_one net env shard b) whatever" for b
    unfolding mark_one_def
    by (intro spares_with_tick left.redis_call_rule [OF rely left.stable_True]) (auto intro: mark_silent_other)
  have each: "spares k a h (mark_each net env shard aics stats) whatever" for aics stats
  proof (induction aics arbitrary: stats)
    case (Cons b aics)
    show ?case unfolding mark_each.simps split_beta by (intro spares_rules one Cons.IH)
  qed (simp add: spares_return)
  have read: "spares k a h (redis_read net f) whatever" for f :: "int \<Rightarrow> hb_redis \<Rightarrow> (string \<times> int) list option"
    by (rule left.redis_read_rule [OF rely left.stable_True]) simp
  have now: "spares k a h (redis_now_ms net :: (reconciler, int) task_op) whatever"
    unfolding redis_now_ms_def by (rule left.redis_read_rule [OF rely left.stable_True]) simp
  show ?thesis unfolding run_silent_phase_def Let_def by (intro spares_rules read now each)
qed

text \<open>The candidates of the evict phase are in the sorted set, and an agent that has left is not.\<close>

lemma evict_phase_spares:
  assumes rely: "relies (left_kept k a h) (\<lambda>_ _. True) net"
  shows "spares k a h (run_evict_phase net env shard) whatever"
proof -
  have one: "spares k a h (evict_op net env shard b) whatever" if "(shard, b) \<noteq> (k, a)" for b
    unfolding evict_op_def
    by (intro spares_with_tick left.redis_call_rule [OF rely left.stable_True]) (auto intro: evict_other [OF _ that])
  have each: "\<forall>b\<in>set aics. (shard, b) \<noteq> (k, a) \<Longrightarrow> spares k a h (evict_each net env shard aics stats) whatever" for aics stats
  proof (induction aics arbitrary: stats)
    case (Cons b aics)
    have "(shard, b) \<noteq> (k, a)" and "\<forall>b\<in>set aics. (shard, b) \<noteq> (k, a)" using Cons.prems by auto
    then show ?case unfolding evict_each.simps split_beta by (intro spares_rules one Cons.IH)
  qed (simp add: spares_return)
  let ?not_a = "\<lambda>results. \<forall>b\<in>fst ` set results. (shard, b) \<noteq> (k, a)"
  have read: "spares k a h (redis_read net (\<lambda>_ r. Some (zrange_by_score (r shard) lower upper n))) ?not_a" for lower upper n
  proof (rule left.redis_read_rule [OF rely left.stable_True])
    fix now :: int and s results assume "left_kept k a h s" and "Some (zrange_by_score (ms_redis s shard) lower upper n) = Some results"
    then show "?not_a results" unfolding left_kept_def zrange_by_score_def by (auto dest!: in_set_takeD)
  qed
  have now: "spares k a h (redis_now_ms net :: (reconciler, int) task_op) whatever"
    unfolding redis_now_ms_def by (rule left.redis_read_rule [OF rely left.stable_True]) simp
  have rest: "triple (\<lambda>_. True) (left_kept k a h) (\<lambda>_ _. True) (\<lambda>_. ?not_a results)
      (and_then (set_self (\<lambda>x. x\<lparr>rc_evict_candidates := rc_evict_candidates x + int (length (map fst results))\<rparr>))
        (\<lambda>_. evict_each net env shard (map fst results) (new_stats (length (map fst results))))) (\<lambda>_ _. True)" for results
  proof (cases "?not_a results")
    case True
    then have "spares k a h (evict_each net env shard (map fst results) (new_stats (length (map fst results)))) whatever"
      by (intro each) auto
    then show ?thesis by (rule left.consequence [OF spares_and_then [OF spares_set_self]]) simp_all
  next
    case False
    then show ?thesis unfolding triple_def by blast
  qed
  show ?thesis unfolding run_evict_phase_def Let_def
    by (rule spares_and_then [OF now]) (rule left.and_then_rule [OF read rest])
qed

text \<open>
  C39: An agent that has left is never removed. Whatever the reconciler finds due, and whatever else happens on the
  shard as long as the agent sends no heartbeat and nobody removes it by name, every pass of the reconciler leaves
  the hash of the agent in Redis: the evict phase takes its candidates from the sorted set, which the silent phase
  has removed the agent from.
\<close>
theorem left_agents_are_never_removed:
  assumes "relies (left_kept k a h) (\<lambda>_ _. True) net" and "left_kept k a h (tk_shared w)"
  shows "hs_latest (ms_redis (tk_shared (snd (run_shards net env shards w))) k) a = Some h"
proof -
  note rely = assms(1)
  have calls: "spares k a h (call net f) whatever" if "\<And>now s x s'. f now s = Some (x, s') \<Longrightarrow> ms_redis s' = ms_redis s" for f :: "int \<Rightarrow> monitor_shared \<Rightarrow> (bool \<times> monitor_shared) option"
    by (rule left.call_rule [OF rely left.stable_True]) (use that in \<open>auto simp: left_kept_def\<close>)
  have reads: "spares k a h (call net (\<lambda>_ sh. Some (ms_scan_lock sh shard, sh))) whatever" for shard
    by (rule left.call_rule [OF rely left.stable_True]) simp
  have "spares k a h (acquire_lock net shard) whatever" for shard
    unfolding acquire_lock_def by (intro spares_rules calls reads) (auto split: option.splits)
  then have "spares k a h (run_one_shard net env shard) whatever" for shard
    unfolding run_one_shard_def by (intro spares_rules evict_phase_spares [OF rely] silent_phase_spares [OF rely])
  then have safe: "spares k a h (run_one_shard_safe net env shard) whatever" for shard
    unfolding run_one_shard_safe_def by (intro left.or_else_rule left.stable_True spares_return)
  have "spares k a h (run_shards net env shards) whatever"
    by (induction shards) (simp_all add: spares_return spares_and_then safe)
  then show ?thesis using assms(2) by (simp add: triple_def left_kept_def)
qed

subsection \<open>A shard with one agent\<close>

definition one_agent :: monitor_shared where
  "one_agent = \<lparr>ms_redis = fst (run_events one_shard_env [HbApply (at_ms 1000) ''a'' 1000 None] hb_start),
     ms_relay_lock = (\<lambda>_. None), ms_scan_lock = (\<lambda>_. None), ms_kafka = (\<lambda>_. [])\<rparr>"

definition sample_reconciler :: reconciler where
  "sample_reconciler = \<lparr>rc_node = ''n'', rc_last_evict = [], rc_silent_transition = 0, rc_silent_candidates = 0,
     rc_silent_skipped_race = 0, rc_evict_gc = 0, rc_evict_repair = 0, rc_evict_candidates = 0, rc_evict_skipped_race = 0\<rparr>"

definition sample_rec_env :: reconciler_env where
  "sample_rec_env = \<lparr>re_settings = env_settings one_shard_env, re_batch_size = 1000, re_evict_interval = 30,
     re_monotonic = (\<lambda>_. 5000), re_drops = (\<lambda>_. 0)\<rparr>"

definition clock_net :: "int \<Rightarrow> task_net" where
  "clock_net t = \<lparr>tn_others = (\<lambda>_ s. s), tn_fails = (\<lambda>_. False), tn_now = (\<lambda>_. t)\<rparr>"

definition reconcile_at :: "monitor_shared \<Rightarrow> reconciler task_run" where
  "reconcile_at sh = \<lparr>tk_self = sample_reconciler, tk_shared = sh, tk_tick = 0\<rparr>"

lemma one_agent_simps:
  "hs_zset (ms_redis one_agent ''hb-000'') = [(''a'', 1000)]"
  "hs_latest (ms_redis one_agent ''hb-000'') ''a'' = Some \<lparr>lh_seen_ms = 1000, lh_seen = ''t'', lh_membership = MAlive,
     lh_source_ms = None, lh_delta_seen_ms = Some 1000, lh_delta_seq = Some 1\<rparr>"
  by code_simp+

lemma one_agent_zset: "zset_ok (hs_latest (ms_redis one_agent ''hb-000'')) (hs_zset (ms_redis one_agent ''hb-000''))"
proof -
  obtain s where s: "s = run_events one_shard_env [HbApply (at_ms 1000) ''a'' 1000 None] hb_start" by blast
  have "list_all (\<lambda>ev. \<forall>r. hb_allowed ev r) [HbApply (at_ms 1000) ''a'' 1000 None]"
    by (simp, intro allI) simp
  then have "(hb_step one_shard_env)\<^sup>*\<^sup>* hb_start s" unfolding s by (rule run_events_steps)
  then have "provider_inv one_shard_env (\<lambda>_. ''t'') (fst s) (snd s)" by (rule hb_steps_inv [OF _ provider_inv_start])
  then show ?thesis unfolding one_agent_def s [symmetric] by (simp add: provider_inv_def shard_inv_def)
qed

theorem silent_phase_marks_window_witness:
  "\<exists>h. hs_latest (ms_redis (tk_shared (snd (run_silent_phase (clock_net 200000) sample_rec_env ''hb-000'' (reconcile_at one_agent)))) ''hb-000'') ''a'' = Some h
     \<and> lh_membership h = MLeft"
proof -
  let ?run = "run_silent_phase (clock_net 200000) sample_rec_env ''hb-000'' (reconcile_at one_agent)"
  have quiet: "quiet_net (clock_net 200000)" by (simp add: quiet_net_def clock_net_def mono_def)
  have shared: "tk_shared (reconcile_at one_agent) = one_agent" by (simp add: reconcile_at_def)
  have set: "set_evict_s (re_settings sample_rec_env) = 3600" "set_silence_s (re_settings sample_rec_env) = 90" "re_batch_size sample_rec_env = 1000"
    "tn_now (clock_net 200000) t = 200000" for t
    by (simp_all add: sample_rec_env_def one_shard_env_def clock_net_def)
  have "?run = (fst ?run, snd ?run)" by simp
  note silent_phase_marks_window [OF quiet _ _ this, unfolded shared set one_agent_simps(1)]
  then have "\<forall>a. if in_window sample_rec_env 200000 (ms_redis one_agent ''hb-000'') a
      then (\<exists>h. hs_latest (ms_redis (tk_shared (snd ?run)) ''hb-000'') a = Some h \<and> lh_membership h = MLeft)
      else hs_latest (ms_redis (tk_shared (snd ?run)) ''hb-000'') a = hs_latest (ms_redis one_agent ''hb-000'') a"
    using one_agent_zset unfolding one_agent_simps(1) by simp
  moreover have "in_window sample_rec_env 200000 (ms_redis one_agent ''hb-000'') ''a''"
    by (simp add: in_window_def one_agent_simps set)
  ultimately show ?thesis by presburger
qed

definition one_left :: monitor_shared where
  "one_left = one_agent\<lparr>ms_redis := fst (run_events one_shard_env
     [HbApply (at_ms 1000) ''a'' 1000 None, HbSilent (at_ms 200000) ''hb-000'' ''a''] hb_start)\<rparr>"

lemma one_left_simps:
  "hs_zset (ms_redis one_left ''hb-000'') = []"
  "hs_latest (ms_redis one_left ''hb-000'') ''a'' = Some \<lparr>lh_seen_ms = 1000, lh_seen = ''t'', lh_membership = MLeft,
     lh_source_ms = None, lh_delta_seen_ms = Some 1000, lh_delta_seq = Some 2\<rparr>"
  by code_simp+

theorem left_agents_are_never_removed_witness:
  "hs_latest (ms_redis (tk_shared (snd (run_shards (clock_net 10000000) sample_rec_env [''hb-000''] (reconcile_at one_left)))) ''hb-000'') ''a'' \<noteq> None"
proof -
  let ?h = "\<lparr>lh_seen_ms = 1000, lh_seen = ''t'', lh_membership = MLeft, lh_source_ms = None, lh_delta_seen_ms = Some 1000, lh_delta_seq = Some 2\<rparr>"
  have "relies (left_kept ''hb-000'' ''a'' ?h) (\<lambda>_ _. True) (clock_net 10000000)" by (simp add: relies_def clock_net_def)
  moreover have "left_kept ''hb-000'' ''a'' ?h (tk_shared (reconcile_at one_left))"
    by (simp add: reconcile_at_def left_kept_def one_left_simps)
  ultimately show ?thesis
    using left_agents_are_never_removed [of "''hb-000''" "''a''" ?h "clock_net 10000000" "reconcile_at one_left" sample_rec_env "[''hb-000'']"]
    by simp
qed

text \<open>A process that has run for less than the interval does not find the evict phase due.\<close>

lemma first_evict_not_due: "\<not> evict_due (sample_rec_env\<lparr>re_monotonic := (\<lambda>_. 10)\<rparr>) ''hb-000'' 0 sample_reconciler"
  by (simp add: evict_due_def sample_rec_env_def sample_reconciler_def)

end
