(* ===== verification/HbRelayRecovery.thy ===== *)
theory HbRelayRecovery
  imports HbRelay
begin

text \<open>
  How long the recovery of pending entries takes: as many rounds as there are full claims when its calls succeed, and
  for ever when more entries are pending than one claim gives and Kafka does not take them.
\<close>

subsection \<open>Entries that can be sent\<close>

definition sendable :: "relay_settings \<Rightarrow> string \<Rightarrow> outbox_fields \<Rightarrow> bool" where
  "sendable settings shard fs \<longleftrightarrow> is_ok (build_envelope (rs_iso settings) shard fs) \<and> is_ok (shard_index_from_id shard)"

definition with_pel :: "(stream_id \<times> string) list \<Rightarrow> hb_shard \<Rightarrow> hb_shard" where
  "with_pel pel sh = sh\<lparr>hs_group := map_option (\<lambda>g. g\<lparr>rg_pel := pel\<rparr>) (hs_group sh)\<rparr>"

definition pending :: "'s task_run \<Rightarrow> string \<Rightarrow> (stream_id \<times> string) list" where
  "pending w shard = (case hs_group (ms_redis (tk_shared w) shard) of None \<Rightarrow> [] | Some g \<Rightarrow> rg_pel g)"

text \<open>What the recovery needs to go on: a producer, its epoch, the group, and well-formed entries.\<close>

definition recoverable :: "relay_settings \<Rightarrow> string \<Rightarrow> int \<Rightarrow> relay_state task_run \<Rightarrow> bool" where
  "recoverable settings shard epoch w \<longleftrightarrow>
     rl_producer (tk_self w) \<and> hs_group (ms_redis (tk_shared w) shard) \<noteq> None \<and> hs_epoch (ms_redis (tk_shared w) shard) = Some epoch
     \<and> (\<forall>(i, fs)\<in>set (hs_outbox (ms_redis (tk_shared w) shard)). sendable settings shard fs)"

lemma recover_entry_sends:
  assumes quiet: "quiet_net net" and rec: "recoverable settings shard epoch w" and fs: "sendable settings shard fs"
  shows "\<exists>w'. recover_entry net settings shard epoch (i, fs) w = (Inr True, w') \<and> recoverable settings shard epoch w'
    \<and> pending w' shard = filter (\<lambda>(j, _). j \<noteq> i) (pending w shard)
    \<and> hs_outbox (ms_redis (tk_shared w') shard) = hs_outbox (ms_redis (tk_shared w) shard)"
proof -
  obtain g where g: "hs_group (ms_redis (tk_shared w) shard) = Some g" using rec by (auto simp: recoverable_def)
  obtain envelope part where ok: "build_envelope (rs_iso settings) shard fs = Inr envelope" "shard_index_from_id shard = Inr part"
    using fs by (auto simp: sendable_def is_ok_iff)
  show ?thesis
    using rec quiet g ok
    by (auto simp: recover_entry_def from_result_def send_if_producer_def send_and_wait_def with_self_def and_then_def or_else_def
        call_def set_self_def return_op_def ack_def redis_call_def relay_ack_def on_shard_def hb_relay_ack_def Let_def
        recoverable_def quiet_net_def pending_def)
qed

lemma recover_entries_sends:
  assumes quiet: "quiet_net net"
  shows "recoverable settings shard epoch w \<Longrightarrow> \<forall>(i, fs)\<in>set es. sendable settings shard fs \<Longrightarrow>
    \<exists>w'. recover_entries net settings shard epoch es w = (Inr True, w') \<and> recoverable settings shard epoch w'
      \<and> pending w' shard = filter (\<lambda>(j, _). j \<notin> fst ` set es) (pending w shard)
      \<and> hs_outbox (ms_redis (tk_shared w') shard) = hs_outbox (ms_redis (tk_shared w) shard)"
proof (induction es arbitrary: w)
  case (Cons e es)
  obtain i fs where e: "e = (i, fs)" by fastforce
  with Cons.prems obtain w1 where w1: "recover_entry net settings shard epoch e w = (Inr True, w1)"
      "recoverable settings shard epoch w1" "pending w1 shard = filter (\<lambda>(j, _). j \<noteq> i) (pending w shard)"
      "hs_outbox (ms_redis (tk_shared w1) shard) = hs_outbox (ms_redis (tk_shared w) shard)"
    using recover_entry_sends [OF quiet, of settings shard epoch w fs i] by auto
  with Cons obtain w' where "recover_entries net settings shard epoch es w1 = (Inr True, w')" "recoverable settings shard epoch w'"
      "pending w' shard = filter (\<lambda>(j, _). j \<notin> fst ` set es) (pending w1 shard)"
      "hs_outbox (ms_redis (tk_shared w') shard) = hs_outbox (ms_redis (tk_shared w1) shard)"
    by fastforce
  moreover have "filter (\<lambda>(j, _). j \<notin> fst ` set es) (filter (\<lambda>(j, _). j \<noteq> i) ps) = filter (\<lambda>(j, _). j \<notin> fst ` set (e # es)) ps"
    for ps :: "(stream_id \<times> string) list"
    by (induction ps) (auto simp: e)
  ultimately show ?case using w1 by (intro exI [of _ w']) (simp add: and_then_Inr_op)
qed (simp add: return_op_def)

subsection \<open>One claim\<close>

definition claimed :: "hb_shard \<Rightarrow> (stream_id \<times> string) list \<Rightarrow> (stream_id \<times> string) list" where
  "claimed sh pel = filter (\<lambda>(i, _). map_of (hs_outbox sh) i \<noteq> None) (take XAUTOCLAIM_COUNT pel)"

lemma claim_run:
  assumes calls: "tn_others net (tk_tick w) (tk_shared w) = tk_shared w" "\<not> tn_fails net (tk_tick w)"
    and group: "hs_group (ms_redis (tk_shared w) shard) \<noteq> None"
  obtains w' where
    "redis_call net (\<lambda>now. at_shard shard (xautoclaim now consumer XAUTOCLAIM_COUNT)) w
      = (Inr (case drop XAUTOCLAIM_COUNT (pending w shard) of [] \<Rightarrow> (0, 0) | (i, _) # _ \<Rightarrow> i,
           map (\<lambda>(i, _). (i, the (map_of (hs_outbox (ms_redis (tk_shared w) shard)) i)))
             (claimed (ms_redis (tk_shared w) shard) (pending w shard))), w')"
    "pending w' shard = map (\<lambda>(i, _). (i, consumer)) (claimed (ms_redis (tk_shared w) shard) (pending w shard))
       @ drop XAUTOCLAIM_COUNT (pending w shard)"
    "hs_outbox (ms_redis (tk_shared w') shard) = hs_outbox (ms_redis (tk_shared w) shard)"
    "hs_epoch (ms_redis (tk_shared w') shard) = hs_epoch (ms_redis (tk_shared w) shard)"
    "hs_group (ms_redis (tk_shared w') shard) \<noteq> None" "tk_self w' = tk_self w" "tk_tick w' = Suc (tk_tick w)"
proof -
  obtain g where "hs_group (ms_redis (tk_shared w) shard) = Some g" using group by auto
  then show thesis using calls
    by (intro that [of "snd (redis_call net (\<lambda>now. at_shard shard (xautoclaim now consumer XAUTOCLAIM_COUNT)) w)"])
       (simp_all add: redis_call_def call_def at_shard_def xautoclaim_def on_group_def claimed_def pending_def Let_def)
qed

lemma claimed_entries:
  assumes "\<forall>(i, fs)\<in>set (hs_outbox sh). P fs"
  shows "\<forall>(i, fs)\<in>set (map (\<lambda>(i, _). (i, the (map_of (hs_outbox sh) i))) (claimed sh pel)). P fs"
proof -
  have "P fs" if "map_of (hs_outbox sh) i = Some fs" for i fs using assms map_of_SomeD [OF that] by auto
  then show ?thesis by (auto simp: claimed_def)
qed

lemma fst_tagged [simp]: "fst ` set (map (\<lambda>(i, _). (i, f i)) xs) = fst ` set xs"
  by force

lemma filter_tagged: "filter (\<lambda>(j, _). j \<notin> fst ` set xs) (map (\<lambda>(i, _). (i, f i)) xs) = []"
  by (induction xs rule: rev_induct) (force simp: filter_empty_conv)+

lemma recover_round:
  assumes quiet: "quiet_net net" and rec: "recoverable settings shard epoch w" and ids: "(0, 0) \<notin> fst ` set (pending w shard)"
  shows "\<exists>w'. recover_pel (Suc n) net settings shard epoch w
      = (if drop XAUTOCLAIM_COUNT (pending w shard) = [] then (Inr Recovered, w') else recover_pel n net settings shard epoch w')
    \<and> recoverable settings shard epoch w' \<and> length (pending w' shard) \<le> length (pending w shard) - XAUTOCLAIM_COUNT
    \<and> fst ` set (pending w' shard) \<subseteq> fst ` set (pending w shard)"
proof -
  let ?sh = "ms_redis (tk_shared w) shard" and ?pel = "pending w shard"
  let ?es = "map (\<lambda>(i, _). (i, the (map_of (hs_outbox ?sh) i))) (claimed ?sh ?pel)"
  let ?next = "case drop XAUTOCLAIM_COUNT ?pel of [] \<Rightarrow> (0, 0) | (i, _) # _ \<Rightarrow> i"
  obtain w1 where w1: "redis_call net (\<lambda>now. at_shard shard (xautoclaim now (consumer_name (tk_self w)) XAUTOCLAIM_COUNT)) w = (Inr (?next, ?es), w1)"
    and p1: "pending w1 shard = map (\<lambda>(i, _). (i, consumer_name (tk_self w))) (claimed ?sh ?pel) @ drop XAUTOCLAIM_COUNT ?pel"
    and s1: "hs_outbox (ms_redis (tk_shared w1) shard) = hs_outbox ?sh" "hs_epoch (ms_redis (tk_shared w1) shard) = hs_epoch ?sh"
      "hs_group (ms_redis (tk_shared w1) shard) \<noteq> None" "tk_self w1 = tk_self w"
    by (rule claim_run [of net w shard "consumer_name (tk_self w)"]) (use quiet rec in \<open>auto simp: quiet_net_def recoverable_def\<close>)
  have rec1: "recoverable settings shard epoch w1" using rec s1 by (simp add: recoverable_def)
  have fs: "\<forall>(i, fs)\<in>set ?es. sendable settings shard fs" using rec by (intro claimed_entries) (simp add: recoverable_def)
  obtain w2 where w2: "recover_entries net settings shard epoch ?es w1 = (Inr True, w2)" "recoverable settings shard epoch w2"
      "pending w2 shard = filter (\<lambda>(j, _). j \<notin> fst ` set ?es) (pending w1 shard)"
    using recover_entries_sends [OF quiet rec1 fs] by blast
  have ends: "(?next = (0, 0)) = (drop XAUTOCLAIM_COUNT ?pel = [])"
  proof (cases "drop XAUTOCLAIM_COUNT ?pel")
    case (Cons p ps)
    then have "p \<in> set ?pel" by (metis in_set_dropD list.set_intros(1))
    with ids Cons show ?thesis by (cases p) force
  qed simp
  have "filter (\<lambda>(j, _). j \<notin> fst ` set ?es) (map (\<lambda>(i, _). (i, consumer_name (tk_self w))) (claimed ?sh ?pel)) = []"
    unfolding fst_tagged by (rule filter_tagged)
  then have p2: "pending w2 shard = filter (\<lambda>(j, _). j \<notin> fst ` set ?es) (drop XAUTOCLAIM_COUNT ?pel)"
    using w2(3) p1 by simp
  have "length (pending w2 shard) \<le> length ?pel - XAUTOCLAIM_COUNT"
    unfolding p2 using length_filter_le [of _ "drop XAUTOCLAIM_COUNT ?pel"] by simp
  moreover have "fst ` set (pending w2 shard) \<subseteq> fst ` set ?pel"
    unfolding p2 by (auto dest: in_set_dropD)
  moreover have "recover_pel (Suc n) net settings shard epoch w
      = (if drop XAUTOCLAIM_COUNT ?pel = [] then (Inr Recovered, w2) else recover_pel n net settings shard epoch w2)"
    using w1 w2(1) ends by (simp add: with_self_def and_then_Inr_op return_op_def)
  ultimately show ?thesis using w2(2) by blast
qed

text \<open>
  C11: The recovery of a relay ends. If no call fails and no one else acts on the shard, then with \<open>p\<close> entries pending it
  needs no more than \<open>p / 100\<close> rounds, rounded up, or one round if there are none; it ends by itself, not because
  it was fenced, and nothing is pending any more.
\<close>
theorem recovery_terminates:
  assumes "quiet_net net" and "recoverable settings shard epoch w" and "(0, 0) \<notin> fst ` set (pending w shard)"
    and "length (pending w shard) \<le> n * 100" and "0 < n"
  shows "\<exists>w'. recover_pel n net settings shard epoch w = (Inr Recovered, w') \<and> pending w' shard = []"
  using assms(2-)
proof (induction n arbitrary: w)
  case (Suc n)
  obtain w1 where w1: "recover_pel (Suc n) net settings shard epoch w
      = (if drop XAUTOCLAIM_COUNT (pending w shard) = [] then (Inr Recovered, w1) else recover_pel n net settings shard epoch w1)"
    and r1: "recoverable settings shard epoch w1" "length (pending w1 shard) \<le> length (pending w shard) - XAUTOCLAIM_COUNT"
      "fst ` set (pending w1 shard) \<subseteq> fst ` set (pending w shard)"
    using recover_round [OF assms(1) Suc.prems(1,2), of n] by blast
  show ?case
  proof (cases "drop XAUTOCLAIM_COUNT (pending w shard) = []")
    case True
    with w1 r1(2) show ?thesis by simp
  next
    case False
    then have "100 < length (pending w shard)" by (simp add: XAUTOCLAIM_COUNT_def)
    with Suc.prems(3) r1(2) have n: "0 < n" "length (pending w1 shard) \<le> n * 100" by (simp_all add: XAUTOCLAIM_COUNT_def)
    have "(0, 0) \<notin> fst ` set (pending w1 shard)" using Suc.prems(2) r1(3) by blast
    from Suc.IH [OF r1(1) this n(2,1)] w1 False show ?thesis by simp
  qed
qed simp

subsection \<open>Kafka does not answer\<close>

text \<open>Redis answers every claim, Kafka no message: the 100 sends after a claim fail.\<close>

definition kafka_down :: "task_net \<Rightarrow> bool" where
  "kafka_down net \<longleftrightarrow> (\<forall>t s. tn_others net t s = s) \<and> (\<forall>t. tn_fails net t \<longleftrightarrow> t mod Suc XAUTOCLAIM_COUNT \<noteq> 0)"

lemma recover_entries_stuck:
  assumes "\<forall>t s. tn_others net t s = s" and "rl_producer (tk_self w)"
  shows "\<forall>(i, fs)\<in>set es. sendable settings shard fs \<Longrightarrow> \<forall>t<length es. tn_fails net (tk_tick w + t) \<Longrightarrow>
    recover_entries net settings shard epoch es w = (Inr True, w\<lparr>tk_tick := tk_tick w + length es\<rparr>)"
  using assms(2)
proof (induction es arbitrary: w)
  case (Cons e es)
  obtain i fs where e: "e = (i, fs)" by fastforce
  obtain envelope part where ok: "build_envelope (rs_iso settings) shard fs = Inr envelope" "shard_index_from_id shard = Inr part"
    using Cons.prems(1) by (auto simp: e sendable_def is_ok_iff)
  have "tn_fails net (tk_tick w)" using Cons.prems(2) by force
  then have step: "recover_entry net settings shard epoch e w = (Inr True, w\<lparr>tk_tick := Suc (tk_tick w)\<rparr>)"
    using ok assms(1) Cons.prems(3)
    by (simp add: e recover_entry_def from_result_def send_if_producer_def send_and_wait_def with_self_def and_then_def or_else_def
        call_def return_op_def Let_def)
  have "\<forall>t<length es. tn_fails net (tk_tick (w\<lparr>tk_tick := Suc (tk_tick w)\<rparr>) + t)"
    using Cons.prems(2) by (auto dest: spec [of _ "Suc t" for t])
  with Cons.IH [of "w\<lparr>tk_tick := Suc (tk_tick w)\<rparr>"] Cons.prems step show ?case by (simp add: and_then_Inr_op)
qed (simp add: return_op_def)

definition in_stream :: "'s task_run \<Rightarrow> string \<Rightarrow> bool" where
  "in_stream w shard \<longleftrightarrow> (\<forall>(i, c)\<in>set (pending w shard). i \<noteq> (0, 0) \<and> map_of (hs_outbox (ms_redis (tk_shared w) shard)) i \<noteq> None)"

lemma stuck_round:
  assumes down: "kafka_down net" and rec: "recoverable settings shard epoch w" and str: "in_stream w shard"
    and many: "XAUTOCLAIM_COUNT < length (pending w shard)" and tick: "tk_tick w mod Suc XAUTOCLAIM_COUNT = 0"
  shows "\<exists>w'. recover_pel (Suc n) net settings shard epoch w = recover_pel n net settings shard epoch w'
    \<and> recoverable settings shard epoch w' \<and> in_stream w' shard \<and> XAUTOCLAIM_COUNT < length (pending w' shard)
    \<and> tk_tick w' mod Suc XAUTOCLAIM_COUNT = 0"
proof -
  let ?sh = "ms_redis (tk_shared w) shard" and ?pel = "pending w shard"
  let ?es = "map (\<lambda>(i, _). (i, the (map_of (hs_outbox ?sh) i))) (claimed ?sh ?pel)"
  let ?next = "case drop XAUTOCLAIM_COUNT ?pel of [] \<Rightarrow> (0, 0) | (i, _) # _ \<Rightarrow> i"
  have ok: "\<not> tn_fails net (tk_tick w)" using down tick by (simp add: kafka_down_def)
  have quiet: "\<forall>t s. tn_others net t s = s" using down by (simp add: kafka_down_def)
  obtain w1 where w1: "redis_call net (\<lambda>now. at_shard shard (xautoclaim now (consumer_name (tk_self w)) XAUTOCLAIM_COUNT)) w = (Inr (?next, ?es), w1)"
    and p1: "pending w1 shard = map (\<lambda>(i, _). (i, consumer_name (tk_self w))) (claimed ?sh ?pel) @ drop XAUTOCLAIM_COUNT ?pel"
    and s1: "hs_outbox (ms_redis (tk_shared w1) shard) = hs_outbox ?sh" "hs_epoch (ms_redis (tk_shared w1) shard) = hs_epoch ?sh"
      "hs_group (ms_redis (tk_shared w1) shard) \<noteq> None" "tk_self w1 = tk_self w" "tk_tick w1 = Suc (tk_tick w)"
    by (rule claim_run [of net w shard "consumer_name (tk_self w)"]) (use quiet ok rec in \<open>auto simp: recoverable_def\<close>)
  have all: "claimed ?sh ?pel = take XAUTOCLAIM_COUNT ?pel"
    unfolding claimed_def using str by (intro filter_True) (auto simp: in_stream_def dest!: in_set_takeD)
  then have len: "length ?es = XAUTOCLAIM_COUNT" using many by simp
  have "\<forall>t<length ?es. tn_fails net (tk_tick w1 + t)"
  proof (intro allI impI)
    fix t assume "t < length ?es"
    then have "Suc t < Suc XAUTOCLAIM_COUNT" using len by simp
    moreover obtain q where "tk_tick w = Suc XAUTOCLAIM_COUNT * q" using tick by (metis mod_0_imp_dvd dvdE)
    ultimately have "(tk_tick w1 + t) mod Suc XAUTOCLAIM_COUNT = Suc t"
      unfolding s1(5) by (metis add_Suc add_Suc_shift add.commute mod_less mod_mult_self2)
    then show "tn_fails net (tk_tick w1 + t)" using down by (simp add: kafka_down_def)
  qed
  moreover have fs: "\<forall>(i, fs)\<in>set ?es. sendable settings shard fs" using rec by (intro claimed_entries) (simp add: recoverable_def)
  moreover have "rl_producer (tk_self w1)" using rec s1(4) by (simp add: recoverable_def)
  ultimately have es: "recover_entries net settings shard epoch ?es w1 = (Inr True, w1\<lparr>tk_tick := tk_tick w1 + length ?es\<rparr>)"
    using recover_entries_stuck [OF quiet] by blast
  let ?w2 = "w1\<lparr>tk_tick := tk_tick w1 + length ?es\<rparr>"
  have "?next \<noteq> (0, 0)"
  proof (cases "drop XAUTOCLAIM_COUNT ?pel")
    case Nil
    with many show ?thesis by simp
  next
    case (Cons p ps)
    then have "p \<in> set ?pel" by (metis in_set_dropD list.set_intros(1))
    with str Cons show ?thesis by (cases p) (auto simp: in_stream_def)
  qed
  then have run: "recover_pel (Suc n) net settings shard epoch w = recover_pel n net settings shard epoch ?w2"
    using w1 es by (simp add: with_self_def and_then_Inr_op)
  have p2: "pending ?w2 shard = map (\<lambda>(i, _). (i, consumer_name (tk_self w))) (take XAUTOCLAIM_COUNT ?pel) @ drop XAUTOCLAIM_COUNT ?pel"
    using p1 all by (simp add: pending_def)
  have "fst ` set (pending ?w2 shard) = fst ` (set (take XAUTOCLAIM_COUNT ?pel) \<union> set (drop XAUTOCLAIM_COUNT ?pel))"
    unfolding p2 by (simp only: set_append image_Un fst_tagged)
  also have "\<dots> = fst ` set ?pel" by (simp only: set_append [symmetric] append_take_drop_id)
  finally have ids: "fst ` set (pending ?w2 shard) = fst ` set ?pel" .
  have "i \<noteq> (0, 0) \<and> map_of (hs_outbox ?sh) i \<noteq> None" if "i \<in> fst ` set (pending ?w2 shard)" for i
    using str that unfolding ids in_stream_def by auto
  then have "in_stream ?w2 shard" unfolding in_stream_def using s1(1) by force
  moreover have "XAUTOCLAIM_COUNT < length (pending ?w2 shard)" unfolding p2 using many by simp
  moreover have "tk_tick ?w2 = tk_tick w + Suc XAUTOCLAIM_COUNT" using s1(5) len by simp
  then have "tk_tick ?w2 mod Suc XAUTOCLAIM_COUNT = 0" by (simp only: mod_add_self2 tick)
  moreover have "recoverable settings shard epoch ?w2" using rec s1 by (simp add: recoverable_def)
  ultimately show ?thesis using run by (intro exI [of _ ?w2] conjI)
qed

text \<open>
  C36: The recovery spins while Kafka is down. If more entries are pending than one claim gives, and Redis answers but no
  message can be sent, the loop claims the same entries again and again: after any number of rounds it is still in
  the loop. Only the loop for publishing renews the lock of the shard and finds out that the relay has lost it.
\<close>
theorem recovery_spins_while_kafka_is_down:
  assumes "kafka_down net" and "recoverable settings shard epoch w" and "in_stream w shard"
    and "100 < length (pending w shard)" and "tk_tick w = 0"
  shows "fst (recover_pel n net settings shard epoch w) = Inr StillRecovering"
proof -
  have "fst (recover_pel n net settings shard epoch w) = Inr StillRecovering"
    if "recoverable settings shard epoch w" "in_stream w shard" "XAUTOCLAIM_COUNT < length (pending w shard)"
      "tk_tick w mod Suc XAUTOCLAIM_COUNT = 0" for w
    using that
  proof (induction n arbitrary: w)
    case (Suc n)
    then show ?case using stuck_round [OF assms(1) Suc.prems, of n] by fastforce
  qed (simp add: return_op_def)
  then show ?thesis using assms(2-5) by (simp add: XAUTOCLAIM_COUNT_def)
qed

subsection \<open>A relay that finds entries pending\<close>

definition backlog_fields :: "nat \<Rightarrow> outbox_fields" where
  "backlog_fields i = \<lparr>of_seq = int i + 1, of_kind = EnterAlive, of_op = Upsert, of_aic = ''a'', of_seen_ms = Some (int i),
     of_source_ms = None, of_reason = None\<rparr>"

definition backlog :: "nat \<Rightarrow> relay_state task_run" where
  "backlog m = \<lparr>tk_self = \<lparr>rl_node = ''n'', rl_producer = True, rl_last_acked = None, rl_since_trim = 0, rl_expected = None,
       rl_lag_polls = 0, rl_published_total = 0, rl_truncated_total = 0\<rparr>,
     tk_shared = \<lparr>ms_redis = (\<lambda>_. empty_shard\<lparr>hs_seq := int m, hs_epoch := Some 1,
         hs_outbox := map (\<lambda>i. ((1000 + int i, 0), backlog_fields i)) [0..<m],
         hs_group := Some \<lparr>rg_last = (2000, 0), rg_pel = map (\<lambda>i. ((1000 + int i, 0), ''relay-o'')) [0..<m], rg_consumers = []\<rparr>\<rparr>),
       ms_relay_lock = (\<lambda>_. Some ''n''), ms_scan_lock = (\<lambda>_. None), ms_kafka = (\<lambda>_. [])\<rparr>,
     tk_tick = 0\<rparr>"

definition backlog_settings :: relay_settings where
  "backlog_settings = \<lparr>rs_iso = (\<lambda>_. ''t''), rs_batch_size = 100, rs_max_lag_s = 30\<rparr>"

lemma backlog_pending: "pending (backlog m) shard = map (\<lambda>i. ((1000 + int i, 0), ''relay-o'')) [0..<m]"
  by (simp add: pending_def backlog_def)

lemma backlog_recoverable: "recoverable backlog_settings ''hb-000'' 1 (backlog m)"
proof -
  have "is_ok (shard_index_from_id ''hb-000'')" by code_simp
  then have "sendable backlog_settings ''hb-000'' (backlog_fields i)" for i
    by (simp add: sendable_def build_envelope_def backlog_fields_def Let_def)
  then show ?thesis by (auto simp: recoverable_def backlog_def)
qed

lemma backlog_in_stream: "in_stream (backlog m) shard"
proof -
  have "map_of (hs_outbox (ms_redis (tk_shared (backlog m)) shard)) (1000 + int i, 0) \<noteq> None" if "i < m" for i
    using that by (simp add: backlog_def map_of_eq_None_iff image_image)
  then show ?thesis by (auto simp: in_stream_def backlog_pending)
qed

theorem recovery_terminates_witness:
  "\<exists>w'. recover_pel 3 \<lparr>tn_others = (\<lambda>_ s. s), tn_fails = (\<lambda>_. False), tn_now = (\<lambda>_. 5000)\<rparr> backlog_settings ''hb-000'' 1 (backlog 250)
     = (Inr Recovered, w') \<and> pending w' ''hb-000'' = []"
  by (rule recovery_terminates [OF _ backlog_recoverable]) (auto simp: quiet_net_def mono_def backlog_pending)

theorem recovery_spins_while_kafka_is_down_witness:
  "fst (recover_pel 1000 \<lparr>tn_others = (\<lambda>_ s. s), tn_fails = (\<lambda>t. t mod 101 \<noteq> 0), tn_now = (\<lambda>_. 5000)\<rparr> backlog_settings ''hb-000'' 1
     (backlog 101)) = Inr StillRecovering"
proof (rule recovery_spins_while_kafka_is_down [OF _ backlog_recoverable backlog_in_stream])
  show "kafka_down \<lparr>tn_others = (\<lambda>_ s. s), tn_fails = (\<lambda>t. t mod 101 \<noteq> 0), tn_now = (\<lambda>_. 5000)\<rparr>"
    by (simp add: kafka_down_def XAUTOCLAIM_COUNT_def)
  show "100 < length (pending (backlog 101) ''hb-000'')" by (simp add: backlog_pending)
  show "tk_tick (backlog 101) = 0" by (simp add: backlog_def)
qed

end
