(* ===== verification/AliveWire.thy ===== *)
theory AliveWire
  imports AliveEngine
begin

text \<open>
  The messages of the synchronisation as JSON: the pydantic models of
  \<open>acps-sdk/acps_sdk/amp/heartbeat_sync.py\<close>, the NDJSON parser \<open>alive_sync/snapshot.py\<close>, and the HTTP client
  \<open>discovery-server/app/heartbeat_sync/source_client.py\<close>. A line is what \<open>json.loads\<close> makes of it; the replies of the
  provider are arguments.
\<close>

subsection \<open>Models and JSON values\<close>

text \<open>A field is read by its alias or, failing that, its name; a field of type \<open>str\<close> takes strings only.\<close>

definition json_field :: "(string \<times> pyval) list \<Rightarrow> string \<Rightarrow> string \<Rightarrow> pyval option" where
  "json_field d alias name = (case map_of d alias of Some v \<Rightarrow> Some v | None \<Rightarrow> map_of d name)"

definition json_str :: "(string \<times> pyval) list \<Rightarrow> string \<Rightarrow> string \<Rightarrow> string option" where
  "json_str d alias name = (case json_field d alias name of Some (PStr s) \<Rightarrow> Some s | _ \<Rightarrow> None)"

definition json_str_or_none :: "(string \<times> pyval) list \<Rightarrow> string \<Rightarrow> string \<Rightarrow> string option option" where
  "json_str_or_none d alias name = (case json_field d alias name of
     None \<Rightarrow> Some None | Some PNone \<Rightarrow> Some None | Some (PStr s) \<Rightarrow> Some (Some s) | _ \<Rightarrow> None)"

definition op_names :: "(string \<times> delta_op) list" where
  "op_names = [(''upsert'', Upsert), (''delete'', Delete)]"

definition kind_names :: "(string \<times> delta_kind) list" where
  "kind_names = [(''snapshot'', KindSnapshot), (''enter_alive'', EnterAlive), (''refresh_alive'', RefreshAlive), (''leave_alive'', LeaveAlive)]"

definition op_name :: "delta_op \<Rightarrow> string" where
  "op_name x = (case x of Upsert \<Rightarrow> ''upsert'' | Delete \<Rightarrow> ''delete'')"

definition kind_name :: "delta_kind \<Rightarrow> string" where
  "kind_name x = (case x of KindSnapshot \<Rightarrow> ''snapshot'' | EnterAlive \<Rightarrow> ''enter_alive'' | RefreshAlive \<Rightarrow> ''refresh_alive''
     | LeaveAlive \<Rightarrow> ''leave_alive'')"

fun validate_entry :: "pyval \<Rightarrow> alive_set_entry option" where
  "validate_entry (PDict d) =
     (case (json_str d ''aic'' ''aic'', json_str d ''lastSeenAt'' ''last_seen_at'', json_str_or_none d ''sourceTimestamp'' ''source_timestamp'') of
        (Some aic, Some seen, Some src) \<Rightarrow> Some \<lparr>en_aic = aic, en_last_seen_at = seen, en_source_timestamp = src\<rparr>
      | _ \<Rightarrow> None)"
| "validate_entry _ = None"

definition validate_payload :: "(string \<times> pyval) list \<Rightarrow> alive_set_entry option option" where
  "validate_payload d = (case map_of d ''payload'' of
     None \<Rightarrow> Some None | Some PNone \<Rightarrow> Some None | Some v \<Rightarrow> map_option Some (validate_entry v))"

definition literal :: "(string \<times> 'a) list \<Rightarrow> string option \<Rightarrow> 'a option" where
  "literal names s = Option.bind s (map_of names)"

definition json_key :: "(string \<times> pyval) list \<Rightarrow> string \<Rightarrow> string option" where
  "json_key d k = json_str d k k"

fun validate_envelope :: "pyval \<Rightarrow> alive_delta option" where
  "validate_envelope (PDict d) =
     (if json_key d ''type'' \<noteq> Some ALIVE_DELTA_TYPE then None
      else case (json_key d ''shard'', json_key d ''seq'', json_key d ''id'', json_key d ''version'',
          literal op_names (json_key d ''op''), literal kind_names (json_key d ''kind''), validate_payload d) of
        (Some k, Some s, Some i, Some v, Some p, Some q, Some pay) \<Rightarrow>
          Some \<lparr>dv_shard = k, dv_seq = s, dv_id = i, dv_version = v, dv_op = p, dv_kind = q, dv_payload = pay\<rparr>
      | _ \<Rightarrow> None)"
| "validate_envelope _ = None"

fun json_str_dict :: "(string \<times> pyval) list \<Rightarrow> (string \<times> string) list option" where
  "json_str_dict [] = Some []"
| "json_str_dict ((k, PStr s) # rest) = map_option (\<lambda>ss. (k, s) # ss) (json_str_dict rest)"
| "json_str_dict ((k, _) # rest) = None"

fun validate_meta :: "pyval \<Rightarrow> snapshot_meta option" where
  "validate_meta (PDict d) =
     (if json_str d ''recordType'' ''record_type'' \<noteq> Some SNAPSHOT_META_RECORD_TYPE \<or> json_key d ''type'' \<noteq> Some ALIVE_DELTA_TYPE then None
      else case (json_field d ''cutoverSeqByShard'' ''cutover_seq_by_shard'', json_str d ''generatedAt'' ''generated_at'') of
        (Some (PDict c), Some g) \<Rightarrow> map_option (\<lambda>cuts. \<lparr>sm_cutover = cuts, sm_generated_at = g\<rparr>) (json_str_dict c)
      | _ \<Rightarrow> None)"
| "validate_meta _ = None"

text \<open>\<open>model_dump(mode="json", by_alias=True, exclude_none=True)\<close>.\<close>

definition dump_entry :: "alive_set_entry \<Rightarrow> pyval" where
  "dump_entry e = PDict ([(''aic'', PStr (en_aic e)), (''lastSeenAt'', PStr (en_last_seen_at e))]
     @ (case en_source_timestamp e of None \<Rightarrow> [] | Some s \<Rightarrow> [(''sourceTimestamp'', PStr s)]))"

definition dump_envelope :: "alive_delta \<Rightarrow> pyval" where
  "dump_envelope env = PDict ([(''shard'', PStr (dv_shard env)), (''seq'', PStr (dv_seq env)), (''type'', PStr ALIVE_DELTA_TYPE),
      (''id'', PStr (dv_id env)), (''version'', PStr (dv_version env)), (''op'', PStr (op_name (dv_op env))),
      (''kind'', PStr (kind_name (dv_kind env)))]
     @ (case dv_payload env of None \<Rightarrow> [] | Some e \<Rightarrow> [(''payload'', dump_entry e)]))"

definition dump_meta :: "snapshot_meta \<Rightarrow> pyval" where
  "dump_meta m = PDict [(''recordType'', PStr SNAPSHOT_META_RECORD_TYPE), (''type'', PStr ALIVE_DELTA_TYPE),
     (''cutoverSeqByShard'', PDict (map (\<lambda>(k, s). (k, PStr s)) (sm_cutover m))), (''generatedAt'', PStr (sm_generated_at m))]"

subsection \<open>NDJSON\<close>

text \<open>A line of a reply: blank, not JSON, or a JSON value.\<close>

datatype wire_line = BlankLine | NotJson | JsonLine pyval

text \<open>\<open>get\<close> of a value that is not an object raises \<open>AttributeError\<close>.\<close>

fun parse_meta_line :: "wire_line \<Rightarrow> (sync_exn, snapshot_meta) result" where
  "parse_meta_line (JsonLine (PDict data)) =
     (if dict_get data ''recordType'' \<noteq> PStr SNAPSHOT_META_RECORD_TYPE then Inl (SnapshotProtocolError ''recordType'')
      else if dict_get data ''type'' \<noteq> PStr ALIVE_DELTA_TYPE then Inl (SnapshotProtocolError ''type'')
      else case validate_meta (PDict data) of None \<Rightarrow> Inl (SnapshotProtocolError ''meta'') | Some m \<Rightarrow> Inr m)"
| "parse_meta_line (JsonLine _) = Inl (OtherSyncError ''AttributeError'')"
| "parse_meta_line _ = Inl (SnapshotProtocolError ''json'')"

fun parse_snapshot_row :: "wire_line \<Rightarrow> (sync_exn, alive_delta) result" where
  "parse_snapshot_row (JsonLine (PDict data)) =
     (if dict_get data ''kind'' \<noteq> PStr ''snapshot'' then Inl (SnapshotProtocolError ''kind'')
      else if dict_get data ''op'' \<noteq> PStr ''upsert'' then Inl (SnapshotProtocolError ''op'')
      else if \<not> truthy (dict_get data ''payload'') then Inl (SnapshotProtocolError ''payload'')
      else case validate_envelope (PDict data) of None \<Rightarrow> Inl (SnapshotProtocolError ''row'') | Some env \<Rightarrow> Inr env)"
| "parse_snapshot_row (JsonLine _) = Inl (OtherSyncError ''AttributeError'')"
| "parse_snapshot_row _ = Inl (SnapshotProtocolError ''json'')"

subsection \<open>The HTTP client\<close>

text \<open>A reply: its status, its lines, whether the connection breaks after them, the body as text and as JSON.\<close>

record http_response =
  hr_status :: int
  hr_lines :: "wire_line list"
  hr_broken :: bool
  hr_text :: string
  hr_json :: "pyval option"

datatype http_reply = RequestFailed | Response http_response

fun has_substring :: "string \<Rightarrow> string \<Rightarrow> bool" where
  "has_substring p [] = (p = [])"
| "has_substring p (c # s) = (startswith (c # s) p \<or> has_substring p s)"

definition connection_fail :: sync_exn where "connection_fail = TransportError ''connection_fail'' 500"
definition invalid_response :: sync_exn where "invalid_response = TransportError ''invalid_response'' 500"

definition fetch_sync_info ::
  "(pyval \<Rightarrow> heartbeat_sync_info option) \<Rightarrow> string \<Rightarrow> http_reply \<Rightarrow> (sync_exn, heartbeat_sync_info) result" where
  "fetch_sync_info validate_info base_url reply =
     (if base_url = [] then Inl (TransportError ''client_config_error'' 500)
      else case reply of
        RequestFailed \<Rightarrow> Inl connection_fail
      | Response r \<Rightarrow>
          if hr_status r = 404 then Inl (TransportError ''provider_unavailable'' 404)
          else if hr_status r = 503 then Inl (TransportError ''snapshot_unavailable'' 503)
          else if hr_status r \<noteq> 200 then Inl invalid_response
          else case Option.bind (hr_json r) validate_info of
                 None \<Rightarrow> Inl invalid_response | Some info \<Rightarrow> Inr info)"

text \<open>The rows after the meta line; a connection that breaks raises in the middle of the iteration.\<close>

definition request_error :: sync_exn where "request_error = OtherSyncError ''RequestError''"

fun row_stream :: "wire_line list \<Rightarrow> bool \<Rightarrow> alive_delta stream_of" where
  "row_stream [] broken = ([], if broken then Some request_error else None)"
| "row_stream (l # ls) broken =
     (if l = BlankLine then row_stream ls broken
      else case parse_snapshot_row l of
        Inl _ \<Rightarrow> ([], Some invalid_response)
      | Inr env \<Rightarrow> (let (envs, stop) = row_stream ls broken in (env # envs, stop)))"

definition open_snapshot :: "http_reply \<Rightarrow> (sync_exn, snapshot_meta \<times> alive_delta stream_of) result" where
  "open_snapshot reply =
     (case reply of
        RequestFailed \<Rightarrow> Inl connection_fail
      | Response r \<Rightarrow>
          if hr_status r = 404 then Inl (TransportError ''provider_unavailable'' 404)
          else if hr_status r = 503 then
            Inl (TransportError (if has_substring ''DELTA_LOG_UNHEALTHY'' (hr_text r) then ''delta_log_unhealthy'' else ''snapshot_unavailable'') 503)
          else if hr_status r \<noteq> 200 then Inl invalid_response
          else case dropWhile (\<lambda>l. l = BlankLine) (hr_lines r) of
            [] \<Rightarrow> Inl (if hr_broken r then connection_fail else invalid_response)
          | l # rest \<Rightarrow>
              (case parse_meta_line l of
                 Inl _ \<Rightarrow> Inl invalid_response
               | Inr meta \<Rightarrow> Inr (meta, row_stream rest (hr_broken r))))"

text \<open>The end of the context manager: a broken connection that reached the body is a transport error outside of it.\<close>

definition leave_snapshot :: "(sync_exn, 'a) result \<Rightarrow> (sync_exn, 'a) result" where
  "leave_snapshot res = (case res of Inl x \<Rightarrow> Inl (if x = request_error then connection_fail else x) | Inr a \<Rightarrow> Inr a)"

subsection \<open>What one side writes the other reads\<close>

lemma validate_dump_entry: "validate_entry (dump_entry e) = Some e"
  by (cases e) (auto simp: dump_entry_def json_str_def json_str_or_none_def json_field_def split: option.splits)

lemma literal_names [simp]:
  "literal op_names (Some (op_name x)) = Some x" "literal kind_names (Some (kind_name q)) = Some q"
  by (simp add: literal_def op_names_def op_name_def split: delta_op.splits)
     (simp add: literal_def kind_names_def kind_name_def split: delta_kind.splits)

lemma validate_dump_envelope: "validate_envelope (dump_envelope env) = Some env"
proof (cases "dv_payload env")
  case None
  then show ?thesis
    by (simp add: dump_envelope_def json_key_def json_str_def json_field_def validate_payload_def)
next
  case (Some e)
  obtain d where d: "dump_entry e = PDict d" by (simp add: dump_entry_def)
  then have "validate_entry (PDict d) = Some e" using validate_dump_entry [of e] by simp
  with Some d show ?thesis
    by (simp add: dump_envelope_def json_key_def json_str_def json_field_def validate_payload_def del: validate_entry.simps)
qed

lemma json_str_dict_strs: "json_str_dict (map (\<lambda>(k, s). (k, PStr s)) cuts) = Some cuts"
  by (induction cuts) auto

lemma validate_dump_meta: "validate_meta (dump_meta m) = Some m"
  by (simp add: dump_meta_def json_key_def json_str_def json_field_def json_str_dict_strs)

definition snapshot_row_ok :: "alive_delta \<Rightarrow> bool" where
  "snapshot_row_ok env \<longleftrightarrow> dv_kind env = KindSnapshot \<and> dv_op env = Upsert \<and> dv_payload env \<noteq> None"

lemma parse_dumped_meta: "parse_meta_line (JsonLine (dump_meta m)) = Inr m"
  using validate_dump_meta [of m] unfolding dump_meta_def
  by (simp add: dict_get_def del: validate_meta.simps)

lemma parse_dumped_row:
  assumes "snapshot_row_ok env"
  shows "parse_snapshot_row (JsonLine (dump_envelope env)) = Inr env"
proof -
  from assms obtain e where e: "dv_payload env = Some e" "dv_kind env = KindSnapshot" "dv_op env = Upsert"
    by (auto simp: snapshot_row_ok_def)
  have "truthy (dump_entry e)" by (simp add: dump_entry_def)
  with e show ?thesis using validate_dump_envelope [of env]
    unfolding dump_envelope_def by (simp add: dict_get_def kind_name_def op_name_def del: validate_envelope.simps)
qed

lemma row_stream_dumped: "list_all snapshot_row_ok envs \<Longrightarrow> row_stream (map (JsonLine \<circ> dump_envelope) envs) False = (envs, None)"
  by (induction envs) (simp_all add: parse_dumped_row)

end
