(* ===== verification/HbSync.thy ===== *)
theory HbSync
  imports HbRelay HbSnapshot AliveWire
begin

text \<open>
  The synchronisation endpoints of the monitor, \<open>monitor-server/app/heartbeat/sync_service.py\<close> with the routes of
  \<open>api.py\<close> and the lines of \<open>snapshot.py\<close>, and what the client of the discovery server makes of their replies. The
  web framework is an argument; what is used of it is \<open>framework_ok\<close>.
\<close>

subsection \<open>The service\<close>

record sync_settings =
  sy_enabled :: bool
  sy_delta_topic :: string
  sy_shard_count :: int
  sy_refresh_s :: int
  sy_retention_h :: int
  sy_max_lag_s :: int

datatype sync_error = SyncDisabled | SnapshotUnavailable | DeltaLogUnhealthy string | SyncRedisError

text \<open>What a Redis client raises: a lost connection or a timeout, or anything else.\<close>

datatype redis_fault = RedisConnection | RedisOther

definition ensure_sync_enabled :: "sync_settings \<Rightarrow> (sync_error, unit) result" where
  "ensure_sync_enabled settings = (if \<not> sy_enabled settings then Inl SyncDisabled else Inr ())"

definition get_sync_info ::
  "sync_settings \<Rightarrow> (redis_fault, (string \<times> int) list) result \<Rightarrow> (sync_error, heartbeat_sync_info) result" where
  "get_sync_info settings published_seq =
     (case published_seq of
        Inl RedisConnection \<Rightarrow> Inl SnapshotUnavailable
      | Inl RedisOther \<Rightarrow> Inl SyncRedisError
      | Inr seqs \<Rightarrow> Inr \<lparr>hi_kafka_topic = sy_delta_topic settings, hi_shard_count = sy_shard_count settings,
          hi_refresh_emit_interval = sy_refresh_s settings, hi_delta_retention_hours = sy_retention_h settings,
          hi_published_seq = map (\<lambda>(s, v). (s, seq_to_str v)) seqs\<rparr>)"

text \<open>The answer is the first shard whose lag is too long.\<close>

fun ensure_delta_log_healthy :: "task_net \<Rightarrow> sync_settings \<Rightarrow> string list \<Rightarrow> ('s, string option) task_op" where
  "ensure_delta_log_healthy net settings [] = return_op None"
| "ensure_delta_log_healthy net settings (shard # shards) =
     and_then (outbox_publish_lag_ms net shard) (\<lambda>lag_ms.
       if (case lag_ms of None \<Rightarrow> False | Some l \<Rightarrow> l > sy_max_lag_s settings * 1000) then return_op (Some shard)
       else ensure_delta_log_healthy net settings shards)"

definition snapshot_lines :: "materialized \<Rightarrow> wire_line list" where
  "snapshot_lines snap = JsonLine (dump_meta (mz_meta snap)) # map (JsonLine \<circ> dump_envelope) (mz_envelopes snap)"

text \<open>The generator: the lines it yields and the exception it ends with, if any.\<close>

definition stream_snapshot ::
  "(relay_exn, string option) result \<Rightarrow> (redis_fault, materialized) result \<Rightarrow> wire_line list \<times> sync_error option" where
  "stream_snapshot healthy exported =
     (case healthy of
        Inl _ \<Rightarrow> ([], Some SyncRedisError)
      | Inr (Some shard) \<Rightarrow> ([], Some (DeltaLogUnhealthy shard))
      | Inr None \<Rightarrow>
          (case exported of
             Inl RedisConnection \<Rightarrow> ([], Some SnapshotUnavailable)
           | Inl RedisOther \<Rightarrow> ([], Some SyncRedisError)
           | Inr snap \<Rightarrow> (snapshot_lines snap, None)))"

subsection \<open>The routes\<close>

record framework =
  fw_error :: "sync_error \<Rightarrow> http_reply"
  fw_stream :: "wire_line list \<times> sync_error option \<Rightarrow> http_reply"

definition get_sync_snapshot ::
  "framework \<Rightarrow> task_net \<Rightarrow> sync_settings \<Rightarrow> string list \<Rightarrow> (redis_fault, materialized) result \<Rightarrow> 's task_run \<Rightarrow> http_reply" where
  "get_sync_snapshot fw net settings shards exported w =
     (case ensure_sync_enabled settings of
        Inl e \<Rightarrow> fw_error fw e
      | Inr _ \<Rightarrow> fw_stream fw (stream_snapshot (fst (ensure_delta_log_healthy net settings shards w)) exported))"

definition error_status :: "sync_error \<Rightarrow> int" where
  "error_status e = (case e of SyncDisabled \<Rightarrow> 404 | SnapshotUnavailable \<Rightarrow> 503 | DeltaLogUnhealthy _ \<Rightarrow> 503 | SyncRedisError \<Rightarrow> 500)"

text \<open>
  The framework turns an exception of a handler into a reply with its status. The body of a streaming response is
  iterated after the status line is sent: an exception in it breaks the connection.
\<close>

definition framework_ok :: "framework \<Rightarrow> bool" where
  "framework_ok fw \<longleftrightarrow>
     (\<forall>e. \<exists>r. fw_error fw e = Response r \<and> hr_status r = error_status e)
     \<and> (\<forall>lines stop. \<exists>r. fw_stream fw (lines, stop) = Response r \<and> hr_status r = 200 \<and> hr_lines r = lines
          \<and> hr_broken r = (stop \<noteq> None))"

subsection \<open>Both ends\<close>

lemma row_envelopes_ok: "list_all snapshot_row_ok (row_envelopes isoformat shard cutover rows)"
  by (induction isoformat shard cutover rows rule: row_envelopes.induct)
     (simp_all add: row_envelope_def snapshot_row_ok_def Let_def)

lemma enumerate_shards_ok:
  "enumerate_shards isoformat settings b obs now cutover shards t = (envs, t', c) \<Longrightarrow> list_all snapshot_row_ok envs"
  by (induction shards arbitrary: t envs t' c)
     (auto simp: enumerate_shard_alive_def row_envelopes_ok Let_def split: prod.splits)

lemma materialized_rows_ok: "list_all snapshot_row_ok (mz_envelopes (fst (materialize isoformat settings b obs shards now)))"
  using enumerate_shards_ok by (auto simp: materialize_def Let_def split: prod.splits)

lemma framework_stream:
  assumes "framework_ok fw"
  obtains r where "fw_stream fw (ls, stop) = Response r" "hr_status r = 200" "hr_lines r = ls" "hr_broken r = (stop \<noteq> None)"
  using assms unfolding framework_ok_def by blast

lemma framework_disabled:
  assumes "framework_ok fw"
  obtains r where "fw_error fw SyncDisabled = Response r" "hr_status r = 404"
proof -
  from assms obtain r where "fw_error fw SyncDisabled = Response r" "hr_status r = error_status SyncDisabled"
    unfolding framework_ok_def by blast
  then show thesis using that by (simp add: error_status_def)
qed



subsection \<open>One event that waits\<close>

definition one_beat :: hb_redis where
  "one_beat = fst (run_events one_shard_env [HbApply (at_ms 1000) ''a'' 1000 None] hb_start)"

definition waiting :: "unit task_run" where
  "waiting = \<lparr>tk_self = (), tk_shared = \<lparr>ms_redis = one_beat, ms_relay_lock = Map.empty, ms_scan_lock = Map.empty, ms_kafka = (\<lambda>_. [])\<rparr>, tk_tick = 0\<rparr>"

definition net_at :: "int \<Rightarrow> task_net" where
  "net_at now = \<lparr>tn_others = (\<lambda>_ s. s), tn_fails = (\<lambda>_. False), tn_now = (\<lambda>_. now)\<rparr>"

definition sample_sync :: sync_settings where
  "sample_sync = \<lparr>sy_enabled = True, sy_delta_topic = ''amp.heartbeat.alive-delta'', sy_shard_count = 1, sy_refresh_s = 30,
     sy_retention_h = 24, sy_max_lag_s = 5\<rparr>"

definition sample_framework :: framework where
  "sample_framework = \<lparr>
     fw_error = (\<lambda>e. Response \<lparr>hr_status = error_status e, hr_lines = [], hr_broken = False, hr_text = [], hr_json = None\<rparr>),
     fw_stream = (\<lambda>(ls, stop). Response \<lparr>hr_status = 200, hr_lines = ls, hr_broken = (stop \<noteq> None), hr_text = [], hr_json = None\<rparr>)\<rparr>"

lemma sample_framework_ok: "framework_ok sample_framework"
  by (simp add: framework_ok_def sample_framework_def)

lemma one_beat_simps: "hs_group (one_beat ''hb-000'') = None" "first_entry (one_beat ''hb-000'') = Some (1000, 0)"
  unfolding one_beat_def by code_simp+

lemma sample_sync_enabled: "sy_enabled sample_sync"
  by (simp add: sample_sync_def)

lemma sample_health:
  "fst (ensure_delta_log_healthy (net_at now) sample_sync [''hb-000''] waiting) = Inr (if now > 6000 then Some ''hb-000'' else None)"
  by (simp add: outbox_publish_lag_ms_def lag_from_pel_def lag_from_undelivered_def probe_def or_else_def and_then_def
      redis_now_ms_def redis_read_def redis_call_def call_def return_op_def net_at_def waiting_def xpending_first_def
      one_beat_simps sample_sync_def Let_def max_def)

definition sample_export :: "nat \<Rightarrow> materialized" where
  "sample_export b = fst (materialize (\<lambda>_. ''t'') \<lparr>ss_chunk_size = 10, ss_silence_ms = 90000, ss_share_window_ms = 5000\<rparr> b
     (\<lambda>_. one_beat) [''hb-000''] 1500)"



end
