(* ===== verification/AliveService.thy ===== *)
theory AliveService
  imports AliveWire
begin

text \<open>
  The consumer process of the discovery server: \<open>discovery-server/app/heartbeat_sync/kafka_consumer.py\<close> (where to
  start reading a partition, and the loop over its messages), \<open>service.py\<close> (bootstrap, resume, resynchronisation, main
  loop) and \<open>acps-sdk/acps_sdk/amp/alive_sync/bootstrap.py\<close>. The provider and the Kafka client are an argument: what
  they answer to request number \<open>n\<close>.
\<close>

subsection \<open>The environment\<close>

text \<open>A message is what its bytes parse to, and its offset. An iteration ends when the client stops or raises.\<close>

record kafka_message =
  km_value :: "pyval option"
  km_offset :: int

datatype poll_end = PollStopped | PollOutOfRange | PollCancelled | PollFails

datatype seek = SeekOffset int | SeekBeginning

text \<open>
  \<open>se_poll n seeks\<close>: the messages that iteration \<open>n\<close> yields after the positions it was given (with the error of the
  listener that gives them, if it raised), and how it ends.
\<close>

record service_env =
  se_base_url :: string
  se_topic :: string
  se_lookback :: int
  se_max_lookback :: int
  se_validate_info :: "pyval \<Rightarrow> heartbeat_sync_info option"
  se_iso_ms :: "string \<Rightarrow> int option"
  se_info :: "nat \<Rightarrow> http_reply"
  se_snapshot :: "nat \<Rightarrow> http_reply"
  se_starts :: "nat \<Rightarrow> bool"
  se_assigned :: "nat \<Rightarrow> int list"
  se_offset_for :: "nat \<Rightarrow> int \<Rightarrow> int \<Rightarrow> (sync_exn, int option) result"
  se_poll :: "nat \<Rightarrow> sync_exn option \<times> (int \<times> seek) list \<Rightarrow> kafka_message list \<times> poll_end"

subsection \<open>Where to start reading\<close>

record seek_plan =
  sp_cutover :: "(string \<times> int) list"
  sp_generated_at :: string
  sp_lookback :: int
  sp_checkpoints :: "(string \<times> int) list"

text \<open>\<open>datetime.fromisoformat\<close> is an argument; a trailing \<open>Z\<close> is rewritten before it.\<close>

definition seek_timestamp_ms :: "(string \<Rightarrow> int option) \<Rightarrow> string \<Rightarrow> int \<Rightarrow> (sync_exn, int) result" where
  "seek_timestamp_ms iso_ms generated_at lookback_seconds =
     (let text = (if generated_at \<noteq> [] \<and> last generated_at = CHR ''Z'' then butlast generated_at @ ''+00:00'' else generated_at)
      in case iso_ms text of None \<Rightarrow> Inl SyncValueError | Some epoch_ms \<Rightarrow> Inr (max (epoch_ms - lookback_seconds * 1000) 0))"

definition next_lookback_seconds :: "int \<Rightarrow> int \<Rightarrow> int \<Rightarrow> int" where
  "next_lookback_seconds current factor max_seconds = min (current * factor) max_seconds"

definition seek_by_time :: "service_env \<Rightarrow> nat \<Rightarrow> string \<Rightarrow> int \<Rightarrow> int \<Rightarrow> (sync_exn, seek) result" where
  "seek_by_time env n generated_at lookback_seconds part =
     bind_result (seek_timestamp_ms (se_iso_ms env) generated_at lookback_seconds) (\<lambda>ts_ms.
     bind_result (se_offset_for env n part ts_ms) (\<lambda>found.
       Inr (case found of Some o1 \<Rightarrow> if o1 \<ge> 0 then SeekOffset o1 else SeekBeginning | None \<Rightarrow> SeekBeginning)))"

definition seek_partition :: "service_env \<Rightarrow> nat \<Rightarrow> seek_plan \<Rightarrow> int \<Rightarrow> (sync_exn, seek) result" where
  "seek_partition env n plan part =
     (case map_of (rev (sp_checkpoints plan)) (''hb-'' @ pad_int 3 part) of
        Some o1 \<Rightarrow> Inr (SeekOffset o1)
      | None \<Rightarrow> seek_by_time env n (sp_generated_at plan) (sp_lookback plan) part)"

text \<open>The listener: an exception leaves the partitions after it without a position; the client only logs it.\<close>

fun on_partitions_assigned ::
  "service_env \<Rightarrow> nat \<Rightarrow> seek_plan \<Rightarrow> int list \<Rightarrow> sync_exn option \<times> (int \<times> seek) list" where
  "on_partitions_assigned env n plan [] = (None, [])"
| "on_partitions_assigned env n plan (part # parts) =
     (case seek_partition env n plan part of
        Inl x \<Rightarrow> (Some x, [])
      | Inr s \<Rightarrow> (let (x, ss) = on_partitions_assigned env n plan parts in (x, (part, s) # ss)))"

text \<open>Looking back twice as far (no one calls it).\<close>

definition reseek_with_backoff ::
  "service_env \<Rightarrow> nat \<Rightarrow> seek_plan option \<Rightarrow> bool \<Rightarrow> string \<Rightarrow> int \<Rightarrow> (sync_exn, int \<times> seek option \<times> seek_plan option) result" where
  "reseek_with_backoff env n plan started shard current_lookback =
     (let new_lookback = next_lookback_seconds current_lookback 2 (se_max_lookback env) in
      case plan of
        None \<Rightarrow> Inr (new_lookback, None, None)
      | Some p \<Rightarrow>
          if \<not> started then Inl (OtherSyncError ''RuntimeError'')
          else bind_result (codec (shard_index_from_id shard)) (\<lambda>part.
            bind_result (if new_lookback \<ge> se_max_lookback env then Inr SeekBeginning
                else seek_by_time env n (sp_generated_at p) new_lookback part) (\<lambda>s.
              Inr (new_lookback, Some s, Some (p\<lparr>sp_lookback := new_lookback\<rparr>)))))"

subsection \<open>The loop over messages\<close>

datatype poll_result = PolledAll | PolledGap string | PollRaised sync_exn | PollAborted

fun apply_messages ::
  "'s alive_store_ops \<Rightarrow> kafka_message list \<Rightarrow> poll_end \<Rightarrow> engine \<Rightarrow> 's \<Rightarrow> poll_result \<times> engine \<times> 's" where
  "apply_messages ops [] fin e st =
     ((case fin of PollStopped \<Rightarrow> PolledAll | PollCancelled \<Rightarrow> PollAborted
       | PollOutOfRange \<Rightarrow> PollRaised (ResyncRequired ''kafka_offset_out_of_range'')
       | PollFails \<Rightarrow> PollRaised (OtherSyncError ''KafkaError'')), e, st)"
| "apply_messages ops (m # ms) fin e st =
     (case Option.bind (km_value m) validate_envelope of
        None \<Rightarrow> (PollRaised (OtherSyncError ''ValidationError''), e, st)
      | Some env \<Rightarrow>
          (case apply_delta ops env (Some (km_offset m + 1)) e st of
             (Inr _, e', st') \<Rightarrow> apply_messages ops ms fin e' st'
           | (Inl x, e', st') \<Rightarrow>
               ((case x of GapDetected shard _ _ \<Rightarrow> PolledGap shard | _ \<Rightarrow> PollRaised x), e', st')))"

subsection \<open>The service\<close>

record 's service =
  sv_engine :: engine
  sv_store :: 's
  sv_plan :: "seek_plan option"
  sv_topic :: string
  sv_calls :: nat

text \<open>The number of the next request to the provider or to Kafka.\<close>

definition next_call :: "(nat \<Rightarrow> 'a) \<Rightarrow> 's service \<Rightarrow> 'a \<times> 's service" where
  "next_call f w = (f (sv_calls w), w\<lparr>sv_calls := Suc (sv_calls w)\<rparr>)"

definition fetch_info :: "service_env \<Rightarrow> 's service \<Rightarrow> (sync_exn, heartbeat_sync_info) result \<times> 's service" where
  "fetch_info env = next_call (\<lambda>n. fetch_sync_info (se_validate_info env) (se_base_url env) (se_info env n))"

definition bootstrap :: "'s alive_store_ops \<Rightarrow> service_env \<Rightarrow> 's service \<Rightarrow> (sync_exn, unit) result \<times> 's service" where
  "bootstrap ops env w =
     (case fetch_info env w of
        (Inl x, w1) \<Rightarrow> (Inl x, w1)
      | (Inr _, w1) \<Rightarrow>
          (case next_call (\<lambda>n. open_snapshot (se_snapshot env n)) w1 of
             (Inl x, w2) \<Rightarrow> (Inl x, w2)
           | (Inr (meta, envs), w2) \<Rightarrow>
               (let (res, st) = apply_snapshot ops meta envs (sv_engine w2) (sv_store w2); w3 = w2\<lparr>sv_store := st\<rparr> in
                case leave_snapshot res of
                  Inl x \<Rightarrow> (Inl x, w3)
                | Inr e \<Rightarrow> (Inr (), w3\<lparr>sv_engine := e,
                    sv_plan := Some \<lparr>sp_cutover = cutover_seq_by_shard e, sp_generated_at = sm_generated_at meta,
                      sp_lookback = se_lookback env, sp_checkpoints = []\<rparr>\<rparr>))))"

definition is_engine_error :: "sync_exn \<Rightarrow> bool" where
  "is_engine_error x = (case x of SnapshotProtocolError _ \<Rightarrow> True | GapDetected _ _ _ \<Rightarrow> True | ResyncRequired _ \<Rightarrow> True | _ \<Rightarrow> False)"

definition is_transport_error :: "sync_exn \<Rightarrow> bool" where
  "is_transport_error x = (case x of TransportError _ _ \<Rightarrow> True | _ \<Rightarrow> False)"

definition next_offsets :: "shard_checkpoint list \<Rightarrow> (string \<times> int) list" where
  "next_offsets cps = concat (map (\<lambda>cp. case cp_next_offset cp of None \<Rightarrow> [] | Some o1 \<Rightarrow> [(cp_shard cp, o1)]) cps)"

definition resume_plan :: "service_env \<Rightarrow> shard_checkpoint list \<Rightarrow> seek_plan" where
  "resume_plan env cps = \<lparr>sp_cutover = map (\<lambda>cp. (cp_shard cp, cp_cutover_seq cp)) cps,
     sp_generated_at = (case cp_generated_at (hd cps) of None \<Rightarrow> [] | Some g \<Rightarrow> g),
     sp_lookback = se_lookback env, sp_checkpoints = next_offsets cps\<rparr>"

definition resume_or_bootstrap :: "'s alive_store_ops \<Rightarrow> service_env \<Rightarrow> 's service \<Rightarrow> (sync_exn, unit) result \<times> 's service" where
  "resume_or_bootstrap ops env w =
     (case load_checkpoints ops (sv_store w) of
        (Inl x, st) \<Rightarrow> (Inl x, w\<lparr>sv_store := st\<rparr>)
      | (Inr cps, st) \<Rightarrow>
          if cps = [] then bootstrap ops env (w\<lparr>sv_store := st\<rparr>)
          else
            (case hydrate ops (sv_engine w) st of
               (Inr _, e, st1) \<Rightarrow> (Inr (), w\<lparr>sv_engine := e, sv_store := st1, sv_plan := Some (resume_plan env cps)\<rparr>)
             | (Inl x, e, st1) \<Rightarrow>
                 let w1 = w\<lparr>sv_engine := e, sv_store := st1\<rparr> in
                 if is_engine_error x then bootstrap ops env w1 else (Inl x, w1)))"

definition request_resync :: "'s alive_store_ops \<Rightarrow> service_env \<Rightarrow> 's service \<Rightarrow> (sync_exn, unit) result \<times> 's service" where
  "request_resync ops env w =
     (case store_reset ops (sv_store w) of
        (Inl x, st) \<Rightarrow> (Inl x, w\<lparr>sv_store := st\<rparr>)
      | (Inr _, st) \<Rightarrow> bootstrap ops env (w\<lparr>sv_store := st\<rparr>))"

text \<open>\<open>poll_apply\<close> with the callback of the service: what it raises, or whether it was cancelled.\<close>

datatype round_end = RoundEnds | RoundRaises sync_exn | RoundCancelled

definition seeks_of :: "service_env \<Rightarrow> nat \<Rightarrow> 's service \<Rightarrow> sync_exn option \<times> (int \<times> seek) list" where
  "seeks_of env n w = (case sv_plan w of None \<Rightarrow> (None, []) | Some plan \<Rightarrow> on_partitions_assigned env n plan (se_assigned env n))"

definition poll_apply :: "'s alive_store_ops \<Rightarrow> service_env \<Rightarrow> 's service \<Rightarrow> round_end \<times> 's service" where
  "poll_apply ops env w =
     (let ((ms, fin), w1) = next_call (\<lambda>n. se_poll env n (seeks_of env n w)) w;
          (res, e, st) = apply_messages ops ms fin (sv_engine w1) (sv_store w1);
          w2 = w1\<lparr>sv_engine := e, sv_store := st\<rparr>
      in case res of
           PolledAll \<Rightarrow> (RoundEnds, w2)
         | PollAborted \<Rightarrow> (RoundCancelled, w2)
         | PollRaised x \<Rightarrow> (RoundRaises x, w2)
         | PolledGap shard \<Rightarrow>
             (case request_resync ops env w2 of (Inl x, w3) \<Rightarrow> (RoundRaises x, w3) | (Inr _, w3) \<Rightarrow> (RoundEnds, w3)))"

text \<open>Starting the client: an empty topic is refused, and the connection may fail.\<close>

definition start_consumer :: "service_env \<Rightarrow> 's service \<Rightarrow> (sync_exn, unit) result \<times> 's service" where
  "start_consumer env w =
     (if strip (sv_topic w) = [] then (Inl (OtherSyncError ''RuntimeError''), w)
      else next_call (\<lambda>n. if se_starts env n then Inr () else Inl (OtherSyncError ''KafkaError'')) w)"

definition service_round :: "'s alive_store_ops \<Rightarrow> service_env \<Rightarrow> 's service \<Rightarrow> round_end \<times> 's service" where
  "service_round ops env w =
     (case resume_or_bootstrap ops env w of
        (Inl x, w1) \<Rightarrow> (RoundRaises x, w1)
      | (Inr _, w1) \<Rightarrow>
          (case start_consumer env w1 of
             (Inl x, w2) \<Rightarrow> (RoundRaises x, w2)
           | (Inr _, w2) \<Rightarrow> poll_apply ops env w2))"

text \<open>
  The handlers of the main loop, in their order: errors of the transport and of the engine are waited out, then
  \<open>ResyncRequired\<close> is resynchronised, anything else is waited out too. What the second one raises leaves the loop.
\<close>

definition handle_round :: "'s alive_store_ops \<Rightarrow> service_env \<Rightarrow> round_end \<Rightarrow> 's service \<Rightarrow> round_end \<times> 's service" where
  "handle_round ops env fin w =
     (case fin of
        RoundRaises x \<Rightarrow>
          if is_transport_error x \<or> is_engine_error x then (RoundEnds, w)
          else (case x of
             ResyncRequired reason \<Rightarrow>
               (case request_resync ops env w of (Inl y, w1) \<Rightarrow> (RoundRaises y, w1) | (Inr _, w1) \<Rightarrow> (RoundEnds, w1))
           | _ \<Rightarrow> (RoundEnds, w))
      | _ \<Rightarrow> (fin, w))"

text \<open>The first \<open>n\<close> rounds of the loop, or fewer if it is left.\<close>

fun service_rounds :: "nat \<Rightarrow> 's alive_store_ops \<Rightarrow> service_env \<Rightarrow> 's service \<Rightarrow> round_end \<times> 's service" where
  "service_rounds 0 ops env w = (RoundEnds, w)"
| "service_rounds (Suc n) ops env w =
     (let (fin, w1) = service_round ops env w; (fin', w2) = handle_round ops env fin w1 in
      if fin' = RoundEnds then service_rounds n ops env w2 else (fin', w2))"

definition ensure_kafka_topic :: "service_env \<Rightarrow> 's service \<Rightarrow> (sync_exn, unit) result \<times> 's service" where
  "ensure_kafka_topic env w =
     (let topic = strip (se_topic env) in
      if topic \<noteq> [] then (Inr (), w\<lparr>sv_topic := topic\<rparr>)
      else case fetch_info env w of
        (Inl x, w1) \<Rightarrow> (Inl x, w1)
      | (Inr info, w1) \<Rightarrow> (Inr (), w1\<lparr>sv_topic := hi_kafka_topic info\<rparr>))"

definition service_run :: "nat \<Rightarrow> 's alive_store_ops \<Rightarrow> service_env \<Rightarrow> 's service \<Rightarrow> round_end \<times> 's service" where
  "service_run n ops env w =
     (case ensure_kafka_topic env w of
        (Inl x, w1) \<Rightarrow> (RoundRaises x, w1)
      | (Inr _, w1) \<Rightarrow> service_rounds n ops env w1)"

subsection \<open>What the service shows\<close>

definition service_status ::
  "'s alive_store_ops \<Rightarrow> 's service \<Rightarrow> (sync_exn, int \<times> int \<times> (string \<times> shard_checkpoint) list) result \<times> 's service" where
  "service_status ops w =
     (case load_checkpoints ops (sv_store w) of
        (Inl x, st) \<Rightarrow> (Inl x, w\<lparr>sv_store := st\<rparr>)
      | (Inr checkpoints, st) \<Rightarrow>
          (case load_local_versions ops st of
             (Inl x, st1) \<Rightarrow> (Inl x, w\<lparr>sv_store := st1\<rparr>)
           | (Inr local_versions, st1) \<Rightarrow>
               (Inr (int (length local_versions), int (length checkpoints), map (\<lambda>cp. (cp_shard cp, cp)) checkpoints),
                w\<lparr>sv_store := st1\<rparr>)))"

text \<open>
  The administrator's route, for a service that runs; it acts on the same store and engine while the main loop is in
  its iteration.
\<close>

definition trigger_resync :: "'s alive_store_ops \<Rightarrow> service_env \<Rightarrow> 's service option \<Rightarrow> (sync_exn, unit) result \<times> 's service option" where
  "trigger_resync ops env w =
     (case w of
        None \<Rightarrow> (Inl (TransportError ''HTTPException'' 503), None)
      | Some s \<Rightarrow> (let (res, s') = request_resync ops env s in (res, Some s')))"

end
