(* ===== verification/AliveServiceProps.thy ===== *)
theory AliveServiceProps
  imports AliveService AliveSafety
begin

text \<open>
  What the consumer process keeps of its store, whatever the provider, Kafka and the database answer: the set of
  agents in the store is one the log of the provider describes. Proved once for every store that keeps the
  contract \<open>alive_store\<close>, and what an offset that Kafka no longer has means for the main loop.
\<close>

subsection \<open>What is asked of the provider and of Kafka\<close>

text \<open>Every snapshot that can be read is one of the log; its reads end at \<open>last_read n\<close>, it may omit \<open>omitted n\<close>.\<close>

definition provider_ok ::
  "service_env \<Rightarrow> (string \<Rightarrow> alive_delta list) \<Rightarrow> (string \<Rightarrow> string) \<Rightarrow> (nat \<Rightarrow> string \<Rightarrow> nat) \<Rightarrow> (nat \<Rightarrow> string \<Rightarrow> bool) \<Rightarrow> bool" where
  "provider_ok env lg home last_read omitted \<longleftrightarrow>
     (\<forall>n meta envs stop. open_snapshot (se_snapshot env n) = Inr (meta, envs, stop)
        \<longrightarrow> snapshot_of lg home (last_read n) (omitted n) meta envs)"

text \<open>Every message that can be read is an event of the log: in any order, again and again, from any position.\<close>

definition broker_ok :: "service_env \<Rightarrow> (string \<Rightarrow> alive_delta list) \<Rightarrow> bool" where
  "broker_ok env lg \<longleftrightarrow>
     (\<forall>n sought m v d. m \<in> set (fst (se_poll env n sought)) \<longrightarrow> km_value m = Some v \<longrightarrow> validate_envelope v = Some d
        \<longrightarrow> (\<exists>k i. i < length (lg k) \<and> d = lg k ! i))"

definition stored_up ::
  "(string \<Rightarrow> alive_delta list) \<Rightarrow> (string \<Rightarrow> string) \<Rightarrow> (string \<Rightarrow> nat) \<Rightarrow> (string \<Rightarrow> bool)
     \<Rightarrow> (string \<Rightarrow> shard_checkpoint option) \<Rightarrow> string \<Rightarrow> bool" where
  "stored_up lg home last_read omitted cs a \<longleftrightarrow>
     int (last_read (home a)) \<le> persisted_seq cs (home a)
     \<and> (omitted a \<longrightarrow> (case latest a (lg (home a)) (nat (persisted_seq cs (home a))) of
          None \<Rightarrow> False | Some (s, _) \<Rightarrow> s > int (last_read (home a))))"

subsection \<open>Steps of the service\<close>

context alive_store
begin

definition kept ::
  "(string \<Rightarrow> alive_delta list) \<Rightarrow> (string \<Rightarrow> string) \<Rightarrow> (nat \<Rightarrow> string \<Rightarrow> nat) \<Rightarrow> (nat \<Rightarrow> string \<Rightarrow> bool) \<Rightarrow> 's \<Rightarrow> bool" where
  "kept lg home last_read omitted st \<longleftrightarrow>
     ok st \<and> (cps st = (\<lambda>_. None) \<or> (\<exists>m e. synced lg home (last_read m) (omitted m) e st))"

lemma kept_same:
  "kept lg home last_read omitted st \<Longrightarrow> ok st' \<and> rows st' = rows st \<and> cps st' = cps st \<Longrightarrow> kept lg home last_read omitted st'"
  by (auto simp: kept_def synced_def)

lemma kept_synced: "synced lg home (last_read m) (omitted m) e st \<Longrightarrow> kept lg home last_read omitted st"
  by (auto simp: kept_def synced_def)

lemma snapshot_failed_keeps:
  assumes "ok st" and "apply_snapshot ops meta rws e st = (Inl x, st')"
  shows "ok st' \<and> rows st' = rows st \<and> cps st' = cps st"
  using assms by (auto simp: apply_snapshot_def Let_def split: sum.splits prod.splits dest: replace_failed)

lemma bootstrap_keeps:
  assumes prov: "provider_ok env lg home last_read omitted" and inv: "kept lg home last_read omitted (sv_store w)"
    and run: "bootstrap ops env w = (r, w')"
  shows "kept lg home last_read omitted (sv_store w')
    \<and> (r = Inr () \<longrightarrow> (\<exists>m. synced lg home (last_read m) (omitted m) (sv_engine w') (sv_store w')))"
proof (cases "fetch_info env w")
  case (Pair ri w1)
  have w1: "sv_store w1 = sv_store w" using Pair by (auto simp: fetch_info_def next_call_def)
  show ?thesis
  proof (cases ri)
    case (Inl x)
    with run Pair w1 inv show ?thesis by (auto simp: bootstrap_def)
  next
    case (Inr info)
    obtain n where n_def: "n = sv_calls w1" by blast
    show ?thesis
    proof (cases "open_snapshot (se_snapshot env n)")
      case (Inl x)
      with run Pair Inr w1 inv show ?thesis by (auto simp: bootstrap_def next_call_def n_def)
    next
      case snap: (Inr ms)
      obtain meta envs stop where ms: "ms = (meta, envs, stop)" by (cases ms)
      have so: "snapshot_of lg home (last_read n) (omitted n) meta envs"
        using prov snap ms unfolding provider_ok_def by blast
      have stok: "ok (sv_store w)" using inv by (simp add: kept_def)
      obtain res st where app: "apply_snapshot ops meta (envs, stop) (sv_engine w1) (sv_store w) = (res, st)" by fastforce
      show ?thesis
      proof (cases res)
        case (Inl x)
        then have "kept lg home last_read omitted st" using kept_same [OF inv] snapshot_failed_keeps [OF stok] app by blast
        moreover have "sv_store w' = st \<and> r \<noteq> Inr ()"
          using run Pair Inr snap ms app w1 Inl by (auto simp: bootstrap_def next_call_def n_def leave_snapshot_def Let_def)
        ultimately show ?thesis by simp
      next
        case ok: (Inr e)
        then have sy: "synced lg home (last_read n) (omitted n) e st" using snapshot_synced [OF stok so] app by blast
        moreover have "sv_store w' = st \<and> sv_engine w' = e"
          using run Pair Inr snap ms app w1 ok by (auto simp: bootstrap_def next_call_def n_def leave_snapshot_def Let_def)
        ultimately show ?thesis using kept_synced by blast
      qed
    qed
  qed
qed

lemma hydrate_cases:
  assumes "ok st" and "hydrate ops e0 st = (r, e', st')"
  shows "ok st' \<and> rows st' = rows st \<and> cps st' = cps st"
proof (cases "load_checkpoints ops st")
  case (Pair rc st1)
  note same = checkpoints_keep [OF assms(1) Pair]
  obtain rv st2 where v: "load_local_versions ops st1 = (rv, st2)" by fastforce
  have same2: "ok st2 \<and> rows st2 = rows st1 \<and> cps st2 = cps st1" by (rule versions_keep [OF _ v]) (use same in blast)
  have "st' = st1 \<or> st' = st2"
    using assms(2) Pair v by (auto simp: hydrate_def Let_def split: sum.splits if_splits)
  with same same2 show ?thesis by auto
qed

lemma resume_keeps:
  assumes prov: "provider_ok env lg home last_read omitted" and inv: "kept lg home last_read omitted (sv_store w)"
    and run: "resume_or_bootstrap ops env w = (r, w')"
  shows "kept lg home last_read omitted (sv_store w')
    \<and> (r = Inr () \<longrightarrow> (\<exists>m. synced lg home (last_read m) (omitted m) (sv_engine w') (sv_store w')))"
proof (cases "load_checkpoints ops (sv_store w)")
  case (Pair rc st)
  have stok: "ok (sv_store w)" using inv by (simp add: kept_def)
  have same: "ok st \<and> rows st = rows (sv_store w) \<and> cps st = cps (sv_store w)" by (rule checkpoints_keep [OF stok Pair])
  have inv1: "kept lg home last_read omitted st" by (rule kept_same [OF inv same])
  show ?thesis
  proof (cases rc)
    case (Inl x)
    with run Pair inv1 show ?thesis by (auto simp: resume_or_bootstrap_def)
  next
    case (Inr cs)
    show ?thesis
    proof (cases "cs = []")
      case True
      with run Pair Inr have "bootstrap ops env (w\<lparr>sv_store := st\<rparr>) = (r, w')" by (simp add: resume_or_bootstrap_def)
      with bootstrap_keeps [OF prov _ this] inv1 show ?thesis by simp
    next
      case False
      have "cps (sv_store w) = map_of (map (\<lambda>c. (cp_shard c, c)) cs)"
        using checkpoints_reply [OF stok] Pair Inr by blast
      moreover have "map_of (map (\<lambda>c. (cp_shard c, c)) cs) (cp_shard (hd cs)) \<noteq> None"
        using False by (cases cs) simp_all
      ultimately have "cps (sv_store w) \<noteq> (\<lambda>_. None)" by metis
      then obtain m e0 where sy: "synced lg home (last_read m) (omitted m) e0 st"
        using inv1 same by (auto simp: kept_def)
      obtain rh e st1 where h: "hydrate ops (sv_engine w) st = (rh, e, st1)" by (cases "hydrate ops (sv_engine w) st")
      have same1: "ok st1 \<and> rows st1 = rows st \<and> cps st1 = cps st" using hydrate_cases [OF _ h] same by blast
      have inv2: "kept lg home last_read omitted st1" by (rule kept_same [OF inv1 same1])
      show ?thesis
      proof (cases rh)
        case okh: (Inr u)
        have "synced lg home (last_read m) (omitted m) e st1" using restart_keeps [OF sy] h okh by blast
        with run Pair Inr False h okh inv2 show ?thesis by (auto simp: resume_or_bootstrap_def)
      next
        case (Inl x)
        show ?thesis
        proof (cases "is_engine_error x")
          case True
          with run Pair Inr False h Inl have "bootstrap ops env (w\<lparr>sv_engine := e, sv_store := st1\<rparr>) = (r, w')"
            by (simp add: resume_or_bootstrap_def Let_def)
          with bootstrap_keeps [OF prov _ this] inv2 show ?thesis by simp
        next
          case eng: False
          with run Pair Inr False h Inl inv2 show ?thesis by (auto simp: resume_or_bootstrap_def Let_def)
        qed
      qed
    qed
  qed
qed

lemma messages_keep:
  assumes "log_ok lg home" and "synced lg home last_read omitted e st"
    and "\<And>m v d. m \<in> set ms \<Longrightarrow> km_value m = Some v \<Longrightarrow> validate_envelope v = Some d \<Longrightarrow> \<exists>k i. i < length (lg k) \<and> d = lg k ! i"
    and "apply_messages ops ms fin e st = (r, e', st')"
  shows "synced lg home last_read omitted e' st'"
  using assms(2-)
proof (induction ms arbitrary: e st)
  case Nil
  then show ?case by simp
next
  case (Cons m ms)
  show ?case
  proof (cases "Option.bind (km_value m) validate_envelope")
    case None
    with Cons.prems show ?thesis by simp
  next
    case (Some d)
    then obtain v where "km_value m = Some v" "validate_envelope v = Some d" by (auto simp: bind_eq_Some_conv)
    with Cons.prems(2) [of m v d] obtain k i where i: "i < length (lg k)" "d = lg k ! i" by auto
    obtain y e1 st1 where d: "apply_delta ops d (Some (km_offset m + 1)) e st = (y, e1, st1)"
      by (cases "apply_delta ops d (Some (km_offset m + 1)) e st")
    have sy: "synced lg home last_read omitted e1 st1"
      using deliver_keeps [OF assms(1) Cons.prems(1) i(1)] d i(2) by blast
    show ?thesis
    proof (cases y)
      case (Inl x)
      with Cons.prems(3) Some d sy show ?thesis by simp
    next
      case (Inr dec)
      with Cons.prems(3) Some d have "apply_messages ops ms fin e1 st1 = (r, e', st')" by simp
      show ?thesis
        by (rule Cons.IH [OF sy _ \<open>apply_messages ops ms fin e1 st1 = (r, e', st')\<close>]) (use Cons.prems(2) in \<open>metis list.set_intros(2)\<close>)
    qed
  qed
qed

lemma resync_keeps:
  assumes prov: "provider_ok env lg home last_read omitted" and inv: "kept lg home last_read omitted (sv_store w)"
    and run: "request_resync ops env w = (r, w')"
  shows "kept lg home last_read omitted (sv_store w')"
proof (cases "store_reset ops (sv_store w)")
  case (Pair rr st)
  have stok: "ok (sv_store w)" using inv by (simp add: kept_def)
  show ?thesis
  proof (cases rr)
    case (Inl x)
    then have "kept lg home last_read omitted st" using kept_same [OF inv] reset_failed [OF stok] Pair by blast
    with run Pair Inl show ?thesis by (auto simp: request_resync_def)
  next
    case (Inr u)
    then have "kept lg home last_read omitted st" using reset_done [OF stok] Pair by (auto simp: kept_def)
    moreover from run Pair Inr have b: "bootstrap ops env (w\<lparr>sv_store := st\<rparr>) = (r, w')" by (simp add: request_resync_def)
    ultimately show ?thesis using bootstrap_keeps [OF prov _ b] by simp
  qed
qed

lemma poll_keeps:
  assumes "log_ok lg home" and prov: "provider_ok env lg home last_read omitted" and broker: "broker_ok env lg"
    and sy: "synced lg home (last_read m) (omitted m) (sv_engine w) (sv_store w)" and run: "poll_apply ops env w = (r, w')"
  shows "kept lg home last_read omitted (sv_store w')"
proof -
  obtain ms fin where p: "se_poll env (sv_calls w) (seeks_of env (sv_calls w) w) = (ms, fin)" by fastforce
  obtain res e st where a: "apply_messages ops ms fin (sv_engine w) (sv_store w) = (res, e, st)"
    by (cases "apply_messages ops ms fin (sv_engine w) (sv_store w)")
  have "synced lg home (last_read m) (omitted m) e st"
    by (rule messages_keep [OF assms(1) sy _ a]) (use broker p in \<open>unfold broker_ok_def, metis fst_conv\<close>)
  then have k: "kept lg home last_read omitted st" by (rule kept_synced)
  let ?w = "w\<lparr>sv_calls := Suc (sv_calls w), sv_engine := e, sv_store := st\<rparr>"
  show ?thesis
  proof (cases "\<exists>shard. res = PolledGap shard")
    case True
    obtain r1 w1 where rs: "request_resync ops env ?w = (r1, w1)" by fastforce
    then have "w' = w1" using True run p a by (auto simp: poll_apply_def next_call_def Let_def split: sum.splits)
    with resync_keeps [OF prov _ rs] k show ?thesis by simp
  next
    case False
    then have "w' = ?w" using run p a by (auto simp: poll_apply_def next_call_def Let_def split: poll_result.splits)
    with k show ?thesis by simp
  qed
qed

lemma round_keeps:
  assumes "log_ok lg home" and prov: "provider_ok env lg home last_read omitted" and broker: "broker_ok env lg"
    and inv: "kept lg home last_read omitted (sv_store w)" and run: "service_round ops env w = (r, w')"
  shows "kept lg home last_read omitted (sv_store w')"
proof (cases "resume_or_bootstrap ops env w")
  case (Pair r1 w1)
  note k = resume_keeps [OF prov inv Pair]
  show ?thesis
  proof (cases r1)
    case (Inl x)
    with run Pair k show ?thesis by (simp add: service_round_def)
  next
    case (Inr u)
    with k obtain m where sy: "synced lg home (last_read m) (omitted m) (sv_engine w1) (sv_store w1)" by auto
    obtain r2 w2 where st: "start_consumer env w1 = (r2, w2)" by fastforce
    then have same: "sv_engine w2 = sv_engine w1" "sv_store w2 = sv_store w1"
      by (auto simp: start_consumer_def next_call_def split: if_splits)
    show ?thesis
    proof (cases r2)
      case (Inl x)
      with run Pair Inr st same k show ?thesis by (simp add: service_round_def)
    next
      case okc: (Inr u2)
      with run Pair Inr st have p: "poll_apply ops env w2 = (r, w')" by (simp add: service_round_def)
      have "synced lg home (last_read m) (omitted m) (sv_engine w2) (sv_store w2)" using sy same by simp
      from poll_keeps [OF assms(1) prov broker this p] show ?thesis .
    qed
  qed
qed

lemma handle_keeps:
  assumes "provider_ok env lg home last_read omitted" and "kept lg home last_read omitted (sv_store w)"
    and "handle_round ops env fin w = (r, w')"
  shows "kept lg home last_read omitted (sv_store w')"
  using assms(2,3) resync_keeps [OF assms(1,2)]
  by (auto simp: handle_round_def split: round_end.splits if_splits sync_exn.splits sum.splits prod.splits)

lemma rounds_keep:
  assumes "log_ok lg home" and "provider_ok env lg home last_read omitted" and "broker_ok env lg"
  shows "kept lg home last_read omitted (sv_store w) \<Longrightarrow> service_rounds n ops env w = (r, w')
    \<Longrightarrow> kept lg home last_read omitted (sv_store w')"
proof (induction n arbitrary: w)
  case (Suc n)
  obtain f1 w1 where r1: "service_round ops env w = (f1, w1)" by fastforce
  obtain f2 w2 where r2: "handle_round ops env f1 w1 = (f2, w2)" by fastforce
  have "kept lg home last_read omitted (sv_store w2)"
    by (rule handle_keeps [OF assms(2) round_keeps [OF assms Suc.prems(1) r1] r2])
  with Suc r1 r2 show ?case by (auto split: if_splits)
qed simp

lemma run_keeps:
  assumes "log_ok lg home" and "provider_ok env lg home last_read omitted" and "broker_ok env lg"
    and "kept lg home last_read omitted (sv_store w)" and "service_run n ops env w = (r, w')"
  shows "kept lg home last_read omitted (sv_store w')"
proof -
  obtain r1 w1 where e: "ensure_kafka_topic env w = (r1, w1)" by fastforce
  then have same: "sv_store w1 = sv_store w"
    by (auto simp: ensure_kafka_topic_def fetch_info_def next_call_def Let_def split: if_splits sum.splits)
  show ?thesis
  proof (cases r1)
    case (Inl x)
    with assms(4,5) e same show ?thesis by (simp add: service_run_def)
  next
    case (Inr u)
    with assms(5) e have run: "service_rounds n ops env w1 = (r, w')" by (simp add: service_run_def)
    show ?thesis by (rule rounds_keep [OF assms(1-3) _ run]) (simp add: same assms(4))
  qed
qed

lemma kept_shows_log:
  assumes "kept lg home last_read omitted st"
  shows "cps st = (\<lambda>_. None) \<or> (\<exists>m. \<forall>a. stored_up lg home (last_read m) (omitted m) (cps st) a
     \<longrightarrow> stored_alive (rows st) a = alive_at a (lg (home a)) (nat (persisted_seq (cps st) (home a))))"
proof (cases "cps st = (\<lambda>_. None)")
  case False
  with assms obtain m e where sy: "synced lg home (last_read m) (omitted m) e st" by (auto simp: kept_def)
  have pos: "positions_ok lg (last_read m) e (cps st)" using sy by (simp add: synced_def in_step_def)
  have "stored_alive (rows st) a = alive_at a (lg (home a)) (nat (persisted_seq (cps st) (home a)))"
    if up: "stored_up lg home (last_read m) (omitted m) (cps st) a" for a
  proof -
    have "persisted_seq (cps st) (home a) \<le> seen_or_zero e (home a)"
      "seen_or_zero e (home a) \<le> max (persisted_seq (cps st) (home a)) (int (last_read m (home a)))"
      using pos by (auto simp: positions_ok_def)
    with up have same: "seen_or_zero e (home a) = persisted_seq (cps st) (home a)" by (auto simp: stored_up_def)
    with up have "caught_up lg home (last_read m) (omitted m) e a" by (simp add: stored_up_def caught_up_def)
    from synced_alive [OF sy this] same show ?thesis by simp
  qed
  then show ?thesis by blast
qed simp

end


subsection \<open>One snapshot and one event after it\<close>

definition sample_row :: alive_delta where
  "sample_row = (sample_delta ''1'' Upsert)\<lparr>dv_kind := KindSnapshot,
     dv_payload := Some \<lparr>en_aic = sample_agent, en_last_seen_at = ''t'', en_source_timestamp = None\<rparr>\<rparr>"

definition sample_reply :: http_response where
  "sample_reply = \<lparr>hr_status = 200, hr_lines = [JsonLine (dump_meta sample_meta), JsonLine (dump_envelope sample_row)],
     hr_broken = False, hr_text = [], hr_json = Some (PDict [])\<rparr>"

definition sample_messages :: "kafka_message list" where
  "sample_messages = map (\<lambda>i. \<lparr>km_value = Some (dump_envelope (sample_log ''hb-000'' ! i)), km_offset = int i\<rparr>) [0, 1]"

definition sample_service_env :: service_env where
  "sample_service_env = \<lparr>se_base_url = ''http://monitor'', se_topic = ''amp.heartbeat.alive-delta'', se_lookback = 300,
     se_max_lookback = 86400,
     se_validate_info = (\<lambda>_. Some \<lparr>hi_kafka_topic = ''t'', hi_shard_count = 1, hi_refresh_emit_interval = 30,
       hi_delta_retention_hours = 24, hi_published_seq = []\<rparr>),
     se_iso_ms = (\<lambda>_. Some 1000), se_info = (\<lambda>_. Response sample_reply), se_snapshot = (\<lambda>_. Response sample_reply),
     se_starts = (\<lambda>_. True), se_assigned = (\<lambda>_. [0]), se_offset_for = (\<lambda>_ _ _. Inr (Some 0)),
     se_poll = (\<lambda>_ _. (sample_messages, PollStopped))\<rparr>"

definition sample_service :: "pg_store service" where
  "sample_service = \<lparr>sv_engine = new_engine, sv_store = empty_pg, sv_plan = None, sv_topic = [], sv_calls = 0\<rparr>"

lemma sample_row_same:
  "dv_id sample_row = dv_id (sample_delta ''1'' Upsert)" "dv_version sample_row = dv_version (sample_delta ''1'' Upsert)"
  by (simp_all add: sample_row_def sample_delta_def)

lemma sample_opens: "open_snapshot (Response sample_reply) = Inr (sample_meta, [sample_row], None)"
proof -
  have ok: "snapshot_row_ok sample_row" by (simp add: sample_row_def sample_delta_def snapshot_row_ok_def)
  have "row_stream [JsonLine (dump_envelope sample_row)] False = ([sample_row], None)"
    using row_stream_dumped [of "[sample_row]"] ok by simp
  then show ?thesis by (simp add: open_snapshot_def sample_reply_def parse_dumped_meta del: row_stream.simps)
qed

lemma sample_provider:
  "provider_ok sample_service_env sample_log (\<lambda>_. ''hb-000'') (\<lambda>_ k. if k = ''hb-000'' then 1 else 0) (\<lambda>_ _. False)"
proof -
  have "snapshot_of sample_log (\<lambda>_. ''hb-000'') (\<lambda>k. if k = ''hb-000'' then 1 else 0) (\<lambda>_. False) sample_meta [sample_row]"
  proof -
    have "rows_show [sample_row] a evs n = rows_show [sample_delta ''1'' Upsert] a evs n" for a evs n
      by (simp add: rows_show_def sample_row_same)
    moreover have "no_row [sample_row] a = no_row [sample_delta ''1'' Upsert] a" for a
      by (simp add: no_row_def sample_row_same)
    ultimately show ?thesis using sample_snapshot unfolding snapshot_of_def by simp
  qed
  then show ?thesis by (simp add: provider_ok_def sample_service_env_def sample_opens)
qed

lemma sample_broker: "broker_ok sample_service_env sample_log"
proof -
  have "\<exists>k i. i < length (sample_log k) \<and> d = sample_log k ! i"
    if m: "m \<in> set sample_messages" "km_value m = Some v" "validate_envelope v = Some d" for m v d
  proof -
    from m(1) obtain i where i: "i < 2" "m = \<lparr>km_value = Some (dump_envelope (sample_log ''hb-000'' ! i)), km_offset = int i\<rparr>"
      by (auto simp: sample_messages_def)
    from m(2) i(2) have "v = dump_envelope (sample_log ''hb-000'' ! i)" by simp
    with m(3) have "d = sample_log ''hb-000'' ! i" by (simp only: validate_dump_envelope option.inject)
    with i(1) show ?thesis by (intro exI [of _ "''hb-000''"] exI [of _ i]) (simp add: sample_log_def)
  qed
  then show ?thesis unfolding broker_ok_def by (simp add: sample_service_env_def)
qed

definition sample_served :: "pg_store service" where
  "sample_served = snd (service_run (Suc 0) pg_ops sample_service_env sample_service)"


end
