(* ===== verification/AliveResync.thy ===== *)
theory AliveResync
  imports AliveServiceProps
begin

text \<open>
  Two ways the consumer process loses the log, which its main loop alone does not. A consumer that was away longer than Kafka keeps its messages: the offset in its store is gone. The client raises,
  the loop over messages turns that into \<open>ResyncRequired\<close>, and the main loop has a handler for it that is never
  reached, because the handler before it takes every error of the engine.
\<close>

lemma handle_waits: "handle_round ops env (RoundRaises x) w = (RoundEnds, w)"
  by (simp add: handle_round_def is_engine_error_def is_transport_error_def split: sync_exn.splits)

subsection \<open>Resuming\<close>

lemma map_of_next_offsets:
  assumes "distinct (map cp_shard cps)"
  shows "map_of (rev (next_offsets cps)) k = Option.bind (map_of (map (\<lambda>c. (cp_shard c, c)) cps) k) cp_next_offset"
proof -
  have fst_in: "set (map fst (next_offsets cs)) \<subseteq> set (map cp_shard cs)" for cs
    by (induction cs) (auto simp: next_offsets_def split: option.splits)
  have "distinct (map fst (next_offsets cps))"
    using assms
  proof (induction cps)
    case (Cons c cs)
    have "cp_shard c \<notin> set (map fst (next_offsets cs))" using Cons.prems fst_in [of cs] by auto
    with Cons show ?case by (auto simp: next_offsets_def split: option.splits)
  qed (simp add: next_offsets_def)
  moreover have "map_of (next_offsets cps) k = Option.bind (map_of (map (\<lambda>c. (cp_shard c, c)) cps) k) cp_next_offset"
    using assms
  proof (induction cps)
    case (Cons c cs)
    have "map_of (next_offsets cs) (cp_shard c) = None"
      using Cons.prems fst_in [of cs] by (auto simp: map_of_eq_None_iff)
    with Cons show ?case by (auto simp: next_offsets_def split: option.splits)
  qed (simp add: next_offsets_def)
  ultimately show ?thesis by (simp add: map_of_rev_distinct)
qed

lemma pg_reads_fail_plainly:
  "load_checkpoints pg_ops st = (Inl x, st') \<Longrightarrow> x = StoreFailed"
  "load_local_versions pg_ops st = (Inl x, st') \<Longrightarrow> x = StoreFailed"
  by (auto simp: pg_ops_def pg_load_checkpoints_def pg_load_local_versions_def elim!: transactionE)

definition same_tables :: "pg_store \<Rightarrow> pg_store \<Rightarrow> bool" where
  "same_tables st st' \<longleftrightarrow> pg_ok st' \<and> pg_rows st' = pg_rows st \<and> pg_cps st' = pg_cps st"

lemma same_tables_trans: "same_tables st st1 \<Longrightarrow> same_tables st1 st2 \<Longrightarrow> same_tables st st2"
  by (simp add: same_tables_def)

lemma hydrate_fails_plainly:
  assumes "pg_ok st" and "pg_cps st \<noteq> (\<lambda>_. None)" and "hydrate pg_ops e0 st = (Inl x, e', st')"
  shows "x = StoreFailed"
proof (cases "load_checkpoints pg_ops st")
  case (Pair rc st1)
  show ?thesis
  proof (cases rc)
    case (Inl y)
    with Pair assms(3) pg_reads_fail_plainly show ?thesis by (auto simp: hydrate_def)
  next
    case (Inr cs)
    have "cs \<noteq> []" using pg.checkpoints_reply [OF assms(1), of cs st1] Pair Inr assms(2) by auto
    with Pair Inr assms(3) obtain st2 where "load_local_versions pg_ops st1 = (Inl x, st2)"
      by (auto simp: hydrate_def Let_def split: sum.splits prod.splits)
    with pg_reads_fail_plainly show ?thesis by blast
  qed
qed

lemma resume_reads_only:
  assumes stok: "pg_ok (sv_store w)" and cps: "pg_cps (sv_store w) \<noteq> (\<lambda>_. None)"
    and run: "resume_or_bootstrap pg_ops env w = (r, w')"
  shows "same_tables (sv_store w) (sv_store w')"
    and "r = Inr () \<Longrightarrow> \<exists>cs. sv_plan w' = Some (resume_plan env cs) \<and> distinct (map cp_shard cs)
      \<and> pg_cps (sv_store w) = map_of (map (\<lambda>c. (cp_shard c, c)) cs)"
proof -
  obtain rc st where c: "load_checkpoints pg_ops (sv_store w) = (rc, st)" by fastforce
  have same: "same_tables (sv_store w) st" unfolding same_tables_def by (rule pg.checkpoints_keep [OF stok c])
  have "same_tables (sv_store w) (sv_store w')
    \<and> (r = Inr () \<longrightarrow> (\<exists>cs. sv_plan w' = Some (resume_plan env cs) \<and> distinct (map cp_shard cs)
      \<and> pg_cps (sv_store w) = map_of (map (\<lambda>c. (cp_shard c, c)) cs)))"
  proof (cases rc)
    case (Inl x)
    with run c same show ?thesis by (auto simp: resume_or_bootstrap_def)
  next
    case (Inr cs)
    have cs: "distinct (map cp_shard cs)" "pg_cps (sv_store w) = map_of (map (\<lambda>c. (cp_shard c, c)) cs)"
      using pg.checkpoints_reply [OF stok, of cs st] c Inr by blast+
    with cps have ne: "cs \<noteq> []" by auto
    obtain rh e st1 where h: "hydrate pg_ops (sv_engine w) st = (rh, e, st1)" by (cases "hydrate pg_ops (sv_engine w) st")
    have ok1: "pg_ok st" using same by (simp add: same_tables_def)
    have "same_tables st st1" unfolding same_tables_def by (rule pg.hydrate_cases [OF ok1 h])
    with same have same1: "same_tables (sv_store w) st1" by (rule same_tables_trans)
    have "pg_cps st \<noteq> (\<lambda>_. None)" using same cps by (simp add: same_tables_def)
    then have "rh = Inl x \<Longrightarrow> x = StoreFailed" for x using hydrate_fails_plainly [OF ok1 _, of "sv_engine w" x e st1] h by simp
    with run c Inr ne h same1 cs show ?thesis
      by (auto simp: resume_or_bootstrap_def is_engine_error_def Let_def split: sum.splits)
  qed
  then show "same_tables (sv_store w) (sv_store w')"
    and "r = Inr () \<Longrightarrow> \<exists>cs. sv_plan w' = Some (resume_plan env cs) \<and> distinct (map cp_shard cs)
      \<and> pg_cps (sv_store w) = map_of (map (\<lambda>c. (cp_shard c, c)) cs)" by blast+
qed

subsection \<open>The loop\<close>

definition offset_of :: "(string \<Rightarrow> shard_checkpoint option) \<Rightarrow> int \<Rightarrow> int option" where
  "offset_of cs part = Option.bind (cs (''hb-'' @ pad_int 3 part)) cp_next_offset"

text \<open>
  Every partition that is assigned has a stored offset, the one of \<open>part\<close> is no longer in the topic, and an iteration that
  is to start there ends with the error.
\<close>

definition offset_gone :: "service_env \<Rightarrow> (string \<Rightarrow> shard_checkpoint option) \<Rightarrow> int \<Rightarrow> bool" where
  "offset_gone env cs part \<longleftrightarrow>
     (\<forall>n. part \<in> set (se_assigned env n) \<and> (\<forall>p\<in>set (se_assigned env n). offset_of cs p \<noteq> None))
     \<and> (\<forall>n x ss. (part, SeekOffset (the (offset_of cs part))) \<in> set ss \<longrightarrow> se_poll env n (x, ss) = ([], PollOutOfRange))"

lemma stored_offsets_sought:
  assumes "distinct (map cp_shard cs)" and "\<forall>p\<in>set ps. offset_of (map_of (map (\<lambda>c. (cp_shard c, c)) cs)) p \<noteq> None"
  shows "on_partitions_assigned env n (resume_plan env cs) ps
    = (None, map (\<lambda>p. (p, SeekOffset (the (offset_of (map_of (map (\<lambda>c. (cp_shard c, c)) cs)) p)))) ps)"
  using assms(2)
proof (induction ps)
  case (Cons p ps)
  then obtain o1 where "offset_of (map_of (map (\<lambda>c. (cp_shard c, c)) cs)) p = Some o1" by auto
  with Cons show ?case
    by (simp add: seek_partition_def resume_plan_def map_of_next_offsets [OF assms(1)] offset_of_def)
qed simp

lemma round_reads_only:
  assumes gone: "offset_gone env (pg_cps (sv_store w)) part" and stok: "pg_ok (sv_store w)"
    and run: "service_round pg_ops env w = (r, w')"
  shows "same_tables (sv_store w) (sv_store w') \<and> (\<exists>x. r = RoundRaises x)"
proof -
  have "offset_of (pg_cps (sv_store w)) part \<noteq> None" using gone by (auto simp: offset_gone_def)
  then have cps: "pg_cps (sv_store w) \<noteq> (\<lambda>_. None)" by (auto simp: offset_of_def)
  obtain r1 w1 where s1: "resume_or_bootstrap pg_ops env w = (r1, w1)" by fastforce
  note same1 = resume_reads_only(1) [OF stok cps s1] and plan = resume_reads_only(2) [OF stok cps s1]
  show ?thesis
  proof (cases r1)
    case (Inl x)
    with run s1 same1 show ?thesis by (auto simp: service_round_def)
  next
    case (Inr u)
    then obtain cs where cs: "sv_plan w1 = Some (resume_plan env cs)" "distinct (map cp_shard cs)"
        "pg_cps (sv_store w) = map_of (map (\<lambda>c. (cp_shard c, c)) cs)"
      using plan by auto
    obtain r2 w2 where s2: "start_consumer env w1 = (r2, w2)" by fastforce
    then have w2: "sv_store w2 = sv_store w1" "sv_plan w2 = sv_plan w1"
      by (auto simp: start_consumer_def next_call_def split: if_splits)
    show ?thesis
    proof (cases r2)
      case (Inl x)
      with run s1 Inr s2 w2 same1 show ?thesis by (auto simp: service_round_def)
    next
      case (Inr u2)
      obtain n where n: "n = sv_calls w2" by blast
      have "seeks_of env n w2 = (None, map (\<lambda>p. (p, SeekOffset (the (offset_of (pg_cps (sv_store w)) p)))) (se_assigned env n))"
        unfolding seeks_of_def w2 cs using stored_offsets_sought [OF cs(2)] gone cs(3) by (simp add: offset_gone_def)
      moreover have "part \<in> set (se_assigned env n)" using gone by (simp add: offset_gone_def)
      ultimately have "se_poll env n (seeks_of env n w2) = ([], PollOutOfRange)"
        using gone by (auto simp: offset_gone_def)
      then have "poll_apply pg_ops env w2 = (RoundRaises (ResyncRequired ''kafka_offset_out_of_range''), w2\<lparr>sv_calls := Suc n\<rparr>)"
        by (simp add: poll_apply_def next_call_def n)
      with run s1 s2 Inr \<open>r1 = Inr u\<close> same1 w2 show ?thesis by (auto simp: service_round_def)
    qed
  qed
qed

text \<open>
  C33: A consumer whose offset is gone never recovers. Let Kafka have dropped the messages at the offset that is stored for a
  partition, so that reading from it raises. Then, however often the main loop goes round and whatever snapshot the
  provider would give, the loop goes on and both tables of the store stay as they are: the error asks for a
  resynchronisation, but none takes place.
\<close>
theorem lost_offset_never_resyncs:
  assumes "offset_gone env (pg_cps (sv_store w)) part" and "pg_ok (sv_store w)"
  shows "fst (service_rounds n pg_ops env w) = RoundEnds
    \<and> pg_rows (sv_store (snd (service_rounds n pg_ops env w))) = pg_rows (sv_store w)
    \<and> pg_cps (sv_store (snd (service_rounds n pg_ops env w))) = pg_cps (sv_store w)"
  using assms
proof (induction n arbitrary: w)
  case (Suc n)
  obtain r1 w1 where s1: "service_round pg_ops env w = (r1, w1)" by fastforce
  from round_reads_only [OF Suc.prems s1] obtain x where "r1 = RoundRaises x" and same: "same_tables (sv_store w) (sv_store w1)"
    by blast
  with s1 have "service_rounds (Suc n) pg_ops env w = service_rounds n pg_ops env w1" by (simp add: handle_waits)
  with Suc.IH [of w1] Suc.prems same show ?case by (simp add: same_tables_def)
qed simp

definition trimmed_env :: service_env where
  "trimmed_env = sample_service_env\<lparr>se_poll := (\<lambda>_ _. ([], PollOutOfRange))\<rparr>"

theorem lost_offset_never_resyncs_witness:
  "offset_of (pg_cps (sv_store sample_served)) 0 = Some 2
   \<and> (\<forall>n. fst (service_rounds n pg_ops trimmed_env sample_served) = RoundEnds
        \<and> pg_cps (sv_store (snd (service_rounds n pg_ops trimmed_env sample_served))) = pg_cps (sv_store sample_served))"
proof -
  have off: "offset_of (pg_cps (sv_store sample_served)) 0 = Some 2" by code_simp
  then have gone: "offset_gone trimmed_env (pg_cps (sv_store sample_served)) 0"
    by (simp add: offset_gone_def trimmed_env_def sample_service_env_def)
  have "pg_ok (sv_store sample_served)" by code_simp
  with off show ?thesis using lost_offset_never_resyncs [OF gone] by simp
qed

subsection \<open>A resynchronisation beside the main loop\<close>

definition other_agent :: string where "other_agent = ''1.2.156.3088.1.AB.12.34.9A.0002''"

definition two_agents_log :: "alive_delta list" where
  "two_agents_log = [sample_delta ''1'' Upsert, (sample_delta ''2'' Upsert)\<lparr>dv_id := alive_object_id other_agent\<rparr>]"

text \<open>The first agent is in the store; the resynchronisation cannot reach the provider; then the event of the second agent comes.\<close>

definition unreachable_env :: service_env where
  "unreachable_env = sample_service_env\<lparr>se_snapshot := (\<lambda>_. RequestFailed)\<rparr>"

definition before_resync :: "pg_store service" where
  "before_resync = snd (bootstrap pg_ops sample_service_env sample_service)\<lparr>sv_calls := 0\<rparr>"

definition after_first :: "pg_store service" where
  "after_first = (let (_, e, st) = apply_messages pg_ops [\<lparr>km_value = Some (dump_envelope (two_agents_log ! 0)), km_offset = 0\<rparr>] PollStopped
       (sv_engine before_resync) (sv_store before_resync) in before_resync\<lparr>sv_engine := e, sv_store := st\<rparr>)"

definition after_resync :: "(sync_exn, unit) result \<times> pg_store service" where
  "after_resync = (case trigger_resync pg_ops unreachable_env (Some after_first) of (r, Some w) \<Rightarrow> (r, w) | (r, None) \<Rightarrow> (r, after_first))"

definition after_second :: "poll_result \<times> engine \<times> pg_store" where
  "after_second = apply_messages pg_ops [\<lparr>km_value = Some (dump_envelope (two_agents_log ! 1)), km_offset = 1\<rparr>] PollStopped
     (sv_engine (snd after_resync)) (sv_store (snd after_resync))"


end
