(* ===== verification/AliveEnrich.thy ===== *)
theory AliveEnrich
  imports AliveSafety
begin

text \<open>
  \<open>discovery-server/app/heartbeat_sync/enrichment.py\<close>: the alive status that a discovery answer carries. The answer is
  the part of it the function looks at: whether it was made here or forwarded, the AICs of its groups, and the map.
\<close>

record discovery_result =
  dr_enrichable :: bool
  dr_agents :: "string list list"
  dr_alive_map :: "(string \<times> (string \<times> pyval) list) list option"

text \<open>The reader is \<open>None\<close> where the synchronisation is off; one that raises leaves the answer as it is.\<close>

definition attach_alive_status ::
  "(string list \<Rightarrow> 's \<Rightarrow> (sync_exn, (string \<times> alive_view) list) result \<times> 's) option \<Rightarrow> discovery_result option \<Rightarrow> 's
     \<Rightarrow> discovery_result option \<times> 's" where
  "attach_alive_status reader response st =
     (case response of
        None \<Rightarrow> (response, st)
      | Some res \<Rightarrow>
          if \<not> dr_enrichable res then (response, st)
          else (case reader of
            None \<Rightarrow> (response, st)
          | Some views_of \<Rightarrow>
              let aics = concat (dr_agents res) in
              if aics = [] then (response, st)
              else (case views_of aics st of
                (Inl _, st') \<Rightarrow> (response, st')
              | (Inr alive_views, st') \<Rightarrow>
                  if alive_views = [] then (response, st')
                  else (Some (res\<lparr>dr_alive_map := Some (map (\<lambda>(aic, v). (aic, to_output_dict v)) alive_views)\<rparr>), st'))))"

definition view_dict :: "alive_record \<Rightarrow> (string \<times> pyval) list" where
  "view_dict r = to_output_dict \<lparr>av_aic = ar_aic r, av_alive = ar_alive r, av_last_seen = ar_last_seen r\<rparr>"

lemma map_of_views:
  "map_of (map (\<lambda>(aic, v). (aic, to_output_dict v)) (map (\<lambda>(aic, row). (aic, \<lparr>av_aic = aic, av_alive = ar_alive row,
       av_last_seen = ar_last_seen row\<rparr>)) (filter (\<lambda>(aic, row). aic \<in> A) rs))) a
   = (if a \<in> A then map_option (\<lambda>r. to_output_dict \<lparr>av_aic = a, av_alive = ar_alive r, av_last_seen = ar_last_seen r\<rparr>) (map_of rs a) else None)"
  by (induction rs) auto

text \<open>
  A discovery answer says of its agents what the store has. A map that is attached to an answer made here has an
  entry for exactly the agents of the answer that the store knows, with the state stored for each; an answer that was
  forwarded is left as it came, and one that cannot be completed keeps the map it had.
\<close>
theorem attached_status_is_stored:
  assumes "pg_ok st" and "attach_alive_status (Some (load_alive_views pg_ops)) (Some res) st = (response, st')"
  shows "\<exists>res'. response = Some res' \<and> dr_agents res' = dr_agents res
    \<and> (dr_alive_map res' = dr_alive_map res
       \<or> dr_enrichable res \<and> (\<exists>m. dr_alive_map res' = Some m
            \<and> (\<forall>a. map_of m a = (if a \<in> set (concat (dr_agents res)) then map_option view_dict (pg_rows st a) else None))))
    \<and> (\<not> dr_enrichable res \<longrightarrow> res' = res)"
proof (cases "dr_enrichable res \<and> concat (dr_agents res) \<noteq> []")
  case True
  obtain aics where aics: "aics = concat (dr_agents res)" by blast
  obtain rv st1 where v: "pg_load_alive_views aics st = (rv, st1)" by fastforce
  have run: "(case rv of Inl _ \<Rightarrow> (Some res, st1)
      | Inr vs \<Rightarrow> if vs = [] then (Some res, st1)
          else (Some (res\<lparr>dr_alive_map := Some (map (\<lambda>(aic, v). (aic, to_output_dict v)) vs)\<rparr>), st1)) = (response, st')"
    using assms(2) True v by (simp add: attach_alive_status_def pg_ops_def Let_def aics [symmetric] split: sum.splits)
  show ?thesis
  proof (cases rv)
    case (Inl x)
    with True run show ?thesis by auto
  next
    case (Inr vs)
    have "aics \<noteq> []" using True aics by simp
    then have vs: "vs = map (\<lambda>(aic, row). (aic, \<lparr>av_aic = aic, av_alive = ar_alive row, av_last_seen = ar_last_seen row\<rparr>))
        (filter (\<lambda>(aic, row). aic \<in> set aics) (agent_rows st))"
      using v Inr by (auto simp: pg_load_alive_views_def elim!: transactionE)
    obtain m where m: "m = map (\<lambda>(aic, v). (aic, to_output_dict v)) vs" by blast
    have "map_of m a = (if a \<in> set aics then map_option view_dict (pg_rows st a) else None)" for a
      unfolding m vs map_of_views pg_rows_def view_dict_def
      using pg_ok_agent [OF assms(1), of a] by (cases "map_of (agent_rows st) a") auto
    then show ?thesis using True run Inr unfolding aics [symmetric] by (cases "vs = []") (auto simp: m)
  qed
next
  case False
  then have "attach_alive_status (Some (load_alive_views pg_ops)) (Some res) st = (Some res, st)"
    unfolding attach_alive_status_def by (auto simp: Let_def)
  with assms(2) have "response = Some res" by simp
  then show ?thesis by blast
qed

definition sample_answer :: discovery_result where
  "sample_answer = \<lparr>dr_enrichable = True, dr_agents = [[''x''], [sample_agent]], dr_alive_map = None\<rparr>"

definition sample_attached :: "discovery_result option \<times> pg_store" where
  "sample_attached = attach_alive_status (Some (load_alive_views pg_ops)) (Some sample_answer) (snd started)"

theorem attached_status_is_stored_witness:
  "\<exists>res' m. fst sample_attached = Some res' \<and> dr_alive_map res' = Some m
     \<and> map_of m sample_agent = map_option view_dict (pg_rows (snd started) sample_agent)"
proof -
  have "case fst sample_attached of None \<Rightarrow> False | Some res' \<Rightarrow> dr_alive_map res' \<noteq> None" by code_simp
  then obtain res' where res': "fst sample_attached = Some res'" "dr_alive_map res' \<noteq> None" by (auto split: option.splits)
  have ok: "pg_ok (snd started)" by code_simp
  have "attach_alive_status (Some (load_alive_views pg_ops)) (Some sample_answer) (snd started) = (Some res', snd sample_attached)"
    using res'(1) by (simp add: sample_attached_def prod_eq_iff)
  from attached_status_is_stored [OF ok this] res'(2) obtain m where "dr_alive_map res' = Some m"
      "map_of m sample_agent = map_option view_dict (pg_rows (snd started) sample_agent)"
    by (auto simp: sample_answer_def)
  with res'(1) show ?thesis by blast
qed

end
