(* ===== verification/AicInterface.thy ===== *)
theory AicInterface
  imports Prelude
begin

text \<open>
  The interface of an AIC format check. Three parts of the repository carry one of their own: the
  SDK (\<open>acps_sdk/aic\<close>), the MQ authentication server (\<open>app/core/validation.py\<close>) and the
  registry. Whoever builds names out of AICs (queues, exchanges, cache keys, object ids) relies on
  the laws below only: a valid AIC has a canonical form, which is valid again, is its own canonical
  form, and is made of digits, capital letters and dots. The client lemmas show that the separators
  the names use cannot occur in a canonical AIC, so a name can be taken apart again.
\<close>

definition aic_char :: "char \<Rightarrow> bool" where
  "aic_char c = (is_digit c \<or> is_upper c \<or> c = CHR ''.'')"

lemma aic_char_not_underscore: "aic_char c \<Longrightarrow> c \<noteq> CHR ''_''"
  by (auto simp: aic_char_def is_digit_def is_upper_def ord_def)

lemma aic_char_not_colon: "aic_char c \<Longrightarrow> c \<noteq> CHR '':''"
  by (auto simp: aic_char_def is_digit_def is_upper_def ord_def)

lemma aic_char_not_space: "aic_char c \<Longrightarrow> \<not> is_space c"
  by (auto simp: aic_char_def is_digit_def is_upper_def is_space_def ord_def Let_def)

lemma aic_char_not_lower: "aic_char c \<Longrightarrow> \<not> is_lower c"
  by (auto simp: aic_char_def is_digit_def is_upper_def is_lower_def ord_def Let_def)

locale aic_format =
  fixes valid :: "string \<Rightarrow> bool"
    and canon :: "string \<Rightarrow> string"
  assumes canon_valid: "valid a \<Longrightarrow> valid (canon a)"
    and canon_idem: "valid a \<Longrightarrow> canon (canon a) = canon a"
    and canon_chars: "valid a \<Longrightarrow> list_all aic_char (canon a)"
    and canon_not_empty: "valid a \<Longrightarrow> canon a \<noteq> []"
begin

lemma underscore_not_in_canon: "valid a \<Longrightarrow> CHR ''_'' \<notin> set (canon a)"
  using canon_chars [of a] aic_char_not_underscore by (auto simp: list_all_iff)

lemma colon_not_in_canon: "valid a \<Longrightarrow> CHR '':'' \<notin> set (canon a)"
  using canon_chars [of a] aic_char_not_colon by (auto simp: list_all_iff)

lemma canon_no_space: "valid a \<Longrightarrow> list_all (\<lambda>c. \<not> is_space c) (canon a)"
  using canon_chars [of a] aic_char_not_space by (auto simp: list_all_iff)

lemma canon_no_lower: "valid a \<Longrightarrow> list_all (\<lambda>c. \<not> is_lower c) (canon a)"
  using canon_chars [of a] aic_char_not_lower by (auto simp: list_all_iff)

lemma canon_strip_upper: "valid a \<Longrightarrow> upper (strip (canon a)) = canon a"
  by (simp add: strip_id canon_no_space upper_id canon_no_lower)

lemma split_pair:
  assumes "valid l" and "CHR ''_'' \<notin> set g"
  shows "split_on (CHR ''_'') (''group_'' @ canon l @ ''_'' @ g) = [''group'', canon l, g]"
  using assms underscore_not_in_canon [OF assms(1)]
  by (simp add: split_on_append split_on_no_sep)

lemma split_triple:
  assumes "valid l" and "valid m" and "CHR ''_'' \<notin> set g"
  shows "split_on (CHR ''_'') (''group_'' @ canon l @ ''_'' @ g @ ''_'' @ canon m)
    = [''group'', canon l, g, canon m]"
  using assms underscore_not_in_canon [OF assms(1)] underscore_not_in_canon [OF assms(2)]
  by (simp add: split_on_append split_on_no_sep)

end

end
