(* ===== verification/Base36.thy ===== *)
theory Base36
  imports AicInterface
begin

text \<open>
  The Base36 coding of \<open>acps-sdk/acps_sdk/aic/__init__.py\<close>: the encoder with its digit loop, the
  decoder with its error for a foreign character, and the round trip between the two.
\<close>

definition BASE36_ALPHABET :: string where
  "BASE36_ALPHABET = ''0123456789ABCDEFGHIJKLMNOPQRSTUVWXYZ''"

text \<open>The index dictionary built from the alphabet by \<open>enumerate\<close>.\<close>

fun index_from :: "nat \<Rightarrow> 'a list \<Rightarrow> 'a \<Rightarrow> nat option" where
  "index_from i [] x = None"
| "index_from i (y # ys) x = (if x = y then Some i else index_from (Suc i) ys x)"

definition BASE36_INDEX :: "char \<Rightarrow> nat option" where
  "BASE36_INDEX = index_from 0 BASE36_ALPHABET"

datatype base36_error =
    NegativeNumber int
  | NotBase36Char char

text \<open>The \<open>while num > 0\<close> loop: digits are appended, least significant first.\<close>

function base36_loop :: "int \<Rightarrow> string \<Rightarrow> string" where
  "base36_loop num digits =
     (if num > 0 then base36_loop (num div 36) (digits @ [BASE36_ALPHABET ! nat (num mod 36)])
      else digits)"
  by pat_completeness auto
termination
  by (relation "measure (\<lambda>(num, digits). nat num)") auto

declare base36_loop.simps [simp del]

definition base36_encode :: "int \<Rightarrow> int \<Rightarrow> (base36_error, string) result" where
  "base36_encode num len =
     (if num < 0 then Inl (NegativeNumber num)
      else
        let encoded = (if num = 0 then ''0'' else rev (base36_loop num []))
        in Inr (if len > 0 then rjust (nat len) (CHR ''0'') encoded else encoded))"

text \<open>The \<open>for ch in s\<close> loop of the decoder, with its running value.\<close>

fun base36_decode_loop :: "int \<Rightarrow> string \<Rightarrow> (base36_error, int) result" where
  "base36_decode_loop val [] = Inr val"
| "base36_decode_loop val (ch # s) =
     (case BASE36_INDEX ch of
        None \<Rightarrow> Inl (NotBase36Char ch)
      | Some i \<Rightarrow> base36_decode_loop (val * 36 + int i) s)"

definition base36_decode :: "string \<Rightarrow> (base36_error, int) result" where
  "base36_decode s = (if s = [] then Inr 0 else base36_decode_loop 0 (upper (strip s)))"

definition is_base36 :: "char \<Rightarrow> bool" where
  "is_base36 c = (is_digit c \<or> is_upper c)"

subsection \<open>The alphabet\<close>

lemma alphabet_length: "length BASE36_ALPHABET = 36"
  by (simp add: BASE36_ALPHABET_def)

lemma alphabet_distinct: "distinct BASE36_ALPHABET"
  by (simp add: BASE36_ALPHABET_def)

lemma index_from_nth:
  "distinct ys \<Longrightarrow> k < length ys \<Longrightarrow> index_from i ys (ys ! k) = Some (i + k)"
  by (induction ys arbitrary: i k) (auto simp: nth_Cons' in_set_conv_nth)

lemma base36_index_nth [simp]: "k < 36 \<Longrightarrow> BASE36_INDEX (BASE36_ALPHABET ! k) = Some k"
  using index_from_nth [OF alphabet_distinct, of k 0]
  by (simp add: BASE36_INDEX_def alphabet_length)

lemma alphabet_base36: "list_all is_base36 BASE36_ALPHABET"
  by (simp add: BASE36_ALPHABET_def is_base36_def is_digit_def is_upper_def ord_def)

lemma nth_base36: "k < 36 \<Longrightarrow> is_base36 (BASE36_ALPHABET ! k)"
  using alphabet_base36 by (simp add: list_all_length alphabet_length)

lemma is_base36_aic_char: "is_base36 c \<Longrightarrow> aic_char c"
  by (auto simp: is_base36_def aic_char_def)

lemma not_base36_dot [simp]: "\<not> is_base36 (CHR ''.'')"
  by (simp add: is_base36_def is_digit_def is_upper_def ord_def)

subsection \<open>Encoding\<close>

lemma base36_loop_append: "base36_loop n ds = ds @ base36_loop n []"
proof (induction "nat n" arbitrary: n ds rule: less_induct)
  case less
  show ?case
  proof (cases "n > 0")
    case True
    let ?d = "BASE36_ALPHABET ! nat (n mod 36)"
    from True have lt: "nat (n div 36) < nat n" by simp
    have "base36_loop n ds = base36_loop (n div 36) (ds @ [?d])"
      using True by (subst base36_loop.simps) simp
    also have "\<dots> = ds @ [?d] @ base36_loop (n div 36) []"
      using less [OF lt, of "ds @ [?d]"] by simp
    also have "[?d] @ base36_loop (n div 36) [] = base36_loop n []"
      using True less [OF lt, of "[?d]"] by (subst (2) base36_loop.simps) simp
    finally show ?thesis .
  next
    case False
    then show ?thesis by (simp add: base36_loop.simps)
  qed
qed

lemma base36_loop_step:
  assumes "n > 0"
  shows "base36_loop n [] = BASE36_ALPHABET ! nat (n mod 36) # base36_loop (n div 36) []"
  using assms base36_loop_append [of "n div 36" "[BASE36_ALPHABET ! nat (n mod 36)]"]
  by (subst base36_loop.simps) simp

lemma base36_loop_stop [simp]: "n \<le> 0 \<Longrightarrow> base36_loop n ds = ds"
  by (subst base36_loop.simps) simp

lemma base36_loop_chars: "list_all is_base36 (base36_loop n [])"
proof (induction "nat n" arbitrary: n rule: less_induct)
  case less
  show ?case
  proof (cases "n > 0")
    case True
    then have "list_all is_base36 (base36_loop (n div 36) [])" by (intro less) simp
    with True show ?thesis by (simp add: base36_loop_step nth_base36)
  qed simp
qed

lemma base36_loop_length: "0 \<le> n \<Longrightarrow> n < 36 ^ k \<Longrightarrow> length (base36_loop n []) \<le> k"
proof (induction k arbitrary: n)
  case (Suc k)
  show ?case
  proof (cases "n > 0")
    case True
    with Suc.prems have "n div 36 < 36 ^ k" by simp
    with True Suc.IH [of "n div 36"] show ?thesis by (simp add: base36_loop_step)
  qed simp
qed simp

lemma is_base36_zero [simp]: "is_base36 (CHR ''0'')"
  by (simp add: is_base36_def)

lemma base36_loop_not_Nil: "n > 0 \<Longrightarrow> base36_loop n [] \<noteq> []"
  by (simp add: base36_loop_step)

lemma base36_encode_ok:
  assumes "0 \<le> n"
  shows "\<exists>s. base36_encode n len = Inr s \<and> s \<noteq> [] \<and> list_all is_base36 s"
proof (cases "n = 0")
  case True
  then show ?thesis by (simp add: base36_encode_def rjust_def list_all_iff Let_def)
next
  case False
  with assms base36_loop_chars [of n] base36_loop_not_Nil [of n] show ?thesis
    by (auto simp: base36_encode_def rjust_def list_all_iff Let_def)
qed

lemma base36_encode_length:
  assumes "0 \<le> n" and "n < 36 ^ k" and "0 < k" and "base36_encode n (int k) = Inr s"
  shows "length s = k"
  using assms base36_loop_length [OF assms(1,2)]
  by (auto simp: base36_encode_def Let_def rjust_def)

subsection \<open>Decoding\<close>

lemma base36_decode_loop_append:
  "base36_decode_loop v (s @ t) = bind_result (base36_decode_loop v s) (\<lambda>w. base36_decode_loop w t)"
  by (induction v s rule: base36_decode_loop.induct) (auto split: option.splits)

lemma base36_decode_loop_digits:
  "0 \<le> n \<Longrightarrow> base36_decode_loop 0 (rev (base36_loop n [])) = Inr n"
proof (induction "nat n" arbitrary: n rule: less_induct)
  case less
  show ?case
  proof (cases "n > 0")
    case True
    then have "base36_decode_loop 0 (rev (base36_loop (n div 36) [])) = Inr (n div 36)"
      by (intro less) auto
    with True show ?thesis
      by (simp add: base36_loop_step base36_decode_loop_append nat_less_iff)
  next
    case False
    with less.prems show ?thesis by simp
  qed
qed

lemma base36_index_zero [simp]: "BASE36_INDEX (CHR ''0'') = Some 0"
  by (simp add: BASE36_INDEX_def BASE36_ALPHABET_def)

lemma base36_decode_loop_zeros:
  "base36_decode_loop 0 (replicate k (CHR ''0'') @ s) = base36_decode_loop 0 s"
  by (induction k) simp_all

lemma base36_upper_strip: "list_all is_base36 s \<Longrightarrow> upper (strip s) = s"
proof -
  assume h: "list_all is_base36 s"
  have "list_all (\<lambda>c. \<not> is_space c) s" and "list_all (\<lambda>c. \<not> is_lower c) s"
    using h is_base36_aic_char aic_char_not_space aic_char_not_lower by (auto simp: list_all_iff)
  then show ?thesis by (simp add: strip_id upper_id)
qed

lemma base36_roundtrip:
  assumes "0 \<le> n"
  shows "bind_result (base36_encode n len) base36_decode = Inr n"
proof -
  obtain s where s: "base36_encode n len = Inr s" "s \<noteq> []" "list_all is_base36 s"
    using base36_encode_ok [OF assms] by blast
  let ?e = "if n = 0 then ''0'' else rev (base36_loop n [])"
  have e: "base36_decode_loop 0 ?e = Inr n"
    using base36_decode_loop_digits [OF assms] by simp
  have "s = (if len > 0 then rjust (nat len) (CHR ''0'') ?e else ?e)"
    using s(1) assms by (simp add: base36_encode_def Let_def)
  then have "base36_decode_loop 0 s = Inr n"
    using e by (simp only: rjust_def base36_decode_loop_zeros split: if_split) simp
  with s show ?thesis by (simp add: base36_decode_def base36_upper_strip)
qed

lemma base36_encode_inject:
  "0 \<le> m \<Longrightarrow> 0 \<le> n \<Longrightarrow> base36_encode m len = base36_encode n len \<Longrightarrow> m = n"
  by (metis base36_roundtrip sum.inject(2))

end
