(* ===== verification/Crc16.thy ===== *)
theory Crc16
  imports Main "HOL-Library.Word"
begin

unbundle bit_operations_syntax

text \<open>
  The CRC-16/CCITT-FALSE of \<open>AICValidator._crc16_ccitt_false\<close>. The Python integer is masked with
  \<open>0xFFFF\<close> after every shift, which is a 16-bit word. Each step of the code's inner loop is
  injective, so two messages of the same length that differ in one byte have different checksums;
  and the byte-wise loop agrees with the shift register that takes the message bit by bit.
\<close>

definition crc_bit :: "16 word \<Rightarrow> 16 word" where
  "crc_bit crc =
     (if crc AND 0x8000 \<noteq> 0 then push_bit 1 crc XOR 0x1021 else push_bit 1 crc)"

definition crc_byte :: "16 word \<Rightarrow> 8 word \<Rightarrow> 16 word" where
  "crc_byte crc b = (crc_bit ^^ 8) (crc XOR push_bit 8 (ucast b))"

definition crc16_ccitt_false :: "8 word list \<Rightarrow> 16 word" where
  "crc16_ccitt_false data = foldl crc_byte 0xFFFF data"

lemma crc_byte_unfold:
  "crc_byte crc b = crc_bit (crc_bit (crc_bit (crc_bit (crc_bit (crc_bit (crc_bit (crc_bit
     (crc XOR push_bit 8 (ucast b)))))))))"
  by (simp add: crc_byte_def numeral_eq_Suc)

text \<open>The published check value of CRC-16/CCITT-FALSE.\<close>

lemma crc16_check_value:
  "crc16_ccitt_false [0x31, 0x32, 0x33, 0x34, 0x35, 0x36, 0x37, 0x38, 0x39] = 0x29B1"
  by (simp add: crc16_ccitt_false_def crc_byte_unfold crc_bit_def)

subsection \<open>Injectivity\<close>

lemma and_single_bit: "crc AND push_bit m 1 = (if bit crc m then push_bit m 1 else 0)"
  for crc :: "16 word"
  by (intro bit_word_eqI) (auto simp: bit_simps)

lemma top_bit: "crc AND 0x8000 \<noteq> 0 \<longleftrightarrow> bit crc 15" for crc :: "16 word"
proof -
  have "(0x8000 :: 16 word) = push_bit 15 1" by simp
  then show ?thesis using and_single_bit [of crc 15] by simp
qed

lemma bit_shift_one: "bit (push_bit (Suc 0) x) n \<longleftrightarrow> 0 < n \<and> n < 16 \<and> bit x (n - 1)"
  for x :: "16 word"
  by (cases n) (auto simp: bit_simps simp del: push_bit_Suc)

lemma crc_bit_low: "bit (crc_bit x) 0 \<longleftrightarrow> bit x 15"
  unfolding crc_bit_def top_bit One_nat_def by (simp add: bit_xor_iff bit_shift_one del: push_bit_Suc)

lemma xor_right_cancel: "x XOR a = y XOR a \<Longrightarrow> x = y" for a x y :: "'a::len word"
  by (metis xor.right_neutral xor.assoc xor_self_eq)

lemma crc_bit_inj: "inj crc_bit"
proof (rule injI)
  fix x y :: "16 word"
  assume eq: "crc_bit x = crc_bit y"
  then have top: "bit x 15 = bit y 15" by (metis crc_bit_low)
  with eq have sh: "push_bit (Suc 0) x = push_bit (Suc 0) y"
    unfolding crc_bit_def top_bit One_nat_def by (metis xor_right_cancel)
  show "x = y"
  proof (rule bit_word_eqI)
    fix n assume n: "n < LENGTH(16)"
    show "bit x n = bit y n"
    proof (cases "n = 15")
      case False
      with n have "bit (push_bit (Suc 0) x) (Suc n) = bit x n"
        "bit (push_bit (Suc 0) y) (Suc n) = bit y n"
        by (simp_all add: bit_shift_one del: push_bit_Suc)
      with sh show ?thesis by simp
    qed (simp add: top)
  qed
qed

lemma crc_bits_inj: "inj (crc_bit ^^ n)"
  by (induction n) (simp_all add: crc_bit_inj inj_compose del: comp_apply)

lemma bit_byte_high: "n < 8 \<Longrightarrow> bit (push_bit 8 (ucast b :: 16 word)) (n + 8) = bit b n"
  for b :: "8 word"
  by (simp add: bit_simps)

lemma push_ucast_inj:
  fixes b c :: "8 word"
  assumes "push_bit 8 (ucast b :: 16 word) = push_bit 8 (ucast c)"
  shows "b = c"
proof (rule bit_word_eqI)
  fix n assume n: "n < LENGTH(8)"
  then have n8: "n < 8" by simp
  show "bit b n = bit c n"
    using bit_byte_high [OF n8, of b] bit_byte_high [OF n8, of c] assms by metis
qed

lemma xor_left_cancel: "a XOR x = a XOR y \<Longrightarrow> x = y" for a x y :: "'a::len word"
  by (metis xor.left_neutral xor.assoc xor_self_eq)

lemma crc_byte_inj_crc: "crc_byte x b = crc_byte y b \<Longrightarrow> x = y"
  unfolding crc_byte_def
  by (metis crc_bits_inj injD xor.commute xor_left_cancel)

lemma crc_byte_inj_byte: "crc_byte x b = crc_byte x c \<Longrightarrow> b = c"
  unfolding crc_byte_def
  by (metis crc_bits_inj injD xor_left_cancel push_ucast_inj)

lemma foldl_crc_inj: "foldl crc_byte x bs = foldl crc_byte y bs \<Longrightarrow> x = y"
  by (induction bs arbitrary: x y) (auto dest: crc_byte_inj_crc)

lemma crc16_single_byte:
  "b \<noteq> c \<Longrightarrow> crc16_ccitt_false (p @ b # q) \<noteq> crc16_ccitt_false (p @ c # q)"
  unfolding crc16_ccitt_false_def
  by (auto dest!: foldl_crc_inj crc_byte_inj_byte)

subsection \<open>The shift register that takes one message bit at a time\<close>

definition serial_bit :: "16 word \<Rightarrow> bool \<Rightarrow> 16 word" where
  "serial_bit crc b =
     (if bit crc 15 \<noteq> b then push_bit 1 crc XOR 0x1021 else push_bit 1 crc)"

definition byte_bits :: "8 word \<Rightarrow> bool list" where
  "byte_bits b = map (bit b) (rev [0..<8])"

definition crc16_serial :: "8 word list \<Rightarrow> 16 word" where
  "crc16_serial data = foldl serial_bit 0xFFFF (concat (map byte_bits data))"

text \<open>The bits of a list, placed at the top of a register.\<close>

fun top_bits :: "bool list \<Rightarrow> 16 word" where
  "top_bits [] = 0"
| "top_bits (b # bs) = (if b then push_bit 15 1 else 0) XOR drop_bit 1 (top_bits bs)"

lemma bit_top_bits:
  "bit (top_bits bs) n \<longleftrightarrow> n \<le> 15 \<and> 15 - n < length bs \<and> bs ! (15 - n)"
proof (induction bs arbitrary: n)
  case Nil
  then show ?case by simp
next
  case (Cons b bs)
  have "bit (drop_bit 1 (top_bits bs)) n \<longleftrightarrow> bit (top_bits bs) (Suc n)"
    by (simp add: bit_drop_bit_eq)
  moreover have "bit (if b then push_bit 15 1 else (0 :: 16 word)) n \<longleftrightarrow> b \<and> n = 15"
    using bit_push_bit_iff [of 15 "1 :: 16 word" n] by (auto simp: bit_simps)
  ultimately show ?case
    using Cons.IH [of "Suc n"]
    by (cases "n = 15") (auto simp: bit_xor_iff nth_Cons' Suc_diff_le)
qed

lemma shift_top_bits:
  "length bs < 16 \<Longrightarrow> push_bit 1 (top_bits (b # bs)) = top_bits bs"
proof (rule bit_word_eqI)
  fix n assume len: "length bs < 16" and n: "n < LENGTH(16)"
  show "bit (push_bit 1 (top_bits (b # bs))) n = bit (top_bits bs) n"
  proof (cases n)
    case 0
    with len show ?thesis
      using bit_shift_one [of "top_bits (b # bs)" 0] bit_top_bits [of bs 0] by simp
  next
    case (Suc m)
    with n have "bit (push_bit 1 (top_bits (b # bs))) n = bit (top_bits (b # bs)) m"
      using bit_shift_one [of "top_bits (b # bs)" n] by simp
    with Suc n show ?thesis
      by (auto simp: bit_top_bits nth_Cons' simp del: top_bits.simps)
  qed
qed

lemma push_one_xor: "push_bit 1 (x XOR y) = push_bit 1 x XOR push_bit 1 y" for x y :: "16 word"
  by (rule push_bit_xor)

lemma crc_bit_serial:
  assumes "length bs < 16"
  shows "crc_bit (crc XOR top_bits (b # bs)) = serial_bit crc b XOR top_bits bs"
proof -
  have top: "bit (crc XOR top_bits (b # bs)) 15 \<longleftrightarrow> bit crc 15 \<noteq> b"
    using bit_top_bits [of "b # bs" 15] by (simp add: bit_xor_iff del: top_bits.simps)
  have sh: "push_bit 1 (crc XOR top_bits (b # bs)) = push_bit 1 crc XOR top_bits bs"
    using shift_top_bits [OF assms] push_one_xor by metis
  show ?thesis
    unfolding crc_bit_def top_bit serial_bit_def top sh
    by (simp add: xor.assoc xor.commute xor.left_commute)
qed

lemma crc_bits_serial:
  "length bs \<le> 16 \<Longrightarrow> (crc_bit ^^ length bs) (crc XOR top_bits bs) = foldl serial_bit crc bs"
proof (induction bs arbitrary: crc)
  case Nil
  then show ?case by simp
next
  case (Cons b bs)
  have "(crc_bit ^^ length (b # bs)) (crc XOR top_bits (b # bs))
      = (crc_bit ^^ length bs) (crc_bit (crc XOR top_bits (b # bs)))"
    by (simp add: funpow_swap1 del: top_bits.simps)
  also have "\<dots> = (crc_bit ^^ length bs) (serial_bit crc b XOR top_bits bs)"
    using Cons.prems by (subst crc_bit_serial) auto
  finally show ?case using Cons by simp
qed

lemma top_bits_byte: "top_bits (byte_bits b) = push_bit 8 (ucast b)"
proof (rule bit_word_eqI)
  fix n assume n: "n < LENGTH(16)"
  have "bit (push_bit 8 (ucast b :: 16 word)) n \<longleftrightarrow> 8 \<le> n \<and> bit b (n - 8)"
    using n by (auto simp: bit_simps)
  moreover have "n \<le> 15 \<and> 15 - n < length (byte_bits b) \<and> byte_bits b ! (15 - n)
      \<longleftrightarrow> 8 \<le> n \<and> bit b (n - 8)"
    using n by (auto simp: byte_bits_def rev_nth)
  ultimately show "bit (top_bits (byte_bits b)) n = bit (push_bit 8 (ucast b :: 16 word)) n"
    by (simp add: bit_top_bits)
qed

lemma crc_byte_serial: "crc_byte crc b = foldl serial_bit crc (byte_bits b)"
proof -
  have "length (byte_bits b) = 8" by (simp add: byte_bits_def)
  with crc_bits_serial [of "byte_bits b" crc] show ?thesis
    by (simp add: crc_byte_def top_bits_byte)
qed

lemma foldl_crc_serial: "foldl crc_byte crc data = foldl serial_bit crc (concat (map byte_bits data))"
  by (induction data arbitrary: crc) (simp_all add: crc_byte_serial)

text \<open>C30: the byte-wise CRC loop of the AIC validator (XOR a byte into the top, then eight conditional
  shifts) computes the same checksum as the reference shift register of polynomial 0x1021, start
  value 0xFFFF, that takes the message bit by bit, most significant bit first, for every message.\<close>

theorem crc16_matches_shift_register: "crc16_ccitt_false data = crc16_serial data"
  by (simp add: crc16_ccitt_false_def crc16_serial_def foldl_crc_serial)

end
