(* ===== verification/Aic.thy ===== *)
theory Aic
  imports Base36 Crc16
begin

text \<open>
  \<open>acps-sdk/acps_sdk/aic/__init__.py\<close>: normalising and splitting an agent identity code, the
  format check with its error for every rejected level, the parsed record and its properties, and
  the validator with its salted CRC and its remembered last error.
\<close>

definition AIC_PREFIX :: string where
  "AIC_PREFIX = ''1.2.156.3088''"

subsection \<open>Normalising and splitting\<close>

definition aic_normalize :: "string \<Rightarrow> string" where
  "aic_normalize text = (if text = [] then [] else upper (filter (\<lambda>c. \<not> is_space c) text))"

definition split_aic :: "string \<Rightarrow> string list" where
  "split_aic aic =
     (let normalized = aic_normalize aic in
      if normalized = [] then []
      else
        let parts = split_on (CHR ''.'') normalized in
        if list_ex (\<lambda>p. p = []) parts then [] else parts)"

subsection \<open>The format check\<close>

datatype aic_error =
    AicEmpty
  | SegmentCount nat
  | PrefixMismatch string string
  | NotDigits nat string
  | NotBase36 nat string
  | BadLength nat nat nat nat

text \<open>\<open>_SEGMENT_CONSTRAINTS\<close>: the shortest and the longest form of each level from 5 to 10.\<close>

definition SEGMENT_CONSTRAINTS :: "(nat \<times> nat \<times> nat) list" where
  "SEGMENT_CONSTRAINTS = [(5, 1, 1), (6, 1, 6), (7, 1, 6), (8, 1, 9), (9, 1, 9), (10, 4, 4)]"

definition segment_constraint :: "nat \<Rightarrow> nat \<times> nat" where
  "segment_constraint level =
     (case map_of SEGMENT_CONSTRAINTS level of None \<Rightarrow> (0, 0) | Some b \<Rightarrow> b)"

definition re_base36 :: "string \<Rightarrow> bool" where
  "re_base36 s = (s \<noteq> [] \<and> list_all is_base36 s)"

text \<open>The two loops over the levels, stopping at the first level that is wrong.\<close>

fun digit_level_error :: "string list \<Rightarrow> nat list \<Rightarrow> aic_error option" where
  "digit_level_error parts [] = None"
| "digit_level_error parts (i # is) =
     (if \<not> all_digits (parts ! i) then Some (NotDigits (i + 1) (parts ! i))
      else digit_level_error parts is)"

fun base36_level_error :: "string list \<Rightarrow> nat list \<Rightarrow> aic_error option" where
  "base36_level_error parts [] = None"
| "base36_level_error parts (level # levels) =
     (let seg = parts ! (level - 1); (min_len, max_len) = segment_constraint level in
      if \<not> re_base36 seg then Some (NotBase36 level seg)
      else if \<not> (min_len \<le> length seg \<and> length seg \<le> max_len)
      then Some (BadLength level min_len max_len (length seg))
      else base36_level_error parts levels)"

definition validate_aic_format :: "string \<Rightarrow> string \<Rightarrow> bool \<times> aic_error option" where
  "validate_aic_format aic expected_prefix =
     (if aic = [] then (False, Some AicEmpty)
      else
        let parts = split_aic aic in
        if length parts \<noteq> 10 then (False, Some (SegmentCount (length parts)))
        else
          let prefix_parts = split_on (CHR ''.'') expected_prefix;
              actual_prefix = take (length prefix_parts) parts in
          if expected_prefix \<noteq> [] \<and> actual_prefix \<noteq> prefix_parts
          then (False, Some (PrefixMismatch expected_prefix (join_with ''.'' actual_prefix)))
          else
            case digit_level_error parts [0, 1, 2, 3] of
              Some e \<Rightarrow> (False, Some e)
            | None \<Rightarrow>
                (case base36_level_error parts [5, 6, 7, 8, 9, 10] of
                   Some e \<Rightarrow> (False, Some e)
                 | None \<Rightarrow> (True, None)))"

definition is_valid_aic_format :: "string \<Rightarrow> string \<Rightarrow> bool" where
  "is_valid_aic_format aic expected_prefix = fst (validate_aic_format aic expected_prefix)"

subsection \<open>The parsed code\<close>

record aic_info =
  raw :: string
  normalized :: string
  aic_prefix :: string
  version :: string
  arsp :: string
  vendor :: string
  ontology_serial :: string
  instance_serial :: string
  checksum :: string

definition is_ontology :: "aic_info \<Rightarrow> bool" where
  "is_ontology info = (set (instance_serial info) = {CHR ''0''})"

definition is_entity :: "aic_info \<Rightarrow> bool" where
  "is_entity info = (\<not> is_ontology info)"

definition aic_body :: "aic_info \<Rightarrow> string" where
  "aic_body info = join_with ''.'' [aic_prefix info, version info, arsp info, vendor info,
     ontology_serial info, instance_serial info]"

definition ontology_prefix :: "aic_info \<Rightarrow> string" where
  "ontology_prefix info = join_with ''.'' [aic_prefix info, version info, arsp info, vendor info,
     ontology_serial info]"

definition parse_aic :: "string \<Rightarrow> aic_info option" where
  "parse_aic aic =
     (if \<not> is_valid_aic_format aic AIC_PREFIX then None
      else
        let parts = split_aic aic in
        Some \<lparr>raw = aic, normalized = join_with ''.'' parts,
          aic_prefix = join_with ''.'' (take 4 parts), version = parts ! 4, arsp = parts ! 5,
          vendor = parts ! 6, ontology_serial = parts ! 7, instance_serial = parts ! 8,
          checksum = parts ! 9\<rparr>)"

definition get_aic_segment :: "string \<Rightarrow> int \<Rightarrow> string option" where
  "get_aic_segment aic level =
     (if \<not> (1 \<le> level \<and> level \<le> 10) then None
      else
        let parts = split_aic aic in
        if length parts \<noteq> 10 then None else Some (parts ! nat (level - 1)))"

definition is_ontology_aic :: "string \<Rightarrow> bool" where
  "is_ontology_aic aic = (case parse_aic aic of None \<Rightarrow> False | Some info \<Rightarrow> is_ontology info)"

definition is_entity_aic :: "string \<Rightarrow> bool" where
  "is_entity_aic aic = (case parse_aic aic of None \<Rightarrow> False | Some info \<Rightarrow> is_entity info)"

definition get_ontology_prefix_from_aic :: "string \<Rightarrow> string option" where
  "get_ontology_prefix_from_aic aic = map_option ontology_prefix (parse_aic aic)"

subsection \<open>The validator\<close>

datatype validator_error =
    FormatError aic_error
  | NoSalt
  | ParseFailed
  | CrcMismatch "string option" string

datatype salt_error = NotHex | SaltTypeError

record aic_validator =
  v_salt :: "8 word list option"
  v_last_error :: "validator_error option"

text \<open>The argument of the constructor: the code tests its type.\<close>

datatype salt_arg = SaltNone | SaltBytes "8 word list" | SaltStr string | SaltOther

definition hex_value :: "char \<Rightarrow> nat option" where
  "hex_value c =
     (let n = ord c in
      if is_digit c then Some (n - 48)
      else if 65 \<le> n \<and> n \<le> 70 then Some (n - 55)
      else if 97 \<le> n \<and> n \<le> 102 then Some (n - 87)
      else None)"

definition is_c_space :: "char \<Rightarrow> bool" where
  "is_c_space c = (let n = ord c in n = 32 \<or> (9 \<le> n \<and> n \<le> 13))"

text \<open>\<open>bytes.fromhex\<close>: pairs of hexadecimal digits, with white space allowed between pairs.\<close>

fun fromhex :: "string \<Rightarrow> (salt_error, 8 word list) result" where
  "fromhex [] = Inr []"
| "fromhex [c] = (if is_c_space c then Inr [] else Inl NotHex)"
| "fromhex (c # d # s) =
     (if is_c_space c then fromhex (d # s)
      else
        case (hex_value c, hex_value d) of
          (Some h, Some l) \<Rightarrow> bind_result (fromhex s) (\<lambda>bs. Inr (of_nat (16 * h + l) # bs))
        | _ \<Rightarrow> Inl NotHex)"

definition parse_hex_salt :: "string \<Rightarrow> (salt_error, 8 word list) result" where
  "parse_hex_salt hex_str =
     (let s1 = strip hex_str;
          s2 = (if startswith (lower s1) ''0x'' then drop 2 s1 else s1);
          s3 = (if length s2 mod 2 \<noteq> 0 then CHR ''0'' # s2 else s2)
      in fromhex s3)"

definition new_validator :: "salt_arg \<Rightarrow> (salt_error, aic_validator) result" where
  "new_validator arg =
     (case arg of
        SaltNone \<Rightarrow> Inr \<lparr>v_salt = None, v_last_error = None\<rparr>
      | SaltBytes bs \<Rightarrow> Inr \<lparr>v_salt = Some bs, v_last_error = None\<rparr>
      | SaltStr s \<Rightarrow>
          bind_result (parse_hex_salt s) (\<lambda>bs. Inr \<lparr>v_salt = Some bs, v_last_error = None\<rparr>)
      | SaltOther \<Rightarrow> Inl SaltTypeError)"

definition has_salt :: "aic_validator \<Rightarrow> bool" where
  "has_salt v = (v_salt v \<noteq> None)"

definition encode_ascii :: "string \<Rightarrow> 8 word list" where
  "encode_ascii s = map (\<lambda>c. of_nat (ord c)) s"

text \<open>
  The checksum of a body. The encoder cannot raise here, as the CRC is not negative
  (\<open>checksum_some\<close> below).
\<close>

definition calculate_checksum :: "aic_validator \<Rightarrow> string \<Rightarrow> string option" where
  "calculate_checksum v body_1_9 =
     (case v_salt v of
        None \<Rightarrow> None
      | Some salt \<Rightarrow>
          let crc = crc16_ccitt_false (encode_ascii (aic_normalize body_1_9) @ salt) in
          case base36_encode (uint crc) 4 of Inl _ \<Rightarrow> None | Inr s \<Rightarrow> Some s)"

definition validate :: "aic_validator \<Rightarrow> string \<Rightarrow> string \<Rightarrow> bool \<Rightarrow> bool \<times> aic_validator" where
  "validate v aic expected_prefix require_crc =
     (let v0 = v\<lparr>v_last_error := None\<rparr>;
          fail = (\<lambda>e. (False, v0\<lparr>v_last_error := Some e\<rparr>))
      in case validate_aic_format aic expected_prefix of
           (False, error) \<Rightarrow> (False, v0\<lparr>v_last_error := map_option FormatError error\<rparr>)
         | (True, _) \<Rightarrow>
             (case v_salt v of
                None \<Rightarrow> (if require_crc then fail NoSalt else (True, v0))
              | Some _ \<Rightarrow>
                  (case parse_aic aic of
                     None \<Rightarrow> fail ParseFailed
                   | Some info \<Rightarrow>
                       let expected_crc = calculate_checksum v (aic_body info) in
                       if expected_crc \<noteq> Some (checksum info)
                       then fail (CrcMismatch expected_crc (checksum info))
                       else (True, v0))))"

definition validate_with_detail ::
  "aic_validator \<Rightarrow> string \<Rightarrow> string
     \<Rightarrow> (bool \<times> validator_error option \<times> aic_info option) \<times> aic_validator" where
  "validate_with_detail v aic expected_prefix =
     (let (is_valid, v') = validate v aic expected_prefix False;
          info = (if is_valid \<or> v_last_error v' \<noteq> None then parse_aic aic else None)
      in ((is_valid, v_last_error v', info), v'))"


subsection \<open>The well-formed segment lists\<close>

text \<open>What the specification asks of the ten segments of a code.\<close>

definition segments_ok :: "string list \<Rightarrow> bool" where
  "segments_ok parts =
     (length parts = 10 \<and> list_all all_digits (take 4 parts) \<and>
      list_all2 (\<lambda>seg (lo, hi). re_base36 seg \<and> lo \<le> length seg \<and> length seg \<le> hi)
        (drop 4 parts) (map snd SEGMENT_CONSTRAINTS))"

definition prefix_ok :: "string \<Rightarrow> string list \<Rightarrow> bool" where
  "prefix_ok expected_prefix parts =
     (expected_prefix = [] \<or>
      take (length (split_on (CHR ''.'') expected_prefix)) parts = split_on (CHR ''.'') expected_prefix)"

lemma list_of_10: "length xs = 10 \<Longrightarrow>
  xs = [xs ! 0, xs ! 1, xs ! 2, xs ! 3, xs ! 4, xs ! 5, xs ! 6, xs ! 7, xs ! 8, xs ! 9]"
  by (rule nth_equalityI) (auto simp: less_Suc_eq numeral_eq_Suc)

lemma segment_constraint_simps [simp]:
  "segment_constraint 5 = (1, 1)" "segment_constraint 6 = (1, 6)" "segment_constraint 7 = (1, 6)"
  "segment_constraint 8 = (1, 9)" "segment_constraint 9 = (1, 9)" "segment_constraint 10 = (4, 4)"
  by (simp_all add: segment_constraint_def SEGMENT_CONSTRAINTS_def)

lemma digit_level_error_None:
  "digit_level_error parts is = None \<longleftrightarrow> (\<forall>i\<in>set is. all_digits (parts ! i))"
  by (induction parts "is" rule: digit_level_error.induct) auto

lemma base36_level_error_None:
  "base36_level_error parts levels = None \<longleftrightarrow>
     (\<forall>l\<in>set levels. re_base36 (parts ! (l - 1)) \<and> fst (segment_constraint l) \<le> length (parts ! (l - 1))
        \<and> length (parts ! (l - 1)) \<le> snd (segment_constraint l))"
  by (induction parts levels rule: base36_level_error.induct) (auto simp: Let_def split: prod.splits)

lemma level_errors_None:
  assumes "length parts = 10"
  shows "digit_level_error parts [0, 1, 2, 3] = None
      \<and> base36_level_error parts [5, 6, 7, 8, 9, 10] = None \<longleftrightarrow> segments_ok parts"
proof -
  obtain a b c d e f g h i j where "parts = [a, b, c, d, e, f, g, h, i, j]"
    using list_of_10 [OF assms] by blast
  then show ?thesis
    unfolding digit_level_error_None base36_level_error_None
    by (simp add: segments_ok_def SEGMENT_CONSTRAINTS_def conj_ac)
qed

lemma split_aic_eq:
  "length (split_aic aic) = 10 \<Longrightarrow> split_aic aic = split_on (CHR ''.'') (aic_normalize aic)"
  by (auto simp: split_aic_def Let_def split: if_splits)

lemmas level_error_simps = digit_level_error.simps base36_level_error.simps

lemma validate_aic_format_iff:
  "validate_aic_format aic pre = (True, None) \<longleftrightarrow>
     segments_ok (split_aic aic) \<and> prefix_ok pre (split_aic aic)"
proof (cases "length (split_aic aic) = 10")
  case True
  then have "aic \<noteq> []" by (auto simp: split_aic_def aic_normalize_def)
  with True level_errors_None [OF True] show ?thesis
    by (cases "digit_level_error (split_aic aic) [0, 1, 2, 3]";
        cases "base36_level_error (split_aic aic) [5, 6, 7, 8, 9, 10]")
       (auto simp: validate_aic_format_def Let_def prefix_ok_def simp del: level_error_simps)
next
  case False
  then show ?thesis
    by (simp add: validate_aic_format_def segments_ok_def Let_def del: level_error_simps)
qed

lemma validate_aic_format_error:
  "fst (validate_aic_format aic pre) \<longleftrightarrow> snd (validate_aic_format aic pre) = None"
  by (simp add: validate_aic_format_def Let_def del: level_error_simps split: option.splits)

lemma is_valid_iff:
  "is_valid_aic_format aic pre \<longleftrightarrow> segments_ok (split_aic aic) \<and> prefix_ok pre (split_aic aic)"
  unfolding is_valid_aic_format_def validate_aic_format_iff [symmetric]
  using validate_aic_format_error [of aic pre] by (cases "validate_aic_format aic pre") auto

lemma segments_ok_parts:
  "segments_ok parts \<Longrightarrow> p \<in> set parts \<Longrightarrow> p \<noteq> [] \<and> list_all is_base36 p"
proof -
  assume ok: "segments_ok parts" and p: "p \<in> set parts"
  have "p \<in> set (take 4 parts) \<or> p \<in> set (drop 4 parts)"
    using p by (metis append_take_drop_id set_append UnE)
  then show ?thesis
  proof
    assume "p \<in> set (take 4 parts)"
    with ok have "all_digits p" by (auto simp: segments_ok_def list_all_iff)
    then show ?thesis by (auto simp: all_digits_def list_all_iff is_base36_def)
  next
    assume "p \<in> set (drop 4 parts)"
    with ok have "re_base36 p"
      by (auto simp: segments_ok_def list_all2_conv_all_nth in_set_conv_nth case_prod_beta)
    then show ?thesis by (simp add: re_base36_def)
  qed
qed

subsection \<open>Canonical codes\<close>

lemma normalize_no_lower: "list_all (\<lambda>c. \<not> is_lower c) (aic_normalize a)"
  by (auto simp: aic_normalize_def upper_def list_all_iff upper_char_not_lower)

lemma normalize_idem [simp]: "aic_normalize (aic_normalize a) = aic_normalize a"
  by (auto simp: aic_normalize_def filter_upper)

lemma normalize_id:
  "list_all aic_char a \<Longrightarrow> aic_normalize a = a"
proof -
  assume h: "list_all aic_char a"
  have "filter (\<lambda>c. \<not> is_space c) a = a"
    using h aic_char_not_space by (auto simp: filter_id_conv list_all_iff)
  moreover have "upper a = a"
    using h aic_char_not_lower by (intro upper_id) (auto simp: list_all_iff)
  ultimately show ?thesis by (simp add: aic_normalize_def)
qed

lemma split_normalize [simp]: "split_aic (aic_normalize a) = split_aic a"
  by (simp add: split_aic_def)

lemma is_valid_normalize [simp]:
  "is_valid_aic_format (aic_normalize a) pre = is_valid_aic_format a pre"
  by (simp add: is_valid_iff)

lemma valid_parts:
  assumes "is_valid_aic_format a pre"
  shows "length (split_aic a) = 10" and "segments_ok (split_aic a)"
    and "split_aic a = split_on (CHR ''.'') (aic_normalize a)"
    and "join_with ''.'' (split_aic a) = aic_normalize a"
proof -
  from assms show ok: "segments_ok (split_aic a)" by (simp add: is_valid_iff)
  then show len: "length (split_aic a) = 10" by (simp add: segments_ok_def)
  show eq: "split_aic a = split_on (CHR ''.'') (aic_normalize a)" by (rule split_aic_eq [OF len])
  show "join_with ''.'' (split_aic a) = aic_normalize a" unfolding eq by simp
qed

lemma valid_normalized_chars:
  assumes "is_valid_aic_format a pre"
  shows "list_all aic_char (aic_normalize a)"
proof -
  have "aic_char c" if "c \<in> set (join_with ''.'' (split_aic a))" for c
    using set_join [OF that] segments_ok_parts [OF valid_parts(2) [OF assms]] is_base36_aic_char
    by (auto simp: list_all_iff) (simp add: aic_char_def)
  with valid_parts(4) [OF assms] show ?thesis by (simp add: list_all_iff)
qed

text \<open>The SDK's format check provides the interface of an AIC format.\<close>

interpretation sdk_aic: aic_format "\<lambda>a. is_valid_aic_format a pre" aic_normalize for pre
proof unfold_locales
  fix a assume v: "is_valid_aic_format a pre"
  then show "is_valid_aic_format (aic_normalize a) pre" by simp
  show "aic_normalize (aic_normalize a) = aic_normalize a" by simp
  show "list_all aic_char (aic_normalize a)" using v by (rule valid_normalized_chars)
  show "aic_normalize a \<noteq> []"
    using valid_parts(1,4) [OF v] by (auto simp: split_aic_def)
qed

subsection \<open>Parsing\<close>

lemma parse_aic_Some:
  "parse_aic a = Some info \<longleftrightarrow>
     is_valid_aic_format a AIC_PREFIX \<and>
     info = \<lparr>raw = a, normalized = aic_normalize a,
       aic_prefix = join_with ''.'' (take 4 (split_aic a)), version = split_aic a ! 4,
       arsp = split_aic a ! 5, vendor = split_aic a ! 6, ontology_serial = split_aic a ! 7,
       instance_serial = split_aic a ! 8, checksum = split_aic a ! 9\<rparr>"
  using valid_parts(4) [of a AIC_PREFIX] by (auto simp: parse_aic_def Let_def)

lemma parse_aic_None: "parse_aic a = None \<longleftrightarrow> \<not> is_valid_aic_format a AIC_PREFIX"
  by (simp add: parse_aic_def Let_def)

lemma join_take_4:
  "length parts = 10 \<Longrightarrow>
   join_with ''.'' [join_with ''.'' (take 4 parts), parts ! 4, parts ! 5, parts ! 6, parts ! 7, parts ! 8]
     @ ''.'' @ parts ! 9 = join_with ''.'' parts"
  by (drule list_of_10, erule ssubst) simp

lemma parse_body_checksum:
  assumes "parse_aic a = Some info"
  shows "normalized info = aic_body info @ ''.'' @ checksum info"
    and "normalized info = aic_normalize a"
proof -
  from assms have v: "is_valid_aic_format a AIC_PREFIX" by (simp add: parse_aic_Some)
  from assms show "normalized info = aic_normalize a" by (simp add: parse_aic_Some)
  then show "normalized info = aic_body info @ ''.'' @ checksum info"
    using assms valid_parts(4) [OF v] join_take_4 [OF valid_parts(1) [OF v]]
    by (simp add: parse_aic_Some aic_body_def)
qed

end
