(* ===== verification/AicProps.thy ===== *)
theory AicProps
  imports Aic
begin

text \<open>
  What the AIC module promises: the format check accepts exactly the well-formed segment lists,
  parsing and printing are inverse, the Base36 coding round-trips, the checksum of a body is the only
  one the validator accepts, and a validator with a salt notices every single-character change of a
  body.
\<close>

subsection \<open>The validator\<close>

lemma checksum_some:
  assumes "v_salt v = Some s"
  shows "\<exists>c. calculate_checksum v b = Some c \<and> length c = 4 \<and> re_base36 c"
proof -
  let ?crc = "uint (crc16_ccitt_false (encode_ascii (aic_normalize b) @ s))"
  have bound: "?crc < 36 ^ 4"
    using uint_bounded [of "crc16_ccitt_false (encode_ascii (aic_normalize b) @ s)"] by simp
  obtain c where c: "base36_encode ?crc 4 = Inr c" "c \<noteq> []" "list_all is_base36 c"
    using base36_encode_ok [of ?crc 4] by auto
  moreover have "length c = 4"
    using base36_encode_length [of ?crc 4 c] bound c(1) by simp
  ultimately show ?thesis
    using assms by (simp add: calculate_checksum_def re_base36_def)
qed

lemma body_is_normalized:
  assumes "parse_aic a = Some info"
  shows "aic_normalize (aic_body info) = aic_body info"
proof -
  have "list_all aic_char (normalized info)"
    using assms valid_normalized_chars [of a AIC_PREFIX] by (simp add: parse_aic_Some)
  then have "list_all aic_char (aic_body info)"
    by (simp add: parse_body_checksum(1) [OF assms])
  then show ?thesis by (rule normalize_id)
qed

lemma validate_with_salt:
  assumes "v_salt v = Some s" and "parse_aic a = Some info"
  shows "fst (validate v a AIC_PREFIX rc) \<longleftrightarrow> calculate_checksum v (aic_body info) = Some (checksum info)"
proof -
  have "is_valid_aic_format a AIC_PREFIX" using assms(2) by (simp add: parse_aic_Some)
  then have "validate_aic_format a AIC_PREFIX = (True, None)"
    using validate_aic_format_iff is_valid_iff by blast
  with assms show ?thesis by (auto simp: validate_def Let_def)
qed

lemma checksum_inj:
  assumes "v_salt v = Some s"
    and "calculate_checksum v b = Some c" and "calculate_checksum v b' = Some c"
  shows "crc16_ccitt_false (encode_ascii (aic_normalize b) @ s)
    = crc16_ccitt_false (encode_ascii (aic_normalize b') @ s)" (is "?x = ?y")
proof -
  from assms have "base36_encode (uint ?x) 4 = Inr c" "base36_encode (uint ?y) 4 = Inr c"
    by (auto simp: calculate_checksum_def Let_def split: sum.splits)
  then have "uint ?x = uint ?y" by (intro base36_encode_inject [of _ _ 4]) simp_all
  then show ?thesis by (simp only: word_uint_eq_iff)
qed

lemma ascii_byte_inject: "(of_nat (ord c) :: 8 word) = of_nat (ord d) \<longleftrightarrow> c = d"
proof
  assume eq: "(of_nat (ord c) :: 8 word) = of_nat (ord d)"
  have "unat (of_nat (ord x) :: 8 word) = ord x" for x
    using ord_bound [of x] by (simp add: unat_of_nat)
  then have "ord c = ord d" using arg_cong [OF eq, of unat] by metis
  then show "c = d" by (simp only: ord_inject)
qed simp

lemma split_aic_join:
  assumes "ps \<noteq> []" and "\<And>p. p \<in> set ps \<Longrightarrow> p \<noteq> [] \<and> list_all is_base36 p"
  shows "split_aic (join_with ''.'' ps) = ps" and "aic_normalize (join_with ''.'' ps) = join_with ''.'' ps"
proof -
  have "list_all aic_char (join_with ''.'' ps)"
    using set_join [of _ "''.''" ps] assms(2) is_base36_aic_char
    by (auto simp: list_all_iff aic_char_def dest!: set_join)
  then show norm: "aic_normalize (join_with ''.'' ps) = join_with ''.'' ps" by (rule normalize_id)
  have split: "split_on (CHR ''.'') (join_with ''.'' ps) = ps"
    using assms by (intro split_join) (metis list_all_iff not_base36_dot)+
  obtain p qs where ps: "ps = p # qs" using assms(1) by (cases ps) auto
  then have "join_with ''.'' ps \<noteq> []" using assms(2) by (cases qs) auto
  with norm split assms show "split_aic (join_with ''.'' ps) = ps"
    by (auto simp: split_aic_def list_ex_iff Let_def)
qed

lemma recheck_segments:
  assumes "parse_aic a = Some info" and "length c = 4" and "re_base36 c"
  shows "parse_aic (aic_body info @ ''.'' @ c)
    = Some (info\<lparr>raw := aic_body info @ ''.'' @ c, normalized := aic_body info @ ''.'' @ c, checksum := c\<rparr>)"
proof -
  from assms(1) have v: "is_valid_aic_format a AIC_PREFIX" by (simp add: parse_aic_Some)
  obtain p0 p1 p2 p3 p4 p5 p6 p7 p8 p9 where
    parts: "split_aic a = [p0, p1, p2, p3, p4, p5, p6, p7, p8, p9]"
    using list_of_10 [OF valid_parts(1) [OF v]] by blast
  let ?ps = "[p0, p1, p2, p3, p4, p5, p6, p7, p8, c]"
  let ?new = "aic_body info @ ''.'' @ c"
  have new: "?new = join_with ''.'' ?ps"
    using assms(1) parts by (simp add: parse_aic_Some aic_body_def)
  have seg: "segments_ok ?ps"
    using valid_parts(2) [OF v] assms(2,3) parts by (simp add: segments_ok_def SEGMENT_CONSTRAINTS_def)
  have ne: "p \<noteq> [] \<and> list_all is_base36 p" if "p \<in> set ?ps" for p
    using segments_ok_parts [OF seg that] .
  have sp: "split_aic ?new = ?ps" and norm: "aic_normalize ?new = ?new"
    unfolding new using ne by (intro split_aic_join; blast)+
  have "prefix_ok AIC_PREFIX ?ps"
    using v parts by (simp add: is_valid_iff prefix_ok_def AIC_PREFIX_def)
  then have "is_valid_aic_format ?new AIC_PREFIX"
    unfolding is_valid_iff sp using seg by simp
  then show ?thesis
    using assms(1) parts unfolding parse_aic_Some sp norm by simp
qed

lemma corrupted_body:
  assumes "v_salt v = Some s" and "parse_aic a = Some info" and "parse_aic a' = Some info'"
    and "aic_body info = p @ x # q" and "aic_body info' = p @ y # q" and "x \<noteq> y"
  shows "calculate_checksum v (aic_body info) \<noteq> calculate_checksum v (aic_body info')"
proof
  assume "calculate_checksum v (aic_body info) = calculate_checksum v (aic_body info')"
  then obtain c where "calculate_checksum v (aic_body info) = Some c"
    "calculate_checksum v (aic_body info') = Some c"
    using checksum_some [OF assms(1)] by metis
  then have "crc16_ccitt_false (encode_ascii (aic_body info) @ s)
      = crc16_ccitt_false (encode_ascii (aic_body info') @ s)"
    using checksum_inj [OF assms(1)] body_is_normalized assms(2,3) by metis
  then show False
    using crc16_single_byte [of "of_nat (ord x)" "of_nat (ord y)" "encode_ascii p" "encode_ascii q @ s"]
      assms(4-6) ascii_byte_inject
    by (simp add: encode_ascii_def)
qed

subsection \<open>A concrete code\<close>

definition sample_aic :: string where
  "sample_aic = ''1.2.156.3088.1.A1.V2.S3.0.08I6''"

lemma sample_parse: "parse_aic sample_aic = Some
   \<lparr>raw = sample_aic, normalized = sample_aic, aic_prefix = ''1.2.156.3088'', version = ''1'',
     arsp = ''A1'', vendor = ''V2'', ontology_serial = ''S3'', instance_serial = ''0'',
     checksum = ''08I6''\<rparr>"
  by code_simp

definition changed_aic :: string where
  "changed_aic = ''1.2.156.3088.1.A2.V2.S3.0.08I6''"

lemma changed_parse: "parse_aic changed_aic = Some
   \<lparr>raw = changed_aic, normalized = changed_aic, aic_prefix = ''1.2.156.3088'', version = ''1'',
     arsp = ''A2'', vendor = ''V2'', ontology_serial = ''S3'', instance_serial = ''0'',
     checksum = ''08I6''\<rparr>"
  by code_simp

definition sample_validator :: aic_validator where
  "sample_validator = \<lparr>v_salt = Some [0x12, 0x34], v_last_error = None\<rparr>"

lemma sample_salt: "v_salt sample_validator = Some [0x12, 0x34]"
  by (simp add: sample_validator_def)

lemma sample_checksum:
  "calculate_checksum sample_validator ''1.2.156.3088.1.A1.V2.S3.0'' = Some ''08I6''"
proof -
  have "encode_ascii (aic_normalize ''1.2.156.3088.1.A1.V2.S3.0'') =
      [49, 46, 50, 46, 49, 53, 54, 46, 51, 48, 56, 56, 46, 49, 46, 65, 49, 46, 86, 50, 46, 83, 51, 46, 48]"
    by (simp add: aic_normalize_def is_space_def upper_def upper_char_def is_lower_def
        encode_ascii_def ord_def)
  then show ?thesis
    by (simp add: calculate_checksum_def sample_validator_def crc16_ccitt_false_def crc_byte_unfold
        crc_bit_def base36_encode_def base36_loop_step BASE36_ALPHABET_def rjust_def)
qed

lemma sample_validates: "fst (validate sample_validator sample_aic AIC_PREFIX rc)"
proof -
  from validate_with_salt [OF sample_salt sample_parse] sample_checksum show ?thesis
    by (simp add: aic_body_def)
qed

subsection \<open>Properties\<close>

text \<open>C27: the SDK's format check returns (True, None) exactly on the strings whose normalised form has
  ten non-empty segments that satisfy the level constraints (four numeric levels, then Base36 levels
  within their length bounds) and that start with the expected prefix, if one is given; on every
  other string it returns False together with an error.\<close>

theorem aic_format_check_exact:
  "(validate_aic_format aic pre = (True, None) \<longleftrightarrow>
      segments_ok (split_aic aic) \<and> prefix_ok pre (split_aic aic))
   \<and> (fst (validate_aic_format aic pre) \<longleftrightarrow> snd (validate_aic_format aic pre) = None)"
  by (simp add: validate_aic_format_iff validate_aic_format_error)

text \<open>Base36 encoding to any target length followed by decoding gives the number back, and a negative
  number is the only one the encoder rejects.\<close>

theorem base36_encode_decode:
  "bind_result (base36_encode n len) base36_decode = (if n < 0 then Inl (NegativeNumber n) else Inr n)"
  using base36_roundtrip [of n len] by (simp add: base36_encode_def)

text \<open>parsing is stable under normalisation: a code that parses consists of its body, a dot and its
  checksum; parsing the normalised string again gives the same fields; and it is either an ontology
  code or an entity code, never both.\<close>

theorem parse_aic_stable:
  assumes "parse_aic a = Some info"
  shows "normalized info = aic_body info @ ''.'' @ checksum info
    \<and> parse_aic (normalized info) = Some (info\<lparr>raw := normalized info\<rparr>)
    \<and> is_ontology_aic a \<noteq> is_entity_aic a"
proof (intro conjI)
  show "normalized info = aic_body info @ ''.'' @ checksum info" by (rule parse_body_checksum(1) [OF assms])
  show "parse_aic (normalized info) = Some (info\<lparr>raw := normalized info\<rparr>)"
    using assms by (simp add: parse_aic_Some)
  show "is_ontology_aic a \<noteq> is_entity_aic a"
    by (simp add: assms is_ontology_aic_def is_entity_aic_def is_entity_def)
qed

theorem parse_aic_stable_witness:
  "normalized (the (parse_aic sample_aic)) =
     aic_body (the (parse_aic sample_aic)) @ ''.'' @ checksum (the (parse_aic sample_aic))"
  using parse_aic_stable [OF sample_parse] unfolding sample_parse option.sel by (rule conjunct1)

text \<open>a validator that has a salt accepts exactly one four-character Base36 checksum for the body of
  a well-formed code, whatever checksum the code carried and whether or not the CRC is required.\<close>

theorem validator_accepts_one_checksum:
  assumes "v_salt v = Some s" and "parse_aic a = Some info"
  shows "\<exists>!c. length c = 4 \<and> re_base36 c \<and> fst (validate v (aic_body info @ ''.'' @ c) AIC_PREFIX rc)"
proof -
  have accept: "fst (validate v (aic_body info @ ''.'' @ c) AIC_PREFIX rc)
      \<longleftrightarrow> calculate_checksum v (aic_body info) = Some c"
    if "length c = 4" "re_base36 c" for c
    using validate_with_salt [OF assms(1) recheck_segments [OF assms(2) that]]
    by (simp add: aic_body_def)
  obtain c where "calculate_checksum v (aic_body info) = Some c" "length c = 4" "re_base36 c"
    using checksum_some [OF assms(1)] by blast
  then show ?thesis using accept by (intro ex1I [of _ c]) auto
qed

theorem validator_accepts_one_checksum_witness:
  "\<exists>!c. length c = 4 \<and> re_base36 c \<and>
     fst (validate sample_validator (aic_body (the (parse_aic sample_aic)) @ ''.'' @ c) AIC_PREFIX True)"
  using validator_accepts_one_checksum [OF sample_salt sample_parse, of True]
  unfolding sample_parse option.sel .

text \<open>C31: a validator that has a salt notices a change of a single character: two codes it accepts whose
  bodies differ in one character have different checksums, so a corrupted body is rejected with the
  checksum it had.\<close>

theorem single_character_change_detected:
  assumes "v_salt v = Some s" and "parse_aic a = Some info" and "parse_aic a' = Some info'"
    and "aic_body info = p @ x # q" and "aic_body info' = p @ y # q" and "x \<noteq> y"
    and "checksum info' = checksum info" and "fst (validate v a AIC_PREFIX rc)"
  shows "\<not> fst (validate v a' AIC_PREFIX rc)"
  using corrupted_body [OF assms(1-6)] validate_with_salt [OF assms(1,2)]
    validate_with_salt [OF assms(1,3)] assms(7,8)
  by simp

theorem single_character_change_detected_witness:
  "\<not> fst (validate sample_validator changed_aic AIC_PREFIX False)"
  by (rule single_character_change_detected [OF sample_salt sample_parse changed_parse,
      of "''1.2.156.3088.1.A''" "CHR ''1''" "''.V2.S3.0''" "CHR ''2''" False])
    (simp_all add: aic_body_def sample_validates)

text \<open>a salted validator cannot be used with a prefix of its own: a code that is well-formed for the
  prefix the caller expects, but does not carry the default prefix, is rejected with the error for an
  unparsable code, because the code is parsed again with the default prefix.\<close>

theorem salted_validation_needs_default_prefix:
  assumes "v_salt v = Some s" and "is_valid_aic_format a pre" and "\<not> prefix_ok AIC_PREFIX (split_aic a)"
  shows "validate v a pre rc = (False, v\<lparr>v_last_error := Some ParseFailed\<rparr>)"
proof -
  have "validate_aic_format a pre = (True, None)"
    using assms(2) validate_aic_format_iff is_valid_iff by blast
  moreover have "parse_aic a = None"
    using assms(3) by (simp add: parse_aic_None is_valid_iff)
  ultimately show ?thesis using assms(1) by (simp add: validate_def Let_def)
qed

theorem salted_validation_needs_default_prefix_witness:
  "validate sample_validator ''1.2.840.1.1.A1.V2.S3.0.ABCD'' ''1.2.840.1'' False =
     (False, sample_validator\<lparr>v_last_error := Some ParseFailed\<rparr>)"
proof (rule salted_validation_needs_default_prefix)
  show "v_salt sample_validator = Some [0x12, 0x34]" by (rule sample_salt)
  show "is_valid_aic_format ''1.2.840.1.1.A1.V2.S3.0.ABCD'' ''1.2.840.1''" by code_simp
  show "\<not> prefix_ok AIC_PREFIX (split_aic ''1.2.840.1.1.A1.V2.S3.0.ABCD'')" by code_simp
qed

end
