(* ===== verification/MqValidation.thy ===== *)
theory MqValidation
  imports AicInterface
begin

text \<open>
  \<open>mq-auth-server/app/core/validation.py\<close>: the server's own format checks for agent identity codes
  and group ids, which unlike the SDK's do not normalise, and the common name of a peer certificate.
  The AIC check provides the interface of an AIC format, with the identity as its canonical form.
\<close>

definition mq_AIC_PREFIX :: "string list" where
  "mq_AIC_PREFIX = [''1'', ''2'', ''156'', ''3088'']"

definition mq_SEGMENT_CONSTRAINTS :: "(nat \<times> nat \<times> nat) list" where
  "mq_SEGMENT_CONSTRAINTS = [(5, 1, 1), (6, 1, 6), (7, 1, 6), (8, 1, 9), (9, 1, 9), (10, 4, 4)]"

definition mq_re_base36 :: "string \<Rightarrow> bool" where
  "mq_re_base36 s = (s \<noteq> [] \<and> list_all (\<lambda>c. is_digit c \<or> is_upper c) s)"

text \<open>The loop over the levels 5 to 10, which returns at the first level that is wrong.\<close>

fun mq_levels :: "string list \<Rightarrow> (nat \<times> nat \<times> nat) list \<Rightarrow> bool" where
  "mq_levels parts [] = True"
| "mq_levels parts ((level, min_len, max_len) # rest) =
     (let segment = parts ! (level - 1) in
      if \<not> mq_re_base36 segment then False
      else if \<not> (min_len \<le> length segment \<and> length segment \<le> max_len) then False
      else mq_levels parts rest)"

definition mq_validate_aic_format :: "string \<Rightarrow> string list \<Rightarrow> bool" where
  "mq_validate_aic_format aic expected_prefix =
     (if aic = [] then False
      else
        let parts = split_on (CHR ''.'') aic in
        if length parts \<noteq> 10 then False
        else if expected_prefix \<noteq> [] \<and> take (length expected_prefix) parts \<noteq> expected_prefix then False
        else if \<not> list_all (\<lambda>index. all_digits (parts ! index)) [0, 1, 2, 3] then False
        else mq_levels parts mq_SEGMENT_CONSTRAINTS)"

abbreviation mq_valid_aic :: "string \<Rightarrow> bool" where
  "mq_valid_aic aic \<equiv> mq_validate_aic_format aic mq_AIC_PREFIX"

definition group_id_char :: "char \<Rightarrow> bool" where
  "group_id_char c = (is_lower c \<or> is_upper c \<or> is_digit c \<or> c = CHR ''-'')"

definition validate_group_id_format :: "string \<Rightarrow> bool" where
  "validate_group_id_format group_id =
     (if group_id = [] then False
      else if \<not> list_all group_id_char group_id then False
      else length group_id \<le> 128)"

text \<open>The common name of a peer certificate, as \<open>ssl.getpeercert()\<close> lays it out.\<close>

fun mq_cn_attribute :: "pyval \<Rightarrow> string option" where
  "mq_cn_attribute (PTuple [PStr k, PStr v]) = (if k = ''commonName'' then Some v else None)"
| "mq_cn_attribute _ = None"

fun mq_cn_rdns :: "pyval \<Rightarrow> string option" where
  "mq_cn_rdns (PTuple attributes) = first_some mq_cn_attribute attributes"
| "mq_cn_rdns _ = None"

definition mq_extract_common_name :: "(string \<times> pyval) list option \<Rightarrow> string option" where
  "mq_extract_common_name peer_certificate =
     (case peer_certificate of
        None \<Rightarrow> None
      | Some cert \<Rightarrow>
          (case dict_get cert ''subject'' of
             PTuple subject \<Rightarrow> first_some mq_cn_rdns subject
           | _ \<Rightarrow> None))"

subsection \<open>The interface\<close>

lemma mq_levels_parts:
  "mq_levels parts cs \<longleftrightarrow> (\<forall>(level, lo, hi)\<in>set cs. mq_re_base36 (parts ! (level - 1))
     \<and> lo \<le> length (parts ! (level - 1)) \<and> length (parts ! (level - 1)) \<le> hi)"
  by (induction parts cs rule: mq_levels.induct) (auto simp: Let_def)

lemma less_10: "k < (10 :: nat) \<longleftrightarrow> k \<in> {0, 1, 2, 3, 4, 5, 6, 7, 8, 9}"
  by auto

lemma mq_valid_parts:
  assumes "mq_validate_aic_format a pre"
  shows "length (split_on (CHR ''.'') a) = 10"
    and "p \<in> set (split_on (CHR ''.'') a) \<Longrightarrow> p \<noteq> [] \<and> list_all aic_char p"
proof -
  let ?parts = "split_on (CHR ''.'') a"
  from assms show len: "length ?parts = 10"
    by (simp add: mq_validate_aic_format_def Let_def split: if_splits)
  have dig: "list_all (\<lambda>index. all_digits (?parts ! index)) [0, 1, 2, 3]"
    and lev: "mq_levels ?parts mq_SEGMENT_CONSTRAINTS"
    using assms by (auto simp only: mq_validate_aic_format_def Let_def split: if_splits)
  have high: "mq_re_base36 (?parts ! i)" if "i \<in> {4, 5, 6, 7, 8, 9}" for i
    using lev that by (auto simp: mq_levels_parts mq_SEGMENT_CONSTRAINTS_def)
  show "p \<noteq> [] \<and> list_all aic_char p" if "p \<in> set ?parts"
  proof -
    obtain i where i: "i < 10" "p = ?parts ! i" using \<open>p \<in> set ?parts\<close> len by (metis in_set_conv_nth)
    then have "all_digits p \<or> mq_re_base36 p"
      using dig high unfolding less_10 by auto
    then show ?thesis by (auto simp: all_digits_def mq_re_base36_def list_all_iff aic_char_def)
  qed
qed

lemma mq_valid_chars: "mq_validate_aic_format a pre \<Longrightarrow> list_all aic_char a"
proof -
  assume v: "mq_validate_aic_format a pre"
  have "aic_char c" if "c \<in> set (join_with ''.'' (split_on (CHR ''.'') a))" for c
    using set_join [OF that] mq_valid_parts(2) [OF v] by (auto simp: list_all_iff) (simp add: aic_char_def)
  then show ?thesis by (simp add: list_all_iff)
qed

lemma mq_valid_not_empty: "mq_validate_aic_format a pre \<Longrightarrow> a \<noteq> []"
  by (auto simp: mq_validate_aic_format_def)

interpretation mq_aic: aic_format "\<lambda>a. mq_validate_aic_format a pre" "\<lambda>a. a" for pre
  by unfold_locales (auto simp: mq_valid_chars mq_valid_not_empty)

lemma group_id_no_underscore: "validate_group_id_format g \<Longrightarrow> CHR ''_'' \<notin> set g"
  by (auto simp: validate_group_id_format_def list_all_iff group_id_char_def is_lower_def is_upper_def
      is_digit_def ord_def split: if_splits)

end
