(* ===== verification/MqAcl.thy ===== *)
theory MqAcl
  imports MqValidation
begin

text \<open>
  \<open>mq-auth-server/app/services/group_acl.py\<close> and \<open>rabbitmq_mgmt.py\<close>: group membership in Redis
  with a local cache that answers while Redis is down. The Redis client and the HTTP client are
  third-party code and parameters of the model; the store protocol \<open>GroupAclStore\<close> is an interface
  (a locale) that the Redis wrapper provides and the service relies on. The entries of the TTL cache
  expire at any time, which is a step of the environment (\<open>expire_cached\<close>).
\<close>

subsection \<open>The store protocol and its Redis implementation\<close>

datatype store_error = StoreUnavailable
datatype redis_error = RedisError

text \<open>\<open>GroupAclStore\<close>: what the service calls. A call returns a result and the store afterwards.\<close>

record 's acl_store =
  sismember :: "string \<Rightarrow> string \<Rightarrow> 's \<Rightarrow> (store_error, bool) result \<times> 's"
  smembers :: "string \<Rightarrow> 's \<Rightarrow> (store_error, string set) result \<times> 's"
  sadd :: "string \<Rightarrow> string \<Rightarrow> 's \<Rightarrow> (store_error, unit) result \<times> 's"
  srem :: "string \<Rightarrow> string \<Rightarrow> 's \<Rightarrow> (store_error, unit) result \<times> 's"
  sdelete :: "string \<Rightarrow> 's \<Rightarrow> (store_error, unit) result \<times> 's"
  sexpire :: "string \<Rightarrow> int \<Rightarrow> 's \<Rightarrow> (store_error, unit) result \<times> 's"

text \<open>The calls of the asynchronous Redis client that the wrapper makes; replies are Redis values.\<close>

record 'r redis_client =
  r_ping :: "'r \<Rightarrow> (redis_error, pyval) result \<times> 'r"
  r_sismember :: "string \<Rightarrow> string \<Rightarrow> 'r \<Rightarrow> (redis_error, int) result \<times> 'r"
  r_smembers :: "string \<Rightarrow> 'r \<Rightarrow> (redis_error, pyval list) result \<times> 'r"
  r_sadd :: "string \<Rightarrow> string \<Rightarrow> 'r \<Rightarrow> (redis_error, int) result \<times> 'r"
  r_srem :: "string \<Rightarrow> string \<Rightarrow> 'r \<Rightarrow> (redis_error, int) result \<times> 'r"
  r_delete :: "string \<Rightarrow> 'r \<Rightarrow> (redis_error, int) result \<times> 'r"
  r_expire :: "string \<Rightarrow> int \<Rightarrow> 'r \<Rightarrow> (redis_error, int) result \<times> 'r"

text \<open>\<open>except RedisError as exc: raise StoreUnavailableError from exc\<close>.\<close>

definition unavailable :: "(redis_error, 'a) result \<times> 'r \<Rightarrow> ('a \<Rightarrow> 'b) \<Rightarrow> (store_error, 'b) result \<times> 'r" where
  "unavailable reply f =
     (case reply of (Inl _, r) \<Rightarrow> (Inl StoreUnavailable, r) | (Inr a, r) \<Rightarrow> (Inr (f a), r))"

definition redis_ping :: "'r redis_client \<Rightarrow> 'r \<Rightarrow> bool \<times> 'r" where
  "redis_ping c r = (case r_ping c r of (Inl _, r') \<Rightarrow> (False, r') | (Inr v, r') \<Rightarrow> (truthy v, r'))"

fun only_str :: "pyval \<Rightarrow> string list" where
  "only_str (PStr s) = [s]"
| "only_str _ = []"

definition redis_acl_store :: "'r redis_client \<Rightarrow> 'r acl_store" where
  "redis_acl_store c =
     \<lparr>sismember = (\<lambda>key member r. unavailable (r_sismember c key member r) (\<lambda>n. n \<noteq> 0)),
      smembers = (\<lambda>key r. unavailable (r_smembers c key r) (\<lambda>values. set (concat (map only_str values)))),
      sadd = (\<lambda>key member r. unavailable (r_sadd c key member r) (\<lambda>_. ())),
      srem = (\<lambda>key member r. unavailable (r_srem c key member r) (\<lambda>_. ())),
      sdelete = (\<lambda>key r. unavailable (r_delete c key r) (\<lambda>_. ())),
      sexpire = (\<lambda>key ttl r. unavailable (r_expire c key ttl r) (\<lambda>_. ()))\<rparr>"

subsection \<open>The RabbitMQ management client\<close>

datatype acl_error = AclValueError string | AclStoreUnavailable | AclHttpError int

text \<open>
  The reply status of the HTTP client is a parameter. \<open>raise_for_status\<close> raises for every status
  that is not a success.
\<close>

definition delete_connections_by_username :: "(string \<Rightarrow> int) \<Rightarrow> string \<Rightarrow> (acl_error, unit) result" where
  "delete_connections_by_username http username =
     (let status = http (''/api/connections/username/'' @ quote username) in
      if status = 204 \<or> status = 404 then Inr ()
      else if 200 \<le> status \<and> status < 300 then Inr ()
      else Inl (AclHttpError status))"

subsection \<open>The service\<close>

record 's acl_state =
  acl_db :: 's
  local_cache :: "string \<Rightarrow> string set option"

definition build_cache_key :: "string \<Rightarrow> string \<Rightarrow> string" where
  "build_cache_key leader_aic group_id = ''group_acl:'' @ leader_aic @ '':'' @ group_id"

definition cache_members :: "string \<Rightarrow> string set \<Rightarrow> 's acl_state \<Rightarrow> 's acl_state" where
  "cache_members key members st = st\<lparr>local_cache := (local_cache st)(key := Some members)\<rparr>"

definition cache_pop :: "string \<Rightarrow> 's acl_state \<Rightarrow> 's acl_state" where
  "cache_pop key st = st\<lparr>local_cache := (local_cache st)(key := None)\<rparr>"

definition ensure_valid_identifiers :: "string \<Rightarrow> string \<Rightarrow> string option \<Rightarrow> (acl_error, unit) result" where
  "ensure_valid_identifiers leader_aic group_id member_aic =
     (if \<not> mq_valid_aic leader_aic then Inl (AclValueError ''invalid leader AIC'')
      else if (case member_aic of None \<Rightarrow> False | Some m \<Rightarrow> \<not> mq_valid_aic m)
      then Inl (AclValueError ''invalid member AIC'')
      else if \<not> validate_group_id_format group_id then Inl (AclValueError ''invalid group-id'')
      else Inr ())"

text \<open>One call of the store inside the service: an unavailable store ends the operation.\<close>

definition store_call ::
  "('s \<Rightarrow> (store_error, 'a) result \<times> 's) \<Rightarrow> 's acl_state
     \<Rightarrow> ('a \<Rightarrow> 's acl_state \<Rightarrow> (acl_error, 'b) result \<times> 's acl_state)
     \<Rightarrow> (acl_error, 'b) result \<times> 's acl_state" where
  "store_call op st k =
     (case op (acl_db st) of
        (Inl _, d) \<Rightarrow> (Inl AclStoreUnavailable, st\<lparr>acl_db := d\<rparr>)
      | (Inr a, d) \<Rightarrow> k a (st\<lparr>acl_db := d\<rparr>))"

definition cached_or_empty :: "string \<Rightarrow> 's acl_state \<Rightarrow> string set" where
  "cached_or_empty key st = (case local_cache st key of None \<Rightarrow> {} | Some m \<Rightarrow> m)"

definition add_member ::
  "'s acl_store \<Rightarrow> int \<Rightarrow> string \<Rightarrow> string \<Rightarrow> string \<Rightarrow> 's acl_state
     \<Rightarrow> (acl_error, unit) result \<times> 's acl_state" where
  "add_member ops ttl leader_aic group_id member_aic st =
     (case ensure_valid_identifiers leader_aic group_id (Some member_aic) of
        Inl e \<Rightarrow> (Inl e, st)
      | Inr _ \<Rightarrow>
          let key = build_cache_key leader_aic group_id in
          store_call (sadd ops key member_aic) st (\<lambda>_ st1.
          store_call (sexpire ops key ttl) st1 (\<lambda>_ st2.
            (Inr (), cache_members key (insert member_aic (cached_or_empty key st2)) st2))))"

definition remove_member ::
  "'s acl_store \<Rightarrow> int \<Rightarrow> string \<Rightarrow> string \<Rightarrow> string \<Rightarrow> 's acl_state
     \<Rightarrow> (acl_error, unit) result \<times> 's acl_state" where
  "remove_member ops ttl leader_aic group_id member_aic st =
     (case ensure_valid_identifiers leader_aic group_id (Some member_aic) of
        Inl e \<Rightarrow> (Inl e, st)
      | Inr _ \<Rightarrow>
          let key = build_cache_key leader_aic group_id in
          store_call (srem ops key member_aic) st (\<lambda>_ st1.
          store_call (sexpire ops key ttl) st1 (\<lambda>_ st2.
            let cached = cached_or_empty key st2 - {member_aic} in
            (Inr (), if cached \<noteq> {} then cache_members key cached st2 else cache_pop key st2))))"

definition delete_group ::
  "'s acl_store \<Rightarrow> string \<Rightarrow> string \<Rightarrow> 's acl_state \<Rightarrow> (acl_error, unit) result \<times> 's acl_state" where
  "delete_group ops leader_aic group_id st =
     (case ensure_valid_identifiers leader_aic group_id None of
        Inl e \<Rightarrow> (Inl e, st)
      | Inr _ \<Rightarrow>
          let key = build_cache_key leader_aic group_id in
          store_call (sdelete ops key) st (\<lambda>_ st1. (Inr (), cache_pop key st1)))"

definition close_member_connections :: "(string \<Rightarrow> int) \<Rightarrow> string \<Rightarrow> string \<Rightarrow> (acl_error, unit) result" where
  "close_member_connections http leader_aic member_aic =
     (if \<not> mq_valid_aic leader_aic then Inl (AclValueError ''invalid leader AIC'')
      else if \<not> mq_valid_aic member_aic then Inl (AclValueError ''invalid member AIC'')
      else delete_connections_by_username http member_aic)"

definition check_group_membership ::
  "'s acl_store \<Rightarrow> string \<Rightarrow> string \<Rightarrow> string \<Rightarrow> 's acl_state \<Rightarrow> (acl_error, bool) result \<times> 's acl_state" where
  "check_group_membership ops leader_aic group_id requester_aic st =
     (case ensure_valid_identifiers leader_aic group_id (Some requester_aic) of
        Inl e \<Rightarrow> (Inl e, st)
      | Inr _ \<Rightarrow>
          let key = build_cache_key leader_aic group_id in
          case sismember ops key requester_aic (acl_db st) of
            (Inr is_member, d) \<Rightarrow>
              let st1 = st\<lparr>acl_db := d\<rparr> in
              if local_cache st1 key = None then
                (case smembers ops key (acl_db st1) of
                   (Inl _, d2) \<Rightarrow> (Inr is_member, st1\<lparr>acl_db := d2\<rparr>)
                 | (Inr members, d2) \<Rightarrow>
                     (Inr is_member, cache_members key members (st1\<lparr>acl_db := d2\<rparr>)))
              else (Inr is_member, st1)
          | (Inl _, d) \<Rightarrow>
              let st1 = st\<lparr>acl_db := d\<rparr> in
              (case local_cache st1 key of
                 None \<Rightarrow> (Inr False, st1)
               | Some cached \<Rightarrow> (Inr (requester_aic \<in> cached), st1)))"

text \<open>The environment: the TTL cache drops an entry.\<close>

definition expire_cached :: "string \<Rightarrow> 's acl_state \<Rightarrow> 's acl_state" where
  "expire_cached key st = cache_pop key st"

end
