(* ===== verification/MqAclProps.thy ===== *)
theory MqAclProps
  imports MqAcl
begin

text \<open>
  The group ACL service over its store interface. The locale \<open>group_acl_store\<close> states what the service
  needs of a store: replies tell the truth about the stored sets, a successful write has its effect,
  and a failed write either had its effect or had none. The service's lemmas are proved inside it. The
  Redis wrapper provides the interface whenever the Redis client behaves as documented
  (\<open>redis_client\<close>), which a reference client with a schedule of faults does.
\<close>

locale group_acl_store =
  fixes ops :: "'s acl_store"
    and content :: "'s \<Rightarrow> string \<Rightarrow> string set"
  assumes sismember_reply: "sismember ops k m s = (Inr b, s') \<Longrightarrow> b \<longleftrightarrow> m \<in> content s k"
    and sismember_keeps: "content (snd (sismember ops k m s)) = content s"
    and smembers_reply: "smembers ops k s = (Inr M, s') \<Longrightarrow> M = content s k"
    and smembers_keeps: "content (snd (smembers ops k s)) = content s"
    and sexpire_keeps: "0 < t \<Longrightarrow> content (snd (sexpire ops k t s)) = content s"
    and sadd_done: "sadd ops k m s = (Inr u, s') \<Longrightarrow> content s' = (content s)(k := insert m (content s k))"
    and sadd_failed: "sadd ops k m s = (Inl e, s') \<Longrightarrow>
      content s' = content s \<or> content s' = (content s)(k := insert m (content s k))"
    and srem_done: "srem ops k m s = (Inr u, s') \<Longrightarrow> content s' = (content s)(k := content s k - {m})"
    and sdelete_done: "sdelete ops k s = (Inr u, s') \<Longrightarrow> content s' = (content s)(k := {})"
begin

lemma sexpire_eq: "0 < t \<Longrightarrow> sexpire ops k t s = (x, s') \<Longrightarrow> content s' = content s"
  using sexpire_keeps [of t k s] by simp

lemma sismember_eq: "sismember ops k m s = (x, s') \<Longrightarrow> content s' = content s"
  using sismember_keeps [of k m s] by simp

lemma smembers_eq: "smembers ops k s = (x, s') \<Longrightarrow> content s' = content s"
  using smembers_keeps [of k s] by simp

lemmas store_laws = sexpire_eq sismember_eq smembers_eq sadd_done srem_done sdelete_done smembers_reply

text \<open>Every cached set holds members of the stored set only.\<close>

definition cache_sound :: "'s acl_state \<Rightarrow> bool" where
  "cache_sound st \<longleftrightarrow> (\<forall>k M. local_cache st k = Some M \<longrightarrow> M \<subseteq> content (acl_db st) k)"

lemma cache_soundI:
  "(\<And>k M x. local_cache st k = Some M \<Longrightarrow> x \<in> M \<Longrightarrow> x \<in> content (acl_db st) k) \<Longrightarrow> cache_sound st"
  by (auto simp: cache_sound_def)

lemma cache_soundD:
  "cache_sound st \<Longrightarrow> local_cache st k = Some M \<Longrightarrow> x \<in> M \<Longrightarrow> x \<in> content (acl_db st) k"
  by (auto simp: cache_sound_def)

lemma cached_or_empty_sound: "cache_sound st \<Longrightarrow> cached_or_empty k st \<subseteq> content (acl_db st) k"
  by (auto simp: cached_or_empty_def dest: cache_soundD split: option.splits)

lemma cache_sound_grow:
  "cache_sound st \<Longrightarrow> (\<And>k. content (acl_db st) k \<subseteq> content d k) \<Longrightarrow> cache_sound (st\<lparr>acl_db := d\<rparr>)"
  by (fastforce simp: cache_sound_def)

lemma cache_sound_put:
  "cache_sound st \<Longrightarrow> M \<subseteq> content (acl_db st) k \<Longrightarrow> cache_sound (cache_members k M st)"
  by (auto simp: cache_sound_def cache_members_def)

lemma cache_sound_pop: "cache_sound st \<Longrightarrow> cache_sound (cache_pop k st)"
  by (auto simp: cache_sound_def cache_pop_def)

lemma add_member_sound:
  assumes "0 < ttl" and "cache_sound st"
  shows "cache_sound (snd (add_member ops ttl l g m st))"
proof (cases "ensure_valid_identifiers l g (Some m)")
  case Inl
  with assms(2) show ?thesis by (simp add: add_member_def)
next
  case (Inr u)
  let ?k = "build_cache_key l g"
  obtain x d1 where add: "sadd ops ?k m (acl_db st) = (x, d1)" by fastforce
  have sound1: "cache_sound (st\<lparr>acl_db := d1\<rparr>)"
    using sadd_done sadd_failed add by (intro cache_sound_grow assms(2)) (cases x; fastforce)
  show ?thesis
  proof (cases x)
    case (Inl e)
    with Inr add sound1 show ?thesis by (simp add: add_member_def store_call_def Let_def)
  next
    case ok: (Inr v)
    obtain y d2 where exp: "sexpire ops ?k ttl d1 = (y, d2)" by fastforce
    have same: "content d2 = content d1" using sexpire_eq [OF assms(1) exp] .
    have sound2: "cache_sound (st\<lparr>acl_db := d2\<rparr>)"
      using cache_sound_grow [OF sound1, of d2] same by simp
    have "m \<in> content d2 ?k" using sadd_done add ok same by auto
    then have "insert m (cached_or_empty ?k (st\<lparr>acl_db := d2\<rparr>)) \<subseteq> content d2 ?k"
      using cached_or_empty_sound [OF sound2, of ?k] by simp
    then show ?thesis
      using Inr add ok exp sound2 cache_sound_put [OF sound2]
      by (cases y) (simp_all add: add_member_def store_call_def Let_def)
  qed
qed

lemma check_sound:
  assumes "cache_sound st"
  shows "cache_sound (snd (check_group_membership ops l g r st))
    \<and> content (acl_db (snd (check_group_membership ops l g r st))) = content (acl_db st)
    \<and> (fst (check_group_membership ops l g r st) = Inr True
        \<longrightarrow> r \<in> content (acl_db st) (build_cache_key l g))"
proof (cases "ensure_valid_identifiers l g (Some r)")
  case Inl
  with assms show ?thesis by (simp add: check_group_membership_def)
next
  case (Inr u)
  let ?k = "build_cache_key l g"
  obtain x d1 where ism: "sismember ops ?k r (acl_db st) = (x, d1)" by fastforce
  have same1: "content d1 = content (acl_db st)" using sismember_eq [OF ism] .
  have sound1: "cache_sound (st\<lparr>acl_db := d1\<rparr>)"
    using cache_sound_grow [OF assms] same1 by simp
  obtain y d2 where mem: "smembers ops ?k d1 = (y, d2)" by fastforce
  have same2: "content d2 = content d1" using smembers_eq [OF mem] .
  have sound2: "cache_sound (st\<lparr>acl_db := d2\<rparr>)"
    using cache_sound_grow [OF sound1] same2 by simp
  show ?thesis
  proof (cases x)
    case (Inl e)
    then show ?thesis
      using Inr ism same1 sound1 cache_soundD [OF assms]
      by (auto simp: check_group_membership_def Let_def split: option.splits)
  next
    case ok: (Inr b)
    have b: "b \<longleftrightarrow> r \<in> content (acl_db st) ?k" using sismember_reply ism ok by blast
    have "cache_sound (cache_members ?k M (st\<lparr>acl_db := d2\<rparr>))" if "y = Inr M" for M
      using cache_sound_put [OF sound2, of M ?k] smembers_reply mem that same2 by simp
    then show ?thesis
      using Inr ism ok b mem same1 same2 sound1 sound2
      by (cases y) (auto simp: check_group_membership_def cache_members_def Let_def)
  qed
qed

lemma check_available:
  assumes "ensure_valid_identifiers l g (Some r) = Inr ()"
    and "sismember ops (build_cache_key l g) r (acl_db st) = (Inr b, d)"
  shows "fst (check_group_membership ops l g r st) = Inr (r \<in> content (acl_db st) (build_cache_key l g))"
  using assms sismember_reply [OF assms(2)]
  by (auto simp: check_group_membership_def Let_def split: sum.splits prod.splits)

lemma remove_member_done:
  assumes "0 < ttl" and "cache_sound st" and "remove_member ops ttl l g m st = (Inr (), st')"
  shows "cache_sound st' \<and> content (acl_db st')
    = (content (acl_db st))(build_cache_key l g := content (acl_db st) (build_cache_key l g) - {m})"
proof -
  let ?k = "build_cache_key l g"
  obtain u d1 v d2 where rem: "srem ops ?k m (acl_db st) = (Inr u, d1)"
    and exp: "sexpire ops ?k ttl d1 = (Inr v, d2)"
    and st': "st' = (let c = cached_or_empty ?k (st\<lparr>acl_db := d2\<rparr>) - {m} in
      if c \<noteq> {} then cache_members ?k c (st\<lparr>acl_db := d2\<rparr>) else cache_pop ?k (st\<lparr>acl_db := d2\<rparr>))"
    using assms(3)
    by (auto simp: remove_member_def store_call_def Let_def split: sum.splits prod.splits)
  have c2: "content d2 = (content (acl_db st))(?k := content (acl_db st) ?k - {m})"
    using srem_done [OF rem] sexpire_eq [OF assms(1) exp] by simp
  then show ?thesis
    using cache_soundD [OF assms(2)] unfolding st'
    by (auto simp: cache_sound_def cache_members_def cache_pop_def cached_or_empty_def Let_def
        split: option.splits if_splits)
qed

lemma delete_group_done:
  assumes "cache_sound st" and "delete_group ops l g st = (Inr (), st')"
  shows "cache_sound st' \<and> content (acl_db st') = (content (acl_db st))(build_cache_key l g := {})"
proof -
  let ?k = "build_cache_key l g"
  obtain u d1 where del: "sdelete ops ?k (acl_db st) = (Inr u, d1)"
    and st': "st' = cache_pop ?k (st\<lparr>acl_db := d1\<rparr>)"
    using assms(2) by (auto simp: delete_group_def store_call_def Let_def split: sum.splits prod.splits)
  show ?thesis
    using sdelete_done [OF del] cache_soundD [OF assms(1)] unfolding st'
    by (auto simp: cache_sound_def cache_pop_def split: if_splits)
qed

end

end
