(* ===== verification/MqRedis.thy ===== *)
theory MqRedis
  imports MqAclProps
begin

text \<open>
  The Redis side of the group ACL. The locale \<open>redis_server\<close> states the documented behaviour of the
  Redis commands the wrapper \<open>RedisGroupAclStore\<close> sends, for keys that do not run out of their time to
  live in the meantime: a reply is truthful, a successful write has its effect, and a write that ends
  in a connection error had its effect or had none. From it the wrapper provides \<open>group_acl_store\<close>.
  \<open>mem_redis\<close> is a server in memory with a schedule of connection errors, which behaves like that.
\<close>

subsection \<open>Documented behaviour of the commands\<close>

locale redis_server =
  fixes c :: "'r redis_client"
    and content :: "'r \<Rightarrow> string \<Rightarrow> string set"
  assumes r_sismember_reply: "r_sismember c k m r = (Inr n, r') \<Longrightarrow> (n \<noteq> 0) \<longleftrightarrow> m \<in> content r k"
    and r_sismember_keeps: "content (snd (r_sismember c k m r)) = content r"
    and r_smembers_reply: "r_smembers c k r = (Inr vs, r') \<Longrightarrow> set vs = PStr ` content r k"
    and r_smembers_keeps: "content (snd (r_smembers c k r)) = content r"
    and r_expire_keeps: "0 < t \<Longrightarrow> content (snd (r_expire c k t r)) = content r"
    and r_sadd_done: "r_sadd c k m r = (Inr n, r') \<Longrightarrow> content r' = (content r)(k := insert m (content r k))"
    and r_sadd_failed: "r_sadd c k m r = (Inl e, r') \<Longrightarrow>
      content r' = content r \<or> content r' = (content r)(k := insert m (content r k))"
    and r_srem_done: "r_srem c k m r = (Inr n, r') \<Longrightarrow> content r' = (content r)(k := content r k - {m})"
    and r_delete_done: "r_delete c k r = (Inr n, r') \<Longrightarrow> content r' = (content r)(k := {})"

lemma unavailable_Inr:
  "unavailable reply f = (Inr b, r) \<longleftrightarrow> (\<exists>a. reply = (Inr a, r) \<and> b = f a)"
  by (cases reply; cases "fst reply") (auto simp: unavailable_def)

lemma unavailable_Inl:
  "unavailable reply f = (Inl e, r) \<longleftrightarrow> (\<exists>x. reply = (Inl x, r) \<and> e = StoreUnavailable)"
  by (cases reply; cases "fst reply") (auto simp: unavailable_def)

lemma snd_unavailable [simp]: "snd (unavailable reply f) = snd reply"
  by (cases reply; cases "fst reply") (auto simp: unavailable_def)

lemma only_str_members: "set vs = PStr ` M \<Longrightarrow> set (concat (map only_str vs)) = M"
  by auto

lemma redis_acl_store_sel [simp]:
  "sismember (redis_acl_store c) = (\<lambda>k m r. unavailable (r_sismember c k m r) (\<lambda>n. n \<noteq> 0))"
  "smembers (redis_acl_store c) = (\<lambda>k r. unavailable (r_smembers c k r) (\<lambda>vs. set (concat (map only_str vs))))"
  "sadd (redis_acl_store c) = (\<lambda>k m r. unavailable (r_sadd c k m r) (\<lambda>_. ()))"
  "srem (redis_acl_store c) = (\<lambda>k m r. unavailable (r_srem c k m r) (\<lambda>_. ()))"
  "sdelete (redis_acl_store c) = (\<lambda>k r. unavailable (r_delete c k r) (\<lambda>_. ()))"
  "sexpire (redis_acl_store c) = (\<lambda>k t r. unavailable (r_expire c k t r) (\<lambda>_. ()))"
  by (simp_all add: redis_acl_store_def)

sublocale redis_server \<subseteq> group_acl_store "redis_acl_store c" content
proof
  show "M = content s k" if "smembers (redis_acl_store c) k s = (Inr M, s')" for k s M s'
  proof -
    obtain vs where "r_smembers c k s = (Inr vs, s')" and M: "M = set (concat (map only_str vs))"
      using \<open>smembers (redis_acl_store c) k s = (Inr M, s')\<close>
      unfolding redis_acl_store_sel unavailable_Inr by auto
    then have "set vs = PStr ` content s k" using r_smembers_reply by blast
    then show ?thesis unfolding M by (rule only_str_members)
  qed
qed (auto simp: unavailable_Inr unavailable_Inl r_sismember_keeps r_smembers_keeps r_expire_keeps
      r_sadd_done r_srem_done r_delete_done dest: r_sismember_reply r_sadd_failed)

context redis_server
begin

lemma store_contract: "group_acl_store (redis_acl_store c) content"
  by unfold_locales

end

subsection \<open>A server in memory with a schedule of connection errors\<close>

datatype fault = Up | LostRequest | LostReply

record mem_server =
  mem_data :: "string \<Rightarrow> string list"
  schedule :: "fault list"

text \<open>One command: the next fault of the schedule decides whether it is executed and answered.\<close>

definition mem_command ::
  "(mem_server \<Rightarrow> 'a \<times> mem_server) \<Rightarrow> mem_server \<Rightarrow> (redis_error, 'a) result \<times> mem_server" where
  "mem_command f s =
     (case schedule s of
        [] \<Rightarrow> (case f s of (a, s') \<Rightarrow> (Inr a, s'))
      | Up # fs \<Rightarrow> (case f (s\<lparr>schedule := fs\<rparr>) of (a, s') \<Rightarrow> (Inr a, s'))
      | LostRequest # fs \<Rightarrow> (Inl RedisError, s\<lparr>schedule := fs\<rparr>)
      | LostReply # fs \<Rightarrow> (Inl RedisError, snd (f (s\<lparr>schedule := fs\<rparr>))))"

definition mem_set :: "string \<Rightarrow> string list \<Rightarrow> mem_server \<Rightarrow> mem_server" where
  "mem_set k xs s = s\<lparr>mem_data := (mem_data s)(k := xs)\<rparr>"

definition mem_redis :: "mem_server redis_client" where
  "mem_redis =
     \<lparr>r_ping = mem_command (\<lambda>s. (PBool True, s)),
      r_sismember = (\<lambda>k m. mem_command (\<lambda>s. (if List.member (mem_data s k) m then 1 else 0, s))),
      r_smembers = (\<lambda>k. mem_command (\<lambda>s. (map PStr (mem_data s k), s))),
      r_sadd = (\<lambda>k m. mem_command (\<lambda>s. (1, mem_set k (List.insert m (mem_data s k)) s))),
      r_srem = (\<lambda>k m. mem_command (\<lambda>s. (1, mem_set k (removeAll m (mem_data s k)) s))),
      r_delete = (\<lambda>k. mem_command (\<lambda>s. (1, mem_set k [] s))),
      r_expire = (\<lambda>k t. mem_command (\<lambda>s. (1, if t \<le> 0 then mem_set k [] s else s)))\<rparr>"

definition mem_content :: "mem_server \<Rightarrow> string \<Rightarrow> string set" where
  "mem_content s k = set (mem_data s k)"

lemma mem_content_set [simp]: "mem_content (mem_set k xs s) = (mem_content s)(k := set xs)"
  by (rule ext) (simp add: mem_content_def mem_set_def)

lemma mem_content_schedule [simp]: "mem_content (s\<lparr>schedule := fs\<rparr>) = mem_content s"
  by (rule ext) (simp add: mem_content_def)

lemmas mem_redis_simps = mem_redis_def mem_command_def

interpretation mem: redis_server mem_redis mem_content
  by unfold_locales
    (auto simp: mem_redis_simps mem_content_set mem_content_def [of s k for s k]
      split: list.splits fault.splits if_splits)

end
