(* ===== verification/MqAclSafety.thy ===== *)
theory MqAclSafety
  imports MqRedis
begin

text \<open>
  Runs of the group ACL service: sequences of requests and cache expiries, each executed to its end
  before the next one. A run is \<open>complete\<close> when no removal of a member or of a group was cut off by
  the store becoming unavailable half way; the last section shows why that matters. The abstract
  specification is a map from (leader, group) to the set of members.
\<close>

subsection \<open>Runs\<close>

datatype acl_event =
    AddMember string string string
  | RemoveMember string string string
  | DeleteGroup string string
  | CheckMember string string string
  | CacheExpires string

definition plain :: "('e, unit) result \<times> 'st \<Rightarrow> ('e, bool) result \<times> 'st" where
  "plain out = (case out of (Inl e, st) \<Rightarrow> (Inl e, st) | (Inr u, st) \<Rightarrow> (Inr True, st))"

fun acl_apply ::
  "'s acl_store \<Rightarrow> int \<Rightarrow> acl_event \<Rightarrow> 's acl_state \<Rightarrow> (acl_error, bool) result \<times> 's acl_state" where
  "acl_apply ops ttl (AddMember l g m) st = plain (add_member ops ttl l g m st)"
| "acl_apply ops ttl (RemoveMember l g m) st = plain (remove_member ops ttl l g m st)"
| "acl_apply ops ttl (DeleteGroup l g) st = plain (delete_group ops l g st)"
| "acl_apply ops ttl (CheckMember l g m) st = check_group_membership ops l g m st"
| "acl_apply ops ttl (CacheExpires key) st = (Inr True, expire_cached key st)"

fun cut_off :: "acl_event \<Rightarrow> (acl_error, bool) result \<Rightarrow> bool" where
  "cut_off (RemoveMember l g m) r = (r = Inl AclStoreUnavailable)"
| "cut_off (DeleteGroup l g) r = (r = Inl AclStoreUnavailable)"
| "cut_off _ r = False"

inductive acl_steps ::
  "'s acl_store \<Rightarrow> int \<Rightarrow> 's acl_state \<Rightarrow> acl_event list \<Rightarrow> 's acl_state \<Rightarrow> bool" for ops ttl st0 where
  acl_steps_none: "acl_steps ops ttl st0 [] st0"
| acl_steps_next: "acl_steps ops ttl st0 evs st \<Longrightarrow> acl_apply ops ttl ev st = (r, st')
    \<Longrightarrow> \<not> cut_off ev r \<Longrightarrow> acl_steps ops ttl st0 (evs @ [ev]) st'"

inductive_cases acl_steps_lastE: "acl_steps ops ttl st0 (evs @ [ev]) st"

lemma acl_steps_oneI:
  "acl_apply ops ttl ev st = (r, st') \<Longrightarrow> \<not> cut_off ev r \<Longrightarrow> acl_steps ops ttl st [ev] st'"
  using acl_steps_next [OF acl_steps_none, of ops ttl ev st r st'] by simp

lemma plain_eq:
  "plain out = (r, st) \<longleftrightarrow> (\<exists>x. out = (x, st) \<and> r = (case x of Inl e \<Rightarrow> Inl e | Inr _ \<Rightarrow> Inr True))"
  by (cases out) (auto simp: plain_def split: sum.splits)

lemma build_cache_key_inject:
  assumes "mq_valid_aic l" and "mq_valid_aic l'"
  shows "build_cache_key l g = build_cache_key l' g' \<longleftrightarrow> l = l' \<and> g = g'"
proof
  assume eq: "build_cache_key l g = build_cache_key l' g'"
  have "takeWhile (\<lambda>x. x \<noteq> CHR '':'') (l @ CHR '':'' # g) = takeWhile (\<lambda>x. x \<noteq> CHR '':'') (l' @ CHR '':'' # g')"
    using eq by (simp add: build_cache_key_def)
  moreover have "takeWhile (\<lambda>x. x \<noteq> CHR '':'') (a @ CHR '':'' # t) = a" if "mq_valid_aic a" for a t
    using mq_aic.colon_not_in_canon [OF that] by (subst takeWhile_append2) auto
  ultimately have "l = l'" using assms by simp
  with eq show "l = l' \<and> g = g'" by (simp add: build_cache_key_def)
qed simp

lemma valid_identifiers:
  "ensure_valid_identifiers l g (Some m) = Inr u \<longleftrightarrow>
     mq_valid_aic l \<and> mq_valid_aic m \<and> validate_group_id_format g"
  "ensure_valid_identifiers l g None = Inr u \<longleftrightarrow> mq_valid_aic l \<and> validate_group_id_format g"
  by (auto simp: ensure_valid_identifiers_def)

lemma invalid_identifiers:
  "ensure_valid_identifiers l g m = Inl e \<Longrightarrow> e \<noteq> AclStoreUnavailable"
  by (auto simp: ensure_valid_identifiers_def split: if_splits)

subsection \<open>The abstract specification\<close>

text \<open>What an event does to the map of groups, given that it is accepted.\<close>

fun spec_apply :: "acl_event \<Rightarrow> (string \<Rightarrow> string set) \<Rightarrow> string \<Rightarrow> string set" where
  "spec_apply (AddMember l g m) G =
     (if ensure_valid_identifiers l g (Some m) = Inr ()
      then G(build_cache_key l g := insert m (G (build_cache_key l g))) else G)"
| "spec_apply (RemoveMember l g m) G =
     (if ensure_valid_identifiers l g (Some m) = Inr ()
      then G(build_cache_key l g := G (build_cache_key l g) - {m}) else G)"
| "spec_apply (DeleteGroup l g) G =
     (if ensure_valid_identifiers l g None = Inr () then G(build_cache_key l g := {}) else G)"
| "spec_apply _ G = G"

context group_acl_store
begin

lemma add_member_content:
  assumes "0 < ttl" and "add_member ops ttl l g m st = (x, st')"
  shows "content (acl_db st') = content (acl_db st)
    \<or> content (acl_db st') = spec_apply (AddMember l g m) (content (acl_db st))"
    and "x \<noteq> Inl AclStoreUnavailable
      \<Longrightarrow> content (acl_db st') = spec_apply (AddMember l g m) (content (acl_db st))"
proof -
  let ?k = "build_cache_key l g"
  obtain a d1 where add: "sadd ops ?k m (acl_db st) = (a, d1)" by fastforce
  obtain b d2 where exp: "sexpire ops ?k ttl d1 = (b, d2)" by fastforce
  have c2: "content d2 = content d1" using sexpire_eq [OF assms(1) exp] .
  have c1: "content d1 = content (acl_db st)
      \<or> content d1 = (content (acl_db st))(?k := insert m (content (acl_db st) ?k))"
    "is_ok a \<Longrightarrow> content d1 = (content (acl_db st))(?k := insert m (content (acl_db st) ?k))"
    using sadd_done sadd_failed add by (cases a; fastforce)+
  note defs = add_member_def store_call_def Let_def cache_members_def
  show "content (acl_db st') = content (acl_db st)
    \<or> content (acl_db st') = spec_apply (AddMember l g m) (content (acl_db st))"
    using assms(2) add exp c1 c2
    by (cases "ensure_valid_identifiers l g (Some m)"; cases a; cases b) (auto simp: defs)
  show "content (acl_db st') = spec_apply (AddMember l g m) (content (acl_db st))"
    if "x \<noteq> Inl AclStoreUnavailable"
    using assms(2) add exp c1 c2 that
    by (cases "ensure_valid_identifiers l g (Some m)"; cases a; cases b) (auto simp: defs)
qed

lemma remove_member_content:
  assumes "0 < ttl" and "cache_sound st" and "remove_member ops ttl l g m st = (x, st')"
    and "x \<noteq> Inl AclStoreUnavailable"
  shows "cache_sound st' \<and> content (acl_db st') = spec_apply (RemoveMember l g m) (content (acl_db st))"
proof (cases "ensure_valid_identifiers l g (Some m)")
  case Inl
  with assms show ?thesis by (auto simp: remove_member_def)
next
  case (Inr u)
  then have "x = Inr ()"
    using assms(3,4) by (auto simp: remove_member_def store_call_def Let_def split: sum.splits prod.splits)
  then show ?thesis using remove_member_done assms Inr by simp
qed

lemma delete_group_content:
  assumes "cache_sound st" and "delete_group ops l g st = (x, st')" and "x \<noteq> Inl AclStoreUnavailable"
  shows "cache_sound st' \<and> content (acl_db st') = spec_apply (DeleteGroup l g) (content (acl_db st))"
proof (cases "ensure_valid_identifiers l g None")
  case Inl
  with assms show ?thesis by (auto simp: delete_group_def)
next
  case (Inr u)
  then have "x = Inr ()"
    using assms(2,3) by (auto simp: delete_group_def store_call_def Let_def split: sum.splits prod.splits)
  then show ?thesis using delete_group_done assms Inr by simp
qed

text \<open>One event: the cache stays sound, and the stored sets change as specified or not at all.\<close>

lemma apply_sound:
  assumes "0 < ttl" and "cache_sound st" and "acl_apply ops ttl ev st = (r, st')" and "\<not> cut_off ev r"
  shows "cache_sound st' \<and> (content (acl_db st') = content (acl_db st)
      \<or> content (acl_db st') = spec_apply ev (content (acl_db st)))
    \<and> (r \<noteq> Inl AclStoreUnavailable \<longrightarrow> content (acl_db st') = spec_apply ev (content (acl_db st)))"
proof (cases ev)
  case (AddMember l g m)
  then obtain x where x: "add_member ops ttl l g m st = (x, st')" "r = (case x of Inl e \<Rightarrow> Inl e | Inr _ \<Rightarrow> Inr True)"
    using assms(3) by (auto simp: plain_eq)
  have "cache_sound st'" using add_member_sound [OF assms(1,2), of l g m] x(1) by simp
  with add_member_content [OF assms(1) x(1)] x(2) AddMember show ?thesis by (cases x) auto
next
  case (RemoveMember l g m)
  then obtain x where x: "remove_member ops ttl l g m st = (x, st')" "r = (case x of Inl e \<Rightarrow> Inl e | Inr _ \<Rightarrow> Inr True)"
    using assms(3) by (auto simp: plain_eq)
  with remove_member_content [OF assms(1,2) x(1)] RemoveMember assms(4) show ?thesis by (cases x) auto
next
  case (DeleteGroup l g)
  then obtain x where x: "delete_group ops l g st = (x, st')" "r = (case x of Inl e \<Rightarrow> Inl e | Inr _ \<Rightarrow> Inr True)"
    using assms(3) by (auto simp: plain_eq)
  with delete_group_content [OF assms(2) x(1)] DeleteGroup assms(4) show ?thesis by (cases x) auto
next
  case (CheckMember l g m)
  with check_sound [OF assms(2), of l g m] assms(3) show ?thesis by simp
next
  case (CacheExpires k)
  with cache_sound_pop [OF assms(2), of k] assms(3) show ?thesis
    by (auto simp: expire_cached_def cache_pop_def)
qed

lemma steps_sound:
  assumes "acl_steps ops ttl st0 evs st" and "0 < ttl" and "cache_sound st0"
  shows "cache_sound st"
  using assms(1) by induction (use assms(2,3) apply_sound in blast)+

lemma steps_keep_out:
  assumes "acl_steps ops ttl st0 evs st" and "0 < ttl" and "cache_sound st0"
    and "mq_valid_aic l" and "m \<notin> content (acl_db st0) (build_cache_key l g)"
    and "AddMember l g m \<notin> set evs"
  shows "m \<notin> content (acl_db st) (build_cache_key l g)"
  using assms(1,6)
proof induction
  case acl_steps_none
  then show ?case using assms(5) by simp
next
  case (acl_steps_next evs st ev r st')
  let ?k = "build_cache_key l g"
  have out: "m \<notin> content (acl_db st) ?k" using acl_steps_next by simp
  have "m \<notin> spec_apply ev (content (acl_db st)) ?k"
    using out acl_steps_next.prems build_cache_key_inject [OF assms(4)]
    by (cases ev) (auto simp: valid_identifiers)
  then show ?case
    using apply_sound [OF assms(2) steps_sound [OF acl_steps_next.hyps(1) assms(2,3)] acl_steps_next.hyps(2,3)]
      out by auto
qed

lemma empty_cache_sound: "local_cache st = (\<lambda>_. None) \<Longrightarrow> cache_sound st"
  by (simp add: cache_sound_def)

lemma check_grants_members:
  assumes "cache_sound st" and "check_group_membership ops l g r st = (Inr True, st')"
  shows "r \<in> content (acl_db st) (build_cache_key l g)"
  using check_sound [OF assms(1), of l g r] assms(2) by simp

end


subsection \<open>What the service promises\<close>

text \<open>
  C14: Every request the service accepts acts on the stored groups as on a map from (leader, group) to
  a set of members: after any complete run on a Redis server that behaves as documented, a request or
  cache expiry that does not end in "store unavailable" changes the stored sets exactly as the
  abstract specification says, rejected identifiers change nothing, and checks and expiries never do.
\<close>
theorem acl_refines_member_sets:
  assumes "redis_server c content" and "0 < ttl" and "local_cache st0 = (\<lambda>_. None)"
    and "acl_steps (redis_acl_store c) ttl st0 evs st"
    and "acl_apply (redis_acl_store c) ttl ev st = (r, st')" and "r \<noteq> Inl AclStoreUnavailable"
  shows "content (acl_db st') = spec_apply ev (content (acl_db st))"
proof -
  note store = redis_server.store_contract [OF assms(1)]
  have "group_acl_store.cache_sound content st"
    using group_acl_store.steps_sound [OF store assms(4,2)] group_acl_store.empty_cache_sound [OF store assms(3)]
    by simp
  moreover have "\<not> cut_off ev r" using assms(6) by (cases ev) auto
  ultimately show ?thesis
    using group_acl_store.apply_sound [OF store assms(2) _ assms(5)] assms(6) by simp
qed


text \<open>
  C29: Revocation is final. Once \<open>remove_member\<close> has returned, no later check of that member in that
  group answers \<open>True\<close>, whatever other requests, cache expiries and Redis outages follow, until the
  member is added to this group again; adding it to another group of the same or of another leader
  does not bring the right back.
\<close>
theorem removed_member_stays_out:
  assumes "redis_server c content" and "0 < ttl" and "local_cache st0 = (\<lambda>_. None)"
    and "acl_steps (redis_acl_store c) ttl st0 evs st"
    and "remove_member (redis_acl_store c) ttl l g m st = (Inr (), st1)"
    and "acl_steps (redis_acl_store c) ttl st1 evs' st2" and "AddMember l g m \<notin> set evs'"
  shows "fst (check_group_membership (redis_acl_store c) l g m st2) \<noteq> Inr True"
proof
  assume granted: "fst (check_group_membership (redis_acl_store c) l g m st2) = Inr True"
  note store = redis_server.store_contract [OF assms(1)]
  have sound: "group_acl_store.cache_sound content st"
    using group_acl_store.steps_sound [OF store assms(4,2)] group_acl_store.empty_cache_sound [OF store assms(3)]
    by simp
  note done1 = group_acl_store.remove_member_done [OF store assms(2) sound assms(5)]
  have valid: "mq_valid_aic l"
    using assms(5) by (auto simp: remove_member_def valid_identifiers split: sum.splits)
  have "m \<notin> content (acl_db st2) (build_cache_key l g)"
    using group_acl_store.steps_keep_out [OF store assms(6,2) _ valid _ assms(7)] done1 by simp
  moreover have "m \<in> content (acl_db st2) (build_cache_key l g)"
    using group_acl_store.check_grants_members [OF store, of st2 l g m] granted done1
      group_acl_store.steps_sound [OF store assms(6,2)] by (metis prod.collapse)
  ultimately show False by simp
qed

subsection \<open>Witnesses\<close>

definition leader1 :: string where "leader1 = ''1.2.156.3088.1.A1.V2.S3.0.08I6''"
definition member1 :: string where "member1 = ''1.2.156.3088.2.B1.V2.S3.0.0000''"

text \<open>A server that holds one group of one member, with a schedule of faults.\<close>

definition one_group :: "fault list \<Rightarrow> mem_server acl_state" where
  "one_group faults =
     \<lparr>acl_db = \<lparr>mem_data = (\<lambda>_. [])(build_cache_key leader1 ''g1'' := [member1]), schedule = faults\<rparr>,
      local_cache = (\<lambda>_. None)\<rparr>"

lemma one_group_start [simp]:
  "local_cache (one_group f) = (\<lambda>_. None)"
  "mem_content (acl_db (one_group f)) = (\<lambda>_. {})(build_cache_key leader1 ''g1'' := {member1})"
  by (auto simp: one_group_def mem_content_def fun_eq_iff)

lemma sample_identifiers [simp]:
  "ensure_valid_identifiers leader1 ''g1'' (Some member1) = Inr ()"
  by code_simp

lemmas run_simps = one_group_def mem_redis_simps mem_set_def check_group_membership_def remove_member_def
  store_call_def Let_def unavailable_def cache_members_def cached_or_empty_def cache_pop_def
  mem_content_def

theorem acl_refines_member_sets_witness:
  "mem_content (acl_db (snd (acl_apply (redis_acl_store mem_redis) 60 (RemoveMember leader1 ''g1'' member1) (one_group []))))
     (build_cache_key leader1 ''g1'') = {}"
proof -
  let ?out = "acl_apply (redis_acl_store mem_redis) 60 (RemoveMember leader1 ''g1'' member1) (one_group [])"
  have "fst ?out \<noteq> Inl AclStoreUnavailable" by (simp add: run_simps plain_def)
  then show ?thesis
    using acl_refines_member_sets [OF mem.redis_server_axioms, of 60 "one_group []" "[]" "one_group []"
        "RemoveMember leader1 ''g1'' member1" "fst ?out" "snd ?out"]
    by (simp add: acl_steps_none)
qed


theorem removed_member_stays_out_witness:
  "fst (check_group_membership (redis_acl_store mem_redis) leader1 ''g1'' member1
      (snd (remove_member (redis_acl_store mem_redis) 60 leader1 ''g1'' member1 (one_group [Up, Up, LostRequest]))))
    \<noteq> Inr True"
proof -
  let ?st = "snd (remove_member (redis_acl_store mem_redis) 60 leader1 ''g1'' member1
      (one_group [Up, Up, LostRequest]))"
  have "remove_member (redis_acl_store mem_redis) 60 leader1 ''g1'' member1 (one_group [Up, Up, LostRequest])
      = (Inr (), ?st)"
    by (simp add: run_simps)
  then show ?thesis
    using removed_member_stays_out [OF mem.redis_server_axioms, of 60 "one_group [Up, Up, LostRequest]" "[]"
        "one_group [Up, Up, LostRequest]" leader1 "''g1''" member1 ?st "[]" ?st]
    by (simp add: acl_steps_none)
qed

subsection \<open>A removal cut off half way\<close>

text \<open>
  Why runs have to be complete: \<open>remove_member\<close> updates its local cache only after \<open>EXPIRE\<close>, so when
  the connection is lost between \<open>SREM\<close> and \<open>EXPIRE\<close>, the member is gone from Redis and the request
  fails, but the cache still holds it, and a check during the outage answers \<open>True\<close> for it.
\<close>
theorem interrupted_removal_still_granted:
  "let ops = redis_acl_store mem_redis;
       st0 = one_group [Up, Up, Up, LostRequest, LostRequest];
       st1 = snd (check_group_membership ops leader1 ''g1'' member1 st0);
       (r, st2) = remove_member ops 60 leader1 ''g1'' member1 st1
   in r = Inl AclStoreUnavailable
    \<and> member1 \<notin> mem_content (acl_db st2) (build_cache_key leader1 ''g1'')
    \<and> fst (check_group_membership ops leader1 ''g1'' member1 st2) = Inr True"
  by (simp add: run_simps)

end
