(* ===== verification/MqAuthzProps.thy ===== *)
theory MqAuthzProps
  imports MqAuthz
begin

text \<open>
  The declarative policy of the authentication backend and the theorems that the checks implement it:
  who may configure, read and write which exchange and queue, who may bind and publish which routing
  key, and what a grant on a group resource means for the stored group.
\<close>

definition group_exchange :: "string \<Rightarrow> string \<Rightarrow> string" where
  "group_exchange l g = ''group_'' @ l @ ''_'' @ g"

definition group_queue :: "string \<Rightarrow> string \<Rightarrow> string \<Rightarrow> string" where
  "group_queue l g m = ''group_'' @ l @ ''_'' @ g @ ''_'' @ m"

text \<open>
  \<open>member l g\<close> is the answer of the group ACL for the user. A group exchange is configured by its
  leader and used by the members; a group queue is configured and written by its leader and, while it
  is a member, by the agent it belongs to, who alone reads it.
\<close>

definition exchange_policy :: "(string \<Rightarrow> string \<Rightarrow> bool) \<Rightarrow> string \<Rightarrow> string \<Rightarrow> string \<Rightarrow> bool" where
  "exchange_policy member username name permission \<longleftrightarrow>
     name = ''inbox.topic'' \<or>
     (\<exists>l g. mq_valid_aic l \<and> validate_group_id_format g \<and> name = group_exchange l g
        \<and> (if permission = ''configure'' then l = username else member l g))"

definition queue_policy :: "(string \<Rightarrow> string \<Rightarrow> bool) \<Rightarrow> string \<Rightarrow> string \<Rightarrow> string \<Rightarrow> bool" where
  "queue_policy member username name permission \<longleftrightarrow>
     name = ''inbox_'' @ username \<or>
     (\<exists>l g m. mq_valid_aic l \<and> validate_group_id_format g \<and> mq_valid_aic m \<and> name = group_queue l g m
        \<and> (permission \<noteq> ''read'' \<and> l = username \<or> m = username \<and> member l g))"

definition resource_policy ::
  "(string \<Rightarrow> string \<Rightarrow> bool) \<Rightarrow> string \<Rightarrow> string \<Rightarrow> string \<Rightarrow> string \<Rightarrow> string \<Rightarrow> bool" where
  "resource_policy member username vhost resource name permission \<longleftrightarrow>
     mq_valid_aic username \<and> vhost = ''acps'' \<and> permission \<in> {''configure'', ''write'', ''read''}
     \<and> (resource = ''exchange'' \<and> exchange_policy member username name permission
        \<or> resource = ''queue'' \<and> queue_policy member username name permission)"

subsection \<open>Lemmas\<close>

lemma check_never_raises:
  "mq_valid_aic l \<Longrightarrow> mq_valid_aic m \<Longrightarrow> validate_group_id_format g
     \<Longrightarrow> \<exists>b. fst (check_group_membership ops l g m st) = Inr b"
  by (auto simp: check_group_membership_def ensure_valid_identifiers_def Let_def
      split: sum.splits prod.splits option.splits)

lemma and_then_Inr: "fst out = Inr b \<Longrightarrow> fst (and_then out f) = Inr (f b)"
  by (cases out) (simp add: and_then_def)

lemma snd_and_then [simp]: "snd (and_then out f) = snd out"
  by (cases out; cases "fst out") (simp_all add: and_then_def)

lemma group_exchange_inject:
  assumes "mq_valid_aic l" and "validate_group_id_format g" and "mq_valid_aic l'"
    and "validate_group_id_format g'"
  shows "group_exchange l g = group_exchange l' g' \<longleftrightarrow> l = l' \<and> g = g'"
proof
  assume eq: "group_exchange l g = group_exchange l' g'"
  have "parse_group_exchange (group_exchange l g) = Some \<lparr>gx_leader = l, gx_group = g\<rparr>"
    unfolding parse_group_exchange_Some group_exchange_def using assms by simp
  moreover have "parse_group_exchange (group_exchange l' g') = Some \<lparr>gx_leader = l', gx_group = g'\<rparr>"
    unfolding parse_group_exchange_Some group_exchange_def using assms by simp
  ultimately show "l = l' \<and> g = g'"
    using eq by (metis group_exchange_name.ext_inject option.inject)
qed simp

lemma group_queue_inject:
  assumes "mq_valid_aic l" "validate_group_id_format g" "mq_valid_aic m"
    and "mq_valid_aic l'" "validate_group_id_format g'" "mq_valid_aic m'"
  shows "group_queue l g m = group_queue l' g' m' \<longleftrightarrow> l = l' \<and> g = g' \<and> m = m'"
proof
  assume eq: "group_queue l g m = group_queue l' g' m'"
  have "parse_group_queue (group_queue l g m) = Some \<lparr>gq_leader = l, gq_group = g, gq_member = m\<rparr>"
    unfolding parse_group_queue_Some group_queue_def using assms by simp
  moreover have "parse_group_queue (group_queue l' g' m') = Some \<lparr>gq_leader = l', gq_group = g', gq_member = m'\<rparr>"
    unfolding parse_group_queue_Some group_queue_def using assms by simp
  ultimately show "l = l' \<and> g = g' \<and> m = m'"
    using eq by (metis group_queue_name.ext_inject option.inject)
qed simp

lemma ex_group_exchange:
  "mq_valid_aic l \<Longrightarrow> validate_group_id_format g \<Longrightarrow>
     (\<exists>l' g'. mq_valid_aic l' \<and> validate_group_id_format g' \<and> group_exchange l g = group_exchange l' g' \<and> P l' g')
     \<longleftrightarrow> P l g"
  using group_exchange_inject by blast

lemma ex_group_queue:
  "mq_valid_aic l \<Longrightarrow> validate_group_id_format g \<Longrightarrow> mq_valid_aic m \<Longrightarrow>
     (\<exists>l' g' m'. mq_valid_aic l' \<and> validate_group_id_format g' \<and> mq_valid_aic m'
        \<and> group_queue l g m = group_queue l' g' m' \<and> P l' g' m')
     \<longleftrightarrow> P l g m"
  using group_queue_inject by blast

lemma parse_group_exchange_cases:
  obtains (none) "parse_group_exchange name = None"
      "\<And>l g. mq_valid_aic l \<Longrightarrow> validate_group_id_format g \<Longrightarrow> name \<noteq> group_exchange l g"
  | (some) l g where "parse_group_exchange name = Some \<lparr>gx_leader = l, gx_group = g\<rparr>"
      "mq_valid_aic l" "validate_group_id_format g" "name = group_exchange l g"
proof (cases "parse_group_exchange name")
  case None
  have "name \<noteq> group_exchange l g" if "mq_valid_aic l" "validate_group_id_format g" for l g
    using that None parse_group_exchange_Some [of name "\<lparr>gx_leader = l, gx_group = g\<rparr>"]
    by (auto simp: group_exchange_def)
  with None none show thesis by blast
next
  case (Some x)
  then show thesis
    using some [of "gx_leader x" "gx_group x"] parse_group_exchange_Some [of name x]
    unfolding group_exchange_def by simp
qed

lemma parse_group_queue_cases:
  obtains (none) "parse_group_queue name = None"
      "\<And>l g m. mq_valid_aic l \<Longrightarrow> validate_group_id_format g \<Longrightarrow> mq_valid_aic m \<Longrightarrow> name \<noteq> group_queue l g m"
  | (some) l g m where "parse_group_queue name = Some \<lparr>gq_leader = l, gq_group = g, gq_member = m\<rparr>"
      "mq_valid_aic l" "validate_group_id_format g" "mq_valid_aic m" "name = group_queue l g m"
proof (cases "parse_group_queue name")
  case None
  have "name \<noteq> group_queue l g m" if "mq_valid_aic l" "validate_group_id_format g" "mq_valid_aic m" for l g m
    using that None parse_group_queue_Some [of name "\<lparr>gq_leader = l, gq_group = g, gq_member = m\<rparr>"]
    by (auto simp: group_queue_def)
  with None none show thesis by blast
next
  case (Some x)
  then show thesis
    using some [of "gq_leader x" "gq_group x" "gq_member x"] parse_group_queue_Some [of name x]
    unfolding group_queue_def by simp
qed

lemma reserved_exchanges:
  "group_exchange l g \<noteq> ''amq.default''" "group_exchange l g \<noteq> ''inbox.topic''"
  "''amq.default'' \<noteq> group_exchange l g" "''inbox.topic'' \<noteq> group_exchange l g"
  "group_queue l g m \<noteq> ''inbox_'' @ a"
  by (simp_all add: group_exchange_def group_queue_def)

lemmas reserved_names = reserved_exchanges reserved_exchanges(5) [simplified]

lemma group_queue_not_inbox [simp]: "parse_inbox_queue (group_queue l g m) = None"
  using parse_inbox_queue_Some [of "group_queue l g m"] reserved_exchanges(5) by (cases "parse_inbox_queue (group_queue l g m)") auto

lemma check_exchange_decides:
  assumes "mq_valid_aic u"
  shows "\<exists>log. fst (check_exchange_permission ops u name p st) = Inr log \<and>
    (decision log = ALLOW \<longleftrightarrow>
       exchange_policy (\<lambda>l g. fst (check_group_membership ops l g u st) = Inr True) u name p)"
proof (cases "name = ''amq.default'' \<or> name = ''inbox.topic''")
  case True
  then show ?thesis
    by (auto simp: check_exchange_permission_def exchange_policy_def reserved_exchanges)
next
  case False
  show ?thesis
  proof (cases rule: parse_group_exchange_cases [of name])
    case none
    with False show ?thesis by (auto simp: check_exchange_permission_def exchange_policy_def)
  next
    case (some l g)
    obtain b where b: "fst (check_group_membership ops l g u st) = Inr b"
      using check_never_raises some assms by blast
    have "exchange_policy (\<lambda>l g. fst (check_group_membership ops l g u st) = Inr True) u name p
        \<longleftrightarrow> (if p = ''configure'' then l = u else b)"
      unfolding exchange_policy_def some(4) ex_group_exchange [OF some(2,3)]
      by (simp add: b reserved_names)
    with some b False show ?thesis
      by (auto simp: check_exchange_permission_def and_then_Inr [OF b])
  qed
qed

lemma check_queue_decides:
  assumes "mq_valid_aic u" and "p \<in> {''configure'', ''write'', ''read''}"
  shows "\<exists>log. fst (check_queue_permission ops u name p st) = Inr log \<and>
    (decision log = ALLOW \<longleftrightarrow>
       queue_policy (\<lambda>l g. fst (check_group_membership ops l g u st) = Inr True) u name p)"
proof (cases "parse_inbox_queue name")
  case (Some a)
  then have a: "name = ''inbox_'' @ a" by (simp only: parse_inbox_queue_Some)
  with Some show ?thesis
    using reserved_exchanges(5) [of _ _ _ a]
    by (auto simp: check_queue_permission_def queue_policy_def)
next
  case None
  then have not_own: "name \<noteq> ''inbox_'' @ u" using parse_inbox_queue_Some [of name u] assms(1) by auto
  show ?thesis
  proof (cases rule: parse_group_queue_cases [of name])
    case none
    with None not_own show ?thesis by (auto simp: check_queue_permission_def queue_policy_def)
  next
    case (some l g m)
    obtain b where b: "fst (check_group_membership ops l g u st) = Inr b"
      using check_never_raises some assms by blast
    have "fst (if u = m then check_group_membership ops l g u st else (Inr False, st)) = Inr (u = m \<and> b)"
      using b by (cases "u = m") auto
    note and_then_Inr [OF this]
    then have "fst (check_queue_permission ops u name p st)
        = Inr (group_queue_decision \<lparr>gq_leader = l, gq_group = g, gq_member = m\<rparr> u p (u = m \<and> b))"
      by (simp only: check_queue_permission_def None some(1) option.case group_queue_name.simps)
    moreover have "queue_policy (\<lambda>l g. fst (check_group_membership ops l g u st) = Inr True) u name p
        \<longleftrightarrow> p \<noteq> ''read'' \<and> l = u \<or> m = u \<and> b"
      unfolding queue_policy_def some(5) ex_group_queue [OF some(2,3,4)]
      by (simp add: b reserved_names)
    ultimately show ?thesis
      using assms(2) by (auto simp: group_queue_decision_def)
  qed
qed


subsection \<open>What the backend promises\<close>

text \<open>
  C15: \<open>check_resource\<close> implements the policy. For every user, vhost, resource, name and permission,
  and in every state of the group ACL and its store, it returns a decision (no error escapes from it)
  and the decision is \<open>ALLOW\<close> exactly when the declarative policy permits the access, where membership
  is what the group ACL service answers; anything else is denied.
\<close>
theorem check_resource_implements_policy:
  "\<exists>log. fst (check_resource ops u vhost resource name p st) = Inr log
    \<and> decision log = (if resource_policy (\<lambda>l g. fst (check_group_membership ops l g u st) = Inr True)
          u vhost resource name p then ALLOW else DENY)"
proof -
  have two: "decision log = ALLOW \<or> decision log = DENY"
    if "fst (check_resource ops u vhost resource name p st) = Inr log" for log
    using that unfolding check_resource_def check_exchange_permission_def check_queue_permission_def
      group_queue_decision_def and_then_def
    by (auto split: if_splits option.splits prod.splits sum.splits)
  show ?thesis
  proof (cases "mq_valid_aic u \<and> vhost = ''acps'' \<and> p \<in> {''configure'', ''write'', ''read''}")
    case False
    then show ?thesis by (auto simp: check_resource_def resource_policy_def)
  next
    case guards: True
    consider "resource = ''exchange''" | "resource = ''queue''"
      | "resource \<noteq> ''exchange''" "resource \<noteq> ''queue''" by blast
    then show ?thesis
    proof cases
      case 1
      with guards have "check_resource ops u vhost resource name p st = check_exchange_permission ops u name p st"
        by (simp add: check_resource_def)
      with check_exchange_decides [of u ops name p st] guards 1 two show ?thesis
        by (auto simp: resource_policy_def)
    next
      case 2
      with guards have "check_resource ops u vhost resource name p st = check_queue_permission ops u name p st"
        by (simp add: check_resource_def)
      with check_queue_decides [of u p ops name st] guards 2 two show ?thesis
        by (auto simp: resource_policy_def)
    next
      case 3
      with guards show ?thesis by (auto simp: check_resource_def resource_policy_def)
    qed
  qed
qed

text \<open>
  \<open>check_topic\<close> lets an agent bind its own inbox routing key and publish to the inbox key of any
  well-formed AIC, on the exchange \<open>inbox.topic\<close> of the vhost \<open>acps\<close> only; every other combination of
  vhost, resource, exchange, permission and routing key is denied.
\<close>
theorem check_topic_implements_policy:
  "decision (check_topic u vhost resource name p key) =
    (if mq_valid_aic u \<and> vhost = ''acps'' \<and> resource = ''topic'' \<and> name = ''inbox.topic''
        \<and> (p = ''read'' \<and> key = ''inbox_'' @ u
           \<or> p = ''write'' \<and> (\<exists>a. mq_valid_aic a \<and> key = ''inbox_'' @ a))
     then ALLOW else DENY)"
proof -
  have "parse_inbox_queue key \<noteq> None \<longleftrightarrow> (\<exists>a. mq_valid_aic a \<and> key = ''inbox_'' @ a)"
    using parse_inbox_queue_Some [of key] by (cases "parse_inbox_queue key") auto
  then show ?thesis
    unfolding check_topic_def by (simp only: if_True if_False decision_log_decision split: if_splits) force
qed

text \<open>
  A grant on a group is backed by the stored group. After any complete run of the group ACL
  service from an empty cache, with Redis going up and down in any way, when the resource check
  allows a user to read or write the exchange of a group, or to read one of the group's queues, the
  user is in that group's stored member set (and owns the queue it reads).
\<close>
theorem allowed_on_group_is_member:
  assumes "redis_server c content" and "0 < ttl" and "local_cache st0 = (\<lambda>_. None)"
    and "acl_steps (redis_acl_store c) ttl st0 evs st"
    and "mq_valid_aic l" and "validate_group_id_format g" and "mq_valid_aic m"
    and "resource = ''exchange'' \<and> name = group_exchange l g \<and> p \<in> {''read'', ''write''}
      \<or> resource = ''queue'' \<and> name = group_queue l g m \<and> p = ''read''"
    and "fst (check_resource (redis_acl_store c) u vhost resource name p st) = Inr log"
    and "decision log = ALLOW"
  shows "u \<in> content (acl_db st) (build_cache_key l g) \<and> (resource = ''queue'' \<longrightarrow> u = m)"
proof -
  note store = redis_server.store_contract [OF assms(1)]
  let ?member = "\<lambda>l g. fst (check_group_membership (redis_acl_store c) l g u st) = Inr True"
  have u: "mq_valid_aic u" and perm: "p \<in> {''configure'', ''write'', ''read''}"
    using assms(8,9,10) by (auto simp: check_resource_def split: if_splits)
  have "?member l g \<and> (resource = ''queue'' \<longrightarrow> u = m)"
  proof (cases "resource = ''exchange''")
    case True
    then have name: "name = group_exchange l g" "p \<noteq> ''configure''" using assms(8) by auto
    have "exchange_policy ?member u name p"
      using check_exchange_decides [OF u, of "redis_acl_store c" name p st] assms(9,10) True
      by (auto simp: check_resource_def split: if_splits)
    then show ?thesis
      unfolding exchange_policy_def name(1) ex_group_exchange [OF assms(5,6)] using name(2) True
      by (simp add: reserved_names)
  next
    case False
    then have name: "resource = ''queue''" "name = group_queue l g m" "p = ''read''" using assms(8) by auto
    have "queue_policy ?member u name p"
      using check_queue_decides [OF u perm, of "redis_acl_store c" name st] assms(9,10) False
      by (auto simp: check_resource_def split: if_splits)
    then show ?thesis
      unfolding queue_policy_def name(2) ex_group_queue [OF assms(5,6,7)] using name(3)
      by (simp add: reserved_names)
  qed
  moreover have "group_acl_store.cache_sound content st"
    using group_acl_store.steps_sound [OF store assms(4,2)] group_acl_store.empty_cache_sound [OF store assms(3)]
    by simp
  ultimately show ?thesis
    using group_acl_store.check_grants_members [OF store, of st l g u] by (metis prod.collapse)
qed

theorem allowed_on_group_is_member_witness:
  "member1 \<in> mem_content (acl_db (one_group [])) (build_cache_key leader1 ''g1'')"
proof -
  let ?out = "check_resource (redis_acl_store mem_redis) member1 ''acps'' ''queue''
      (group_queue leader1 ''g1'' member1) ''read'' (one_group [])"
  have valid: "mq_valid_aic leader1" "validate_group_id_format ''g1''" "mq_valid_aic member1"
    by code_simp+
  have "parse_group_queue (group_queue leader1 ''g1'' member1)
      = Some \<lparr>gq_leader = leader1, gq_group = ''g1'', gq_member = member1\<rparr>"
    unfolding parse_group_queue_Some group_queue_def using valid by simp
  then have "fst ?out = Inr (log_decision ''queue'' ALLOW None)"
    by (simp add: check_resource_def check_queue_permission_def valid and_then_def
        group_queue_decision_def run_simps)
  then show ?thesis
    using allowed_on_group_is_member [OF mem.redis_server_axioms _ one_group_start(1) [of "[]"] acl_steps_none valid,
        where ttl = 60 and resource = "''queue''" and name = "group_queue leader1 ''g1'' member1"
        and p = "''read''" and u = member1 and vhost = "''acps''"
        and log = "log_decision ''queue'' ALLOW None"]
    by simp
qed

end
