(* ===== verification/PeerRegistry.thy ===== *)
theory PeerRegistry
  imports Prelude
begin

text \<open>
  The interface of a registry of peer certificates. The MQ authentication server and the SDK's agent
  server each keep one: the protocol object of a connection records the peer's certificate under the
  pair of socket addresses when the connection is made and removes it when it is lost, and a
  middleware looks it up for a request. The locale states the two laws of such a registry; its lemma
  says that a lookup reports the last connection made on its own pair of sockets.
\<close>

type_synonym certificate = "(string \<times> pyval) list"
type_synonym sock_addr = "string \<times> int"
type_synonym peer_key = "string \<times> int \<times> string \<times> int"

definition peer_key_of :: "sock_addr \<Rightarrow> sock_addr \<Rightarrow> peer_key" where
  "peer_key_of client server = (fst client, snd client, fst server, snd server)"

lemma peer_key_inject: "peer_key_of c s = peer_key_of c' s' \<longleftrightarrow> c = c' \<and> s = s'"
  by (auto simp: peer_key_of_def prod_eq_iff)

text \<open>
  What happens on the transport. The TLS object of a connection may be missing and its
  \<open>getpeercert()\<close> may return nothing; a socket address may be missing, and so may the server's port.
\<close>

datatype connection_event =
    Made "sock_addr option" "(string \<times> int option) option" "certificate option option"
  | Lost "sock_addr option" "(string \<times> int option) option"

fun concerns :: "sock_addr \<Rightarrow> sock_addr \<Rightarrow> connection_event \<Rightarrow> bool" where
  "concerns client server (Made c s _) = (c = Some client \<and> s = Some (fst server, Some (snd server)))"
| "concerns client server (Lost c s) = (c = Some client \<and> s = Some (fst server, Some (snd server)))"

fun presented :: "connection_event \<Rightarrow> certificate option option" where
  "presented (Made _ _ ssl) = Some (case ssl of None \<Rightarrow> None | Some c \<Rightarrow> c)"
| "presented (Lost _ _) = None"

text \<open>The specification: the last event on the pair of sockets decides.\<close>

definition open_certificate ::
  "sock_addr \<Rightarrow> sock_addr \<Rightarrow> connection_event list \<Rightarrow> certificate option option" where
  "open_certificate client server evs =
     (let es = filter (concerns client server) evs in if es = [] then None else presented (last es))"

lemma open_certificate_snoc:
  "open_certificate client server (evs @ [e]) =
     (if concerns client server e then presented e else open_certificate client server evs)"
  by (simp add: open_certificate_def Let_def)

locale peer_registry =
  fixes event :: "connection_event \<Rightarrow> 'r \<Rightarrow> 'r"
    and look :: "sock_addr \<Rightarrow> sock_addr \<Rightarrow> 'r \<Rightarrow> 'i option"
    and none :: 'r
    and info :: "certificate option \<Rightarrow> 'i"
  assumes look_none: "look client server none = None"
    and look_same: "concerns client server e \<Longrightarrow> look client server (event e r) = map_option info (presented e)"
    and look_other: "\<not> concerns client server e \<Longrightarrow> look client server (event e r) = look client server r"
begin

lemma look_after: "look client server (fold event evs none) = map_option info (open_certificate client server evs)"
proof (induction evs rule: rev_induct)
  case Nil
  then show ?case by (simp add: look_none open_certificate_def)
next
  case (snoc e evs)
  then show ?case
    by (cases "concerns client server e") (simp_all add: open_certificate_snoc look_same look_other)
qed

end

end
