(* ===== verification/MqGroupsProps.thy ===== *)
theory MqGroupsProps
  imports MqGroupsApi MqAclSafety
begin

text \<open>
  From the TLS connection to the group: the registry reports the certificate of the last connection on
  a pair of sockets, the routes let only the leader named in the path through, and no request changes
  a group unless the certificate of its own connection names that leader.
\<close>

subsection \<open>The registry of peer certificates\<close>

definition certificate_info :: "certificate option \<Rightarrow> peer_certificate_info" where
  "certificate_info cert = \<lparr>common_name = mq_extract_common_name cert, peer_certificate = cert\<rparr>"

lemmas registry_defs = registry_lookup_def registry_register_def registry_unregister_def
  connection_made_def connection_lost_def certificate_info_def

interpretation mq_peers: peer_registry apply_connection registry_lookup "\<lambda>_. None" certificate_info
proof
  show "registry_lookup client server (apply_connection e r) = map_option certificate_info (presented e)"
    if "concerns client server e" for client server e r
    using that by (cases e) (auto simp: registry_defs Let_def)
  show "registry_lookup client server (apply_connection e r) = registry_lookup client server r"
    if "\<not> concerns client server e" for client server e r
    using that by (cases e) (auto simp: registry_defs peer_key_inject split: option.splits)
qed (simp add: registry_lookup_def)

lemma lookup_open_certificate:
  "registry_lookup client server (registry_after evs) = map_option certificate_info (open_certificate client server evs)"
  unfolding registry_after_def by (rule mq_peers.look_after)

lemma middleware_identity:
  "middleware_dispatch (Some client) (Some (fst server, Some (snd server))) (registry_after evs) fresh_request
     = Inr \<lparr>rs_peer_certificate = Option.bind (open_certificate client server evs) (\<lambda>c. c),
            rs_peer_common_name = Option.bind (open_certificate client server evs) mq_extract_common_name\<rparr>"
  using lookup_open_certificate [of client server evs]
  by (cases "open_certificate client server evs")
    (simp_all add: middleware_dispatch_def fresh_request_def certificate_info_def)

text \<open>
  The identity the middleware attaches to a request is that of its own connection: after any
  sequence of connections opened and lost, in any order and on any sockets, a request on a pair of
  sockets gets the certificate and common name presented on the last connection opened on that pair,
  and none when there is no such connection or it was lost. Connections on other sockets have no
  influence.
\<close>
theorem middleware_reports_own_certificate:
  "middleware_dispatch (Some client) (Some (fst server, Some (snd server))) (registry_after evs) fresh_request
     = Inr \<lparr>rs_peer_certificate = Option.bind (open_certificate client server evs) (\<lambda>c. c),
            rs_peer_common_name = Option.bind (open_certificate client server evs) mq_extract_common_name\<rparr>"
  by (rule middleware_identity)

subsection \<open>The routes\<close>

lemma validate_group_path_cases:
  "validate_group_path l g m = Inr () \<longleftrightarrow> ensure_valid_identifiers l g m = Inr ()"
  "validate_group_path l g m = Inl e \<Longrightarrow> \<exists>x. e = GroupApiError x \<and> status_code x = 422"
  by (auto simp: validate_group_path_def ensure_valid_identifiers_def split: if_splits)

lemma require_client_cases:
  "require_group_client_aic cn = Inr a \<longleftrightarrow> cn = Some a \<and> mq_valid_aic a"
  "require_group_client_aic cn = Inl e \<Longrightarrow> \<exists>x. e = GroupApiError x \<and> status_code x = 403"
  by (auto simp: require_group_client_aic_def split: option.splits if_splits)

lemma leader_access_cases:
  "ensure_group_leader_access a l = Inr () \<longleftrightarrow> a = l"
  "ensure_group_leader_access a l = Inl e \<Longrightarrow> \<exists>x. e = GroupApiError x \<and> status_code x = 403"
  by (auto simp: ensure_group_leader_access_def split: if_splits)

lemma guarded_refused:
  assumes "path \<noteq> Inr () \<or> access \<noteq> Inr ()"
    and "\<And>e. path = Inl e \<Longrightarrow> \<exists>x. e = GroupApiError x \<and> status_code x \<in> {403, 422}"
    and "\<And>e. access = Inl e \<Longrightarrow> \<exists>x. e = GroupApiError x \<and> status_code x \<in> {403, 422}"
  shows "\<exists>x. guarded path access call st = (Inl (GroupApiError x), st) \<and> status_code x \<in> {403, 422}"
  using assms by (cases path; cases access) (auto simp: guarded_def)

lemma guarded_accepted:
  "guarded (Inr ()) (Inr ()) call st =
     (case call st of (Inl e, st') \<Rightarrow> (Inl (ServiceError e), st') | (Inr _, st') \<Rightarrow> (Inr 204, st'))"
  by (simp add: guarded_def)

lemma guarded_service_error:
  "fst (guarded path access call st) = Inl (ServiceError e) \<Longrightarrow>
     (\<And>e. path = Inl e \<Longrightarrow> \<exists>x. e = GroupApiError x) \<Longrightarrow> (\<And>e. access = Inl e \<Longrightarrow> \<exists>x. e = GroupApiError x)
     \<Longrightarrow> path = Inr () \<and> fst (call st) = Inl e"
  by (auto simp: guarded_def split: sum.splits prod.splits)

lemma not_leader_refused:
  assumes "cn \<noteq> Some l"
  shows "\<exists>x. route_group ops ttl http cn l g req st = (Inl (GroupApiError x), st) \<and> status_code x \<in> {403, 422}"
proof (cases "require_group_client_aic cn")
  case (Inl e)
  then show ?thesis using require_client_cases(2) [OF Inl] by (auto simp: route_group_def)
next
  case (Inr a)
  then have "a \<noteq> l" using assms require_client_cases(1) by auto
  then have "ensure_group_leader_access a l \<noteq> Inr ()" by (simp add: leader_access_cases)
  then have "\<exists>x. guarded (validate_group_path l g m) (ensure_group_leader_access a l) call st
      = (Inl (GroupApiError x), st) \<and> status_code x \<in> {403, 422}" for m and call :: "'a acl_state \<Rightarrow> _"
    using validate_group_path_cases(2) leader_access_cases(2) by (intro guarded_refused) blast+
  with Inr show ?thesis
    by (cases req) (simp_all add: route_group_def add_group_member_def remove_group_member_def
        delete_group_route_def close_member_connection_def)
qed

lemma store_call_no_value_error:
  "fst (store_call op st k) = Inl (AclValueError s) \<Longrightarrow> \<exists>a st'. fst (k a st') = Inl (AclValueError s)"
  by (auto simp: store_call_def split: sum.splits prod.splits)

lemma service_no_value_error:
  "ensure_valid_identifiers l g (Some m) = Inr () \<Longrightarrow> fst (add_member ops ttl l g m st) \<noteq> Inl (AclValueError s)"
  "ensure_valid_identifiers l g (Some m) = Inr () \<Longrightarrow> fst (remove_member ops ttl l g m st) \<noteq> Inl (AclValueError s)"
  "ensure_valid_identifiers l g None = Inr () \<Longrightarrow> fst (delete_group ops l g st) \<noteq> Inl (AclValueError s)"
  "ensure_valid_identifiers l g (Some m) = Inr () \<Longrightarrow> close_member_connections http l m \<noteq> Inl (AclValueError s)"
  by (auto simp: add_member_def remove_member_def delete_group_def Let_def close_member_connections_def
      ensure_valid_identifiers_def delete_connections_by_username_def
      dest!: store_call_no_value_error split: if_splits)

text \<open>
  The routes guard the service. A request whose peer is not the leader named in the path (no
  certificate, a certificate of another agent, a malformed name) is answered with a problem document
  of status 403 or 422 and changes neither the cache nor the store; and for every request the format
  checks of the route cover those of the service, so the service's \<open>ValueError\<close> never escapes as an
  internal error.
\<close>
theorem routes_guard_service:
  "(cn \<noteq> Some l \<longrightarrow> (\<exists>x. route_group ops ttl http cn l g req st = (Inl (GroupApiError x), st)
      \<and> status_code x \<in> {403, 422}))
   \<and> fst (route_group ops ttl http cn l g req st) \<noteq> Inl (ServiceError (AclValueError s))"
proof
  show "cn \<noteq> Some l \<longrightarrow> (\<exists>x. route_group ops ttl http cn l g req st = (Inl (GroupApiError x), st)
      \<and> status_code x \<in> {403, 422})"
    using not_leader_refused by blast
  show "fst (route_group ops ttl http cn l g req st) \<noteq> Inl (ServiceError (AclValueError s))"
  proof
    assume raised: "fst (route_group ops ttl http cn l g req st) = Inl (ServiceError (AclValueError s))"
    then obtain a where a: "require_group_client_aic cn = Inr a"
      using require_client_cases(2) [of cn] by (cases "require_group_client_aic cn") (auto simp: route_group_def)
    have escaped: "ensure_valid_identifiers l g m = Inr () \<and> fst (call st) = Inl (AclValueError s)"
      if "fst (guarded (validate_group_path l g m) (ensure_group_leader_access a l) call st)
        = Inl (ServiceError (AclValueError s))" for m and call :: "'a acl_state \<Rightarrow> (acl_error, unit) result \<times> 'a acl_state"
      using guarded_service_error [OF that] validate_group_path_cases leader_access_cases(2) by blast
    show False
      using raised a escaped service_no_value_error
      by (cases req) (fastforce simp: route_group_def add_group_member_def remove_group_member_def
          delete_group_route_def close_member_connection_def)+
  qed
qed

text \<open>
  C16: Only a leader's own certificate manages its groups, end to end: whatever connections were opened
  and lost before, a request that arrives on a pair of sockets and either succeeds or changes anything
  in the cache or the store was sent on an open connection whose certificate's common name is the
  leader in the path.
\<close>
theorem only_leader_certificate_manages_group:
  assumes "serve_group ops ttl http (Some client) (Some (fst server, Some (snd server))) (registry_after evs)
      l g req st = (r, st')"
    and "is_ok r \<or> st' \<noteq> st"
  shows "\<exists>cert. open_certificate client server evs = Some cert \<and> mq_extract_common_name cert = Some l"
proof -
  let ?cn = "Option.bind (open_certificate client server evs) mq_extract_common_name"
  have served: "serve_group ops ttl http (Some client) (Some (fst server, Some (snd server)))
      (registry_after evs) l g req st
    = (case route_group ops ttl http ?cn l g req st of
         (Inl e, st') \<Rightarrow> (Inl (Inl e), st') | (Inr status, st') \<Rightarrow> (Inr status, st'))"
    by (simp add: serve_group_def middleware_identity)
  have "?cn = Some l"
  proof (rule ccontr)
    assume "?cn \<noteq> Some l"
    then obtain x where "route_group ops ttl http ?cn l g req st = (Inl (GroupApiError x), st)"
      using not_leader_refused by blast
    with served assms show False by simp
  qed
  then show ?thesis by (simp add: bind_eq_Some_conv)
qed


definition leader_certificate :: certificate where
  "leader_certificate = [(''subject'', PTuple [PTuple [PTuple [PStr ''commonName'', PStr leader1]]])]"

theorem only_leader_certificate_manages_group_witness:
  "\<exists>cert. open_certificate (''10.0.0.7'', 40001) (''10.0.0.1'', 443)
      [Made (Some (''10.0.0.7'', 40001)) (Some (''10.0.0.1'', Some 443)) (Some (Some leader_certificate))] = Some cert
    \<and> mq_extract_common_name cert = Some leader1"
proof -
  let ?evs = "[Made (Some (''10.0.0.7'', 40001)) (Some (''10.0.0.1'', Some 443)) (Some (Some leader_certificate))]"
  let ?out = "serve_group (redis_acl_store mem_redis) 60 (\<lambda>_. 204) (Some (''10.0.0.7'', 40001))
      (Some (''10.0.0.1'', Some 443)) (registry_after ?evs) leader1 ''g1'' (DeleteMember member1) (one_group [])"
  have valid: "mq_valid_aic leader1"
    by code_simp
  have name: "mq_extract_common_name (Some leader_certificate) = Some leader1"
    by (simp add: mq_extract_common_name_def leader_certificate_def)
  have path: "validate_group_path leader1 ''g1'' (Some member1) = Inr ()"
    by (simp add: validate_group_path_cases)
  obtain st' where removed: "remove_member (redis_acl_store mem_redis) 60 leader1 ''g1'' member1 (one_group [])
      = (Inr (), st')"
    by (simp add: run_simps)
  have client: "require_group_client_aic (Some leader1) = Inr leader1"
    by (simp add: require_client_cases valid)
  have "is_ok (fst ?out)"
    using removed
    by (simp add: serve_group_def registry_after_def connection_made_def registry_register_def
        middleware_dispatch_def registry_lookup_def fresh_request_def name route_group_def client
        remove_group_member_def path guarded_def ensure_group_leader_access_def)
  then show ?thesis
    using only_leader_certificate_manages_group [where client = "(''10.0.0.7'', 40001)"
        and server = "(''10.0.0.1'', 443)" and evs = ?evs and l = leader1 and g = "''g1''"
        and req = "DeleteMember member1" and st = "one_group []" and r = "fst ?out" and st' = "snd ?out"
        and ops = "redis_acl_store mem_redis" and ttl = 60 and http = "\<lambda>_. 204"]
    by simp
qed


theorem routes_guard_service_witness:
  "\<exists>x. route_group (redis_acl_store mem_redis) 60 (\<lambda>_. 204) (Some member1) leader1 ''g1'' (PutMember member1)
      (one_group []) = (Inl (GroupApiError x), one_group []) \<and> status_code x \<in> {403, 422}"
  using routes_guard_service [of "Some member1" leader1 "redis_acl_store mem_redis" 60 "\<lambda>_. 204" "''g1''"
      "PutMember member1" "one_group []"]
  by (simp add: leader1_def member1_def)

end
