(* ===== verification/AipIdentity.thy ===== *)
theory AipIdentity
  imports Aic
begin

text \<open>
  \<open>acps-sdk/acps_sdk/aip/aip_identity.py\<close>: binding the sender id of a message to the identity of the
  TLS peer. Exceptions are values of \<open>py_exn\<close>; the messages of identity errors are kept as structured
  reasons instead of text.
\<close>

subsection \<open>Errors\<close>

datatype aic_problem =
    AicRequired string
  | AicInvalid string "aic_error option"
  | AicDiffers string string

datatype cert_problem =
    ManyUris
  | BadCommonName "aic_error option"
  | BadSanUri "aic_error option"
  | NameAndUriDiffer
  | BadPeerAic string "aic_error option"

datatype identity_error =
    PeerAicMissing string
  | SenderIdentityMismatch aic_problem
  | InvalidPeerCertificate cert_problem

text \<open>\<open>BadExpected\<close> is the \<open>ValueError\<close> of a badly configured local AIC.\<close>

datatype py_exn =
    IdentityExn identity_error
  | BadExpected aic_problem
  | ValueExn string
  | OtherExn string

subsection \<open>Normalising\<close>

definition normalize_aic :: "string option \<Rightarrow> string option" where
  "normalize_aic aic =
     (case aic of
        None \<Rightarrow> None
      | Some a \<Rightarrow> let norm_aic = upper (strip a) in if norm_aic = [] then None else Some norm_aic)"

definition normalize_and_validate_aic :: "string option \<Rightarrow> string \<Rightarrow> (py_exn, string) result" where
  "normalize_and_validate_aic aic field_name =
     (case normalize_aic aic of
        None \<Rightarrow> Inl (IdentityExn (SenderIdentityMismatch (AicRequired field_name)))
      | Some norm_aic \<Rightarrow>
          (case validate_aic_format norm_aic AIC_PREFIX of
             (True, _) \<Rightarrow> Inr norm_aic
           | (False, error) \<Rightarrow> Inl (IdentityExn (SenderIdentityMismatch (AicInvalid field_name error)))))"

definition normalize_and_validate_expected_aic :: "string option \<Rightarrow> string \<Rightarrow> (py_exn, string) result" where
  "normalize_and_validate_expected_aic aic field_name =
     (case normalize_aic aic of
        None \<Rightarrow> Inl (BadExpected (AicRequired field_name))
      | Some norm_aic \<Rightarrow>
          (case validate_aic_format norm_aic AIC_PREFIX of
             (True, _) \<Rightarrow> Inr norm_aic
           | (False, error) \<Rightarrow> Inl (BadExpected (AicInvalid field_name error))))"

subsection \<open>The identity in a peer certificate\<close>

fun cn_attribute :: "pyval \<Rightarrow> string option" where
  "cn_attribute (PTuple [PStr k, PStr v]) = (if k = ''commonName'' then Some v else None)"
| "cn_attribute _ = None"

fun cn_rdns :: "pyval \<Rightarrow> string option" where
  "cn_rdns (PTuple attributes) = first_some cn_attribute attributes"
| "cn_rdns _ = None"

definition extract_common_name :: "(string \<times> pyval) list option \<Rightarrow> string option" where
  "extract_common_name peer_certificate =
     (case peer_certificate of
        None \<Rightarrow> None
      | Some cert \<Rightarrow>
          (case dict_get cert ''subject'' of
             PTuple subject \<Rightarrow> first_some cn_rdns subject
           | _ \<Rightarrow> None))"

fun acps_uri :: "pyval \<Rightarrow> string list" where
  "acps_uri (PTuple [PStr kind, PStr value]) =
     (if kind = ''URI'' \<and> startswith (lower value) ''acps://'' then [drop 7 value] else [])"
| "acps_uri _ = []"

definition extract_acps_uri_san :: "(string \<times> pyval) list option \<Rightarrow> (py_exn, string option) result" where
  "extract_acps_uri_san peer_certificate =
     (case peer_certificate of
        None \<Rightarrow> Inr None
      | Some cert \<Rightarrow>
          (case dict_get cert ''subjectAltName'' of
             PTuple subject_alt_name \<Rightarrow>
               let acps_uris = concat (map acps_uri subject_alt_name) in
               if acps_uris = [] then Inr None
               else
                 let normalized_values = set (List.map_filter (\<lambda>v. normalize_aic (Some v)) acps_uris) in
                 if card normalized_values > 1 then Inl (IdentityExn (InvalidPeerCertificate ManyUris))
                 else Inr (Some (hd acps_uris))
           | _ \<Rightarrow> Inr None))"

record peer_identity =
  pi_aic :: string
  pi_common_name :: "string option"
  pi_san_aic :: "string option"

definition or_empty :: "string option \<Rightarrow> string" where
  "or_empty x = (case x of None \<Rightarrow> [] | Some s \<Rightarrow> s)"

definition extract_peer_identity ::
  "(string \<times> pyval) list option \<Rightarrow> (py_exn, peer_identity option) result" where
  "extract_peer_identity peer_certificate =
     bind_result (extract_acps_uri_san peer_certificate) (\<lambda>san_aic.
       case extract_common_name peer_certificate of
         None \<Rightarrow> Inr None
       | Some common_name \<Rightarrow>
           let normalized_cn = normalize_aic (Some common_name) in
           (case validate_aic_format (or_empty normalized_cn) AIC_PREFIX of
              (False, cn_error) \<Rightarrow> Inl (IdentityExn (InvalidPeerCertificate (BadCommonName cn_error)))
            | (True, _) \<Rightarrow>
                (case san_aic of
                   None \<Rightarrow> Inr (Some \<lparr>pi_aic = or_empty normalized_cn, pi_common_name = Some common_name,
                     pi_san_aic = None\<rparr>)
                 | Some san \<Rightarrow>
                     let normalized_san = normalize_aic (Some san) in
                     (case validate_aic_format (or_empty normalized_san) AIC_PREFIX of
                        (False, san_error) \<Rightarrow> Inl (IdentityExn (InvalidPeerCertificate (BadSanUri san_error)))
                      | (True, _) \<Rightarrow>
                          if normalized_san \<noteq> normalized_cn
                          then Inl (IdentityExn (InvalidPeerCertificate NameAndUriDiffer))
                          else Inr (Some \<lparr>pi_aic = or_empty normalized_cn,
                            pi_common_name = Some common_name, pi_san_aic = normalized_san\<rparr>)))))"

subsection \<open>The sender of a message\<close>

text \<open>
  The argument is a string, a dictionary or an object. A value stored under \<open>senderId\<close> is given as the
  text \<open>str\<close> makes of it, and \<open>None\<close> stands for \<open>None\<close>.
\<close>

datatype sender_arg =
    SenderStr string
  | SenderDict "(string \<times> string option) list"
  | SenderObj "string option"

fun extract_sender_id :: "sender_arg \<Rightarrow> string option" where
  "extract_sender_id (SenderStr s) = Some s"
| "extract_sender_id (SenderDict d) = (case map_of d ''senderId'' of None \<Rightarrow> None | Some v \<Rightarrow> v)"
| "extract_sender_id (SenderObj v) = v"

definition assert_sender_matches_peer :: "sender_arg \<Rightarrow> string option \<Rightarrow> (py_exn, string) result" where
  "assert_sender_matches_peer message_or_sender peer_aic =
     (case normalize_aic peer_aic of
        None \<Rightarrow> Inl (IdentityExn (PeerAicMissing ''peer AIC''))
      | Some normalized_peer \<Rightarrow>
          bind_result (normalize_and_validate_aic (extract_sender_id message_or_sender) ''senderId'') (\<lambda>sender_id.
            if sender_id \<noteq> normalized_peer
            then Inl (IdentityExn (SenderIdentityMismatch (AicDiffers sender_id normalized_peer)))
            else Inr sender_id))"

definition assert_sender_matches_expected :: "sender_arg \<Rightarrow> string option \<Rightarrow> (py_exn, string) result" where
  "assert_sender_matches_expected message_or_sender expected_aic =
     bind_result (normalize_and_validate_expected_aic expected_aic ''expected_aic'') (\<lambda>normalized_expected.
     bind_result (normalize_and_validate_aic (extract_sender_id message_or_sender) ''senderId'') (\<lambda>sender_id.
       if sender_id \<noteq> normalized_expected
       then Inl (IdentityExn (SenderIdentityMismatch (AicDiffers sender_id normalized_expected)))
       else Inr sender_id))"

definition assert_aic_matches_expected ::
  "string option \<Rightarrow> string option \<Rightarrow> string \<Rightarrow> string \<Rightarrow> (py_exn, string) result" where
  "assert_aic_matches_expected actual_aic expected_aic actual_label expected_label =
     bind_result (normalize_and_validate_expected_aic expected_aic expected_label) (\<lambda>normalized_expected.
       case normalize_aic actual_aic of
         None \<Rightarrow> Inl (IdentityExn (PeerAicMissing actual_label))
       | Some normalized_actual \<Rightarrow>
           (case validate_aic_format normalized_actual AIC_PREFIX of
              (False, actual_error) \<Rightarrow>
                Inl (IdentityExn (InvalidPeerCertificate (BadPeerAic actual_label actual_error)))
            | (True, _) \<Rightarrow>
                if normalized_actual \<noteq> normalized_expected
                then Inl (IdentityExn (SenderIdentityMismatch (AicDiffers normalized_actual normalized_expected)))
                else Inr normalized_actual))"

text \<open>
  The network stream of an HTTP client response, as far as the code looks: it may be missing, have no
  callable \<open>get_extra_info\<close>, no TLS object, or a TLS object without a callable \<open>getpeercert\<close>.
\<close>

datatype network_stream =
    NoStream
  | NoExtraInfo
  | NoTls
  | NoPeerCert
  | PeerCert "(string \<times> pyval) list option"

definition extract_peer_aic_from_httpx_response :: "network_stream \<Rightarrow> (py_exn, string option) result" where
  "extract_peer_aic_from_httpx_response stream =
     (case stream of
        PeerCert cert \<Rightarrow>
          bind_result (extract_peer_identity cert) (\<lambda>identity. Inr (map_option pi_aic identity))
      | _ \<Rightarrow> Inr None)"

subsection \<open>JSON-RPC errors\<close>

datatype rpc_data =
    NoData
  | IdentityText identity_error
  | TextData string
  | TaskIdData "string option"

record jsonrpc_error =
  err_code :: int
  err_message :: string
  err_data :: rpc_data

definition AUTHENTICATION_REQUIRED_CODE :: int where "AUTHENTICATION_REQUIRED_CODE = - 32008"
definition AUTHORIZATION_FAILED_CODE :: int where "AUTHORIZATION_FAILED_CODE = - 32009"

fun identity_error_to_jsonrpc :: "identity_error \<Rightarrow> jsonrpc_error" where
  "identity_error_to_jsonrpc (SenderIdentityMismatch p) =
     \<lparr>err_code = AUTHORIZATION_FAILED_CODE, err_message = ''AuthorizationFailedError'',
      err_data = IdentityText (SenderIdentityMismatch p)\<rparr>"
| "identity_error_to_jsonrpc e =
     \<lparr>err_code = AUTHENTICATION_REQUIRED_CODE, err_message = ''AuthenticationRequiredError'',
      err_data = IdentityText e\<rparr>"

subsection \<open>What the checks accept\<close>

definition sdk_valid :: "string \<Rightarrow> bool" where
  "sdk_valid a = is_valid_aic_format a AIC_PREFIX"

lemma sdk_valid_fst: "sdk_valid a \<longleftrightarrow> fst (validate_aic_format a AIC_PREFIX)"
  by (simp add: sdk_valid_def is_valid_aic_format_def)

lemma sdk_valid_pair: "validate_aic_format a AIC_PREFIX = (b, e) \<Longrightarrow> sdk_valid a = b"
  by (simp add: sdk_valid_fst)

lemma not_valid_Nil [simp]: "\<not> sdk_valid []"
  by (simp add: sdk_valid_fst validate_aic_format_def)

lemma normalize_aic_Some: "normalize_aic x = Some n \<longleftrightarrow> (\<exists>a. x = Some a \<and> n = upper (strip a) \<and> n \<noteq> [])"
  by (auto simp: normalize_aic_def Let_def split: option.splits)

lemma normalize_and_validate_ok:
  "normalize_and_validate_aic x f = Inr n \<longleftrightarrow> normalize_aic x = Some n \<and> sdk_valid n"
  "normalize_and_validate_expected_aic x f = Inr n \<longleftrightarrow> normalize_aic x = Some n \<and> sdk_valid n"
  by (auto simp: normalize_and_validate_aic_def normalize_and_validate_expected_aic_def sdk_valid_fst
      split: option.splits prod.splits bool.splits)

lemma normalize_and_validate_aic_error:
  "normalize_and_validate_aic x f = Inl e \<Longrightarrow> \<exists>p. e = IdentityExn (SenderIdentityMismatch p)"
  by (auto simp: normalize_and_validate_aic_def split: option.splits prod.splits bool.splits)

lemma sender_matches_peer_ok:
  "assert_sender_matches_peer m peer = Inr s \<longleftrightarrow>
     normalize_aic peer = Some s \<and> normalize_aic (extract_sender_id m) = Some s \<and> sdk_valid s"
  by (cases "normalize_aic peer")
    (auto simp: assert_sender_matches_peer_def bind_result_eq_Inr normalize_and_validate_ok split: if_splits)

lemma sender_matches_peer_error:
  "assert_sender_matches_peer m peer = Inl e \<Longrightarrow> \<exists>x. e = IdentityExn x"
  by (cases "normalize_aic peer"; cases "normalize_and_validate_aic (extract_sender_id m) ''senderId''")
    (auto simp: assert_sender_matches_peer_def dest: normalize_and_validate_aic_error split: if_splits)

lemma sender_matches_expected_ok:
  "assert_sender_matches_expected m expected = Inr s \<longleftrightarrow>
     normalize_aic expected = Some s \<and> normalize_aic (extract_sender_id m) = Some s \<and> sdk_valid s"
  by (auto simp: assert_sender_matches_expected_def bind_result_eq_Inr normalize_and_validate_ok split: if_splits)

lemma validate_aic_format_Nil [simp]: "validate_aic_format [] pre = (False, Some AicEmpty)"
  by (simp add: validate_aic_format_def)

lemma extract_peer_identity_ok:
  assumes "extract_peer_identity cert = Inr (Some i)"
  shows "\<exists>cn. extract_common_name cert = Some cn \<and> normalize_aic (Some cn) = Some (pi_aic i) \<and> sdk_valid (pi_aic i)
    \<and> pi_common_name i = Some cn \<and> (pi_san_aic i = None \<or> pi_san_aic i = Some (pi_aic i))"
proof -
  obtain san cn where san: "extract_acps_uri_san cert = Inr san" and cn: "extract_common_name cert = Some cn"
    using assms by (auto simp: extract_peer_identity_def bind_result_eq_Inr split: option.splits)
  let ?v = "validate_aic_format (or_empty (normalize_aic (Some cn))) AIC_PREFIX"
  have v: "fst ?v" "normalize_aic (Some cn) \<noteq> None"
    using assms san cn
    by (auto simp: extract_peer_identity_def Let_def or_empty_def split: prod.splits bool.splits option.splits)
  then obtain n where n: "normalize_aic (Some cn) = Some n" by blast
  have "pi_aic i = n \<and> pi_common_name i = Some cn \<and> (pi_san_aic i = None \<or> pi_san_aic i = Some n)"
    using assms san cn n
    by (auto simp: extract_peer_identity_def Let_def or_empty_def [of "Some n"]
        split: prod.splits bool.splits option.splits if_splits)
  with v n cn show ?thesis by (simp add: sdk_valid_fst or_empty_def)
qed

lemma extract_peer_identity_error:
  "extract_peer_identity cert = Inl e \<Longrightarrow> \<exists>p. e = IdentityExn (InvalidPeerCertificate p)"
  unfolding extract_peer_identity_def Let_def
  by (cases "extract_acps_uri_san cert")
    (auto simp: extract_acps_uri_san_def Let_def
      split: option.splits prod.splits bool.splits if_splits pyval.splits simp del: level_error_simps)

end
