(* ===== verification/AipPeerCert.thy ===== *)
theory AipPeerCert
  imports AipIdentity PeerRegistry
begin

text \<open>
  \<open>acps-sdk/acps_sdk/aip/aip_peer_cert.py\<close>: the SDK's registry of peer certificates, which also keeps
  the identity (or identity error) extracted from each certificate, the middleware that attaches them to
  a request, and \<open>get_request_peer_aic\<close>. The registry provides the interface \<open>peer_registry\<close>.
\<close>

record aip_certificate_info =
  ci_common_name :: "string option"
  ci_certificate :: "certificate option"
  ci_peer_identity :: "peer_identity option"
  ci_identity_error :: "py_exn option"

definition ci_peer_aic :: "aip_certificate_info \<Rightarrow> string option" where
  "ci_peer_aic info = map_option pi_aic (ci_peer_identity info)"

type_synonym aip_peer_registry = "peer_key \<Rightarrow> aip_certificate_info option"

definition aip_register ::
  "sock_addr \<Rightarrow> sock_addr \<Rightarrow> certificate option \<Rightarrow> aip_peer_registry \<Rightarrow> aip_peer_registry" where
  "aip_register client server cert entries =
     (let (identity, identity_error) =
        (case extract_peer_identity cert of Inr i \<Rightarrow> (i, None) | Inl e \<Rightarrow> (None, Some e)) in
      entries(peer_key_of client server :=
        Some \<lparr>ci_common_name = extract_common_name cert, ci_certificate = cert,
          ci_peer_identity = identity, ci_identity_error = identity_error\<rparr>))"

definition aip_unregister :: "sock_addr \<Rightarrow> sock_addr \<Rightarrow> aip_peer_registry \<Rightarrow> aip_peer_registry" where
  "aip_unregister client server entries = entries(peer_key_of client server := None)"

definition aip_lookup :: "sock_addr \<Rightarrow> sock_addr \<Rightarrow> aip_peer_registry \<Rightarrow> aip_certificate_info option" where
  "aip_lookup client server entries = entries (peer_key_of client server)"

definition aip_connection_made ::
  "sock_addr option \<Rightarrow> (string \<times> int option) option \<Rightarrow> certificate option option
     \<Rightarrow> aip_peer_registry \<Rightarrow> aip_peer_registry" where
  "aip_connection_made client server ssl entries =
     (let cert = (case ssl of None \<Rightarrow> None | Some c \<Rightarrow> c) in
      case (client, server) of
        (Some cl, Some (host, Some port)) \<Rightarrow> aip_register cl (host, port) cert entries
      | _ \<Rightarrow> entries)"

definition aip_connection_lost ::
  "sock_addr option \<Rightarrow> (string \<times> int option) option \<Rightarrow> aip_peer_registry \<Rightarrow> aip_peer_registry" where
  "aip_connection_lost client server entries =
     (case (client, server) of
        (Some cl, Some (host, Some port)) \<Rightarrow> aip_unregister cl (host, port) entries
      | _ \<Rightarrow> entries)"

record aip_request_state =
  as_peer_certificate :: "certificate option"
  as_peer_common_name :: "string option"
  as_peer_identity :: "peer_identity option"
  as_peer_aic :: "string option"
  as_peer_identity_error :: "py_exn option"

definition keep_or :: "'a option \<Rightarrow> 'a option \<Rightarrow> 'a option" where
  "keep_or current new = (if current = None then new else current)"

definition aip_dispatch ::
  "sock_addr option \<Rightarrow> (string \<times> int option) option \<Rightarrow> aip_peer_registry \<Rightarrow> aip_request_state
     \<Rightarrow> aip_request_state" where
  "aip_dispatch client server entries rs =
     (let info = (case (client, server) of
            (Some cl, Some (host, Some port)) \<Rightarrow> aip_lookup cl (host, port) entries
          | _ \<Rightarrow> None) in
      \<lparr>as_peer_certificate = keep_or (as_peer_certificate rs) (Option.bind info ci_certificate),
       as_peer_common_name = keep_or (as_peer_common_name rs) (Option.bind info ci_common_name),
       as_peer_identity = keep_or (as_peer_identity rs) (Option.bind info ci_peer_identity),
       as_peer_aic = keep_or (as_peer_aic rs) (Option.bind info ci_peer_aic),
       as_peer_identity_error = keep_or (as_peer_identity_error rs) (Option.bind info ci_identity_error)\<rparr>)"

definition get_request_peer_aic :: "aip_request_state \<Rightarrow> (py_exn, string option) result" where
  "get_request_peer_aic rs =
     (case as_peer_identity_error rs of
        Some e \<Rightarrow> Inl e
      | None \<Rightarrow>
          (case as_peer_aic rs of
             Some a \<Rightarrow> Inr (Some a)
           | None \<Rightarrow> Inr (map_option pi_aic (as_peer_identity rs))))"

definition aip_fresh_request :: aip_request_state where
  "aip_fresh_request = \<lparr>as_peer_certificate = None, as_peer_common_name = None, as_peer_identity = None,
     as_peer_aic = None, as_peer_identity_error = None\<rparr>"

fun aip_apply_connection :: "connection_event \<Rightarrow> aip_peer_registry \<Rightarrow> aip_peer_registry" where
  "aip_apply_connection (Made client server ssl) entries = aip_connection_made client server ssl entries"
| "aip_apply_connection (Lost client server) entries = aip_connection_lost client server entries"

definition aip_registry_after :: "connection_event list \<Rightarrow> aip_peer_registry" where
  "aip_registry_after evs = fold aip_apply_connection evs (\<lambda>_. None)"

subsection \<open>The interface\<close>

definition aip_info :: "certificate option \<Rightarrow> aip_certificate_info" where
  "aip_info cert =
     \<lparr>ci_common_name = extract_common_name cert, ci_certificate = cert,
      ci_peer_identity = (case extract_peer_identity cert of Inr i \<Rightarrow> i | Inl _ \<Rightarrow> None),
      ci_identity_error = (case extract_peer_identity cert of Inr _ \<Rightarrow> None | Inl e \<Rightarrow> Some e)\<rparr>"

lemma aip_register_info:
  "aip_register client server cert entries = entries(peer_key_of client server := Some (aip_info cert))"
  by (cases "extract_peer_identity cert") (simp_all add: aip_register_def aip_info_def)

lemmas aip_registry_defs = aip_lookup_def aip_register_info aip_unregister_def aip_connection_made_def
  aip_connection_lost_def

interpretation aip_peers: peer_registry aip_apply_connection aip_lookup "\<lambda>_. None" aip_info
proof
  show "aip_lookup client server (aip_apply_connection e r) = map_option aip_info (presented e)"
    if "concerns client server e" for client server e r
    using that by (cases e) (auto simp: aip_registry_defs Let_def)
  show "aip_lookup client server (aip_apply_connection e r) = aip_lookup client server r"
    if "\<not> concerns client server e" for client server e r
    using that by (cases e) (auto simp: aip_registry_defs peer_key_inject split: option.splits)
qed (simp add: aip_lookup_def)

lemma aip_lookup_after:
  "aip_lookup client server (aip_registry_after evs) = map_option aip_info (open_certificate client server evs)"
  unfolding aip_registry_after_def by (rule aip_peers.look_after)

lemma request_peer_aic_after:
  "get_request_peer_aic (aip_dispatch (Some client) (Some (fst server, Some (snd server)))
      (aip_registry_after evs) aip_fresh_request)
    = (case open_certificate client server evs of
         None \<Rightarrow> Inr None
       | Some cert \<Rightarrow> bind_result (extract_peer_identity cert) (\<lambda>i. Inr (map_option pi_aic i)))"
proof (cases "open_certificate client server evs")
  case None
  with aip_lookup_after [of client server evs] show ?thesis
    by (simp add: aip_dispatch_def aip_fresh_request_def get_request_peer_aic_def keep_or_def)
next
  case (Some cert)
  with aip_lookup_after [of client server evs] show ?thesis
    by (cases "extract_peer_identity cert"; cases "projr (extract_peer_identity cert)")
      (auto simp: aip_dispatch_def aip_fresh_request_def get_request_peer_aic_def keep_or_def aip_info_def
        ci_peer_aic_def)
qed

subsection \<open>Who a message comes from\<close>

text \<open>The check an agent server makes of a message that arrives on a pair of sockets.\<close>

definition sender_check ::
  "connection_event list \<Rightarrow> sock_addr \<Rightarrow> sock_addr \<Rightarrow> sender_arg \<Rightarrow> (py_exn, string) result" where
  "sender_check evs client server message =
     bind_result (get_request_peer_aic (aip_dispatch (Some client) (Some (fst server, Some (snd server)))
        (aip_registry_after evs) aip_fresh_request))
       (assert_sender_matches_peer message)"

text \<open>
  A message is accepted under the name of the certificate it came with, and no other. Whatever
  connections were opened and lost before, when the sender check accepts a message that arrives on a
  pair of sockets, that connection is open, its certificate has a common name, and the accepted
  sender is this common name and the message's sender id, up to surrounding white space and case; it
  is a valid AIC, and an ACPs URI in the certificate's alternative names says the same.
\<close>
theorem accepted_sender_holds_certificate:
  assumes "sender_check evs client server message = Inr s"
  shows "\<exists>cert cn. open_certificate client server evs = Some cert \<and> extract_common_name cert = Some cn
    \<and> s = upper (strip cn) \<and> sdk_valid s
    \<and> (\<exists>m. extract_sender_id message = Some m \<and> upper (strip m) = s)
    \<and> (\<forall>uri. extract_acps_uri_san cert = Inr (Some uri) \<longrightarrow> upper (strip uri) = s)"
proof -
  obtain peer where peer: "get_request_peer_aic (aip_dispatch (Some client) (Some (fst server, Some (snd server)))
        (aip_registry_after evs) aip_fresh_request) = Inr peer"
    and ok: "assert_sender_matches_peer message peer = Inr s"
    using assms by (auto simp: sender_check_def bind_result_eq_Inr)
  from ok have s: "normalize_aic peer = Some s" "normalize_aic (extract_sender_id message) = Some s" "sdk_valid s"
    by (simp_all add: sender_matches_peer_ok)
  then obtain a where a: "peer = Some a" "s = upper (strip a)" by (auto simp: normalize_aic_Some)
  with peer obtain cert i where cert: "open_certificate client server evs = Some cert"
    and i: "extract_peer_identity cert = Inr (Some i)" "pi_aic i = a"
    by (auto simp: request_peer_aic_after bind_result_eq_Inr split: option.splits)
  from extract_peer_identity_ok [OF i(1)] obtain cn where cn: "extract_common_name cert = Some cn"
    and n: "normalize_aic (Some cn) = Some a" "sdk_valid a"
    using i(2) by auto
  have canonical: "upper (strip a) = a" if "normalize_aic (Some x) = Some a" for x
    using that by (auto simp: normalize_aic_Some)
  have "upper (strip uri) = s" if "extract_acps_uri_san cert = Inr (Some uri)" for uri
  proof -
    have "normalize_aic (Some uri) = normalize_aic (Some cn)"
      using i(1) cn that
      by (auto simp: extract_peer_identity_def Let_def split: prod.splits bool.splits if_splits)
    then show ?thesis using n(1) a(2) canonical [OF n(1)] by (auto simp: normalize_aic_Some)
  qed
  moreover have "s = upper (strip cn)"
    using n(1) a(2) canonical [OF n(1)] by (auto simp: normalize_aic_Some)
  ultimately show ?thesis
    using cert cn s by (auto simp: normalize_aic_Some)
qed


definition sample_certificate :: certificate where
  "sample_certificate =
     [(''subject'', PTuple [PTuple [PTuple [PStr ''commonName'', PStr ''1.2.156.3088.1.a1.v2.s3.0.08i6 '']]]),
      (''subjectAltName'', PTuple [PTuple [PStr ''URI'', PStr ''ACPS://1.2.156.3088.1.A1.v2.S3.0.08I6'']])]"

lemma sample_check:
  "sender_check [Made (Some (''10.0.0.7'', 40001)) (Some (''10.0.0.1'', Some 443)) (Some (Some sample_certificate))]
     (''10.0.0.7'', 40001) (''10.0.0.1'', 443) (SenderObj (Some '' 1.2.156.3088.1.A1.V2.S3.0.08i6''))
   = Inr ''1.2.156.3088.1.A1.V2.S3.0.08I6''"
  by code_simp

theorem accepted_sender_holds_certificate_witness:
  "\<exists>cert cn. open_certificate (''10.0.0.7'', 40001) (''10.0.0.1'', 443)
       [Made (Some (''10.0.0.7'', 40001)) (Some (''10.0.0.1'', Some 443)) (Some (Some sample_certificate))] = Some cert
     \<and> extract_common_name cert = Some cn \<and> ''1.2.156.3088.1.A1.V2.S3.0.08I6'' = upper (strip cn)"
  using accepted_sender_holds_certificate [OF sample_check] by blast

end
