(* ===== verification/AipTask.thy ===== *)
theory AipTask
  imports AipIdentity
begin

text \<open>
  \<open>acps-sdk/acps_sdk/aip/aip_base_model.py\<close>, \<open>aip_rpc_model.py\<close> and the task store of
  \<open>aip_rpc_server.py\<close>: the messages, commands, tasks and products of AIP, the in-memory \<open>TaskManager\<close>,
  and the default handlers of the commands.

  The store maps a task id to its task object. Handlers pass the object around and change it in place,
  so a handler's result is a reference: \<open>Stored k\<close> is the object in the store under \<open>k\<close>, \<open>Detached t\<close> a
  copy of its own. Every reading of the clock and every new UUID is a fresh value of the environment.
\<close>

subsection \<open>Messages\<close>

datatype task_state =
    Accepted | Working | AwaitingInput | AwaitingCompletion | Completed | Canceled | Failed | Rejected

datatype command_type = CmdGet | CmdStart | CmdContinue | CmdCancel | CmdComplete | CmdReStream

type_synonym dict = "(string \<times> pyval) list"

datatype data_item =
    TextItem "dict option" string
  | FileItem "dict option" "string option" "string option" "string option" "string option"
  | StructuredItem "dict option" dict

record task_status =
  st_state :: task_state
  st_changed_at :: string
  st_items :: "data_item list option"

record product =
  pr_id :: string
  pr_name :: "string option"
  pr_description :: "string option"
  pr_items :: "data_item list"

datatype sender_role = Leader | Partner
datatype mentions = MentionAll | MentionList "string list"

record message =
  ms_id :: string
  ms_sent_at :: string
  ms_sender_role :: sender_role
  ms_sender_id :: string
  ms_mentions :: "mentions option"
  ms_items :: "data_item list option"
  ms_group_id :: "string option"
  ms_session_id :: "string option"

record task_command = message +
  tc_command :: command_type
  tc_params :: "dict option"
  tc_task_id :: "string option"

text \<open>\<open>tr_max_bytes\<close> is the private attribute \<open>_aip_max_products_bytes\<close>, set from outside.\<close>

record task_result = message +
  tr_task_id :: string
  tr_status :: task_status
  tr_products :: "product list option"
  tr_commands :: "task_command list option"
  tr_statuses :: "task_status list option"
  tr_max_bytes :: "int option"

record rpc_request =
  rq_id :: pyval
  rq_command :: task_command

record rpc_response =
  rs_id :: pyval
  rs_result :: "task_result option"
  rs_error :: "jsonrpc_error option"

subsection \<open>The task manager\<close>

record environment =
  now_at :: "nat \<Rightarrow> string"
  uuid_at :: "nat \<Rightarrow> string"

record task_manager =
  tm_tasks :: "string \<Rightarrow> task_result option"
  tm_clock :: nat

definition tick :: "task_manager \<Rightarrow> task_manager" where
  "tick tm = tm\<lparr>tm_clock := Suc (tm_clock tm)\<rparr>"

definition now :: "environment \<Rightarrow> task_manager \<Rightarrow> string" where
  "now env tm = now_at env (tm_clock tm)"

definition put_task :: "string \<Rightarrow> task_result \<Rightarrow> task_manager \<Rightarrow> task_manager" where
  "put_task k t tm = tm\<lparr>tm_tasks := (tm_tasks tm)(k \<mapsto> t)\<rparr>"

definition get_task :: "string \<Rightarrow> task_manager \<Rightarrow> task_result option" where
  "get_task task_id tm = tm_tasks tm task_id"

definition DEFAULT_TASK_RESULT_SENDER :: string where
  "DEFAULT_TASK_RESULT_SENDER = ''server''"

text \<open>\<open>xs or []\<close> of an optional list.\<close>

definition list_or_empty :: "'a list option \<Rightarrow> 'a list" where
  "list_or_empty xs = (case xs of None \<Rightarrow> [] | Some l \<Rightarrow> l)"

text \<open>\<open>if history: history.append(x) else: history = [x]\<close>.\<close>

definition append_history :: "'a \<Rightarrow> 'a list option \<Rightarrow> 'a list option" where
  "append_history x history =
     (if list_or_empty history \<noteq> [] then Some (list_or_empty history @ [x]) else Some [x])"

definition create_task ::
  "environment \<Rightarrow> task_command \<Rightarrow> task_state option \<Rightarrow> data_item list option \<Rightarrow> task_manager
     \<Rightarrow> (py_exn, string) result \<times> task_manager" where
  "create_task env command initial_state data_items tm =
     (if \<not> str_given (tc_task_id command)
      then (Inl (ValueExn ''A command to start a task must have a taskId.''), tm)
      else
        let task_id = or_empty (tc_task_id command);
            task_status =
              \<lparr>st_state = (case initial_state of None \<Rightarrow> Accepted | Some s \<Rightarrow> s),
               st_changed_at = now env tm, st_items = Some (list_or_empty data_items)\<rparr>;
            tm1 = tick tm;
            uuid = uuid_at env (tm_clock tm1);
            tm2 = tick tm1;
            task =
              \<lparr>ms_id = ''result-'' @ uuid, ms_sent_at = now env tm2, ms_sender_role = Partner,
               ms_sender_id = DEFAULT_TASK_RESULT_SENDER, ms_mentions = None, ms_items = None,
               ms_group_id = None, ms_session_id = ms_session_id command,
               tr_task_id = task_id, tr_status = task_status, tr_products = None,
               tr_commands = Some [command], tr_statuses = Some [task_status], tr_max_bytes = None\<rparr>
        in (Inr task_id, put_task task_id task (tick tm2)))"

definition update_task_status ::
  "environment \<Rightarrow> string \<Rightarrow> task_state \<Rightarrow> data_item list option \<Rightarrow> task_manager
     \<Rightarrow> (py_exn, string) result \<times> task_manager" where
  "update_task_status env task_id new_state data_items tm =
     (case get_task task_id tm of
        None \<Rightarrow> (Inl (ValueExn (''Task with id '' @ task_id @ '' not found.'')), tm)
      | Some task \<Rightarrow>
          let new_status = \<lparr>st_state = new_state, st_changed_at = now env tm,
                st_items = Some (list_or_empty data_items)\<rparr> in
          (Inr task_id,
           put_task task_id
             (task\<lparr>tr_status := new_status, tr_statuses := append_history new_status (tr_statuses task)\<rparr>)
             (tick tm)))"

definition add_command_to_history :: "string \<Rightarrow> task_command \<Rightarrow> task_manager \<Rightarrow> task_manager" where
  "add_command_to_history task_id command tm =
     (case get_task task_id tm of
        None \<Rightarrow> tm
      | Some task \<Rightarrow> put_task task_id (task\<lparr>tr_commands := append_history command (tr_commands task)\<rparr>) tm)"

fun item_bytes :: "data_item \<Rightarrow> int" where
  "item_bytes (TextItem _ text) = int (length text)"
| "item_bytes (FileItem _ _ _ _ bytes) = (if str_given bytes then int (length (or_empty bytes)) else 0)"
| "item_bytes (StructuredItem _ _) = 0"

definition products_bytes :: "product list \<Rightarrow> int" where
  "products_bytes products = sum_list (map item_bytes (concat (map pr_items products)))"

definition set_products ::
  "environment \<Rightarrow> string \<Rightarrow> product list \<Rightarrow> task_manager \<Rightarrow> task_manager" where
  "set_products env task_id products tm =
     (case get_task task_id tm of
        None \<Rightarrow> tm
      | Some task \<Rightarrow>
          (case tr_max_bytes task of
             Some max_bytes \<Rightarrow>
               let total_bytes = products_bytes products in
               if total_bytes > max_bytes
               then snd (update_task_status env task_id Failed
                      (Some [TextItem None (''Products size '' @ int_to_str total_bytes
                         @ '' bytes exceeds maxProductsBytes='' @ int_to_str max_bytes @ ''.'')]) tm)
               else put_task task_id (task\<lparr>tr_products := Some products\<rparr>) tm
           | None \<Rightarrow> put_task task_id (task\<lparr>tr_products := Some products\<rparr>) tm))"

subsection \<open>The default handlers\<close>

datatype task_ref = Stored string | Detached task_result

definition deref :: "task_manager \<Rightarrow> task_ref \<Rightarrow> task_result option" where
  "deref tm r = (case r of Stored k \<Rightarrow> tm_tasks tm k | Detached t \<Rightarrow> Some t)"

definition terminal_states :: "task_state list" where
  "terminal_states = [Completed, Failed, Rejected, Canceled]"

definition default_start ::
  "environment \<Rightarrow> task_command \<Rightarrow> task_result option \<Rightarrow> task_manager
     \<Rightarrow> (py_exn, task_ref) result \<times> task_manager" where
  "default_start env command task tm =
     (let task_id = or_empty (tc_task_id command) in
      case task of
        Some _ \<Rightarrow> (Inr (Stored task_id), add_command_to_history task_id command tm)
      | None \<Rightarrow>
          (case create_task env command None None tm of
             (Inl e, tm') \<Rightarrow> (Inl e, tm')
           | (Inr k, tm') \<Rightarrow> (Inr (Stored k), tm')))"

text \<open>
  The filters of \<open>Get\<close>: a bound that is no string makes the comparison raise, and the exception
  handler returns the task unfiltered. \<open>None\<close> stands for the exception.
\<close>

definition newer_than :: "pyval \<Rightarrow> ('a \<Rightarrow> string) \<Rightarrow> 'a list \<Rightarrow> 'a list option" where
  "newer_than bound stamp xs =
     (case bound of PStr b \<Rightarrow> Some (filter (\<lambda>x. str_less b (stamp x)) xs) | _ \<Rightarrow> None)"

definition default_get :: "task_command \<Rightarrow> string \<Rightarrow> task_result \<Rightarrow> task_ref" where
  "default_get command k task =
     (let params = list_or_empty (tc_params command);
          last_command_sent_at = dict_get params ''lastCommandSentAt'';
          last_state_changed_at = dict_get params ''lastStateChangedAt'';
          by_command = truthy last_command_sent_at \<and> list_or_empty (tr_commands task) \<noteq> [];
          by_status = truthy last_state_changed_at \<and> list_or_empty (tr_statuses task) \<noteq> [];
          commands = newer_than last_command_sent_at ms_sent_at (list_or_empty (tr_commands task));
          statuses = newer_than last_state_changed_at st_changed_at (list_or_empty (tr_statuses task));
          copy = task\<lparr>tr_max_bytes := None\<rparr>
      in if by_command \<and> commands = None \<or> by_status \<and> statuses = None then Stored k
         else if \<not> by_command \<and> \<not> by_status then Stored k
         else Detached (copy
                \<lparr>tr_commands := (if by_command then commands else tr_commands task),
                 tr_statuses := (if by_status then statuses else tr_statuses task)\<rparr>))"

definition default_cancel ::
  "environment \<Rightarrow> task_command \<Rightarrow> string \<Rightarrow> task_result \<Rightarrow> task_manager
     \<Rightarrow> (py_exn, task_ref) result \<times> task_manager" where
  "default_cancel env command k task tm =
     (if st_state (tr_status task) \<in> set terminal_states then (Inr (Stored k), tm)
      else
        case update_task_status env (tr_task_id task) Canceled None
               (add_command_to_history (tr_task_id task) command tm) of
          (Inl e, tm') \<Rightarrow> (Inl e, tm')
        | (Inr k', tm') \<Rightarrow> (Inr (Stored k'), tm'))"

definition default_complete ::
  "environment \<Rightarrow> task_command \<Rightarrow> string \<Rightarrow> task_result \<Rightarrow> task_manager
     \<Rightarrow> (py_exn, task_ref) result \<times> task_manager" where
  "default_complete env command k task tm =
     (if st_state (tr_status task) = AwaitingCompletion then
        (case update_task_status env (tr_task_id task) Completed None
                (add_command_to_history (tr_task_id task) command tm) of
           (Inl e, tm') \<Rightarrow> (Inl e, tm')
         | (Inr k', tm') \<Rightarrow> (Inr (Stored k'), tm'))
      else (Inr (Stored k), add_command_to_history (tr_task_id task) command tm))"

fun is_text :: "data_item \<Rightarrow> bool" where
  "is_text (TextItem _ text) = (strip text \<noteq> [])"
| "is_text _ = False"

text \<open>All three ways through \<open>continue_\<close> record the command and leave the state alone.\<close>

definition default_continue ::
  "task_command \<Rightarrow> string \<Rightarrow> task_result \<Rightarrow> task_manager \<Rightarrow> (py_exn, task_ref) result \<times> task_manager" where
  "default_continue command k task tm =
     (if st_state (tr_status task) \<notin> {AwaitingInput, AwaitingCompletion}
      then (Inr (Stored k), add_command_to_history (tr_task_id task) command tm)
      else if \<not> list_ex is_text (list_or_empty (ms_items command))
      then (Inr (Stored k), add_command_to_history (tr_task_id task) command tm)
      else (Inr (Stored k), add_command_to_history (tr_task_id task) command tm))"

definition bind_default_task_result_identity ::
  "task_ref \<Rightarrow> string option \<Rightarrow> task_manager \<Rightarrow> task_ref \<times> task_manager" where
  "bind_default_task_result_identity result local_aic tm =
     (case deref tm result of
        None \<Rightarrow> (result, tm)
      | Some t \<Rightarrow>
          if str_given local_aic \<and> ms_sender_id t = DEFAULT_TASK_RESULT_SENDER then
            (let t' = t\<lparr>ms_sender_id := or_empty local_aic\<rparr> in
             case result of
               Stored k \<Rightarrow> (Stored k, put_task k t' tm)
             | Detached _ \<Rightarrow> (Detached t', tm))
          else (result, tm))"

end
