(* ===== verification/AipRpc.thy ===== *)
theory AipRpc
  imports AipTask
begin

text \<open>
  \<open>handle_rpc_request\<close> of \<open>acps-sdk/acps_sdk/aip/aip_rpc_server.py\<close> and \<open>aip/access_status.py\<close>. The
  agent's own handlers, the optional \<open>dispatch_request\<close> and the pydantic parse of the body are
  parameters; a custom handler may return or raise anything and change the store in any way.
\<close>

text \<open>A handler gets the command and the key of the task, when there is one.\<close>

type_synonym handler =
  "task_command \<Rightarrow> string option \<Rightarrow> task_manager \<Rightarrow> (py_exn, task_ref) result \<times> task_manager"

record command_handlers =
  on_start :: "handler option"
  on_get :: "handler option"
  on_cancel :: "handler option"
  on_complete :: "handler option"
  on_continue :: "handler option"
  on_message :: "handler option"

type_synonym dispatcher = "rpc_request \<Rightarrow> task_manager \<Rightarrow> (py_exn, rpc_response) result \<times> task_manager"

definition rpc_error :: "pyval \<Rightarrow> jsonrpc_error \<Rightarrow> rpc_response" where
  "rpc_error rid e = \<lparr>rs_id = rid, rs_result = None, rs_error = Some e\<rparr>"

definition rpc_result :: "pyval \<Rightarrow> task_result option \<Rightarrow> rpc_response" where
  "rpc_result rid t = \<lparr>rs_id = rid, rs_result = t, rs_error = None\<rparr>"

definition sender_of :: "task_result option \<Rightarrow> sender_arg" where
  "sender_of t = SenderObj (map_option ms_sender_id t)"

text \<open>\<open>str(e)\<close>; the detail of a badly configured AIC is left out of its text.\<close>

fun exn_text :: "py_exn \<Rightarrow> string" where
  "exn_text (ValueExn s) = s"
| "exn_text (OtherExn s) = s"
| "exn_text (BadExpected _) = ''expected_aic is invalid''"
| "exn_text (IdentityExn _) = ''identity''"

text \<open>The check of the result's sender and the response, as every branch ends.\<close>

definition respond ::
  "bool \<Rightarrow> string option \<Rightarrow> pyval \<Rightarrow> (py_exn, task_ref) result \<times> task_manager
     \<Rightarrow> (py_exn, rpc_response) result \<times> task_manager" where
  "respond binding local_aic rid out =
     (case out of
        (Inl e, tm) \<Rightarrow> (Inl e, tm)
      | (Inr r, tm) \<Rightarrow>
          if binding \<and> local_aic \<noteq> None then
            (case assert_sender_matches_expected (sender_of (deref tm r)) local_aic of
               Inl e \<Rightarrow> (Inl e, tm)
             | Inr _ \<Rightarrow> (Inr (rpc_result rid (deref tm r)), tm))
          else (Inr (rpc_result rid (deref tm r)), tm))"

text \<open>\<open>_bind_default_task_result_identity(await DefaultHandlers.x(command, task), local_aic)\<close>.\<close>

definition bound_default ::
  "string option \<Rightarrow> (py_exn, task_ref) result \<times> task_manager \<Rightarrow> (py_exn, task_ref) result \<times> task_manager" where
  "bound_default local_aic out =
     (case out of
        (Inl e, tm) \<Rightarrow> (Inl e, tm)
      | (Inr r, tm) \<Rightarrow> (case bind_default_task_result_identity r local_aic tm of (r', tm') \<Rightarrow> (Inr r', tm')))"

definition task_not_found :: "string option \<Rightarrow> jsonrpc_error" where
  "task_not_found task_id = \<lparr>err_code = - 32001, err_message = ''Task not found'', err_data = TaskIdData task_id\<rparr>"

definition invalid_params :: "string \<Rightarrow> jsonrpc_error" where
  "invalid_params text = \<lparr>err_code = - 32602, err_message = ''Invalid params'', err_data = TextData text\<rparr>"

definition parse_error :: "string \<Rightarrow> jsonrpc_error" where
  "parse_error text = \<lparr>err_code = - 32700, err_message = ''Parse error'', err_data = TextData text\<rparr>"

text \<open>
  The body of the \<open>try\<close> block: the dispatch over the commands. \<open>task\<close> is the key and the object of the
  task, when it exists.
\<close>

definition dispatch_command ::
  "environment \<Rightarrow> command_handlers \<Rightarrow> string option \<Rightarrow> bool \<Rightarrow> rpc_request
     \<Rightarrow> (string \<times> task_result) option \<Rightarrow> task_manager \<Rightarrow> (py_exn, rpc_response) result \<times> task_manager" where
  "dispatch_command env handlers local_aic binding rq task tm =
     (let command = rq_command rq;
          rid = rq_id rq;
          custom = (\<lambda>h. respond binding local_aic rid (h command (map_option fst task) tm));
          default = (\<lambda>out. respond binding local_aic rid (bound_default local_aic out))
      in
      if tc_command command = CmdStart then
        (case on_start handlers of
           Some h \<Rightarrow> custom h
         | None \<Rightarrow> default (default_start env command (map_option snd task) tm))
      else if tc_command command = CmdGet then
        (case task of
           None \<Rightarrow> (Inr (rpc_error rid (task_not_found (tc_task_id command))), tm)
         | Some (k, t) \<Rightarrow>
             (case on_get handlers of
                Some h \<Rightarrow> custom h
              | None \<Rightarrow> default (Inr (default_get command k t), tm)))
      else
        (case task of
           None \<Rightarrow> (Inr (rpc_error rid (task_not_found (tc_task_id command))), tm)
         | Some (k, t) \<Rightarrow>
             if tc_command command = CmdCancel then
               (case on_cancel handlers of
                  Some h \<Rightarrow> custom h
                | None \<Rightarrow> default (default_cancel env command k t tm))
             else if tc_command command = CmdComplete then
               (case on_complete handlers of
                  Some h \<Rightarrow> custom h
                | None \<Rightarrow> default (default_complete env command k t tm))
             else if tc_command command = CmdContinue then
               (case on_continue handlers of
                  Some h \<Rightarrow> custom h
                | None \<Rightarrow> default (default_continue command k t tm))
             else
               (case on_message handlers of
                  Some h \<Rightarrow> custom h
                | None \<Rightarrow> (Inr (rpc_error rid (invalid_params ''Unknown or missing command'')), tm))))"

text \<open>The two exception handlers around it.\<close>

definition guard_command ::
  "environment \<Rightarrow> rpc_request \<Rightarrow> (py_exn, rpc_response) result \<times> task_manager
     \<Rightarrow> (py_exn, rpc_response) result \<times> task_manager" where
  "guard_command env rq out =
     (case out of
        (Inr resp, tm) \<Rightarrow> (Inr resp, tm)
      | (Inl (IdentityExn e), tm) \<Rightarrow> (Inr (rpc_error (rq_id rq) (identity_error_to_jsonrpc e)), tm)
      | (Inl e, tm) \<Rightarrow>
          (case tc_task_id (rq_command rq) of
             None \<Rightarrow> (Inl (ValueExn ''Task with id None not found.''), tm)
           | Some task_id \<Rightarrow>
               (case update_task_status env task_id Failed
                       (Some [TextItem None (''Agent execution failed: '' @ exn_text e)]) tm of
                  (Inl e', tm') \<Rightarrow> (Inl e', tm')
                | (Inr k, tm') \<Rightarrow> (Inr (rpc_result (rq_id rq) (tm_tasks tm' k)), tm'))))"

text \<open>The identity check of the request's sender.\<close>

definition check_peer ::
  "rpc_request \<Rightarrow> (py_exn, string option) result \<Rightarrow> (py_exn, string) result" where
  "check_peer rq peer =
     bind_result peer (assert_sender_matches_peer (SenderObj (Some (ms_sender_id (rq_command rq)))))"

definition handle_rpc_request ::
  "environment \<Rightarrow> command_handlers \<Rightarrow> string option \<Rightarrow> bool \<Rightarrow> dispatcher option
     \<Rightarrow> (string, rpc_request) result \<Rightarrow> (py_exn, string option) result \<Rightarrow> task_manager
     \<Rightarrow> (py_exn, rpc_response) result \<times> task_manager" where
  "handle_rpc_request env handlers local_aic binding dispatch parsed peer tm =
     (case parsed of
        Inl e \<Rightarrow> (Inr (rpc_error PNone (parse_error e)), tm)
      | Inr rq \<Rightarrow>
          if binding \<and> \<not> str_given local_aic
          then (Inl (ValueExn ''local_aic is required when identity_binding_enabled=True''), tm)
          else
            case (if binding then check_peer rq peer else Inr []) of
              Inl (IdentityExn e) \<Rightarrow> (Inr (rpc_error (rq_id rq) (identity_error_to_jsonrpc e)), tm)
            | Inl e \<Rightarrow> (Inl e, tm)
            | Inr _ \<Rightarrow>
                if \<not> str_given (tc_task_id (rq_command rq)) \<and> tc_command (rq_command rq) \<noteq> CmdStart
                then (Inr (rpc_error (rq_id rq) (invalid_params ''taskId is required for non-Start commands.'')), tm)
                else
                  case dispatch of
                    Some d \<Rightarrow>
                      (case d rq tm of
                         (Inl (IdentityExn e), tm') \<Rightarrow>
                           (Inr (rpc_error (rq_id rq) (identity_error_to_jsonrpc e)), tm')
                       | (Inl e, tm') \<Rightarrow> (Inl e, tm')
                       | (Inr resp, tm') \<Rightarrow>
                           if binding \<and> rs_result resp \<noteq> None \<and> local_aic \<noteq> None then
                             (case assert_sender_matches_expected (sender_of (rs_result resp)) local_aic of
                                Inl (IdentityExn e) \<Rightarrow>
                                  (Inr (rpc_error (rq_id rq) (identity_error_to_jsonrpc e)), tm')
                              | Inl e \<Rightarrow> (Inl e, tm')
                              | Inr _ \<Rightarrow> (Inr resp, tm'))
                           else (Inr resp, tm'))
                  | None \<Rightarrow>
                      let task_id = tc_task_id (rq_command rq);
                          task = (if str_given task_id
                            then map_option (\<lambda>t. (or_empty task_id, t)) (get_task (or_empty task_id) tm)
                            else None)
                      in guard_command env rq (dispatch_command env handlers local_aic binding rq task tm))"

definition no_handlers :: command_handlers where
  "no_handlers = \<lparr>on_start = None, on_get = None, on_cancel = None, on_complete = None,
     on_continue = None, on_message = None\<rparr>"

subsection \<open>Status codes of a response\<close>

definition RPC_ERROR_STATUS :: "(int \<times> int) list" where
  "RPC_ERROR_STATUS = [(- 32001, 404), (- 32602, 400), (- 32700, 400), (- 32603, 500)]"

definition status_from_rpc_error :: "jsonrpc_error option \<Rightarrow> int" where
  "status_from_rpc_error error =
     (case error of
        None \<Rightarrow> 200
      | Some e \<Rightarrow> (case map_of RPC_ERROR_STATUS (err_code e) of None \<Rightarrow> 500 | Some s \<Rightarrow> s))"

datatype error_code = NumericCode int | TextCode string

record error_info =
  ei_code :: error_code
  ei_message :: string

definition error_info_from_rpc_response :: "rpc_response \<Rightarrow> error_info option" where
  "error_info_from_rpc_response resp =
     (case rs_error resp of
        Some e \<Rightarrow> Some \<lparr>ei_code = NumericCode (status_from_rpc_error (Some e)), ei_message = err_message e\<rparr>
      | None \<Rightarrow>
          (case rs_result resp of
             None \<Rightarrow> None
           | Some t \<Rightarrow>
               if st_state (tr_status t) = Failed
               then Some \<lparr>ei_code = NumericCode 500, ei_message = ''task failed''\<rparr>
               else if st_state (tr_status t) = Rejected
               then Some \<lparr>ei_code = TextCode ''REJECTED'', ei_message = ''task rejected''\<rparr>
               else None))"

definition status_from_rpc_response :: "rpc_response \<Rightarrow> int" where
  "status_from_rpc_response resp =
     (case rs_error resp of
        Some e \<Rightarrow> status_from_rpc_error (Some e)
      | None \<Rightarrow>
          (case rs_result resp of
             None \<Rightarrow> 200
           | Some t \<Rightarrow>
               if st_state (tr_status t) = Failed then 500
               else if st_state (tr_status t) = Rejected then 200
               else 200))"

end
