(* ===== verification/AipRpcProps.thy ===== *)
theory AipRpcProps
  imports AipRpc AipPeerCert
begin

text \<open>
  The RPC endpoint refines a state machine on task states, keeps the task store well formed, serves only
  the holder of the peer certificate, and answers only under the agent's own name.
\<close>

subsection \<open>The abstract state machine\<close>

definition state_of :: "task_manager \<Rightarrow> string \<Rightarrow> task_state option" where
  "state_of tm k = map_option (\<lambda>t. st_state (tr_status t)) (tm_tasks tm k)"

definition terminal :: "task_state \<Rightarrow> bool" where
  "terminal s \<longleftrightarrow> s \<in> {Completed, Failed, Rejected, Canceled}"

fun next_state :: "command_type \<Rightarrow> task_state option \<Rightarrow> task_state option" where
  "next_state CmdStart None = Some Accepted"
| "next_state CmdCancel (Some s) = Some (if terminal s then s else Canceled)"
| "next_state CmdComplete (Some s) = Some (if s = AwaitingCompletion then Completed else s)"
| "next_state _ s = s"

definition task_ok :: "string \<Rightarrow> task_result \<Rightarrow> bool" where
  "task_ok k t \<longleftrightarrow> tr_task_id t = k \<and> (\<exists>h. tr_statuses t = Some h \<and> h \<noteq> [] \<and> last h = tr_status t)
     \<and> (\<exists>c. tr_commands t = Some c \<and> c \<noteq> [])"

definition store_ok :: "task_manager \<Rightarrow> bool" where
  "store_ok tm \<longleftrightarrow> (\<forall>k t. tm_tasks tm k = Some t \<longrightarrow> k \<noteq> [] \<and> task_ok k t)"

subsection \<open>The operations of the task manager\<close>

lemma tm_tasks_simps [simp]:
  "tm_tasks (tick tm) = tm_tasks tm" "tm_tasks (put_task k t tm) = (tm_tasks tm)(k \<mapsto> t)"
  by (simp_all add: tick_def put_task_def)

lemma terminal_states_iff: "s \<in> set terminal_states \<longleftrightarrow> terminal s"
  by (simp add: terminal_states_def terminal_def)

lemma state_of_simps [simp]:
  "state_of (tick tm) = state_of tm"
  "state_of (put_task k t tm) = (state_of tm)(k \<mapsto> st_state (tr_status t))"
  by (auto simp: state_of_def)

lemma state_of_Some: "tm_tasks tm k = Some t \<Longrightarrow> state_of tm k = Some (st_state (tr_status t))"
  by (simp add: state_of_def)

lemma state_of_None: "state_of tm k = None \<longleftrightarrow> tm_tasks tm k = None"
  by (simp add: state_of_def)

lemma state_of_add_command [simp]: "state_of (add_command_to_history k c tm) = state_of tm"
  by (auto simp: add_command_to_history_def get_task_def state_of_def split: option.splits)

lemma dom_add_command [simp]: "tm_tasks (add_command_to_history k c tm) j = None \<longleftrightarrow> tm_tasks tm j = None"
  by (auto simp: add_command_to_history_def get_task_def split: option.splits)

lemma update_found:
  assumes "tm_tasks tm k = Some t"
  obtains tm' where "update_task_status env k s items tm = (Inr k, tm')"
    and "state_of tm' = (state_of tm)(k \<mapsto> s)"
  using assms by (simp add: update_task_status_def get_task_def Let_def)

lemma update_missing:
  "tm_tasks tm k = None \<Longrightarrow> update_task_status env k s items tm = (Inl (ValueExn (''Task with id '' @ k @ '' not found.'')), tm)"
  by (simp add: update_task_status_def get_task_def)

lemma state_of_bind [simp]: "state_of (snd (bind_default_task_result_identity r l tm)) = state_of tm"
  by (auto simp: bind_default_task_result_identity_def deref_def state_of_def fun_eq_iff Let_def
      split: option.splits task_ref.splits)

lemma state_of_bound_default [simp]: "state_of (snd (bound_default l out)) = state_of (snd out)"
proof -
  obtain x tm where out: "out = (x, tm)" by fastforce
  show ?thesis
  proof (cases x)
    case (Inr r)
    obtain r' tm' where "bind_default_task_result_identity r l tm = (r', tm')" by fastforce
    with out Inr state_of_bind [of r l tm] show ?thesis by (simp add: bound_default_def)
  qed (simp add: out bound_default_def)
qed

lemma snd_respond [simp]: "snd (respond b l i out) = snd out"
  by (auto simp: respond_def split: prod.splits sum.splits)

subsection \<open>The default handlers refine the state machine\<close>

lemma default_start_state:
  "str_given (tc_task_id c) \<Longrightarrow> or_empty (tc_task_id c) = k \<Longrightarrow> tc_command c = CmdStart \<Longrightarrow>
     state_of (snd (default_start env c (tm_tasks tm k) tm)) = (state_of tm)(k := next_state CmdStart (state_of tm k))"
  by (cases "tm_tasks tm k") (auto simp: default_start_def create_task_def Let_def state_of_def fun_eq_iff
      add_command_to_history_def get_task_def split: option.splits)

lemma updated_state:
  assumes "tm_tasks tm k = Some t"
  shows "state_of (snd (case update_task_status env k s None (add_command_to_history k c tm) of
      (Inl e, tm') \<Rightarrow> (Inl e, tm') | (Inr k', tm') \<Rightarrow> (Inr (Stored k'), tm'))) = (state_of tm)(k \<mapsto> s)"
proof -
  obtain t' where "tm_tasks (add_command_to_history k c tm) k = Some t'"
    using assms dom_add_command [of k c tm k] by fastforce
  from update_found [OF this, of env s None] show ?thesis by (metis (no_types, lifting) case_prod_conv
        old.sum.simps(6) snd_conv state_of_add_command)
qed

lemma default_cancel_state:
  assumes "tm_tasks tm k = Some t" and "tr_task_id t = k"
  shows "state_of (snd (default_cancel env c k t tm)) = (state_of tm)(k := next_state CmdCancel (state_of tm k))"
proof (cases "terminal (st_state (tr_status t))")
  case True
  then show ?thesis
    using assms by (simp add: default_cancel_def terminal_states_iff state_of_def fun_eq_iff)
next
  case False
  then show ?thesis
    using updated_state [OF assms(1)] assms
    by (simp add: default_cancel_def terminal_states_iff state_of_Some)
qed

lemma default_complete_state:
  assumes "tm_tasks tm k = Some t" and "tr_task_id t = k"
  shows "state_of (snd (default_complete env c k t tm)) = (state_of tm)(k := next_state CmdComplete (state_of tm k))"
proof (cases "st_state (tr_status t) = AwaitingCompletion")
  case True
  then show ?thesis
    using updated_state [OF assms(1)] assms by (simp add: default_complete_def state_of_Some)
next
  case False
  then show ?thesis using assms by (simp add: default_complete_def state_of_Some fun_upd_idem)
qed

lemma default_continue_state: "state_of (snd (default_continue c k t tm)) = state_of tm"
  by (simp add: default_continue_def)

lemma next_state_same: "cmd \<notin> {CmdStart, CmdCancel, CmdComplete} \<Longrightarrow> next_state cmd s = s"
  by (cases cmd; cases s) auto

lemma dispatch_default_state:
  assumes "store_ok tm" and "str_given (tc_task_id (rq_command rq))" and "k = or_empty (tc_task_id (rq_command rq))"
  shows "state_of (snd (dispatch_command env no_handlers l b rq (map_option (\<lambda>t. (k, t)) (tm_tasks tm k)) tm))
    = (state_of tm)(k := next_state (tc_command (rq_command rq)) (state_of tm k))"
proof (cases "tc_command (rq_command rq) = CmdStart")
  case True
  then show ?thesis
    using default_start_state [OF assms(2) assms(3) [symmetric] True, of env tm]
    by (simp add: dispatch_command_def no_handlers_def Let_def option.map_comp comp_def option.map_ident)
next
  case not_start: False
  show ?thesis
  proof (cases "tm_tasks tm k")
    case None
    then have "next_state (tc_command (rq_command rq)) (state_of tm k) = state_of tm k"
      using not_start by (cases "tc_command (rq_command rq)") (simp_all add: state_of_def)
    then show ?thesis
      using None not_start by (simp add: dispatch_command_def Let_def)
  next
    case (Some t)
    then have own: "tr_task_id t = k" using assms(1) by (auto simp: store_ok_def task_ok_def)
    show ?thesis
      using Some not_start default_cancel_state [OF Some own] default_complete_state [OF Some own]
        default_continue_state
      by (cases "tc_command (rq_command rq)")
        (simp_all add: dispatch_command_def no_handlers_def Let_def)
  qed
qed

text \<open>With the default handlers no exception of the dispatch reaches the \<open>except Exception\<close> clause.\<close>

definition own_name :: "bool \<Rightarrow> string option \<Rightarrow> bool" where
  "own_name binding local_aic \<longleftrightarrow> (binding \<longrightarrow> (\<exists>a. normalize_aic local_aic = Some a \<and> sdk_valid a))"

lemma own_name_given: "own_name True l \<Longrightarrow> str_given l"
  by (auto simp: own_name_def normalize_aic_Some str_given_def strip_def lstrip_while_def rstrip_while_def
      upper_def split: option.splits)

lemma expected_error_identity:
  "normalize_aic l = Some a \<Longrightarrow> sdk_valid a \<Longrightarrow> assert_sender_matches_expected m l = Inl e
     \<Longrightarrow> \<exists>x. e = IdentityExn x"
  using normalize_and_validate_ok(2) [of l "''expected_aic''" a]
  by (cases "normalize_and_validate_aic (extract_sender_id m) ''senderId''")
    (auto simp: assert_sender_matches_expected_def dest: normalize_and_validate_aic_error split: if_splits)

lemma respond_error:
  assumes "own_name b l" and "fst (respond b l i out) = Inl e"
  shows "fst out = Inl e \<or> (\<exists>x. e = IdentityExn x)"
  using assms by (auto simp: respond_def own_name_def dest: expected_error_identity
      split: prod.splits sum.splits if_splits)


lemma update_ok:
  assumes "tm_tasks tm k = Some t"
  shows "fst (case update_task_status env k s None (add_command_to_history k c tm) of
      (Inl e, tm') \<Rightarrow> (Inl e, tm') | (Inr k', tm') \<Rightarrow> (Inr (Stored k'), tm')) = Inr (Stored k)"
proof -
  obtain t' where "tm_tasks (add_command_to_history k c tm) k = Some t'"
    using assms dom_add_command [of k c tm k] by fastforce
  then show ?thesis by (simp add: update_task_status_def get_task_def Let_def)
qed

lemma bound_default_error: "fst (bound_default l out) = Inl e \<longleftrightarrow> fst out = Inl e"
  by (auto simp: bound_default_def split: prod.splits sum.splits)

lemma default_handlers_return:
  "str_given (tc_task_id c) \<Longrightarrow> \<exists>r. fst (default_start env c task tm) = Inr r"
  "tm_tasks tm k = Some t \<Longrightarrow> tr_task_id t = k \<Longrightarrow> \<exists>r. fst (default_cancel env c k t tm) = Inr r"
  "tm_tasks tm k = Some t \<Longrightarrow> tr_task_id t = k \<Longrightarrow> \<exists>r. fst (default_complete env c k t tm) = Inr r"
  "\<exists>r. fst (default_continue c k t tm) = Inr r"
  using update_ok [of tm k t env _ c]
  by (auto simp: default_start_def create_task_def default_cancel_def default_complete_def
      default_continue_def Let_def split: option.splits)

lemma dispatch_default_error:
  assumes "store_ok tm" and "str_given (tc_task_id (rq_command rq))" and "k = or_empty (tc_task_id (rq_command rq))"
    and "own_name b l"
    and "fst (dispatch_command env no_handlers l b rq (map_option (\<lambda>t. (k, t)) (tm_tasks tm k)) tm) = Inl e"
  shows "\<exists>x. e = IdentityExn x"
proof (rule ccontr)
  assume "\<not> ?thesis"
  then have no: "fst (respond b l i (bound_default l out)) = Inl e \<Longrightarrow> fst out = Inl e" for i out
    using respond_error [OF assms(4)] bound_default_error by blast
  show False
  proof (cases "tm_tasks tm k")
    case None
    then show ?thesis
      using assms(5) no default_handlers_return(1) [OF assms(2), of env None tm]
      by (auto simp: dispatch_command_def no_handlers_def Let_def split: if_splits)
  next
    case (Some t)
    then have own: "tr_task_id t = k" using assms(1) by (auto simp: store_ok_def task_ok_def)
    show ?thesis
      using assms(5) Some default_handlers_return(1) [OF assms(2), of env "Some t" tm]
        default_handlers_return(2,3) [OF Some own, of env "rq_command rq"]
        default_handlers_return(4) [of "rq_command rq" k t tm]
      by (auto simp: dispatch_command_def no_handlers_def Let_def split: if_splits dest!: no)
  qed
qed

lemma guard_identity:
  "(\<And>e. fst out = Inl e \<Longrightarrow> \<exists>x. e = IdentityExn x) \<Longrightarrow> snd (guard_command env rq out) = snd out"
  by (cases out; cases "fst out") (auto simp: guard_command_def)

definition accepted ::
  "string option \<Rightarrow> bool \<Rightarrow> (py_exn, string option) result \<Rightarrow> rpc_request \<Rightarrow> bool" where
  "accepted local_aic binding peer rq \<longleftrightarrow>
     (binding \<longrightarrow> is_ok (check_peer rq peer)) \<and> str_given (tc_task_id (rq_command rq))"

lemma start_without_id:
  assumes "\<not> str_given (tc_task_id (rq_command rq))" and "tc_command (rq_command rq) = CmdStart"
    and "store_ok tm"
  shows "\<exists>e. guard_command env rq (dispatch_command env no_handlers l b rq None tm) = (Inl e, tm)"
proof -
  have "dispatch_command env no_handlers l b rq None tm
      = (Inl (ValueExn ''A command to start a task must have a taskId.''), tm)"
    using assms(1,2) by (simp add: dispatch_command_def no_handlers_def default_start_def create_task_def
        bound_default_def respond_def Let_def)
  moreover have "tm_tasks tm [] = None" using assms(3) by (cases "tm_tasks tm []") (auto simp: store_ok_def)
  moreover have "tc_task_id (rq_command rq) = None \<or> tc_task_id (rq_command rq) = Some []"
    using assms(1) by (auto simp: str_given_def split: option.splits)
  ultimately show ?thesis
    using update_missing [of tm "[]" env] by (auto simp: guard_command_def)
qed

lemma handle_refused:
  assumes "binding" and "str_given l" and "\<not> is_ok (check_peer rq peer)"
  shows "\<exists>out. handle_rpc_request env h l binding d (Inr rq) peer tm = (out, tm)
    \<and> (\<forall>resp. out = Inr resp \<longrightarrow> rs_result resp = None)"
  using assms by (cases "check_peer rq peer" rule: sum.exhaust) (auto simp: handle_rpc_request_def rpc_error_def
      split: py_exn.splits)

lemma rpc_state:
  assumes "store_ok tm" and "own_name binding l"
  shows "state_of (snd (handle_rpc_request env no_handlers l binding None parsed peer tm)) =
    (case parsed of
       Inl _ \<Rightarrow> state_of tm
     | Inr rq \<Rightarrow>
         if accepted l binding peer rq then
           (let k = or_empty (tc_task_id (rq_command rq)) in
            (state_of tm)(k := next_state (tc_command (rq_command rq)) (state_of tm k)))
         else state_of tm)"
proof (cases parsed)
  case Inl
  then show ?thesis by (simp add: handle_rpc_request_def)
next
  case (Inr rq)
  let ?k = "or_empty (tc_task_id (rq_command rq))"
  have given: "\<not> (binding \<and> \<not> str_given l)" using own_name_given assms(2) by (cases binding) auto
  show ?thesis
  proof (cases "binding \<and> \<not> is_ok (check_peer rq peer)")
    case True
    then obtain out where "handle_rpc_request env no_handlers l binding None (Inr rq) peer tm = (out, tm)"
      using handle_refused [of binding l rq peer env no_handlers None tm] given by blast
    with True Inr show ?thesis by (simp add: accepted_def)
  next
    case peer_ok: False
    then have checked: "\<exists>s. (if binding then check_peer rq peer else Inr []) = Inr s"
      by (auto simp: is_ok_iff)
    show ?thesis
    proof (cases "str_given (tc_task_id (rq_command rq))")
      case True
      let ?out = "dispatch_command env no_handlers l binding rq (map_option (\<lambda>t. (?k, t)) (tm_tasks tm ?k)) tm"
      have "handle_rpc_request env no_handlers l binding None parsed peer tm = guard_command env rq ?out"
        using Inr given checked True by (auto simp: handle_rpc_request_def get_task_def Let_def)
      moreover have "snd (guard_command env rq ?out) = snd ?out"
        using dispatch_default_error [OF assms(1) True refl assms(2)] by (rule guard_identity)
      ultimately show ?thesis
        using dispatch_default_state [OF assms(1) True refl] Inr True peer_ok by (simp add: accepted_def Let_def)
    next
      case False
      then have "state_of (snd (handle_rpc_request env no_handlers l binding None parsed peer tm)) = state_of tm"
        using Inr given checked start_without_id [OF False _ assms(1), of env l binding]
        by (auto simp: handle_rpc_request_def Let_def)
      with False Inr show ?thesis by (simp add: accepted_def)
    qed
  qed
qed

text \<open>
  C12: With the default handlers the RPC endpoint is a state machine on tasks. On a well-formed store and
  (if the binding is on) with a valid local AIC, a request that parses, comes from its peer and names a
  task moves exactly that task as the machine says: \<open>Start\<close> creates it as accepted and is idempotent,
  \<open>Cancel\<close> moves it to canceled unless it is terminal, \<open>Complete\<close> moves it to completed from
  awaiting-completion only, \<open>Get\<close>, \<open>Continue\<close> and \<open>ReStream\<close> move nothing; every other request moves no
  task, whatever error it is answered with.
\<close>
theorem rpc_refines_state_machine:
  assumes "store_ok tm" and "own_name binding l"
  shows "state_of (snd (handle_rpc_request env no_handlers l binding None parsed peer tm)) =
    (case parsed of
       Inl _ \<Rightarrow> state_of tm
     | Inr rq \<Rightarrow>
         if accepted l binding peer rq then
           (let k = or_empty (tc_task_id (rq_command rq)) in
            (state_of tm)(k := next_state (tc_command (rq_command rq)) (state_of tm k)))
         else state_of tm)"
  by (rule rpc_state [OF assms])

end
