(* ===== verification/AipRpcSafety.thy ===== *)
theory AipRpcSafety
  imports AipRpcProps
begin

text \<open>
  Safety of the RPC endpoint: the invariant of the task store over everything an agent server does with
  the default handlers, finality of terminal states, and the identity binding in both directions for
  any handlers. The last section states what a raising handler does.
\<close>

subsection \<open>The store stays well formed\<close>

lemma store_okD: "store_ok tm \<Longrightarrow> tm_tasks tm k = Some t \<Longrightarrow> k \<noteq> [] \<and> task_ok k t"
  by (simp add: store_ok_def)

lemma store_ok_tick [simp, inv_intros]: "store_ok (tick tm) \<longleftrightarrow> store_ok tm"
  by (simp add: store_ok_def)

lemma store_ok_put [inv_intros]: "store_ok tm \<Longrightarrow> k \<noteq> [] \<Longrightarrow> task_ok k t \<Longrightarrow> store_ok (put_task k t tm)"
  by (simp add: store_ok_def)

lemma str_given_not_Nil: "str_given x \<Longrightarrow> or_empty x \<noteq> []"
  by (cases x) (simp_all add: str_given_def or_empty_def)

lemma append_history_last: "\<exists>h. append_history x hist = Some h \<and> h \<noteq> [] \<and> last h = x"
  by (simp add: append_history_def)

lemma task_ok_updates:
  "task_ok k t \<Longrightarrow> task_ok k (t\<lparr>tr_status := s, tr_statuses := append_history s (tr_statuses t)\<rparr>)"
  "task_ok k t \<Longrightarrow> task_ok k (t\<lparr>tr_commands := append_history c (tr_commands t)\<rparr>)"
  "task_ok k t \<Longrightarrow> task_ok k (t\<lparr>tr_products := p\<rparr>)"
  "task_ok k t \<Longrightarrow> task_ok k (t\<lparr>ms_sender_id := a\<rparr>)"
  using append_history_last [of s "tr_statuses t"] append_history_last [of c "tr_commands t"]
  by (auto simp: task_ok_def)

lemma store_ok_change:
  "store_ok tm \<Longrightarrow> tm_tasks tm k = Some t \<Longrightarrow> (task_ok k t \<Longrightarrow> task_ok k t') \<Longrightarrow> store_ok (put_task k t' tm)"
  using store_okD [of tm k t] by (intro store_ok_put) auto

lemmas store_ok_changes = store_ok_change [OF _ _ task_ok_updates(1)] store_ok_change [OF _ _ task_ok_updates(2)]
  store_ok_change [OF _ _ task_ok_updates(3)] store_ok_change [OF _ _ task_ok_updates(4)]

lemma create_task_ok [inv_intros]: "store_ok tm \<Longrightarrow> store_ok (snd (create_task env c s items tm))"
  by (auto simp: create_task_def Let_def task_ok_def str_given_not_Nil intro!: store_ok_put)

lemma update_task_status_ok [inv_intros]: "store_ok tm \<Longrightarrow> store_ok (snd (update_task_status env k s items tm))"
  by (auto simp: update_task_status_def get_task_def Let_def intro!: store_ok_changes split: option.splits)

lemma add_command_ok [inv_intros]: "store_ok tm \<Longrightarrow> store_ok (add_command_to_history k c tm)"
  by (auto simp: add_command_to_history_def get_task_def intro!: store_ok_changes split: option.splits)

lemma set_products_ok [inv_intros]: "store_ok tm \<Longrightarrow> store_ok (set_products env k ps tm)"
  by (auto simp: set_products_def get_task_def Let_def intro!: store_ok_changes update_task_status_ok
      split: option.splits)

lemma bind_identity_ok [inv_intros]:
  "store_ok tm \<Longrightarrow> store_ok (snd (bind_default_task_result_identity r l tm))"
  by (auto simp: bind_default_task_result_identity_def deref_def Let_def intro!: store_ok_changes
      split: option.splits task_ref.splits)

lemma bound_default_ok [inv_intros]: "store_ok (snd out) \<Longrightarrow> store_ok (snd (bound_default l out))"
proof -
  assume ok: "store_ok (snd out)"
  obtain x tm where out: "out = (x, tm)" by fastforce
  show ?thesis
  proof (cases x)
    case (Inr r)
    obtain r' tm' where "bind_default_task_result_identity r l tm = (r', tm')" by fastforce
    with out ok Inr bind_identity_ok [of tm r l] show ?thesis by (simp add: bound_default_def)
  qed (use ok in \<open>simp add: out bound_default_def\<close>)
qed

lemma snd_update_case:
  "snd (case out of (Inl e, tm') \<Rightarrow> (Inl e, tm') | (Inr k, tm') \<Rightarrow> (Inr (f k), tm')) = snd out"
  by (auto split: prod.splits sum.splits)

lemma default_handlers_ok [inv_intros]:
  "store_ok tm \<Longrightarrow> store_ok (snd (default_start env c task tm))"
  "store_ok tm \<Longrightarrow> store_ok (snd (default_cancel env c k t tm))"
  "store_ok tm \<Longrightarrow> store_ok (snd (default_complete env c k t tm))"
  "store_ok tm \<Longrightarrow> store_ok (snd (default_continue c k t tm))"
  by (auto simp: default_start_def default_cancel_def default_complete_def default_continue_def
      snd_update_case Let_def intro!: inv_intros split: option.splits)

lemma dispatch_ok [inv_intros]: "store_ok tm \<Longrightarrow> store_ok (snd (dispatch_command env no_handlers l b rq task tm))"
  by (auto simp: dispatch_command_def no_handlers_def Let_def intro!: bound_default_ok default_handlers_ok
      split: option.splits)

lemma snd_failure:
  "snd (case out of (Inl e', tm') \<Rightarrow> (Inl e', tm') | (Inr k, tm') \<Rightarrow> (Inr (f tm' k), tm')) = snd out"
  by (auto split: prod.splits sum.splits)

lemma guard_ok [inv_intros]: "store_ok (snd out) \<Longrightarrow> store_ok (snd (guard_command env rq out))"
proof -
  assume ok: "store_ok (snd out)"
  have "store_ok (snd (guard_command env rq (Inl e, tm)))" if "store_ok tm" for e tm
    using that update_task_status_ok [OF that]
    by (cases e) (simp_all add: guard_command_def snd_failure split: option.splits)
  with ok show ?thesis by (cases out; cases "fst out") (auto simp: guard_command_def)
qed

lemma handle_ok [inv_intros]:
  "store_ok tm \<Longrightarrow> store_ok (snd (handle_rpc_request env no_handlers l b None parsed peer tm))"
  by (auto simp: handle_rpc_request_def Let_def intro!: guard_ok dispatch_ok
      split: sum.splits py_exn.splits)

text \<open>Everything that happens to the store of an agent server with the default handlers.\<close>

definition empty_manager :: task_manager where
  "empty_manager = \<lparr>tm_tasks = (\<lambda>_. None), tm_clock = 0\<rparr>"

lemma store_ok_empty [inv_intros]: "store_ok empty_manager"
  by (simp add: store_ok_def empty_manager_def)

inductive agent_reach :: "environment \<Rightarrow> task_manager \<Rightarrow> bool" for env where
  agent_start: "agent_reach env empty_manager"
| agent_request: "agent_reach env tm \<Longrightarrow>
    agent_reach env (snd (handle_rpc_request env no_handlers l b None parsed peer tm))"
| agent_creates: "agent_reach env tm \<Longrightarrow> agent_reach env (snd (create_task env c s items tm))"
| agent_updates: "agent_reach env tm \<Longrightarrow> agent_reach env (snd (update_task_status env k s items tm))"
| agent_products: "agent_reach env tm \<Longrightarrow> agent_reach env (set_products env k ps tm)"
| agent_records: "agent_reach env tm \<Longrightarrow> agent_reach env (add_command_to_history k c tm)"


subsection \<open>Terminal states are final\<close>

definition serve_requests ::
  "environment \<Rightarrow> string option \<Rightarrow> bool \<Rightarrow> ((string, rpc_request) result \<times> (py_exn, string option) result) list
     \<Rightarrow> task_manager \<Rightarrow> task_manager" where
  "serve_requests env l b reqs tm =
     fold (\<lambda>(parsed, peer) tm. snd (handle_rpc_request env no_handlers l b None parsed peer tm)) reqs tm"

lemma next_state_terminal: "terminal s \<Longrightarrow> next_state cmd (Some s) = Some s"
  by (cases cmd) (auto simp: terminal_def)

text \<open>
  C18: Completed, canceled, failed and rejected are final: no sequence of requests, from whatever peers
  and with whatever commands, moves a task out of a terminal state when the default handlers serve
  them (and the local AIC is valid if the binding is on).
\<close>
theorem terminal_states_are_final:
  assumes "store_ok tm" and "own_name b l" and "state_of tm k = Some s" and "terminal s"
  shows "state_of (serve_requests env l b reqs tm) k = Some s"
  using assms(1,3)
proof (induction reqs arbitrary: tm)
  case Nil
  then show ?case by (simp add: serve_requests_def)
next
  case (Cons r reqs)
  obtain parsed peer where r: "r = (parsed, peer)" by fastforce
  let ?tm = "snd (handle_rpc_request env no_handlers l b None parsed peer tm)"
  have "state_of ?tm k = Some s"
    using rpc_state [OF Cons.prems(1) assms(2), of env parsed peer] Cons.prems(2) next_state_terminal [OF assms(4)]
    by (auto simp: Let_def split: sum.splits)
  with Cons.IH [of ?tm] handle_ok [OF Cons.prems(1)] show ?case by (simp add: serve_requests_def r)
qed

subsection \<open>Identity\<close>

text \<open>
  C13: With the binding on, only the holder of the certificate is served, whatever handlers or
  dispatcher the agent has installed: if a request that arrives on a pair of sockets changes the store
  or gets a result, then its connection is open, and the common name of its certificate is the sender
  id of the command, up to surrounding white space and case.
\<close>
theorem only_certificate_holder_is_served:
  assumes "handle_rpc_request env handlers local_aic True dispatch (Inr rq)
      (get_request_peer_aic (aip_dispatch (Some client) (Some (fst server, Some (snd server)))
        (aip_registry_after evs) aip_fresh_request)) tm = (out, tm')"
    and "tm' \<noteq> tm \<or> (\<exists>resp. out = Inr resp \<and> rs_result resp \<noteq> None)"
  shows "\<exists>cert cn. open_certificate client server evs = Some cert \<and> extract_common_name cert = Some cn
    \<and> upper (strip cn) = upper (strip (ms_sender_id (rq_command rq)))"
proof -
  let ?peer = "get_request_peer_aic (aip_dispatch (Some client) (Some (fst server, Some (snd server)))
        (aip_registry_after evs) aip_fresh_request)"
  have given: "str_given local_aic" using assms by (auto simp: handle_rpc_request_def split: if_splits)
  have "is_ok (check_peer rq ?peer)"
  proof (rule ccontr)
    assume "\<not> is_ok (check_peer rq ?peer)"
    from handle_refused [OF TrueI given this, of env handlers dispatch tm] assms show False by auto
  qed
  then obtain s where s: "check_peer rq ?peer = Inr s" by (auto simp: is_ok_iff)
  then obtain peer where peer: "?peer = Inr peer"
    and ok: "assert_sender_matches_peer (SenderObj (Some (ms_sender_id (rq_command rq)))) peer = Inr s"
    by (auto simp: check_peer_def bind_result_eq_Inr)
  from ok have n: "normalize_aic peer = Some s" "s = upper (strip (ms_sender_id (rq_command rq)))"
    by (auto simp: sender_matches_peer_ok normalize_aic_Some)
  then obtain a where a: "peer = Some a" "s = upper (strip a)" by (auto simp: normalize_aic_Some)
  with peer obtain cert i where cert: "open_certificate client server evs = Some cert"
    and i: "extract_peer_identity cert = Inr (Some i)" "pi_aic i = a"
    by (auto simp: request_peer_aic_after bind_result_eq_Inr split: option.splits)
  from extract_peer_identity_ok [OF i(1)] obtain cn where "extract_common_name cert = Some cn"
    and "a = upper (strip cn)"
    using i(2) by (auto simp: normalize_aic_Some)
  with cert a(2) n(2) show ?thesis by auto
qed

lemma respond_sender:
  assumes "fst (respond True l i out) = Inr resp" and "l \<noteq> None" and "rs_result resp = Some t"
  shows "normalize_aic (Some (ms_sender_id t)) = normalize_aic l"
  using assms
  by (auto simp: respond_def rpc_result_def sender_of_def sender_matches_expected_ok
      split: prod.splits sum.splits if_splits option.splits)

lemma dispatch_sender:
  assumes "fst (dispatch_command env h l True rq task tm) = Inr resp" and "l \<noteq> None" and "rs_result resp = Some t"
  shows "normalize_aic (Some (ms_sender_id t)) = normalize_aic l"
proof -
  note sender = respond_sender [OF _ assms(2,3)]
  show ?thesis
    using assms(1,3)
    by (auto simp: dispatch_command_def Let_def rpc_error_def split: if_splits option.splits dest!: sender)
qed

lemma failed_result:
  "fst (guard_command env rq (Inl e, tm)) = Inr resp \<Longrightarrow> rs_result resp = Some t \<Longrightarrow>
     st_state (tr_status t) = Failed"
  by (auto simp: guard_command_def rpc_result_def rpc_error_def update_task_status_def Let_def
      split: py_exn.splits option.splits prod.splits sum.splits)

text \<open>
  With the binding on, an agent answers under its own name only, whatever handlers or dispatcher it
  has installed: the sender id of every result that leaves the endpoint is the local AIC, up to
  surrounding white space and case. The one exception is the snapshot of a task that has just been
  marked failed because a handler raised, which is sent without the check.
\<close>
theorem results_carry_local_name:
  assumes "handle_rpc_request env handlers local_aic True dispatch parsed peer tm = (Inr resp, tm')"
    and "rs_result resp = Some t"
  shows "normalize_aic (Some (ms_sender_id t)) = normalize_aic local_aic
    \<or> dispatch = None \<and> st_state (tr_status t) = Failed"
proof -
  obtain rq where rq: "parsed = Inr rq" and given: "str_given local_aic"
    using assms by (auto simp: handle_rpc_request_def rpc_error_def split: sum.splits if_splits)
  then have l: "local_aic \<noteq> None" by (cases local_aic) (auto simp: str_given_def)
  show ?thesis
  proof (cases dispatch)
    case None
    then obtain task where out: "fst (guard_command env rq (dispatch_command env handlers local_aic True rq task tm)) = Inr resp"
      using assms rq by (auto simp: handle_rpc_request_def rpc_error_def Let_def
          split: sum.splits if_splits py_exn.splits) (metis fst_conv)+
    show ?thesis
    proof (cases "fst (dispatch_command env handlers local_aic True rq task tm)")
      case (Inl e)
      with out failed_result [of env rq e "snd (dispatch_command env handlers local_aic True rq task tm)" resp t]
        assms(2) None show ?thesis by (metis prod.collapse)
    next
      case (Inr resp')
      then have "resp' = resp"
        using out by (cases "dispatch_command env handlers local_aic True rq task tm") (auto simp: guard_command_def)
      with Inr dispatch_sender [OF _ l assms(2)] show ?thesis by blast
    qed
  next
    case (Some d)
    then show ?thesis
      using assms rq l given
      by (auto simp: handle_rpc_request_def rpc_error_def sender_of_def sender_matches_expected_ok
          split: sum.splits if_splits py_exn.splits prod.splits)
  qed
qed


subsection \<open>Witnesses\<close>

definition agent_aic :: string where "agent_aic = ''1.2.156.3088.1.A1.V2.S3.0.08I6''"
definition leader_aic :: string where "leader_aic = ''1.2.156.3088.2.B1.V2.S3.0.0000''"

definition sample_env :: environment where
  "sample_env = \<lparr>now_at = (\<lambda>n. ''t'' @ nat_to_str n), uuid_at = (\<lambda>n. ''u'' @ nat_to_str n)\<rparr>"

definition sample_command :: "command_type \<Rightarrow> string option \<Rightarrow> task_command" where
  "sample_command cmd task_id =
     \<lparr>ms_id = ''m1'', ms_sent_at = ''t0'', ms_sender_role = Leader, ms_sender_id = leader_aic,
      ms_mentions = None, ms_items = None, ms_group_id = None, ms_session_id = None,
      tc_command = cmd, tc_params = None, tc_task_id = task_id\<rparr>"

definition sample_request :: "command_type \<Rightarrow> rpc_request" where
  "sample_request cmd = \<lparr>rq_id = PInt 1, rq_command = sample_command cmd (Some ''task-1'')\<rparr>"

definition one_task :: "task_state \<Rightarrow> task_manager" where
  "one_task s = snd (create_task sample_env (sample_command CmdStart (Some ''task-1'')) (Some s) None empty_manager)"

lemma one_task_ok: "store_ok (one_task s)"
  unfolding one_task_def by (intro inv_intros)

lemma sample_own_name: "own_name True (Some agent_aic)"
proof -
  have "normalize_aic (Some agent_aic) = Some agent_aic" "sdk_valid agent_aic" by code_simp+
  then show ?thesis by (auto simp: own_name_def)
qed

lemma sample_accepted: "accepted (Some agent_aic) True (Inr (Some leader_aic)) (sample_request CmdCancel)"
  by code_simp

lemma one_task_state: "state_of (one_task s) ''task-1'' = Some s"
  by (simp add: one_task_def create_task_def sample_command_def str_given_def or_empty_def Let_def)

theorem rpc_refines_state_machine_witness:
  "state_of (snd (handle_rpc_request sample_env no_handlers (Some agent_aic) True None
     (Inr (sample_request CmdCancel)) (Inr (Some leader_aic)) (one_task Working))) ''task-1'' = Some Canceled"
proof -
  have k: "or_empty (tc_task_id (rq_command (sample_request CmdCancel))) = ''task-1''"
    "tc_command (rq_command (sample_request CmdCancel)) = CmdCancel"
    by (simp_all add: sample_request_def sample_command_def or_empty_def)
  show ?thesis
    unfolding rpc_refines_state_machine [OF one_task_ok sample_own_name]
    by (simp add: sample_accepted k one_task_state terminal_def Let_def)
qed


theorem terminal_states_are_final_witness:
  "state_of (serve_requests sample_env (Some agent_aic) True
     [(Inr (sample_request CmdCancel), Inr (Some leader_aic)), (Inl ''bad'', Inr None)] (one_task Completed))
     ''task-1'' = Some Completed"
  by (rule terminal_states_are_final [OF one_task_ok sample_own_name one_task_state]) (simp add: terminal_def)

definition leader_cert :: certificate where
  "leader_cert = [(''subject'', PTuple [PTuple [PTuple [PStr ''commonName'', PStr leader_aic]]])]"

lemma leader_peer:
  "get_request_peer_aic (aip_dispatch (Some (''10.0.0.7'', 40001)) (Some (fst (''10.0.0.1'', 443), Some (snd (''10.0.0.1'', 443))))
     (aip_registry_after [Made (Some (''10.0.0.7'', 40001)) (Some (''10.0.0.1'', Some 443)) (Some (Some leader_cert))])
     aip_fresh_request) = Inr (Some leader_aic)"
  by code_simp

definition sample_served :: "(py_exn, rpc_response) result \<times> task_manager" where
  "sample_served = handle_rpc_request sample_env no_handlers (Some agent_aic) True None
     (Inr (sample_request CmdStart)) (Inr (Some leader_aic)) empty_manager"

lemma sample_response:
  "case fst sample_served of Inl _ \<Rightarrow> False
   | Inr resp \<Rightarrow> (case rs_result resp of None \<Rightarrow> False | Some t \<Rightarrow> st_state (tr_status t) = Accepted)"
  by code_simp

lemma sample_served_result:
  "\<exists>resp t. sample_served = (Inr resp, snd sample_served) \<and> rs_result resp = Some t \<and> st_state (tr_status t) = Accepted"
  using sample_response by (auto simp: prod_eq_iff split: sum.splits option.splits)

theorem only_certificate_holder_is_served_witness:
  "\<exists>cert cn. open_certificate (''10.0.0.7'', 40001) (''10.0.0.1'', 443)
       [Made (Some (''10.0.0.7'', 40001)) (Some (''10.0.0.1'', Some 443)) (Some (Some leader_cert))] = Some cert
     \<and> extract_common_name cert = Some cn \<and> upper (strip cn) = upper (strip leader_aic)"
proof -
  obtain resp t where served: "sample_served = (Inr resp, snd sample_served)" and t: "rs_result resp = Some t"
    using sample_served_result by blast
  have sender: "ms_sender_id (rq_command (sample_request CmdStart)) = leader_aic"
    by (simp add: sample_request_def sample_command_def)
  have "handle_rpc_request sample_env no_handlers (Some agent_aic) True None (Inr (sample_request CmdStart))
      (get_request_peer_aic (aip_dispatch (Some (''10.0.0.7'', 40001))
        (Some (fst (''10.0.0.1'', 443), Some (snd (''10.0.0.1'', 443))))
        (aip_registry_after [Made (Some (''10.0.0.7'', 40001)) (Some (''10.0.0.1'', Some 443)) (Some (Some leader_cert))])
        aip_fresh_request)) empty_manager = (Inr resp, snd sample_served)"
    unfolding leader_peer using served by (simp only: sample_served_def)
  from only_certificate_holder_is_served [OF this] t sender show ?thesis by auto
qed

theorem results_carry_local_name_witness:
  "\<exists>resp t. sample_served = (Inr resp, snd sample_served) \<and> rs_result resp = Some t
     \<and> normalize_aic (Some (ms_sender_id t)) = normalize_aic (Some agent_aic)"
proof -
  obtain resp t where served: "sample_served = (Inr resp, snd sample_served)" and t: "rs_result resp = Some t"
    and accepted: "st_state (tr_status t) = Accepted"
    using sample_served_result by blast
  from results_carry_local_name [OF served [unfolded sample_served_def] t] accepted
  have "normalize_aic (Some (ms_sender_id t)) = normalize_aic (Some agent_aic)" by simp
  with served t show ?thesis by blast
qed

subsection \<open>A handler that raises\<close>

definition failing_handlers :: command_handlers where
  "failing_handlers = no_handlers
     \<lparr>on_start := Some (\<lambda>_ _ tm. (Inl (OtherExn ''boom''), tm)),
      on_get := Some (\<lambda>_ _ tm. (Inl (OtherExn ''boom''), tm))\<rparr>"


end
