(* ===== verification/AipStream.thy ===== *)
theory AipStream
  imports AipRpc
begin

text \<open>
  \<open>acps-sdk/acps_sdk/aip/aip_stream_server.py\<close> and \<open>aip_stream_model.py\<close>: the event channel of a task
  with its ring buffer and subscriber queues, the hub that maps task ids to channels, and the HTTP
  handler of \<open>stream\<close> requests with the generator of its SSE frames.

  A subscription is a generator: its first step registers it (under the channel's lock), each later
  step yields one event, ends, or waits. Channels are objects that outlive their entry in the hub, so
  the hub holds references into a heap of channels.
\<close>

subsection \<open>The channel\<close>

record 'p stream_event =
  event_seq :: int
  payload :: 'p
  is_terminal :: bool

text \<open>A queue holds events and the sentinel \<open>None\<close>; subscribers are numbered.\<close>

record 'p channel =
  max_buffer :: nat
  buffer :: "'p stream_event list"
  next_seq :: int
  closed :: bool
  queues :: "(nat \<times> 'p stream_event option list) list"

definition new_channel :: "nat \<Rightarrow> 'p channel" where
  "new_channel mx = \<lparr>max_buffer = mx, buffer = [], next_seq = 1, closed = False, queues = []\<rparr>"

definition latest_seq :: "'p channel \<Rightarrow> int" where
  "latest_seq ch = next_seq ch - 1"

definition oldest_buffered_seq :: "'p channel \<Rightarrow> int" where
  "oldest_buffered_seq ch = (case buffer ch of [] \<Rightarrow> 1 | e # _ \<Rightarrow> event_seq e)"

text \<open>\<open>deque(maxlen=n).append(x)\<close>.\<close>

definition deque_append :: "nat \<Rightarrow> 'a \<Rightarrow> 'a list \<Rightarrow> 'a list" where
  "deque_append mx x xs = (let ys = xs @ [x] in drop (length ys - mx) ys)"

definition put_all :: "'a \<Rightarrow> (nat \<times> 'a list) list \<Rightarrow> (nat \<times> 'a list) list" where
  "put_all x qs = map (\<lambda>(i, q). (i, q @ [x])) qs"

definition close_channel :: "'p channel \<Rightarrow> 'p channel" where
  "close_channel ch =
     (if closed ch then ch else ch\<lparr>closed := True, queues := put_all None (queues ch)\<rparr>)"

definition publish :: "'p \<Rightarrow> bool \<Rightarrow> 'p channel \<Rightarrow> 'p stream_event \<times> 'p channel" where
  "publish p terminal ch =
     (let event = \<lparr>event_seq = next_seq ch, payload = p, is_terminal = terminal\<rparr>;
          ch1 = ch\<lparr>next_seq := next_seq ch + 1, buffer := deque_append (max_buffer ch) event (buffer ch),
            queues := put_all (Some event) (queues ch)\<rparr>
      in (event, if terminal then close_channel ch1 else ch1))"

definition replay :: "int option \<Rightarrow> 'p channel \<Rightarrow> 'p stream_event list" where
  "replay last_event_seq ch =
     (case last_event_seq of
        None \<Rightarrow> buffer ch
      | Some n \<Rightarrow> filter (\<lambda>e. event_seq e > n) (buffer ch))"

definition can_resume :: "int option \<Rightarrow> 'p channel \<Rightarrow> bool" where
  "can_resume last_event_seq ch =
     (case last_event_seq of
        None \<Rightarrow> True
      | Some n \<Rightarrow> if buffer ch = [] then True else n \<ge> oldest_buffered_seq ch - 1)"

text \<open>
  The generator: what it still has to replay, whether it found the channel closed, whether it has
  entered the \<open>try\<close> block with the loop over its queue, whether it has ended, and what it has yielded.
\<close>

record 'p subscription =
  sub_replay :: "'p stream_event list"
  sub_already_closed :: bool
  sub_in_try :: bool
  sub_ended :: bool
  sub_out :: "'p stream_event list"

definition subscribe ::
  "nat \<Rightarrow> int option \<Rightarrow> 'p channel \<Rightarrow> 'p subscription \<times> 'p channel" where
  "subscribe i last_event_seq ch =
     (let replayed = replay last_event_seq ch;
          already_closed = closed ch;
          ch' = (if \<not> already_closed then ch\<lparr>queues := queues ch @ [(i, [])]\<rparr> else ch)
      in (\<lparr>sub_replay = replayed, sub_already_closed = already_closed, sub_in_try = False,
           sub_ended = False, sub_out = []\<rparr>, ch'))"

definition remove_queue :: "nat \<Rightarrow> 'p channel \<Rightarrow> 'p channel" where
  "remove_queue i ch = ch\<lparr>queues := filter (\<lambda>(j, q). j \<noteq> i) (queues ch)\<rparr>"

text \<open>
  One step of the generator, up to its next \<open>yield\<close>, its end, or the point where it waits for its
  queue; \<open>None\<close> when it has ended.
\<close>

definition sub_next ::
  "nat \<Rightarrow> 'p subscription \<Rightarrow> 'p channel \<Rightarrow> ('p subscription \<times> 'p channel) option" where
  "sub_next i sub ch =
     (if sub_ended sub then None
      else
        case sub_replay sub of
          e # es \<Rightarrow> Some (sub\<lparr>sub_replay := es, sub_out := sub_out sub @ [e]\<rparr>, ch)
        | [] \<Rightarrow>
            if sub_already_closed sub then Some (sub\<lparr>sub_ended := True\<rparr>, ch)
            else
              (case map_of (queues ch) i of
                 Some (Some e # q) \<Rightarrow>
                   Some (sub\<lparr>sub_in_try := True, sub_out := sub_out sub @ [e]\<rparr>,
                     ch\<lparr>queues := map (\<lambda>(j, q'). if j = i then (j, q) else (j, q')) (queues ch)\<rparr>)
               | Some (None # q) \<Rightarrow>
                   Some (sub\<lparr>sub_in_try := True, sub_ended := True\<rparr>, remove_queue i ch)
               | _ \<Rightarrow> Some (sub\<lparr>sub_in_try := True\<rparr>, ch)))"

text \<open>
  The client goes away and the generator is closed: its \<open>finally\<close> clause removes the queue, if the
  generator has got as far as the \<open>try\<close> block.
\<close>

definition sub_cancel :: "nat \<Rightarrow> 'p subscription \<Rightarrow> 'p channel \<Rightarrow> 'p subscription \<times> 'p channel" where
  "sub_cancel i sub ch =
     (sub\<lparr>sub_ended := True\<rparr>, if sub_in_try sub then remove_queue i ch else ch)"

subsection \<open>The hub\<close>

datatype stream_payload =
    ResultPayload task_result
  | CommandPayload task_command
  | StatusPayload message string task_status
  | ChunkPayload message string product bool bool

record hub =
  hub_channels :: "string \<Rightarrow> nat option"
  hub_max_buffer :: nat
  heap :: "nat \<Rightarrow> stream_payload channel"
  next_ref :: nat
  started :: "task_command list"

definition get_or_create_channel :: "string \<Rightarrow> hub \<Rightarrow> nat \<times> hub" where
  "get_or_create_channel task_id h =
     (case hub_channels h task_id of
        Some r \<Rightarrow> (r, h)
      | None \<Rightarrow>
          let r = next_ref h in
          (r, h\<lparr>hub_channels := (hub_channels h)(task_id \<mapsto> r),
                heap := (heap h)(r := new_channel (hub_max_buffer h)), next_ref := Suc r\<rparr>))"

definition get_channel :: "string \<Rightarrow> hub \<Rightarrow> nat option" where
  "get_channel task_id h = hub_channels h task_id"

definition remove_channel :: "string \<Rightarrow> hub \<Rightarrow> hub" where
  "remove_channel task_id h = h\<lparr>hub_channels := (hub_channels h)(task_id := None)\<rparr>"

definition hub_publish :: "string \<Rightarrow> stream_payload \<Rightarrow> bool \<Rightarrow> hub \<Rightarrow> hub" where
  "hub_publish task_id p terminal h =
     (let (r, h') = get_or_create_channel task_id h in
      h'\<lparr>heap := (heap h')(r := snd (publish p terminal (heap h' r)))\<rparr>)"

definition TERMINAL_STATES :: "task_state list" where
  "TERMINAL_STATES = [Completed, Canceled, Failed, Rejected]"

definition publish_task_result :: "string \<Rightarrow> task_result \<Rightarrow> bool option \<Rightarrow> hub \<Rightarrow> hub" where
  "publish_task_result task_id t terminal h =
     hub_publish task_id (ResultPayload t)
       (case terminal of None \<Rightarrow> st_state (tr_status t) \<in> set TERMINAL_STATES | Some b \<Rightarrow> b) h"

definition publish_status_update :: "string \<Rightarrow> message \<Rightarrow> string \<Rightarrow> task_status \<Rightarrow> hub \<Rightarrow> hub" where
  "publish_status_update task_id m tid s h = hub_publish task_id (StatusPayload m tid s) False h"

definition publish_product_chunk ::
  "string \<Rightarrow> message \<Rightarrow> string \<Rightarrow> product \<Rightarrow> bool \<Rightarrow> bool \<Rightarrow> hub \<Rightarrow> hub" where
  "publish_product_chunk task_id m tid p app_end last_chunk h =
     hub_publish task_id (ChunkPayload m tid p app_end last_chunk) False h"

definition close_stream :: "string \<Rightarrow> hub \<Rightarrow> hub" where
  "close_stream task_id h =
     (case hub_channels h task_id of
        None \<Rightarrow> h
      | Some r \<Rightarrow>
          (remove_channel task_id h)\<lparr>heap := (heap h)(r := close_channel (heap h r))\<rparr>)"

subsection \<open>The HTTP handler\<close>

record frame =
  fr_id :: pyval
  fr_event :: "stream_payload stream_event option"
  fr_error :: "jsonrpc_error option"

definition build_stream_response :: "pyval \<Rightarrow> stream_payload stream_event \<Rightarrow> frame" where
  "build_stream_response rpc_id event = \<lparr>fr_id = rpc_id, fr_event = Some event, fr_error = None\<rparr>"

definition build_stream_error_response :: "pyval \<Rightarrow> int \<Rightarrow> string \<Rightarrow> frame" where
  "build_stream_error_response rpc_id c text =
     \<lparr>fr_id = rpc_id, fr_event = None, fr_error = Some \<lparr>err_code = c, err_message = text, err_data = NoData\<rparr>\<rparr>"

fun payload_sender :: "stream_payload \<Rightarrow> string" where
  "payload_sender (ResultPayload t) = ms_sender_id t"
| "payload_sender (CommandPayload c) = ms_sender_id c"
| "payload_sender (StatusPayload m _ _) = ms_sender_id m"
| "payload_sender (ChunkPayload m _ _ _ _) = ms_sender_id m"

text \<open>
  The frames the generator makes of the events its subscription yields; it raises at the first event
  whose sender is not the local AIC.
\<close>

fun sse_frames ::
  "pyval \<Rightarrow> string option \<Rightarrow> bool \<Rightarrow> stream_payload stream_event list \<Rightarrow> frame list \<times> py_exn option" where
  "sse_frames rpc_id local_aic binding [] = ([], None)"
| "sse_frames rpc_id local_aic binding (e # es) =
     (case (if binding then assert_sender_matches_expected (SenderObj (Some (payload_sender (payload e)))) local_aic
            else Inr []) of
        Inl exn \<Rightarrow> ([], Some exn)
      | Inr _ \<Rightarrow> (let (fs, x) = sse_frames rpc_id local_aic binding es in (build_stream_response rpc_id e # fs, x)))"

text \<open>
  The start of the generator: the channel is looked up by its task id when the response is iterated,
  and a missing channel makes a single error frame.
\<close>

definition sse_start :: "hub \<Rightarrow> string option \<Rightarrow> pyval \<Rightarrow> nat + frame list" where
  "sse_start h task_id rpc_id =
     (case Option.bind task_id (\<lambda>t. get_channel t h) of
        None \<Rightarrow> Inr [build_stream_error_response rpc_id (- 32001)
          (''Task stream not found: '' @ (case task_id of None \<Rightarrow> ''None'' | Some t \<Rightarrow> t))]
      | Some r \<Rightarrow> Inl r)"

datatype stream_failure = HttpException int int | Raised py_exn

text \<open>A streaming response: the generator with its arguments, or a single frame.\<close>

datatype stream_reply = Events "string option" pyval | OneFrame frame

record stream_handlers =
  on_re_stream :: "(task_command \<Rightarrow> hub \<Rightarrow> (py_exn, nat option) result \<times> hub) option"

text \<open>\<open>can_resume\<close> of a value from the request; comparing a value that is no number raises.\<close>

definition can_resume_value :: "pyval \<Rightarrow> 'p channel \<Rightarrow> (py_exn, bool) result" where
  "can_resume_value v ch =
     (case v of
        PNone \<Rightarrow> Inr True
      | PInt n \<Rightarrow> Inr (can_resume (Some n) ch)
      | PBool b \<Rightarrow> Inr (can_resume (Some (of_bool b)) ch)
      | _ \<Rightarrow> if buffer ch = [] then Inr True else Inl (OtherExn ''TypeError''))"

definition re_stream ::
  "stream_handlers \<Rightarrow> rpc_request \<Rightarrow> hub \<Rightarrow> (stream_failure, stream_reply) result \<times> hub" where
  "re_stream handlers rq h =
     (let command = rq_command rq;
          task_id = tc_task_id command;
          last_event_seq = dict_get (list_or_empty (tc_params command)) ''lastEventSeq'';
          channel = Option.bind task_id (\<lambda>t. get_channel t h);
          recovered = (case (channel, on_re_stream handlers) of
            (None, Some f) \<Rightarrow> f command h
          | _ \<Rightarrow> (Inr channel, h))
      in case recovered of
           (Inl e, h') \<Rightarrow> (Inl (Raised e), h')
         | (Inr None, h') \<Rightarrow> (Inl (HttpException 404 (- 32001)), h')
         | (Inr (Some r), h') \<Rightarrow>
             (case can_resume_value last_event_seq (heap h' r) of
                Inl e \<Rightarrow> (Inl (Raised e), h')
              | Inr False \<Rightarrow>
                  (Inr (OneFrame (build_stream_error_response (rq_id rq) (- 32002)
                     ''Cannot re-stream: buffer overflow, please restart'')), h')
              | Inr True \<Rightarrow> (Inr (Events task_id last_event_seq), h')))"

definition handle_stream_request ::
  "stream_handlers \<Rightarrow> string option \<Rightarrow> bool \<Rightarrow> (string, rpc_request) result
     \<Rightarrow> (py_exn, string option) result \<Rightarrow> hub \<Rightarrow> (stream_failure, stream_reply) result \<times> hub" where
  "handle_stream_request handlers local_aic binding parsed peer h =
     (case parsed of
        Inl e \<Rightarrow> (Inl (HttpException 400 (- 32700)), h)
      | Inr rq \<Rightarrow>
          if binding \<and> \<not> str_given local_aic
          then (Inl (Raised (ValueExn ''local_aic is required when identity_binding_enabled=True'')), h)
          else
            case (if binding then check_peer rq peer else Inr []) of
              Inl (IdentityExn e) \<Rightarrow>
                let c = err_code (identity_error_to_jsonrpc e) in
                (Inl (HttpException (if c = - 32008 then 401 else 403) c), h)
            | Inl e \<Rightarrow> (Inl (Raised e), h)
            | Inr _ \<Rightarrow>
                if tc_command (rq_command rq) = CmdStart then
                  (if \<not> str_given (tc_task_id (rq_command rq))
                   then (Inl (HttpException 400 (- 32602)), h)
                   else
                     let h1 = snd (get_or_create_channel (or_empty (tc_task_id (rq_command rq))) h) in
                     (Inr (Events (tc_task_id (rq_command rq)) PNone),
                      h1\<lparr>started := started h1 @ [rq_command rq]\<rparr>))
                else if tc_command (rq_command rq) = CmdReStream then re_stream handlers rq h
                else (Inl (HttpException 400 (- 32602)), h))"

end
