(* ===== verification/AipStreamHttp.thy ===== *)
theory AipStreamHttp
  imports AipStream AipRpcSafety "HOL-Library.Sublist"
begin

text \<open>
  The HTTP side of the streams: which requests get a stream, what its frames carry, and the hook
  \<open>on_re_stream\<close>.
\<close>

lemma sse_frames_events:
  "sse_frames rid l b es = (fs, x) \<Longrightarrow>
     \<exists>n. fs = map (build_stream_response rid) (take n es) \<and> (x = None \<longrightarrow> n = length es) \<and> n \<le> length es
       \<and> (b \<longrightarrow> (\<forall>e\<in>set (take n es). normalize_aic (Some (payload_sender (payload e))) = normalize_aic l))"
proof (induction es arbitrary: fs x)
  case Nil
  then show ?case by simp
next
  case (Cons e es)
  show ?case
  proof (cases "b \<and> \<not> is_ok (assert_sender_matches_expected (SenderObj (Some (payload_sender (payload e)))) l)")
    case True
    then obtain exn where "assert_sender_matches_expected (SenderObj (Some (payload_sender (payload e)))) l = Inl exn"
      by (auto simp: is_ok_def split: sum.splits)
    with True Cons.prems show ?thesis by (intro exI [of _ 0]) auto
  next
    case False
    obtain gs y where gs: "sse_frames rid l b es = (gs, y)" by fastforce
    from False have "fs = build_stream_response rid e # gs \<and> x = y"
      using Cons.prems gs by (cases b) (auto simp: is_ok_iff)
    moreover have "b \<Longrightarrow> normalize_aic (Some (payload_sender (payload e))) = normalize_aic l"
      using False by (auto simp: is_ok_iff sender_matches_expected_ok)
    moreover obtain n where "gs = map (build_stream_response rid) (take n es)" "y = None \<longrightarrow> n = length es"
        "n \<le> length es" "b \<longrightarrow> (\<forall>e\<in>set (take n es). normalize_aic (Some (payload_sender (payload e))) = normalize_aic l)"
      using Cons.IH [OF gs] by blast
    ultimately show ?thesis by (intro exI [of _ "Suc n"]) auto
  qed
qed

text \<open>
  A stream carries the channel's events under the agent's own name only. The frames are the events
  the subscription yields, in order, one frame each, up to the first event (if any) whose sender is
  not the local AIC, where the stream breaks off with an exception; so with the binding on, no frame of
  another sender is ever sent.
\<close>
theorem frames_are_events_of_local_agent:
  "\<exists>n. fst (sse_frames rid l b es) = map (build_stream_response rid) (take n es)
    \<and> (snd (sse_frames rid l b es) = None \<longrightarrow> n \<ge> length es)
    \<and> (b \<longrightarrow> (\<forall>e\<in>set (take n es). normalize_aic (Some (payload_sender (payload e))) = normalize_aic l))"
  using sse_frames_events [of rid l b es "fst (sse_frames rid l b es)" "snd (sse_frames rid l b es)"] by auto

theorem frames_are_events_of_local_agent_witness:
  "\<exists>n. fst (sse_frames (PInt 1) (Some agent_aic) True
      [\<lparr>event_seq = 1, payload = CommandPayload (sample_command CmdGet None), is_terminal = False\<rparr>])
    = map (build_stream_response (PInt 1)) (take n
      [\<lparr>event_seq = 1, payload = CommandPayload (sample_command CmdGet None), is_terminal = False\<rparr>])"
  using frames_are_events_of_local_agent [of "PInt 1" "Some agent_aic" True
      "[\<lparr>event_seq = 1, payload = CommandPayload (sample_command CmdGet None), is_terminal = False\<rparr>]"]
  by blast

subsection \<open>Starting a stream\<close>

lemma get_or_create_found:
  "get_channel k (snd (get_or_create_channel k h)) = Some (fst (get_or_create_channel k h))"
  by (simp add: get_or_create_channel_def get_channel_def Let_def split: option.splits)

text \<open>
  A started stream has its channel. When a request to start a stream is answered with a stream (and
  only then) the task's channel is in the hub before the agent's own code is started, so the
  generator of the response finds it, whatever is published first; the channel is the old one if
  the task had one and a fresh one otherwise, and no other task's channel changes.
\<close>
theorem started_stream_finds_its_channel:
  assumes "handle_stream_request handlers l b (Inr rq) peer h = (Inr (Events t v), h')"
    and "tc_command (rq_command rq) = CmdStart"
  shows "\<exists>k r. t = Some k \<and> k \<noteq> [] \<and> tc_task_id (rq_command rq) = Some k \<and> sse_start h' t rid = Inl r
    \<and> (case get_channel k h of None \<Rightarrow> heap h' r = new_channel (hub_max_buffer h) | Some r0 \<Rightarrow> r = r0 \<and> heap h' r = heap h r)
    \<and> (\<forall>j. j \<noteq> k \<longrightarrow> get_channel j h' = get_channel j h)
    \<and> started h' = started h @ [rq_command rq]"
proof -
  from assms have given: "str_given (tc_task_id (rq_command rq))"
    and t: "t = tc_task_id (rq_command rq)"
    and h': "h' = (snd (get_or_create_channel (or_empty (tc_task_id (rq_command rq))) h))
      \<lparr>started := started (snd (get_or_create_channel (or_empty (tc_task_id (rq_command rq))) h)) @ [rq_command rq]\<rparr>"
    by (auto simp: handle_stream_request_def Let_def split: if_splits sum.splits py_exn.splits)
  then obtain k where k: "tc_task_id (rq_command rq) = Some k" "k \<noteq> []"
    by (cases "tc_task_id (rq_command rq)") (auto simp: str_given_def)
  show ?thesis
    unfolding t h' using k
    by (cases "hub_channels h k")
      (auto simp: or_empty_def sse_start_def get_channel_def get_or_create_channel_def Let_def)
qed

definition empty_hub :: hub where
  "empty_hub = \<lparr>hub_channels = (\<lambda>_. None), hub_max_buffer = 200, heap = (\<lambda>_. new_channel 200), next_ref = 0,
     started = []\<rparr>"

definition no_hook :: stream_handlers where
  "no_hook = \<lparr>on_re_stream = None\<rparr>"

theorem started_stream_finds_its_channel_witness:
  "\<exists>h' r. handle_stream_request no_hook None False (Inr (sample_request CmdStart)) (Inr None) empty_hub
      = (Inr (Events (Some ''task-1'') PNone), h') \<and> sse_start h' (Some ''task-1'') (PInt 1) = Inl r"
proof -
  let ?out = "handle_stream_request no_hook None False (Inr (sample_request CmdStart)) (Inr None) empty_hub"
  have "?out = (Inr (Events (Some ''task-1'') PNone), snd ?out)"
    by (simp add: handle_stream_request_def sample_request_def sample_command_def str_given_def Let_def)
  moreover have "tc_command (rq_command (sample_request CmdStart)) = CmdStart"
    by (simp add: sample_request_def sample_command_def)
  ultimately show ?thesis
    using started_stream_finds_its_channel [of no_hook None False "sample_request CmdStart" "Inr None" empty_hub
        "Some ''task-1''" PNone "snd ?out"] by blast
qed

subsection \<open>The recovery hook\<close>

text \<open>
  A channel that \<open>on_re_stream\<close> recovers is not streamed. When the task has no channel in the hub and
  the hook returns a resumable channel object (without registering it itself), the request is
  accepted, but the generator looks the channel up by the task id again, finds none, and the stream
  consists of one error frame "Task stream not found".
\<close>
theorem recovered_channel_is_not_streamed:
  assumes "tc_command (rq_command rq) = CmdReStream" and "tc_task_id (rq_command rq) = Some k"
    and "get_channel k h = None"
    and "on_re_stream handlers = Some hook" and "hook (rq_command rq) h = (Inr (Some r), h')"
    and "get_channel k h' = None"
    and "can_resume_value (dict_get (list_or_empty (tc_params (rq_command rq))) ''lastEventSeq'') (heap h' r) = Inr True"
    and "b \<longrightarrow> str_given l \<and> is_ok (check_peer rq peer)"
  shows "\<exists>v. handle_stream_request handlers l b (Inr rq) peer h = (Inr (Events (Some k) v), h')
    \<and> sse_start h' (Some k) (rq_id rq) = Inr [build_stream_error_response (rq_id rq) (- 32001)
         (''Task stream not found: '' @ k)]"
proof -
  have "\<exists>s. (if b then check_peer rq peer else Inr []) = Inr s" using assms(8) by (auto simp: is_ok_iff)
  then show ?thesis
    using assms by (auto simp: handle_stream_request_def re_stream_def sse_start_def Let_def)
qed

definition recovering :: stream_handlers where
  "recovering = \<lparr>on_re_stream = Some (\<lambda>_ h. (Inr (Some (next_ref h)),
     h\<lparr>heap := (heap h)(next_ref h := new_channel 200), next_ref := Suc (next_ref h)\<rparr>))\<rparr>"

theorem recovered_channel_is_not_streamed_witness:
  "\<exists>v h'. handle_stream_request recovering None False (Inr (sample_request CmdReStream)) (Inr None) empty_hub
      = (Inr (Events (Some ''task-1'') v), h')
    \<and> sse_start h' (Some ''task-1'') (PInt 1) = Inr [build_stream_error_response (PInt 1) (- 32001)
         (''Task stream not found: '' @ ''task-1'')]"
proof -
  let ?rq = "sample_request CmdReStream"
  let ?h' = "empty_hub\<lparr>heap := (heap empty_hub)(next_ref empty_hub := new_channel 200),
     next_ref := Suc (next_ref empty_hub)\<rparr>"
  have "tc_command (rq_command ?rq) = CmdReStream" "tc_task_id (rq_command ?rq) = Some ''task-1''"
    "tc_params (rq_command ?rq) = None" "rq_id ?rq = PInt 1"
    by (simp_all add: sample_request_def sample_command_def)
  then show ?thesis
    using recovered_channel_is_not_streamed [of ?rq "''task-1''" empty_hub recovering _ "next_ref empty_hub" ?h' False None "Inr None"]
    by (fastforce simp: recovering_def empty_hub_def get_channel_def can_resume_value_def list_or_empty_def)
qed

end
