(* ===== verification/AipStreamProps.thy ===== *)
theory AipStreamProps
  imports AipStream "HOL-Library.Sublist"
begin

text \<open>
  Runs of one channel: publishing, closing, subscribing, the steps of the subscribers and their going
  away, in any interleaving. The run carries ghost state: the history of all published events, the
  length it had when the channel closed, and for each subscriber where it started.
\<close>

subsection \<open>Runs\<close>

record 'p tracked =
  tk_sub :: "'p subscription"
  tk_from :: "int option"
  tk_at :: nat
  tk_resumable :: bool
  tk_cancelled :: bool

record 'p stream_sys =
  sys_chan :: "'p channel"
  sys_hist :: "'p stream_event list"
  sys_closed :: "nat option"
  sys_subs :: "nat \<Rightarrow> 'p tracked option"

inductive channel_run :: "nat \<Rightarrow> 'p stream_sys \<Rightarrow> bool" for mx where
  run_new: "channel_run mx \<lparr>sys_chan = new_channel mx, sys_hist = [], sys_closed = None, sys_subs = (\<lambda>_. None)\<rparr>"
| run_publish: "channel_run mx s \<Longrightarrow> publish p t (sys_chan s) = (e, ch) \<Longrightarrow>
    channel_run mx (s\<lparr>sys_chan := ch, sys_hist := sys_hist s @ [e],
      sys_closed := (if t \<and> sys_closed s = None then Some (Suc (length (sys_hist s))) else sys_closed s)\<rparr>)"
| run_close: "channel_run mx s \<Longrightarrow>
    channel_run mx (s\<lparr>sys_chan := close_channel (sys_chan s),
      sys_closed := (if sys_closed s = None then Some (length (sys_hist s)) else sys_closed s)\<rparr>)"
| run_subscribe: "channel_run mx s \<Longrightarrow> sys_subs s i = None \<Longrightarrow> subscribe i frm (sys_chan s) = (sub, ch) \<Longrightarrow>
    channel_run mx (s\<lparr>sys_chan := ch, sys_subs := (sys_subs s)(i \<mapsto>
      \<lparr>tk_sub = sub, tk_from = frm, tk_at = length (sys_hist s),
       tk_resumable = can_resume frm (sys_chan s), tk_cancelled = False\<rparr>)\<rparr>)"
| run_next: "channel_run mx s \<Longrightarrow> sys_subs s i = Some tk \<Longrightarrow>
    sub_next i (tk_sub tk) (sys_chan s) = Some (sub, ch) \<Longrightarrow>
    channel_run mx (s\<lparr>sys_chan := ch, sys_subs := (sys_subs s)(i \<mapsto> tk\<lparr>tk_sub := sub\<rparr>)\<rparr>)"
| run_cancel: "channel_run mx s \<Longrightarrow> sys_subs s i = Some tk \<Longrightarrow> \<not> sub_ended (tk_sub tk) \<Longrightarrow>
    sub_cancel i (tk_sub tk) (sys_chan s) = (sub, ch) \<Longrightarrow>
    channel_run mx (s\<lparr>sys_chan := ch, sys_subs := (sys_subs s)(i \<mapsto> tk\<lparr>tk_sub := sub, tk_cancelled := True\<rparr>)\<rparr>)"

subsection \<open>The buffer\<close>

definition buffer_inv :: "nat \<Rightarrow> 'p stream_sys \<Rightarrow> bool" where
  "buffer_inv mx s \<longleftrightarrow>
     max_buffer (sys_chan s) = mx
     \<and> buffer (sys_chan s) = drop (length (sys_hist s) - mx) (sys_hist s)
     \<and> next_seq (sys_chan s) = int (length (sys_hist s)) + 1
     \<and> map event_seq (sys_hist s) = map (\<lambda>j. int j + 1) [0..<length (sys_hist s)]
     \<and> (closed (sys_chan s) \<longleftrightarrow> sys_closed s \<noteq> None)
     \<and> (\<forall>c. sys_closed s = Some c \<longrightarrow> c \<le> length (sys_hist s))"

lemma deque_append_drop:
  "deque_append mx x (drop (length h - mx) h) = drop (Suc (length h) - mx) (h @ [x])"
proof (cases "mx \<le> length h")
  case True
  then show ?thesis
    by (cases mx) (auto simp: deque_append_def Let_def Suc_diff_le Suc_diff_Suc)
next
  case False
  then show ?thesis by (simp add: deque_append_def Let_def)
qed

lemma close_channel_simps [simp]:
  "max_buffer (close_channel ch) = max_buffer ch" "buffer (close_channel ch) = buffer ch"
  "next_seq (close_channel ch) = next_seq ch" "closed (close_channel ch)"
  by (simp_all add: close_channel_def)

lemma publish_simps:
  assumes "publish p t ch = (e, ch')"
  shows "max_buffer ch' = max_buffer ch" "buffer ch' = deque_append (max_buffer ch) e (buffer ch)"
    "next_seq ch' = next_seq ch + 1" "closed ch' \<longleftrightarrow> closed ch \<or> t" "event_seq e = next_seq ch"
    "is_terminal e = t" "payload e = p"
  using assms by (auto simp: publish_def Let_def split: if_splits)

lemma sub_next_chan:
  assumes "sub_next i sub ch = Some (sub', ch')"
  shows "max_buffer ch' = max_buffer ch" "buffer ch' = buffer ch" "next_seq ch' = next_seq ch"
    "closed ch' = closed ch"
  using assms by (auto simp: sub_next_def remove_queue_def split: if_splits list.splits option.splits)

lemma subscribe_chan:
  assumes "subscribe i frm ch = (sub, ch')"
  shows "max_buffer ch' = max_buffer ch" "buffer ch' = buffer ch" "next_seq ch' = next_seq ch"
    "closed ch' = closed ch"
  using assms by (auto simp: subscribe_def Let_def split: if_splits)

lemma sub_cancel_chan:
  assumes "sub_cancel i sub ch = (sub', ch')"
  shows "max_buffer ch' = max_buffer ch" "buffer ch' = buffer ch" "next_seq ch' = next_seq ch"
    "closed ch' = closed ch"
  using assms by (auto simp: sub_cancel_def remove_queue_def split: if_splits)

lemma channel_run_buffer: "channel_run mx s \<Longrightarrow> buffer_inv mx s"
proof (induction rule: channel_run.induct)
  case run_new
  then show ?case by (simp add: buffer_inv_def new_channel_def)
next
  case (run_publish s p t e ch)
  then show ?case
    using publish_simps [OF run_publish.hyps(2)] deque_append_drop [of mx e "sys_hist s"]
    by (auto simp: buffer_inv_def le_Suc_eq)
next
  case (run_close s)
  then show ?case by (auto simp: buffer_inv_def)
next
  case (run_subscribe s i frm sub ch)
  then show ?case using subscribe_chan [OF run_subscribe.hyps(3)] by (simp add: buffer_inv_def)
next
  case (run_next s i tk sub ch)
  then show ?case using sub_next_chan [OF run_next.hyps(3)] by (simp add: buffer_inv_def)
next
  case (run_cancel s i tk sub ch)
  then show ?case using sub_cancel_chan [OF run_cancel.hyps(4)] by (simp add: buffer_inv_def)
qed

lemma hist_seq: "buffer_inv mx s \<Longrightarrow> j < length (sys_hist s) \<Longrightarrow> event_seq (sys_hist s ! j) = int j + 1"
  unfolding buffer_inv_def by (metis (no_types, lifting) add.left_neutral diff_zero length_upt nth_map nth_upt)

lemma filter_seq_drop:
  assumes "buffer_inv mx s" and "d \<le> length (sys_hist s)"
  shows "filter (\<lambda>e. event_seq e > int d) (sys_hist s) = drop d (sys_hist s)"
proof -
  let ?h = "sys_hist s"
  have "filter (\<lambda>e. event_seq e > int d) (take d ?h) = []"
    using hist_seq [OF assms(1)] assms(2) by (auto simp: filter_empty_conv in_set_conv_nth)
  moreover have "filter (\<lambda>e. event_seq e > int d) (drop d ?h) = drop d ?h"
    using hist_seq [OF assms(1)] assms(2) by (auto simp: filter_id_conv in_set_conv_nth)
  ultimately show ?thesis by (metis append_Nil append_take_drop_id filter_append)
qed

text \<open>
  The channel numbers its events without gaps and buffers the latest. In every run, the sequence
  numbers of the published events are 1, 2, 3, ... in order, the buffer is exactly the last
  \<open>max_buffer\<close> of them (all, while there are fewer), and \<open>latest_seq\<close> is their number.
\<close>
theorem buffer_holds_latest_events:
  assumes "channel_run mx s"
  shows "map event_seq (sys_hist s) = map int [1..<Suc (length (sys_hist s))]
    \<and> buffer (sys_chan s) = drop (length (sys_hist s) - mx) (sys_hist s)
    \<and> length (buffer (sys_chan s)) \<le> mx
    \<and> latest_seq (sys_chan s) = int (length (sys_hist s))"
proof -
  have "map (\<lambda>j. int j + 1) [0..<n] = map int [1..<Suc n]" for n
    by (induction n) auto
  then show ?thesis
    using channel_run_buffer [OF assms] by (simp add: buffer_inv_def latest_seq_def)
qed

lemma oldest_is_first:
  assumes "buffer_inv mx s" and "0 < mx" and "sys_hist s \<noteq> []"
  shows "buffer (sys_chan s) \<noteq> []"
    and "oldest_buffered_seq (sys_chan s) = int (length (sys_hist s) - mx) + 1"
proof -
  let ?d = "length (sys_hist s) - mx"
  have d: "?d < length (sys_hist s)" using assms(2,3) by (cases "sys_hist s") auto
  have b: "buffer (sys_chan s) = sys_hist s ! ?d # drop (Suc ?d) (sys_hist s)"
    using assms(1) d by (simp add: buffer_inv_def Cons_nth_drop_Suc)
  then show "buffer (sys_chan s) \<noteq> []" by simp
  show "oldest_buffered_seq (sys_chan s) = int ?d + 1"
    using hist_seq [OF assms(1) d] b by (simp add: oldest_buffered_seq_def)
qed

lemma can_resume_iff:
  assumes "buffer_inv mx s" and "0 < mx" and "0 \<le> n"
  shows "can_resume (Some n) (sys_chan s) \<longleftrightarrow> int (length (sys_hist s) - mx) \<le> n"
proof (cases "sys_hist s = []")
  case True
  then show ?thesis using assms by (simp add: can_resume_def buffer_inv_def)
next
  case False
  with oldest_is_first [OF assms(1,2)] show ?thesis by (simp add: can_resume_def)
qed

text \<open>
  \<open>can_resume\<close> is exact. In every run of a channel with a non-empty buffer size, a client that has
  seen the events up to \<open>n\<close> is told it can resume if and only if the replay from \<open>n\<close> is exactly the
  published events with a larger number, that is, if and only if none of them has been dropped.
\<close>
theorem can_resume_iff_replay_complete:
  assumes "channel_run mx s" and "0 < mx" and "0 \<le> n"
  shows "can_resume (Some n) (sys_chan s) \<longleftrightarrow>
    replay (Some n) (sys_chan s) = filter (\<lambda>e. event_seq e > n) (sys_hist s)"
proof -
  note inv = channel_run_buffer [OF assms(1)]
  let ?h = "sys_hist s" and ?d = "length (sys_hist s) - mx"
  have split: "filter P ?h = filter P (take ?d ?h) @ filter P (drop ?d ?h)" for P
    by (metis append_take_drop_id filter_append)
  have replay: "replay (Some n) (sys_chan s) = filter (\<lambda>e. event_seq e > n) (drop ?d ?h)"
    using inv by (simp add: replay_def buffer_inv_def)
  have "filter (\<lambda>e. event_seq e > n) (take ?d ?h) = [] \<longleftrightarrow> int ?d \<le> n"
  proof
    assume none: "filter (\<lambda>e. event_seq e > n) (take ?d ?h) = []"
    show "int ?d \<le> n"
    proof (cases ?d)
      case (Suc d)
      then have "?h ! d \<in> set (take ?d ?h)" by (auto simp: in_set_conv_nth intro!: exI [of _ d])
      with none have "\<not> event_seq (?h ! d) > n" by (auto simp: filter_empty_conv)
      with hist_seq [OF inv, of d] Suc show ?thesis by auto
    qed (use assms(3) in simp)
  next
    assume "int ?d \<le> n"
    then show "filter (\<lambda>e. event_seq e > n) (take ?d ?h) = []"
      using hist_seq [OF inv] by (auto simp: filter_empty_conv in_set_conv_nth)
  qed
  then show ?thesis
    unfolding can_resume_iff [OF inv assms(2,3)] replay split by simp
qed

end
