(* ===== verification/AipStreamDelivery.thy ===== *)
theory AipStreamDelivery
  imports AipStreamProps
begin

text \<open>
  What a subscriber receives: the events of the replay and then every event published until the channel
  closes, each once and in order, whatever else happens on the channel in between.
\<close>

subsection \<open>The expected sequence\<close>

definition base :: "nat \<Rightarrow> 'p stream_sys \<Rightarrow> 'p tracked \<Rightarrow> 'p stream_event list" where
  "base mx s tk =
     (let seen = drop (tk_at tk - mx) (take (tk_at tk) (sys_hist s)) in
      case tk_from tk of None \<Rightarrow> seen | Some n \<Rightarrow> filter (\<lambda>e. event_seq e > n) seen)"

definition tail :: "'p stream_sys \<Rightarrow> 'p tracked \<Rightarrow> 'p stream_event list" where
  "tail s tk =
     (case sys_closed s of
        None \<Rightarrow> drop (tk_at tk) (sys_hist s)
      | Some c \<Rightarrow> drop (tk_at tk) (take c (sys_hist s)))"

definition waiting :: "'p stream_sys \<Rightarrow> nat \<Rightarrow> 'p stream_event list \<Rightarrow> bool" where
  "waiting s i xs \<longleftrightarrow>
     (case sys_closed s of
        None \<Rightarrow> map_of (queues (sys_chan s)) i = Some (map Some xs)
      | Some c \<Rightarrow> \<exists>ys. map_of (queues (sys_chan s)) i = Some (map Some xs @ None # ys))"

definition sub_inv :: "nat \<Rightarrow> 'p stream_sys \<Rightarrow> nat \<Rightarrow> 'p tracked \<Rightarrow> bool" where
  "sub_inv mx s i tk \<longleftrightarrow>
     tk_at tk \<le> length (sys_hist s)
     \<and> (let sub = tk_sub tk; whole = base mx s tk @ tail s tk in
        if sub_ended sub then prefix (sub_out sub) whole \<and> (\<not> tk_cancelled tk \<longrightarrow> sub_out sub = whole \<and> sys_closed s \<noteq> None)
        else if sub_already_closed sub
        then sub_out sub @ sub_replay sub = whole \<and> (\<exists>c. sys_closed s = Some c \<and> c \<le> tk_at tk)
        else (\<exists>xs. sub_out sub @ sub_replay sub @ xs = whole \<and> waiting s i xs))"

definition subs_inv :: "nat \<Rightarrow> 'p stream_sys \<Rightarrow> bool" where
  "subs_inv mx s \<longleftrightarrow>
     (\<forall>i tk. sys_subs s i = Some tk \<longrightarrow> sub_inv mx s i tk)
     \<and> (\<forall>i. sys_subs s i = None \<longrightarrow> map_of (queues (sys_chan s)) i = None)"

subsection \<open>Queues\<close>

lemma map_of_put_all: "map_of (put_all x qs) i = map_option (\<lambda>q. q @ [x]) (map_of qs i)"
  by (induction qs) (auto simp: put_all_def)

lemma map_of_set_queue:
  "map_of (map (\<lambda>(j, q'). if j = i then (j, q) else (j, q')) qs) k =
     (if k = i then map_option (\<lambda>_. q) (map_of qs i) else map_of qs k)"
  by (induction qs) auto

lemma map_of_filter_queue: "map_of (filter (\<lambda>(j, q). j \<noteq> i) qs) k = (if k = i then None else map_of qs k)"
  by (induction qs) auto

lemma queues_close:
  "map_of (queues (close_channel ch)) i =
     (if closed ch then map_of (queues ch) i else map_option (\<lambda>q. q @ [None]) (map_of (queues ch) i))"
  by (simp add: close_channel_def map_of_put_all)

lemma queues_publish:
  assumes "publish p t ch = (e, ch')"
  shows "map_of (queues ch') i =
    map_option (\<lambda>q. q @ (if t \<and> \<not> closed ch then [Some e, None] else [Some e])) (map_of (queues ch) i)"
proof -
  let ?ch1 = "ch\<lparr>next_seq := next_seq ch + 1, buffer := deque_append (max_buffer ch) e (buffer ch),
      queues := put_all (Some e) (queues ch)\<rparr>"
  have ch': "ch' = (if t then close_channel ?ch1 else ?ch1)"
    using assms by (auto simp: publish_def Let_def)
  show ?thesis
    unfolding ch' by (cases t; cases "map_of (queues ch) i") (simp_all add: queues_close map_of_put_all)
qed

subsection \<open>Publishing and closing\<close>

lemma base_grow:
  "tk_at tk \<le> length (sys_hist s) \<Longrightarrow> sys_hist s' = sys_hist s @ es \<Longrightarrow> base mx s' tk = base mx s tk"
  by (simp add: base_def)

lemma tail_publish:
  assumes "tk_at tk \<le> length (sys_hist s)" and "sys_hist s' = sys_hist s @ [e]"
    and "\<And>c. sys_closed s = Some c \<Longrightarrow> c \<le> length (sys_hist s)"
    and "sys_closed s' = (if t \<and> sys_closed s = None then Some (Suc (length (sys_hist s))) else sys_closed s)"
  shows "tail s' tk = tail s tk @ (if sys_closed s = None then [e] else [])"
  using assms by (cases "sys_closed s") (auto simp: tail_def)

text \<open>A change of the system that appends \<open>d\<close> to what a subscriber expects and to its queue.\<close>

lemma sub_inv_extend:
  assumes sub: "sub_inv mx s i tk"
    and len: "length (sys_hist s) \<le> length (sys_hist s')"
    and b: "base mx s' tk = base mx s tk" and tl: "tail s' tk = tail s tk @ d"
    and cl: "sys_closed s \<noteq> None \<Longrightarrow> d = [] \<and> sys_closed s' = sys_closed s"
    and w: "\<And>xs. waiting s i xs \<Longrightarrow> waiting s' i (xs @ d)"
  shows "sub_inv mx s' i tk"
proof -
  have at: "tk_at tk \<le> length (sys_hist s')" using sub len by (simp add: sub_inv_def)
  consider (ended) "sub_ended (tk_sub tk)" | (late) "\<not> sub_ended (tk_sub tk)" "sub_already_closed (tk_sub tk)"
    | (live) "\<not> sub_ended (tk_sub tk)" "\<not> sub_already_closed (tk_sub tk)" by blast
  then show ?thesis
  proof cases
    case ended
    have "prefix (sub_out (tk_sub tk)) (base mx s tk @ tail s tk @ d)"
      using sub ended prefix_prefix [of "sub_out (tk_sub tk)" "base mx s tk @ tail s tk" d]
      by (simp add: sub_inv_def Let_def)
    moreover have "\<not> tk_cancelled tk \<longrightarrow> sub_out (tk_sub tk) = base mx s tk @ tail s tk @ d \<and> sys_closed s' \<noteq> None"
      using sub ended cl by (auto simp: sub_inv_def Let_def)
    ultimately show ?thesis using ended at b tl by (simp add: sub_inv_def Let_def)
  next
    case late
    with sub cl at b tl show ?thesis by (auto simp: sub_inv_def Let_def)
  next
    case live
    then obtain xs where xs: "sub_out (tk_sub tk) @ sub_replay (tk_sub tk) @ xs = base mx s tk @ tail s tk"
      and ws: "waiting s i xs"
      using sub by (auto simp: sub_inv_def Let_def)
    have "sub_out (tk_sub tk) @ sub_replay (tk_sub tk) @ (xs @ d) = base mx s' tk @ tail s' tk"
      unfolding b tl using xs by (metis append.assoc)
    then have "\<exists>ys. sub_out (tk_sub tk) @ sub_replay (tk_sub tk) @ ys = base mx s' tk @ tail s' tk \<and> waiting s' i ys"
      using w [OF ws] by blast
    with live at show ?thesis by (simp add: sub_inv_def Let_def)
  qed
qed

lemma sub_inv_publish:
  assumes inv: "buffer_inv mx s" and pub: "publish p t (sys_chan s) = (e, ch)" and sub: "sub_inv mx s i tk"
    and chan: "sys_chan s' = ch" and hist: "sys_hist s' = sys_hist s @ [e]"
    and closing: "sys_closed s' = (if t \<and> sys_closed s = None then Some (Suc (length (sys_hist s))) else sys_closed s)"
  shows "sub_inv mx s' i tk"
proof (rule sub_inv_extend [OF sub, where d = "if sys_closed s = None then [e] else []"])
  have at: "tk_at tk \<le> length (sys_hist s)" using sub by (simp add: sub_inv_def)
  show "base mx s' tk = base mx s tk" by (rule base_grow [OF at hist])
  show "tail s' tk = tail s tk @ (if sys_closed s = None then [e] else [])"
    using inv by (intro tail_publish [OF at hist _ closing]) (simp add: buffer_inv_def)
  have cl: "closed (sys_chan s) \<longleftrightarrow> sys_closed s \<noteq> None" using inv by (simp add: buffer_inv_def)
  show "waiting s' i (xs @ (if sys_closed s = None then [e] else []))" if "waiting s i xs" for xs
    using that cl queues_publish [OF pub, of i] chan closing
    by (cases "sys_closed s"; cases t) (auto simp: waiting_def)
qed (use hist closing in auto)

lemma sub_inv_close:
  assumes inv: "buffer_inv mx s" and sub: "sub_inv mx s i tk"
    and chan: "sys_chan s' = close_channel (sys_chan s)" and hist: "sys_hist s' = sys_hist s"
    and closing: "sys_closed s' = (if sys_closed s = None then Some (length (sys_hist s)) else sys_closed s)"
  shows "sub_inv mx s' i tk"
proof (rule sub_inv_extend [OF sub, where d = "[]"])
  have cl: "closed (sys_chan s) \<longleftrightarrow> sys_closed s \<noteq> None" using inv by (simp add: buffer_inv_def)
  show "waiting s' i (xs @ [])" if "waiting s i xs" for xs
    using that cl queues_close [of "sys_chan s" i] chan closing
    by (cases "sys_closed s") (auto simp: waiting_def)
  show "tail s' tk = tail s tk @ []"
    using hist closing by (cases "sys_closed s") (auto simp: tail_def)
qed (use hist closing in \<open>auto simp: base_def\<close>)

subsection \<open>Subscribing and reading\<close>

text \<open>Steps of a subscriber leave the history and the other subscribers' queues alone.\<close>

lemma base_same:
  "sys_hist s' = sys_hist s \<Longrightarrow> tk_from tk' = tk_from tk \<Longrightarrow> tk_at tk' = tk_at tk \<Longrightarrow> base mx s' tk' = base mx s tk"
  unfolding base_def by simp

lemma tail_same:
  "sys_hist s' = sys_hist s \<Longrightarrow> sys_closed s' = sys_closed s \<Longrightarrow> tk_at tk' = tk_at tk \<Longrightarrow> tail s' tk' = tail s tk"
  by (cases "sys_closed s") (simp_all add: tail_def)

lemma waiting_same:
  "sys_closed s' = sys_closed s \<Longrightarrow> map_of (queues (sys_chan s')) i = map_of (queues (sys_chan s)) i
     \<Longrightarrow> waiting s' i = waiting s i"
  by (rule ext, cases "sys_closed s") (simp_all add: waiting_def)

lemma sub_inv_other:
  assumes "sub_inv mx s i tk" and "sys_hist s' = sys_hist s" and "sys_closed s' = sys_closed s"
    and "map_of (queues (sys_chan s')) i = map_of (queues (sys_chan s)) i"
  shows "sub_inv mx s' i tk"
  using assms base_same [OF assms(2) refl refl, of mx tk] tail_same [OF assms(2,3) refl, of tk]
    waiting_same [OF assms(3,4)]
  by (simp add: sub_inv_def Let_def)

lemma sub_inv_subscribe:
  assumes inv: "buffer_inv mx s" and free: "map_of (queues (sys_chan s)) i = None"
    and sub: "subscribe i frm (sys_chan s) = (sub, ch)" and chan: "sys_chan s' = ch"
    and hist: "sys_hist s' = sys_hist s" and cl: "sys_closed s' = sys_closed s"
    and tk: "tk_sub tk = sub" "tk_from tk = frm" "tk_at tk = length (sys_hist s)" "\<not> tk_cancelled tk"
  shows "sub_inv mx s' i tk"
proof -
  have b: "base mx s' tk = replay frm (sys_chan s)"
    using inv hist tk by (cases frm) (auto simp: base_def replay_def buffer_inv_def Let_def)
  have tl: "tail s' tk = []"
    using inv hist tk cl by (cases "sys_closed s") (auto simp: tail_def buffer_inv_def)
  have state: "tk_sub tk = \<lparr>sub_replay = replay frm (sys_chan s), sub_already_closed = closed (sys_chan s),
      sub_in_try = False, sub_ended = False, sub_out = []\<rparr>"
    using sub tk(1) by (auto simp: subscribe_def Let_def)
  show ?thesis
  proof (cases "closed (sys_chan s)")
    case True
    then obtain c where "sys_closed s = Some c" "c \<le> length (sys_hist s)" using inv by (auto simp: buffer_inv_def)
    with True b tl hist tk(3) cl show ?thesis by (simp add: sub_inv_def Let_def state)
  next
    case False
    then have "sys_closed s = None" using inv by (simp add: buffer_inv_def)
    moreover have "map_of (queues ch) i = Some []"
      using sub False free by (auto simp: subscribe_def Let_def map_add_def)
    ultimately have "waiting s' i []" using cl chan by (simp add: waiting_def)
    with False b tl hist tk(3) show ?thesis by (auto simp: sub_inv_def Let_def state)
  qed
qed

lemma sub_inv_next:
  assumes sub: "sub_inv mx s i tk" and "next": "sub_next i (tk_sub tk) (sys_chan s) = Some (sub', ch)"
    and chan: "sys_chan s' = ch" and hist: "sys_hist s' = sys_hist s" and cl: "sys_closed s' = sys_closed s"
  shows "sub_inv mx s' i (tk\<lparr>tk_sub := sub'\<rparr>)"
proof -
  let ?sub = "tk_sub tk" and ?whole = "base mx s tk @ tail s tk"
  have b: "base mx s' (tk\<lparr>tk_sub := sub'\<rparr>) @ tail s' (tk\<lparr>tk_sub := sub'\<rparr>) = ?whole"
    using base_same [OF hist, of "tk\<lparr>tk_sub := sub'\<rparr>" tk] tail_same [OF hist cl, of "tk\<lparr>tk_sub := sub'\<rparr>" tk]
    by simp
  have at: "tk_at tk \<le> length (sys_hist s')" using sub hist by (simp add: sub_inv_def)
  have live: "\<not> sub_ended ?sub" using "next" by (auto simp: sub_next_def)
  show ?thesis
  proof (cases "sub_replay ?sub")
    case (Cons e es)
    then have sub': "sub' = ?sub\<lparr>sub_replay := es, sub_out := sub_out ?sub @ [e]\<rparr>" "ch = sys_chan s"
      using "next" live by (auto simp: sub_next_def)
    have "waiting s' i = waiting s i" using sub'(2) chan cl by (intro waiting_same) simp_all
    with sub sub' live Cons b at cl show ?thesis by (auto simp: sub_inv_def Let_def)
  next
    case Nil
    show ?thesis
    proof (cases "sub_already_closed ?sub")
      case True
      then have "sub' = ?sub\<lparr>sub_ended := True\<rparr>" using "next" live Nil by (auto simp: sub_next_def)
      with sub True Nil live b at cl show ?thesis by (auto simp: sub_inv_def Let_def)
    next
      case False
      then obtain xs where xs: "sub_out ?sub @ xs = ?whole" and ws: "waiting s i xs"
        using sub live Nil by (auto simp: sub_inv_def Let_def)
      then obtain q where q: "map_of (queues (sys_chan s)) i = Some q"
        by (auto simp: waiting_def split: option.splits)
      show ?thesis
      proof (cases q)
        case Nil': Nil
        then have "sub' = ?sub\<lparr>sub_in_try := True\<rparr>" "ch = sys_chan s"
          using "next" live Nil False q by (auto simp: sub_next_def)
        moreover have "waiting s' i xs" using ws waiting_same [OF cl, of i] calculation(2) chan by simp
        ultimately show ?thesis using xs live Nil False b at by (auto simp: sub_inv_def Let_def)
      next
        case (Cons x q')
        show ?thesis
        proof (cases x)
          case None
          then have sub': "sub' = ?sub\<lparr>sub_in_try := True, sub_ended := True\<rparr>"
            using "next" live Nil False q Cons by (auto simp: sub_next_def)
          have "xs = [] \<and> sys_closed s \<noteq> None"
            using ws q Cons None by (cases xs) (auto simp: waiting_def split: option.splits)
          with xs sub' b at cl show ?thesis by (auto simp: sub_inv_def Let_def)
        next
          case (Some e)
          then have sub': "sub' = ?sub\<lparr>sub_in_try := True, sub_out := sub_out ?sub @ [e]\<rparr>"
            and q': "map_of (queues ch) i = Some q'"
            using "next" live Nil False q Cons by (auto simp: sub_next_def map_of_set_queue)
          obtain ys where ys: "xs = e # ys"
            using ws q Cons Some by (cases xs) (auto simp: waiting_def split: option.splits)
          then have "waiting s' i ys"
            using ws q Cons Some q' chan cl by (auto simp: waiting_def split: option.splits)
          with xs ys sub' live Nil False b at show ?thesis by (auto simp: sub_inv_def Let_def)
        qed
      qed
    qed
  qed
qed

lemma sub_inv_cancel:
  assumes sub: "sub_inv mx s i tk" and live: "\<not> sub_ended (tk_sub tk)"
    and cancel: "sub_cancel i (tk_sub tk) (sys_chan s) = (sub', ch)"
    and hist: "sys_hist s' = sys_hist s" and cl: "sys_closed s' = sys_closed s"
  shows "sub_inv mx s' i (tk\<lparr>tk_sub := sub', tk_cancelled := True\<rparr>)"
proof -
  let ?tk = "tk\<lparr>tk_sub := sub', tk_cancelled := True\<rparr>"
  have "\<exists>zs. sub_out (tk_sub tk) @ zs = base mx s tk @ tail s tk"
    using sub live by (auto simp: sub_inv_def Let_def split: if_splits)
  then have "prefix (sub_out (tk_sub tk)) (base mx s tk @ tail s tk)" by (metis prefixI)
  moreover have "sub_out sub' = sub_out (tk_sub tk)" "sub_ended sub'"
    using cancel by (auto simp: sub_cancel_def)
  moreover have "base mx s' ?tk = base mx s tk" "tail s' ?tk = tail s tk"
    using base_same [OF hist, of ?tk tk] tail_same [OF hist cl, of ?tk tk] by simp_all
  ultimately show ?thesis using sub hist by (simp add: sub_inv_def Let_def)
qed

subsection \<open>The invariant\<close>

lemma subs_invI:
  "(\<And>i tk. sys_subs s i = Some tk \<Longrightarrow> sub_inv mx s i tk) \<Longrightarrow>
   (\<And>i. sys_subs s i = None \<Longrightarrow> map_of (queues (sys_chan s)) i = None) \<Longrightarrow> subs_inv mx s"
  by (simp add: subs_inv_def)

lemma subs_invD:
  "subs_inv mx s \<Longrightarrow> sys_subs s i = Some tk \<Longrightarrow> sub_inv mx s i tk"
  "subs_inv mx s \<Longrightarrow> sys_subs s i = None \<Longrightarrow> map_of (queues (sys_chan s)) i = None"
  by (simp_all add: subs_inv_def)

lemma next_other_queue:
  "sub_next i sub ch = Some (sub', ch') \<Longrightarrow> j \<noteq> i \<Longrightarrow> map_of (queues ch') j = map_of (queues ch) j"
  by (auto simp: sub_next_def remove_queue_def map_of_set_queue map_of_filter_queue
      split: if_splits list.splits option.splits)

lemma cancel_other_queue:
  "sub_cancel i sub ch = (sub', ch') \<Longrightarrow> j \<noteq> i \<Longrightarrow> map_of (queues ch') j = map_of (queues ch) j"
  by (auto simp: sub_cancel_def remove_queue_def map_of_filter_queue split: if_splits)

lemma subscribe_other_queue:
  "subscribe i frm ch = (sub, ch') \<Longrightarrow> j \<noteq> i \<Longrightarrow> map_of (queues ch') j = map_of (queues ch) j"
  by (auto simp: subscribe_def Let_def map_add_def split: if_splits option.splits)

lemma channel_run_subs: "channel_run mx s \<Longrightarrow> subs_inv mx s"
proof (induction rule: channel_run.induct)
  case run_new
  then show ?case by (simp add: subs_inv_def new_channel_def)
next
  case (run_publish s p t e ch)
  note inv = channel_run_buffer [OF run_publish.hyps(1)]
  show ?case
    using sub_inv_publish [OF inv run_publish.hyps(2) subs_invD(1) [OF run_publish.IH]]
      queues_publish [OF run_publish.hyps(2)] subs_invD(2) [OF run_publish.IH]
    by (intro subs_invI) simp_all
next
  case (run_close s)
  note inv = channel_run_buffer [OF run_close.hyps(1)]
  show ?case
    using sub_inv_close [OF inv subs_invD(1) [OF run_close.IH]] queues_close [of "sys_chan s"]
      subs_invD(2) [OF run_close.IH]
    by (intro subs_invI) simp_all
next
  case (run_subscribe s i frm sub ch)
  note inv = channel_run_buffer [OF run_subscribe.hyps(1)]
  show ?case (is "subs_inv mx ?s")
  proof (rule subs_invI)
    fix j tk assume "sys_subs ?s j = Some tk"
    then show "sub_inv mx ?s j tk"
      using sub_inv_subscribe [OF inv subs_invD(2) [OF run_subscribe.IH run_subscribe.hyps(2)] run_subscribe.hyps(3)]
        sub_inv_other [OF subs_invD(1) [OF run_subscribe.IH]] subscribe_other_queue [OF run_subscribe.hyps(3)]
      by (cases "j = i") auto
  next
    fix j assume "sys_subs ?s j = None"
    then show "map_of (queues (sys_chan ?s)) j = None"
      using subs_invD(2) [OF run_subscribe.IH] subscribe_other_queue [OF run_subscribe.hyps(3)]
      by (cases "j = i") auto
  qed
next
  case (run_next s i tk sub ch)
  show ?case (is "subs_inv mx ?s")
  proof (rule subs_invI)
    fix j tk' assume "sys_subs ?s j = Some tk'"
    then show "sub_inv mx ?s j tk'"
      using sub_inv_next [OF subs_invD(1) [OF run_next.IH run_next.hyps(2)] run_next.hyps(3)]
        sub_inv_other [OF subs_invD(1) [OF run_next.IH]] next_other_queue [OF run_next.hyps(3)]
      by (cases "j = i") auto
  next
    fix j assume "sys_subs ?s j = None"
    then show "map_of (queues (sys_chan ?s)) j = None"
      using subs_invD(2) [OF run_next.IH] next_other_queue [OF run_next.hyps(3)]
      by (cases "j = i") auto
  qed
next
  case (run_cancel s i tk sub ch)
  show ?case (is "subs_inv mx ?s")
  proof (rule subs_invI)
    fix j tk' assume "sys_subs ?s j = Some tk'"
    then show "sub_inv mx ?s j tk'"
      using sub_inv_cancel [OF subs_invD(1) [OF run_cancel.IH run_cancel.hyps(2)] run_cancel.hyps(3,4)]
        sub_inv_other [OF subs_invD(1) [OF run_cancel.IH]] cancel_other_queue [OF run_cancel.hyps(4)]
      by (cases "j = i") auto
  next
    fix j assume "sys_subs ?s j = None"
    then show "map_of (queues (sys_chan ?s)) j = None"
      using subs_invD(2) [OF run_cancel.IH] cancel_other_queue [OF run_cancel.hyps(4)]
      by (cases "j = i") auto
  qed
qed


subsection \<open>What a subscriber receives\<close>

text \<open>The last event a subscriber is owed: the last before the channel closed, or before it subscribed.\<close>

definition owed_until :: "'p stream_sys \<Rightarrow> 'p tracked \<Rightarrow> nat" where
  "owed_until s tk = (case sys_closed s of None \<Rightarrow> length (sys_hist s) | Some c \<Rightarrow> max c (tk_at tk))"

lemma sub_inv_result:
  assumes "sub_inv mx s i tk"
  shows "prefix (sub_out (tk_sub tk)) (base mx s tk @ tail s tk)
    \<and> (sub_ended (tk_sub tk) \<and> \<not> tk_cancelled tk \<longrightarrow> sub_out (tk_sub tk) = base mx s tk @ tail s tk)"
proof (cases "sub_ended (tk_sub tk)")
  case True
  with assms show ?thesis by (auto simp: sub_inv_def Let_def)
next
  case False
  then have "\<exists>zs. sub_out (tk_sub tk) @ zs = base mx s tk @ tail s tk"
    using assms by (auto simp: sub_inv_def Let_def split: if_splits)
  then have "prefix (sub_out (tk_sub tk)) (base mx s tk @ tail s tk)" by (metis prefixI)
  with False show ?thesis by simp
qed

lemma tail_take:
  assumes "buffer_inv mx s" and "tk_at tk \<le> length (sys_hist s)"
  shows "take (tk_at tk) (sys_hist s) @ tail s tk = take (owed_until s tk) (sys_hist s)"
proof (cases "sys_closed s")
  case None
  then show ?thesis by (simp add: tail_def owed_until_def)
next
  case (Some c)
  show ?thesis
  proof (cases "c \<le> tk_at tk")
    case True
    then show ?thesis using Some by (simp add: tail_def owed_until_def max_def)
  next
    case False
    then have "tail s tk = drop (tk_at tk) (take c (sys_hist s))" "owed_until s tk = c"
      using Some by (simp_all add: tail_def owed_until_def)
    then show ?thesis
      using False append_take_drop_id [of "tk_at tk" "take c (sys_hist s)"] by (simp add: min_def)
  qed
qed

lemma expected_from:
  assumes inv: "buffer_inv mx s" and at: "tk_at tk \<le> length (sys_hist s)"
    and frm: "tk_from tk = Some n" "int (tk_at tk - mx) \<le> n" "n \<le> int (tk_at tk)"
  shows "base mx s tk @ tail s tk = filter (\<lambda>e. event_seq e > n) (take (owed_until s tk) (sys_hist s))"
proof -
  let ?h = "sys_hist s" and ?d = "tk_at tk - mx"
  let ?P = "\<lambda>e. event_seq e > n"
  have old: "filter ?P (take ?d (take (tk_at tk) ?h)) = []"
    using hist_seq [OF inv] at frm(2) by (auto simp: filter_empty_conv in_set_conv_nth)
  have "filter ?P (take (tk_at tk) ?h)
      = filter ?P (take ?d (take (tk_at tk) ?h)) @ filter ?P (drop ?d (take (tk_at tk) ?h))"
    by (metis append_take_drop_id filter_append)
  then have b: "base mx s tk = filter ?P (take (tk_at tk) ?h)"
    using old frm(1) by (simp add: base_def)
  have new: "filter ?P (drop (tk_at tk) ?h) = drop (tk_at tk) ?h"
    using hist_seq [OF inv] frm(3) by (auto simp: filter_id_conv in_set_conv_nth)
  have "e \<in> set (drop (tk_at tk) ?h)" if "e \<in> set (tail s tk)" for e
    using that by (cases "sys_closed s") (auto simp: tail_def drop_take dest: in_set_takeD)
  then have "filter ?P (tail s tk) = tail s tk"
    using new by (simp add: filter_id_conv)
  then show ?thesis
    unfolding b tail_take [OF inv at, symmetric] by simp
qed

lemma from_resumable:
  assumes "channel_run mx s" and "0 < mx" and "sys_subs s i = Some tk" and "tk_from tk = Some n" and "0 \<le> n"
    and "tk_resumable tk"
  shows "int (tk_at tk - mx) \<le> n"
  using assms(1,3,4,6)
proof (induction arbitrary: i tk rule: channel_run.induct)
  case (run_subscribe s j frm sub ch)
  then show ?case
    using can_resume_iff [OF channel_run_buffer [OF run_subscribe.hyps(1)] assms(2,5)]
    by (auto split: if_splits)
qed (auto split: if_splits)



subsection \<open>A run, and a leak\<close>

definition run0 :: "nat stream_sys" where
  "run0 = \<lparr>sys_chan = new_channel 10, sys_hist = [], sys_closed = None, sys_subs = (\<lambda>_. None)\<rparr>"

definition event1 :: "nat stream_event" where
  "event1 = \<lparr>event_seq = 1, payload = 7, is_terminal = True\<rparr>"

text \<open>After one subscription from 0, one terminal event, and two steps of the subscriber.\<close>

lemma sample_run:
  "\<exists>s tk. channel_run 10 s \<and> sys_subs s 0 = Some tk \<and> tk_from tk = Some 0 \<and> tk_at tk = 0 \<and> tk_resumable tk
     \<and> sub_ended (tk_sub tk) \<and> \<not> tk_cancelled tk \<and> sys_hist s = [event1] \<and> sys_closed s = Some 1"
proof -
  have r0: "channel_run 10 run0" unfolding run0_def by (rule run_new)
  note steps = sub_next_def remove_queue_def subscribe_def publish_def close_channel_def put_all_def
    new_channel_def replay_def can_resume_def deque_append_def run0_def event1_def Let_def
  obtain s1 where r1: "channel_run 10 s1"
    and s1: "s1 = run0\<lparr>sys_chan := snd (subscribe 0 (Some 0) (sys_chan run0)),
      sys_subs := (sys_subs run0)(0 \<mapsto> \<lparr>tk_sub = fst (subscribe 0 (Some 0) (sys_chan run0)), tk_from = Some 0,
        tk_at = length (sys_hist run0), tk_resumable = can_resume (Some 0) (sys_chan run0), tk_cancelled = False\<rparr>)\<rparr>"
    using run_subscribe [OF r0 _ surjective_pairing, of 0 "Some 0"] by (simp add: run0_def)
  let ?p2 = "publish 7 True (sys_chan s1)"
  obtain s2 where r2: "channel_run 10 s2"
    and s2: "s2 = s1\<lparr>sys_chan := snd ?p2, sys_hist := sys_hist s1 @ [fst ?p2],
      sys_closed := (if True \<and> sys_closed s1 = None then Some (Suc (length (sys_hist s1))) else sys_closed s1)\<rparr>"
    using run_publish [OF r1 surjective_pairing, where p = 7 and t = True] by blast
  obtain tk2 where t2: "sys_subs s2 0 = Some tk2" using s2 s1 by simp
  then have tk2: "tk2 = \<lparr>tk_sub = fst (subscribe 0 (Some 0) (sys_chan run0)), tk_from = Some 0,
        tk_at = length (sys_hist run0), tk_resumable = can_resume (Some 0) (sys_chan run0), tk_cancelled = False\<rparr>"
    using s2 s1 by simp
  obtain sub3 ch3 where n3: "sub_next 0 (tk_sub tk2) (sys_chan s2) = Some (sub3, ch3)"
    unfolding tk2 s2 s1 by (simp add: steps)
  note r3 = run_next [OF r2 t2 n3]
  have "\<exists>sub4 ch4. sub_next 0 sub3 ch3 = Some (sub4, ch4) \<and> sub_ended sub4"
    using n3 unfolding tk2 s2 s1 by (auto simp: steps)
  then obtain sub4 ch4 where n4: "sub_next 0 sub3 ch3 = Some (sub4, ch4)" and ended: "sub_ended sub4" by blast
  let ?s3 = "s2\<lparr>sys_chan := ch3, sys_subs := (sys_subs s2)(0 \<mapsto> tk2\<lparr>tk_sub := sub3\<rparr>)\<rparr>"
  obtain s4 where s4_def: "s4 = ?s3\<lparr>sys_chan := ch4, sys_subs := (sys_subs ?s3)(0 \<mapsto> tk2\<lparr>tk_sub := sub3, tk_sub := sub4\<rparr>)\<rparr>" by blast
  have "channel_run 10 s4"
    unfolding s4_def by (rule run_next [OF r3]) (use n4 in simp_all)
  moreover have "sys_subs s4 0 = Some (tk2\<lparr>tk_sub := sub4\<rparr>)" "sys_hist s4 = sys_hist s2"
    "sys_closed s4 = sys_closed s2"
    by (simp_all add: s4_def)
  moreover have "sys_hist s2 = [event1]" "sys_closed s2 = Some 1"
    unfolding s2 s1 by (simp_all add: steps)
  moreover have "tk_from tk2 = Some 0" "tk_at tk2 = 0" "tk_resumable tk2" "\<not> tk_cancelled tk2"
    unfolding tk2 by (simp_all add: steps)
  ultimately show ?thesis using ended by (intro exI [of _ s4] exI [of _ "tk2\<lparr>tk_sub := sub4\<rparr>"]) simp
qed


theorem buffer_holds_latest_events_witness:
  "\<exists>s :: nat stream_sys. sys_hist s = [event1] \<and> buffer (sys_chan s) = [event1] \<and> latest_seq (sys_chan s) = 1"
proof -
  obtain s :: "nat stream_sys" where "channel_run 10 s" and s: "sys_hist s = [event1]" using sample_run by blast
  from buffer_holds_latest_events [OF this(1)] s have "buffer (sys_chan s) = [event1] \<and> latest_seq (sys_chan s) = 1"
    by simp
  with s show ?thesis by blast
qed

theorem can_resume_iff_replay_complete_witness:
  "\<exists>s :: nat stream_sys. can_resume (Some 0) (sys_chan s) \<and> replay (Some 0) (sys_chan s) = [event1]"
proof -
  obtain s :: "nat stream_sys" where run: "channel_run 10 s" and s: "sys_hist s = [event1]"
    using sample_run by blast
  have "buffer (sys_chan s) = [event1]"
    using channel_run_buffer [OF run] s by (simp add: buffer_inv_def)
  then have "can_resume (Some 0) (sys_chan s)"
    by (simp add: can_resume_def oldest_buffered_seq_def event1_def)
  with can_resume_iff_replay_complete [OF run, of 0] s show ?thesis
    by (intro exI [of _ s]) (simp add: event1_def)
qed

text \<open>
  A client that goes away while it is being replayed leaves its queue behind: the generator enters
  the \<open>try\<close> block that removes the queue only after the replay, so closing it earlier leaves the queue
  registered, and it keeps collecting every event published afterwards.
\<close>
theorem abandoned_replay_leaks_queue:
  "let ch0 = snd (publish (7 :: nat) False (new_channel 10));
       (sub1, ch1) = subscribe 0 None ch0;
       (sub2, ch2) = the (sub_next 0 sub1 ch1);
       (sub3, ch3) = sub_cancel 0 sub2 ch2;
       (e, ch4) = publish 8 False ch3
   in sub_out sub2 = [\<lparr>event_seq = 1, payload = 7, is_terminal = False\<rparr>]
    \<and> sub_ended sub3 \<and> queues ch4 = [(0, [Some e])]"
  by (simp add: publish_def new_channel_def subscribe_def sub_next_def sub_cancel_def deque_append_def
      put_all_def replay_def Let_def)

end
