(* ===== verification/Spec2Isabelle.thy ===== *)
theory Spec2Isabelle
  imports AcmeFaults HbExport HbRelayPosition HbReconcilerProps HbRelayRecovery HbSync AliveResync AliveEnrich AicProps MqAclSafety MqAuthzProps MqGroupsProps AipPeerCert AipRpcSafety AipStreamHttp AipStreamDelivery AliveSafety
begin

text \<open>
  A verification development for the ACPs community repository: the agent identity code, the certificate
  authority of agents, the agent interaction protocol (AIP) of the SDK, the group authorization of the message queue, and the
  synchronisation of the set of alive agents.

  The parts and how they interact. An agent has an identity code (AIC). The registry gives its owner a one-time
  credential, with which the owner opens an account at the certificate authority over ACME, bound to the AIC, and gets
  certificates that name it. The agent calls another agent over mutual
  TLS: the AIP server compares the sender of a command with the AIC of the certificate, runs the command on its task
  store, and streams events of the task. Groups of agents talk over RabbitMQ, which asks the
  mq-auth-server whether a user may use an exchange, a queue or a routing key; the leader of a group manages its
  members over the same server. The monitor takes the heartbeats of agents, keeps a log of the agents that become
  alive or leave in Redis, relays it to Kafka and exports snapshots; the discovery server takes a snapshot and follows
  the log.

  Theories, each with the files under \<open>src\<close> it models:
    \<open>Prelude\<close>: Python strings and values, results (\<open>Inl\<close> an exception, \<open>Inr\<close> a value), association lists.
    \<open>AicInterface\<close>, \<open>Base36\<close>, \<open>Crc16\<close>, \<open>Aic\<close>, \<open>AicProps\<close>: \<open>acps-sdk/acps_sdk/aic/__init__.py\<close>. The locale
      \<open>aic_format\<close> is what clients of an AIC format rely on; the SDK and the mq-auth-server both provide it.
    \<open>Base64\<close>, \<open>AcmeJwk\<close>, \<open>AcmeJwkProps\<close>, \<open>AcmeJws\<close>, \<open>CaSign\<close>: from \<open>ca-server/app\<close> the files \<open>acme/jwk.py\<close>,
      \<open>acme/jws_verifier.py\<close>, the parsers of \<open>acme/utils.py\<close>, \<open>AgentInfo\<close> of \<open>acme/registry_client.py\<close> and the signing part of
      \<open>core/ca_manager.py\<close>. What the cryptography library computes is a record of functions.
    \<open>AcmeModel\<close>, \<open>AcmeService\<close>, \<open>AcmeCerts\<close>, \<open>AcmeApi\<close>: \<open>acme/model.py\<close>, \<open>acme/service.py\<close>, \<open>acme/eab_verifier.py\<close>, \<open>acme/api.py\<close>,
      the client of the registry, \<open>registry-server/app/eab\<close>. A handler is an operation on the tables that may raise; the
      session commits or is rolled back, while the registry, another server, keeps what it has stored.
    \<open>AcmeRules\<close>, \<open>AcmeSteps\<close>, \<open>AcmePost\<close>, \<open>AcmeBinding\<close>, \<open>AcmeHandlers\<close>, \<open>AcmeServer\<close>, \<open>AcmeInvariants\<close>, \<open>AcmeSafety\<close>, \<open>AcmeExample\<close>,
      \<open>AcmeFaults\<close>: the abstract certificate authority is the step relation \<open>ca_step\<close>; every operation has a rule that says what
      holds after it returns; the handlers are shown to make steps only, the invariants are shown of the steps. A run from the credential
      to the revoked certificate is evaluated.
    \<open>MqValidation\<close>, \<open>MqAcl\<close>, \<open>MqAclProps\<close>, \<open>MqRedis\<close>, \<open>MqAclSafety\<close>: \<open>mq-auth-server/app/core/validation.py\<close>,
      \<open>services/group_acl.py\<close>, \<open>services/rabbitmq_mgmt.py\<close>. The Redis server is behind the locale
      \<open>redis_server\<close>, whose store satisfies \<open>group_acl_store\<close>; any call may fail.
    \<open>MqAuthz\<close>, \<open>MqAuthzProps\<close>: \<open>services/authz.py\<close> and \<open>api/auth.py\<close>; policies are stated apart and proved equal.
    \<open>PeerRegistry\<close>, \<open>MqGroupsApi\<close>, \<open>MqGroupsProps\<close>: \<open>core/peer_cert.py\<close>, \<open>api/groups.py\<close>, \<open>api/group_problem.py\<close>. The
      locale \<open>peer_registry\<close> is provided by the server's registry and by the SDK's.
    \<open>AipIdentity\<close>, \<open>AipPeerCert\<close>: \<open>aip/aip_identity.py\<close>, \<open>aip/aip_peer_cert.py\<close>.
    \<open>AipTask\<close>, \<open>AipRpc\<close>, \<open>AipRpcProps\<close>, \<open>AipRpcSafety\<close>: \<open>aip/aip_base_model.py\<close>, \<open>aip/aip_rpc_model.py\<close>,
      \<open>aip/aip_rpc_server.py\<close>, \<open>aip/access_status.py\<close>. The request handler refines a state machine of task states.
    \<open>AipStream\<close>, \<open>AipStreamProps\<close>, \<open>AipStreamDelivery\<close>, \<open>AipStreamHttp\<close>: \<open>aip/aip_stream_server.py\<close> and its model.
      A coroutine that waits is cut at its \<open>await\<close>: every step of a subscriber is one transition.
    \<open>HeartbeatCodec\<close>, \<open>AliveEngine\<close>, \<open>AliveStore\<close>, \<open>AliveConverge\<close>, \<open>AliveSafety\<close>: \<open>amp/heartbeat_sync.py\<close>,
      \<open>amp/alive_sync\<close>, \<open>discovery-server/app/heartbeat_sync/store.py\<close>. The store protocol is the locale
      \<open>alive_store\<close>, provided by the Postgres store with failing transactions.
    \<open>AliveWire\<close>, \<open>AliveService\<close>, \<open>AliveServiceProps\<close>, \<open>AliveResync\<close>, \<open>AliveEnrich\<close>: the JSON messages and \<open>alive_sync/snapshot.py\<close>,
      and from \<open>discovery-server/app/heartbeat_sync\<close> the HTTP client, the Kafka consumer, the service with its main
      loop, the route of the administrator and the status that discovery answers carry. The provider, Kafka and the database are
      arguments that answer anything or fail; the main loop is shown for every number of rounds.

    \<open>HbSharding\<close>, \<open>HbRedis\<close>, \<open>HbProvider\<close>, \<open>HbSnapshot\<close>, \<open>HbExport\<close>: \<open>monitor-server/app/heartbeat\<close>, the files
      \<open>sharding.py\<close>, \<open>functions.py\<close> with \<open>lua/hb_functions.lua\<close>, the envelope of \<open>relay.py\<close>, \<open>snapshot.py\<close> and the reads
      of \<open>store.py\<close>. \<open>HbSync\<close> has \<open>sync_service.py\<close> and reads its replies with the client of the other side. \<open>HbProvider\<close> interleaves atomic calls; \<open>HbExport\<close> shows that an export spread over time is
      a snapshot in the sense of \<open>AliveConverge\<close>, and this theory puts both ends together.
    \<open>HbCalls\<close>, \<open>HbRelay\<close>, \<open>HbRelaySafety\<close>, \<open>HbRelayPosition\<close>, \<open>HbRelayRecovery\<close>, \<open>HbReconciler\<close>, \<open>HbReconcilerProps\<close>: the background tasks
      \<open>relay.py\<close> and \<open>reconciler.py\<close>, as sequences of atomic calls; before each call the others act, and each call may
      fail. The locale \<open>rely_guarantee\<close> has a rule for each way to combine calls; it is interpreted with the invariants
      of the relay and of the reconciler.

  Conventions. Exceptions are values; a clock and random identifiers are an argument of the operations that read
  them (\<open>environment\<close>); a remote call that may fail takes the next element of a schedule of faults or an argument that
  says what it answers. Python integers are \<open>int\<close>; the CRC is a 16-bit word. Loops of the source are recursive
  functions that terminate. Two loops of the relay need not end: \<open>recover_pel\<close> and \<open>publish_loop\<close> have a number of rounds,
  and what is shown of them holds for every number, so of every prefix of a run. The only other bound is the number of pages of an export, which stands for the time limit the
  code has: a budget that runs out is the timeout, and the results that need the whole set assume it did not.

  The requests of the certificate authority are handled one after another: two sessions that overlap in the database are
  not modelled, so what is said of nonces and credentials there is about requests in sequence. The number of attempts
  of its client at the registry is the configured one; every link may lose the request or the reply.

  Not modelled: transports and event loops, the language-model calls of the discovery server and the demos,
  third-party cryptography, the command line client, and, so far, the management interface of the certificate authority with its
  revocation lists, the registry but for its credentials, the message and metrics queries of the monitor, and the group and
  notification parts of the SDK.
\<close>

section \<open>From the heartbeats to the discovery server\<close>

text \<open>One heartbeat, seen by an export that reads the positions before it and the rows after it.\<close>

definition sample_env0 :: hb_env where
  "sample_env0 = \<lparr>env_sha256 = (\<lambda>_. []), env_iso = (\<lambda>_. ''t''),
     env_settings = \<lparr>set_shard_count = 1, set_silence_s = 90, set_evict_s = 3600, set_refresh_s = 30, set_outbox_max_len = 0\<rparr>\<rparr>"

definition sample_beat :: hb_event where
  "sample_beat = HbApply \<lparr>rm_now = 1000, rm_drop = 0\<rparr> sample_agent 1000 None"

definition sample_run :: "nat \<Rightarrow> hb_redis \<times> hb_histories" where
  "sample_run i = (if i = 0 then hb_start else
     (hb_exec sample_env0 sample_beat (fst hb_start),
      \<lambda>k. snd hb_start k @ emitted (fst hb_start k) (hb_exec sample_env0 sample_beat (fst hb_start) k)))"

definition sample_ss :: snapshot_settings where
  "sample_ss = \<lparr>ss_chunk_size = 10, ss_silence_ms = 90000, ss_share_window_ms = 5000\<rparr>"

definition sample_snap :: materialized where
  "sample_snap = fst (materialize (\<lambda>_. ''t'') sample_ss 5 (seen_by sample_run id) (all_shard_ids 1) 1500)"

definition sample_end :: nat where
  "sample_end = fst (snd (materialize (\<lambda>_. ''t'') sample_ss 5 (seen_by sample_run id) (all_shard_ids 1) 1500))"

definition sample_started :: "engine \<times> pg_store" where
  "sample_started = (case apply_snapshot pg_ops (mz_meta sample_snap) (mz_envelopes sample_snap, None) new_engine empty_pg of
      (Inr e, st) \<Rightarrow> (e, st) | (Inl _, st) \<Rightarrow> (new_engine, st))"

lemma sample_timeline: "hb_timeline sample_env0 sample_run"
proof -
  have "hb_step sample_env0 (sample_run 0) (sample_run (Suc 0))"
    using hb_stepI [of sample_beat "fst hb_start" sample_env0 "snd hb_start"] by (simp add: sample_run_def sample_beat_def)
  moreover have "sample_run (Suc (Suc i)) = sample_run (Suc i)" for i by (simp add: sample_run_def)
  ultimately have "sample_run (Suc i) = sample_run i \<or> hb_step sample_env0 (sample_run i) (sample_run (Suc i))" for i
    by (cases i) simp_all
  then show ?thesis by (simp add: hb_timeline_def sample_run_def)
qed

text \<open>
  C1: The pipeline converges. Let writers, reconcilers and relays act on the heartbeat state of the monitor in
  any interleaving, and let an export run among them, its commands spread over time, and finish. Let a
  discovery server take the snapshot and then get any events of the log, repeated, out of order, with failing
  transactions and restarts. Then, wherever it has caught up with a shard, an agent is stored alive exactly if
  the log of the monitor says so at that position; and at the end of the log, exactly if the monitor itself has it
  alive. (An agent that was silent while its shard was read may be omitted, until the next event about it.)
\<close>
theorem exported_set_converges:
  assumes "hb_timeline E run" and "mono tm" and "0 < ss_chunk_size settings" and "0 < set_shard_count (env_settings E)"
    and "materialize iso_fmt settings b (seen_by run tm) (all_shard_ids (set_shard_count (env_settings E))) now_ms = (snap, t', True)"
    and "tm t' \<le> fin" and "pg_ok st"
    and "apply_snapshot pg_ops (mz_meta snap) (mz_envelopes snap, stop) e st = (Inr e1, st1)"
    and "follow pg_ops (log_at fmt run fin) evs e1 st1 = Some (e2, st2)"
    and "caught_up (log_at fmt run fin) (home_of E) (\<lambda>k. length (log_at fmt run (tm t') k))
      (\<lambda>a. silent_while run (now_ms - ss_silence_ms settings) (home_of E a) (tm t') a) e2 a"
  shows "stored_alive (pg_rows st2) a = alive_at a (log_at fmt run fin (home_of E a)) (nat (seen_or_zero e2 (home_of E a)))
    \<and> (seen_or_zero e2 (home_of E a) = int (length (log_at fmt run fin (home_of E a)))
       \<longrightarrow> stored_alive (pg_rows st2) a = (alive_score (fst (run fin)) (home_of E a) a \<noteq> None))"
proof -
  have snap: "snapshot_of (log_at fmt run fin) (home_of E) (\<lambda>k. length (log_at fmt run (tm t') k))
      (\<lambda>a. silent_while run (now_ms - ss_silence_ms settings) (home_of E a) (tm t') a) (mz_meta snap) (mz_envelopes snap)"
    by (rule export_is_snapshot [OF assms(1-5) applied_snapshot_distinct [OF assms(7,8)] assms(6)])
  have "stored_alive (pg_rows st2) a = alive_at a (log_at fmt run fin (home_of E a)) (nat (seen_or_zero e2 (home_of E a)))"
    using pg.converges [OF timeline_log_ok [OF assms(1)] assms(7) snap assms(8,9), of a] assms(10) by blast
  moreover have "(alive_score (fst (run fin)) (home_of E a) a \<noteq> None)
      = alive_at a (log_at fmt run fin (home_of E a)) (length (log_at fmt run fin (home_of E a)))"
    by (rule score_shows_log [OF assms(1)])
  ultimately show ?thesis by simp
qed

theorem exported_set_converges_witness:
  "\<exists>e2 st2. follow pg_ops (log_at (\<lambda>_. ''t'') sample_run sample_end) [Deliver ''hb-000'' 0 (Some 1)]
       (fst sample_started) (snd sample_started) = Some (e2, st2) \<and> stored_alive (pg_rows st2) sample_agent"
proof -
  let ?lg = "log_at (\<lambda>_. ''t'') sample_run sample_end"
  have "snd (snd (materialize (\<lambda>_. ''t'') sample_ss 5 (seen_by sample_run id) (all_shard_ids 1) 1500))" by code_simp
  then have ex: "materialize (\<lambda>_. ''t'') sample_ss 5 (seen_by sample_run id)
      (all_shard_ids (set_shard_count (env_settings sample_env0))) 1500 = (sample_snap, sample_end, True)"
    unfolding sample_snap_def sample_end_def by (simp add: sample_env0_def prod_eq_iff)
  obtain ap where ap: "ap = apply_snapshot pg_ops (mz_meta sample_snap) (mz_envelopes sample_snap, None) new_engine empty_pg" by blast
  have "is_ok (fst (apply_snapshot pg_ops (mz_meta sample_snap) (mz_envelopes sample_snap, None) new_engine empty_pg))"
    by code_simp
  then obtain e st where "ap = (Inr e, st)" unfolding ap [symmetric] by (cases ap) (auto simp: is_ok_iff)
  then have run: "apply_snapshot pg_ops (mz_meta sample_snap) (mz_envelopes sample_snap, None) new_engine empty_pg
      = (Inr (fst sample_started), snd sample_started)"
    unfolding sample_started_def ap [symmetric] by simp
  have "case follow pg_ops ?lg [Deliver ''hb-000'' 0 (Some 1)] (fst sample_started) (snd sample_started) of
      None \<Rightarrow> False | Some (e2, st2) \<Rightarrow> seen_or_zero e2 ''hb-000'' = 1"
    by code_simp
  then obtain e2 st2 where f: "follow pg_ops ?lg [Deliver ''hb-000'' 0 (Some 1)] (fst sample_started) (snd sample_started) = Some (e2, st2)"
    and seen: "seen_or_zero e2 ''hb-000'' = 1"
    by (auto split: option.splits)
  have home: "home_of sample_env0 sample_agent = ''hb-000''" by code_simp
  have ok: "pg_ok empty_pg" by (simp add: pg_ok_def empty_pg_def)
  have len: "length (log_at (\<lambda>_. ''t'') sample_run (id sample_end) ''hb-000'') = Suc 0" by code_simp
  have score: "alive_score (fst (sample_run (Suc i))) ''hb-000'' sample_agent = Some 1000" for i
  proof -
    have "alive_score (fst (sample_run 1)) ''hb-000'' sample_agent = Some 1000" by code_simp
    then show ?thesis by (simp add: sample_run_def)
  qed
  have start: "alive_score (fst (sample_run 0)) ''hb-000'' sample_agent = None" by code_simp
  have "\<not> silent_while sample_run (1500 - ss_silence_ms sample_ss) ''hb-000'' hi sample_agent" for hi
  proof
    assume "silent_while sample_run (1500 - ss_silence_ms sample_ss) ''hb-000'' hi sample_agent"
    then obtain u s where us: "alive_score (fst (sample_run u)) ''hb-000'' sample_agent = Some s" "s < 1500 - 90000"
      by (auto simp: silent_while_def sample_ss_def)
    show False
    proof (cases u)
      case 0
      with us(1) start show ?thesis by simp
    next
      case (Suc i)
      with us score [of i] show ?thesis by simp
    qed
  qed
  then have up: "caught_up ?lg (home_of sample_env0) (\<lambda>k. length (log_at (\<lambda>_. ''t'') sample_run (id sample_end) k))
      (\<lambda>a. silent_while sample_run (1500 - ss_silence_ms sample_ss) (home_of sample_env0 a) (id sample_end) a) e2 sample_agent"
    using seen len by (simp add: caught_up_def home)
  have "alive_at sample_agent (?lg ''hb-000'') (Suc 0)" by code_simp
  then have "stored_alive (pg_rows st2) sample_agent"
    using exported_set_converges [OF sample_timeline _ _ _ ex _ ok run f up] seen home
    by (simp add: mono_def sample_ss_def sample_env0_def)
  with f show ?thesis by blast
qed

end
